(* ===== verification/JsNumber.thy ===== *)
theory JsNumber
  imports Complex_Main "HOL-Library.Log_Nat"
begin

text \<open>
  JavaScript numbers. Counts, millisecond instants and other integers of the source are
  \<open>int\<close> in this development (they stay far below 2 to the 53). Where the source computes with
  fractions, its results go through IEEE 754 double rounding, and the model does the same:
  \<open>fl\<close> rounds an exact rational to the nearest double (ties to even, subnormals included;
  overflow to Infinity is not modelled). Each arithmetic operation of the source on fractions
  is one exact rational operation followed by one \<open>fl\<close>.
  The lemmas the components use: \<open>fl\<close> is monotone, and exact on integers up to 2 to the 53,
  so it never crosses an integer.
\<close>

section \<open>Rounding a rational to an integer, ties to even\<close>

definition half_even :: "rat \<Rightarrow> int" where
  "half_even x =
     (let f = \<lfloor>x\<rfloor>; d = x - of_int f
      in if d < 1/2 then f else if 1/2 < d then f + 1 else if even f then f else f + 1)"

lemma half_even_of_int [simp]: "half_even (of_int n) = n"
  by (simp add: half_even_def)

lemma half_even_bounds: "\<lfloor>x\<rfloor> \<le> half_even x \<and> half_even x \<le> \<lfloor>x\<rfloor> + 1"
  by (simp add: half_even_def Let_def)

lemma half_even_mono: "x \<le> y \<Longrightarrow> half_even x \<le> half_even y"
proof -
  assume le: "x \<le> y"
  then have fl: "\<lfloor>x\<rfloor> \<le> \<lfloor>y\<rfloor>" by (rule floor_mono)
  show ?thesis
  proof (cases "\<lfloor>x\<rfloor> = \<lfloor>y\<rfloor>")
    case True
    with le show ?thesis by (auto simp: half_even_def Let_def)
  next
    case False
    with fl half_even_bounds[of x] half_even_bounds[of y] show ?thesis by linarith
  qed
qed

section \<open>The binary exponent of a positive rational\<close>

definition bin_exp :: "rat \<Rightarrow> int" where
  "bin_exp x =
     (let (p, q) = quotient_of x; k = bitlen p - bitlen q
      in if x < 2 powi k then k - 53 else k - 52)"

lemma powi_bitlen_bounds:
  assumes "0 < p"
  shows "(2::rat) powi (bitlen p - 1) \<le> of_int p" and "of_int p < (2::rat) powi bitlen p"
proof -
  have b: "2 ^ nat (bitlen p - 1) \<le> p" "p < 2 ^ nat (bitlen p)"
    using bitlen_bounds[OF assms] by simp_all
  have "1 \<le> bitlen p"
    using assms by (metis bitlen_def add_increasing2 bitlen_nonneg bitlen_eq_zero_iff int_one_le_iff_zero_less linorder_not_less order_le_less)
  then have e: "(2::rat) powi (bitlen p - 1) = of_int (2 ^ nat (bitlen p - 1))"
    "(2::rat) powi bitlen p = of_int (2 ^ nat (bitlen p))"
    by (simp_all add: power_int_def)
  show "(2::rat) powi (bitlen p - 1) \<le> of_int p" unfolding e using b(1) by (simp only: of_int_le_iff)
  show "of_int p < (2::rat) powi bitlen p" unfolding e using b(2) by (simp only: of_int_less_iff)
qed

lemma powi2_split: "(2::rat) powi (a + b) = 2 powi a * 2 powi b"
  by (simp add: power_int_add)

lemma powi2_pos [simp]: "0 < (2::rat) powi a"
  by simp

lemma powi2_52: "(2::rat) powi 52 = 2 ^ 52" and powi2_53: "(2::rat) powi 53 = 2 ^ 53"
  by (simp_all add: power_int_def)

lemma bin_exp_spec:
  assumes "0 < x"
  shows "2 ^ 52 * 2 powi bin_exp x \<le> x" and "x < 2 ^ 53 * 2 powi bin_exp x"
proof -
  obtain p q where pq: "quotient_of x = (p, q)" by fastforce
  have q: "0 < q" using quotient_of_denom_pos[OF pq] .
  have x: "x = of_int p / of_int q" using quotient_of_div[OF pq] .
  have p: "0 < p" using assms q unfolding x by (simp add: zero_less_divide_iff)
  define k where "k = bitlen p - bitlen q"
  note bp = powi_bitlen_bounds[OF p] and bq = powi_bitlen_bounds[OF q]
  have q0: "0 < (of_int q :: rat)" using q by simp
  have xq: "x * of_int q = of_int p" using q0 unfolding x by simp
  have lo: "2 powi (k - 1) \<le> x"
  proof -
    have "2 powi (k - 1) * (of_int q :: rat) \<le> 2 powi (k - 1) * 2 powi bitlen q"
      using bq(2) by (intro mult_left_mono) simp_all
    also have "\<dots> = 2 powi (bitlen p - 1)" by (simp add: k_def flip: powi2_split)
    also have "\<dots> \<le> x * of_int q" using bp(1) xq by simp
    finally show ?thesis using q0 by (simp only: mult_le_cancel_right_pos)
  qed
  have hi: "x < 2 powi (k + 1)"
  proof -
    have "x * of_int q < 2 powi bitlen p" using bp(2) xq by simp
    also have "\<dots> = 2 powi (k + 1) * 2 powi (bitlen q - 1)" by (simp add: k_def flip: powi2_split)
    also have "\<dots> \<le> 2 powi (k + 1) * of_int q" using bq(1) by (intro mult_left_mono) simp_all
    finally show ?thesis using q0 by (simp only: mult_less_cancel_right_pos)
  qed
  have e: "bin_exp x = (if x < 2 powi k then k - 53 else k - 52)"
    by (simp add: bin_exp_def pq k_def)
  have s: "2 ^ 52 * 2 powi (k - 53) = (2::rat) powi (k - 1)" "2 ^ 53 * 2 powi (k - 53) = (2::rat) powi k"
    "2 ^ 52 * 2 powi (k - 52) = (2::rat) powi k" "2 ^ 53 * 2 powi (k - 52) = (2::rat) powi (k + 1)"
    by (simp_all only: powi2_52[symmetric] powi2_53[symmetric] powi2_split[symmetric]) (simp_all add: algebra_simps)
  show "2 ^ 52 * 2 powi bin_exp x \<le> x" using lo e s by (auto split: if_splits)
  show "x < 2 ^ 53 * 2 powi bin_exp x" using hi e s by (auto split: if_splits)
qed

lemma powi2_le_iff: "(2::rat) powi a \<le> 2 powi b \<longleftrightarrow> a \<le> b"
  by (metis power_int_strict_increasing power_int_increasing one_less_numeral_iff semiring_norm(76)
      less_imp_le linorder_not_le)

lemma bin_exp_mono: "0 < x \<Longrightarrow> x \<le> y \<Longrightarrow> bin_exp x \<le> bin_exp y"
proof (rule ccontr)
  assume x: "0 < x" and le: "x \<le> y" and "\<not> bin_exp x \<le> bin_exp y"
  then have "bin_exp y + 1 \<le> bin_exp x" by simp
  then have "2 powi (bin_exp y + 1) \<le> (2::rat) powi bin_exp x" by (simp only: powi2_le_iff)
  then have "2 ^ 53 * (2::rat) powi bin_exp y \<le> 2 ^ 52 * 2 powi bin_exp x"
    by (simp add: powi2_split)
  with bin_exp_spec[OF x] bin_exp_spec[of y] x le show False by simp
qed

section \<open>Nearest double\<close>

definition dbl_exp :: "rat \<Rightarrow> int" where
  "dbl_exp x = max (-1074) (bin_exp x)"

definition fl_pos :: "rat \<Rightarrow> rat" where
  "fl_pos x = of_int (half_even (x / 2 powi dbl_exp x)) * 2 powi dbl_exp x"

definition fl :: "rat \<Rightarrow> rat" where
  "fl x = (if x = 0 then 0 else if 0 < x then fl_pos x else - fl_pos (- x))"

lemma fl_0 [simp]: "fl 0 = 0"
  by (simp add: fl_def)

lemma fl_minus: "fl (- x) = - fl x"
  by (simp add: fl_def)

lemma dbl_exp_hi: "0 < x \<Longrightarrow> x < 2 ^ 53 * 2 powi dbl_exp x"
proof -
  assume x: "0 < x"
  have "x < 2 ^ 53 * 2 powi bin_exp x" by (rule bin_exp_spec(2)[OF x])
  also have "\<dots> \<le> 2 ^ 53 * 2 powi dbl_exp x"
    by (rule mult_left_mono) (simp_all add: powi2_le_iff dbl_exp_def)
  finally show ?thesis .
qed

lemma half_even_le: "x \<le> of_int n \<Longrightarrow> half_even x \<le> n"
  using half_even_mono[of x "of_int n"] by simp

lemma half_even_ge: "of_int n \<le> x \<Longrightarrow> n \<le> half_even x"
  using half_even_mono[of "of_int n" x] by simp

lemma fl_pos_nonneg: "0 < x \<Longrightarrow> 0 \<le> fl_pos x"
  using half_even_ge[of 0 "x / 2 powi dbl_exp x"] by (simp add: fl_pos_def)

lemma fl_pos_mono:
  assumes x: "0 < x" and le: "x \<le> y"
  shows "fl_pos x \<le> fl_pos y"
proof (cases "dbl_exp x = dbl_exp y")
  case True
  have "x / 2 powi dbl_exp x \<le> y / 2 powi dbl_exp x" using le by (simp add: divide_right_mono)
  then have "half_even (x / 2 powi dbl_exp x) \<le> half_even (y / 2 powi dbl_exp x)" by (rule half_even_mono)
  then show ?thesis unfolding fl_pos_def True[symmetric] by (intro mult_right_mono) simp_all
next
  case False
  with bin_exp_mono[OF x le] have lt: "dbl_exp x + 1 \<le> dbl_exp y" and e: "dbl_exp y = bin_exp y"
    by (auto simp: dbl_exp_def)
  have "half_even (x / 2 powi dbl_exp x) \<le> 2 ^ 53"
    using dbl_exp_hi[OF x] by (intro half_even_le) (simp add: divide_le_eq)
  then have "(of_int (half_even (x / 2 powi dbl_exp x)) :: rat) \<le> of_int (2 ^ 53)"
    by (simp only: of_int_le_iff)
  then have "fl_pos x \<le> 2 ^ 53 * 2 powi dbl_exp x" unfolding fl_pos_def by (intro mult_right_mono) simp_all
  also have "\<dots> = 2 ^ 52 * 2 powi (dbl_exp x + 1)" by (simp add: powi2_split)
  also have "\<dots> \<le> 2 ^ 52 * 2 powi dbl_exp y"
    using lt by (intro mult_left_mono) (simp_all only: powi2_le_iff, simp)
  also have "\<dots> \<le> fl_pos y"
  proof -
    have "2 ^ 52 * 2 powi dbl_exp y \<le> y" using bin_exp_spec(1)[of y] x le e by simp
    then have "2 ^ 52 \<le> half_even (y / 2 powi dbl_exp y)" by (intro half_even_ge) (simp add: le_divide_eq)
    then have "(of_int (2 ^ 52) :: rat) \<le> of_int (half_even (y / 2 powi dbl_exp y))" by (simp only: of_int_le_iff)
    then show ?thesis unfolding fl_pos_def by (intro mult_right_mono) simp_all
  qed
  finally show ?thesis .
qed

theorem fl_mono: "x \<le> y \<Longrightarrow> fl x \<le> fl y"
proof -
  assume le: "x \<le> y"
  consider "0 < x" | "x \<le> 0" "0 \<le> y" | "y < 0" by linarith
  then show ?thesis
  proof cases
    case 1
    with le fl_pos_mono[OF 1 le] show ?thesis by (simp add: fl_def)
  next
    case 2
    with fl_pos_nonneg[of y] fl_pos_nonneg[of "- x"] show ?thesis by (auto simp: fl_def)
  next
    case 3
    with le fl_pos_mono[of "- y" "- x"] show ?thesis by (simp add: fl_def)
  qed
qed

lemma fl_pos_exact:
  assumes "0 < n" and "n \<le> 2 ^ 53"
  shows "fl_pos (of_int n) = of_int n"
proof -
  let ?x = "of_int n :: rat" and ?e = "dbl_exp (of_int n)"
  have x: "0 < ?x" using assms by simp
  have "\<exists>m. ?x / 2 powi ?e = of_int m"
  proof (cases "0 < ?e")
    case False
    then have "?x / 2 powi ?e = ?x * 2 ^ nat (- ?e)" by (auto simp: power_int_def power_one_over)
    also have "\<dots> = of_int (n * 2 ^ nat (- ?e))" by simp
    finally show ?thesis ..
  next
    case True
    then have e: "?e = bin_exp ?x" and "1 \<le> bin_exp ?x" by (auto simp: dbl_exp_def)
    then have "(2::rat) powi 1 \<le> 2 powi bin_exp ?x" by (simp only: powi2_le_iff)
    then have "2 ^ 53 \<le> 2 ^ 52 * (2::rat) powi bin_exp ?x" by simp
    with bin_exp_spec(1)[OF x] have "2 ^ 53 \<le> ?x" by linarith
    with assms(2) have n: "n = 2 ^ 53"
      by (metis of_int_le_iff of_int_numeral of_int_power order_antisym)
    have "2 ^ 52 * (2::rat) powi bin_exp ?x \<le> 2 ^ 53" using bin_exp_spec(1)[OF x] unfolding n by simp
    then have "(2::rat) powi bin_exp ?x \<le> 2 powi 1" by simp
    then have "bin_exp ?x \<le> 1" by (simp only: powi2_le_iff)
    with \<open>1 \<le> bin_exp ?x\<close> have "?e = 1" using e by simp
    then have "?x / 2 powi ?e = of_int (2 ^ 52)" unfolding n by simp
    then show ?thesis ..
  qed
  then obtain m where m: "?x / 2 powi ?e = of_int m" ..
  then have "fl_pos ?x = ?x / 2 powi ?e * 2 powi ?e" by (simp add: fl_pos_def)
  then show ?thesis by simp
qed

theorem fl_of_int: "\<bar>n\<bar> \<le> 2 ^ 53 \<Longrightarrow> fl (of_int n) = of_int n"
  using fl_pos_exact[of n] fl_pos_exact[of "- n"] by (auto simp: fl_def)

lemma fl_le_int: "x \<le> of_int n \<Longrightarrow> \<bar>n\<bar> \<le> 2 ^ 53 \<Longrightarrow> fl x \<le> of_int n"
  using fl_mono[of x "of_int n"] fl_of_int[of n] by simp

lemma fl_ge_int: "of_int n \<le> x \<Longrightarrow> \<bar>n\<bar> \<le> 2 ^ 53 \<Longrightarrow> of_int n \<le> fl x"
  using fl_mono[of "of_int n" x] fl_of_int[of n] by simp

lemma fl_nonneg: "0 \<le> x \<Longrightarrow> 0 \<le> fl x"
  using fl_ge_int[of 0 x] by simp

section \<open>The arithmetic operators and the Math functions of the source\<close>

definition dadd :: "rat \<Rightarrow> rat \<Rightarrow> rat" where "dadd a b = fl (a + b)"
definition dsub :: "rat \<Rightarrow> rat \<Rightarrow> rat" where "dsub a b = fl (a - b)"
definition dmul :: "rat \<Rightarrow> rat \<Rightarrow> rat" where "dmul a b = fl (a * b)"
definition ddiv :: "rat \<Rightarrow> rat \<Rightarrow> rat" where "ddiv a b = fl (a / b)"

text \<open>\<open>Math.round\<close> rounds half up: it is the floor of \<open>x + 1/2\<close> taken exactly.\<close>

definition math_round :: "rat \<Rightarrow> int" where
  "math_round x = \<lfloor>x + 1/2\<rfloor>"

lemma math_round_mono: "x \<le> y \<Longrightarrow> math_round x \<le> math_round y"
  by (simp add: math_round_def floor_mono)

lemma math_round_of_int [simp]: "math_round (of_int n) = n"
  by (simp add: math_round_def floor_eq_iff)

lemma floor_le_of_int: "x \<le> of_int n \<Longrightarrow> \<lfloor>x\<rfloor> \<le> n"
  using floor_mono[of x "of_int n"] by simp

lemmas js_arith = dadd_def dsub_def dmul_def ddiv_def

end
