(* ===== verification/Prelude.thy ===== *)
theory Prelude
  imports JsNumber "HOL-Library.Multiset"
begin

text \<open>
  What the components share: results that carry a thrown error, JavaScript \<open>Date\<close> values,
  strings and their decimal rendering, stable sorting, and first-match search. A thrown error
  is an \<open>Inl\<close>; the order in which the source would throw is kept by \<open>rbind\<close> and
  \<open>rmap_list\<close>, which stop at the first error as an exception does.
  Strings are lists of characters; the source's strings are ASCII wherever it tests or rewrites
  their characters, and case conversion and trimming are modelled on ASCII (with the no-break
  space that \<open>String.trim\<close> also removes).
\<close>

named_theorems res_simps \<open>rules of the result type\<close>
named_theorems str_simps \<open>rules of strings and decimal numerals\<close>

section \<open>Results\<close>

definition rbind :: "'e + 'a \<Rightarrow> ('a \<Rightarrow> 'e + 'b) \<Rightarrow> 'e + 'b" where
  "rbind m f = (case m of Inl e \<Rightarrow> Inl e | Inr x \<Rightarrow> f x)"

lemma rbind_simps [simp, res_simps]:
  "rbind (Inl e) f = Inl e" "rbind (Inr x) f = f x"
  by (simp_all add: rbind_def)

lemma rbind_Inr_iff [res_simps]: "rbind m f = Inr y \<longleftrightarrow> (\<exists>x. m = Inr x \<and> f x = Inr y)"
  by (cases m) auto

definition rmap :: "('a \<Rightarrow> 'b) \<Rightarrow> 'e + 'a \<Rightarrow> 'e + 'b" where
  "rmap f m = rbind m (\<lambda>x. Inr (f x))"

lemma rmap_simps [simp, res_simps]: "rmap f (Inl e) = Inl e" "rmap f (Inr x) = Inr (f x)"
  by (simp_all add: rmap_def)

lemma rmap_Inr_iff [res_simps]: "rmap f m = Inr y \<longleftrightarrow> (\<exists>x. m = Inr x \<and> y = f x)"
  by (cases m) auto

fun rmap_list :: "('a \<Rightarrow> 'e + 'b) \<Rightarrow> 'a list \<Rightarrow> 'e + 'b list" where
  "rmap_list f [] = Inr []"
| "rmap_list f (x # xs) = rbind (f x) (\<lambda>y. rbind (rmap_list f xs) (\<lambda>ys. Inr (y # ys)))"

lemma rmap_list_total: "(\<And>x. x \<in> set xs \<Longrightarrow> f x = Inr (g x)) \<Longrightarrow> rmap_list f xs = Inr (map g xs)"
  by (induction xs) auto

lemma rmap_list_Inr: "rmap_list f xs = Inr ys \<Longrightarrow> length ys = length xs \<and> (\<forall>i < length xs. f (xs ! i) = Inr (ys ! i))"
proof (induction xs arbitrary: ys)
  case Nil
  then show ?case by simp
next
  case (Cons x xs)
  from Cons.prems obtain z zs where z: "f x = Inr z" "rmap_list f xs = Inr zs" "ys = z # zs"
    by (auto simp: rbind_Inr_iff)
  from Cons.IH[OF z(2)] z(1,3) show ?case by (auto simp: nth_Cons split: nat.split)
qed

text \<open>The first element that satisfies a test that may itself throw.\<close>

fun rfind :: "('a \<Rightarrow> 'e + bool) \<Rightarrow> 'a list \<Rightarrow> 'e + 'a option" where
  "rfind p [] = Inr None"
| "rfind p (x # xs) = rbind (p x) (\<lambda>b. if b then Inr (Some x) else rfind p xs)"

lemma rfind_total: "(\<And>x. x \<in> set xs \<Longrightarrow> p x = Inr (q x)) \<Longrightarrow> rfind p xs = Inr (List.find q xs)"
  by (induction xs) auto

fun rall :: "('a \<Rightarrow> 'e + bool) \<Rightarrow> 'a list \<Rightarrow> 'e + bool" where
  "rall p [] = Inr True"
| "rall p (x # xs) = rbind (p x) (\<lambda>b. if b then rall p xs else Inr False)"

lemma rall_total: "(\<And>x. x \<in> set xs \<Longrightarrow> p x = Inr (q x)) \<Longrightarrow> rall p xs = Inr (list_all q xs)"
  by (induction xs) auto

section \<open>Errors and dates\<close>

text \<open>The errors the pure code throws by itself.\<close>

datatype js_error = RangeError string | SyntaxError string | PlainError string

text \<open>
  A \<open>Date\<close> is its time value: \<open>Some ms\<close> since the epoch, or \<open>None\<close> for an invalid date.
  A timestamp string of the source is represented by the \<open>Date\<close> that \<open>new Date(value)\<close> makes of
  it, the only thing the code does with such strings.
\<close>

type_synonym js_date = "int option"
type_synonym utc = "js_date"

abbreviation (input) ms_minute :: int where "ms_minute \<equiv> 60000"
abbreviation (input) ms_hour :: int where "ms_hour \<equiv> 3600000"

section \<open>Searching and stable sorting\<close>

lemma find_None_iff': "List.find P xs = None \<longleftrightarrow> (\<forall>x \<in> set xs. \<not> P x)"
  by (auto simp: find_None_iff)

lemma find_SomeD: "List.find P xs = Some x \<Longrightarrow> x \<in> set xs \<and> P x"
  by (auto simp: find_Some_iff)

lemma find_eq_hd_filter: "List.find P xs = (case filter P xs of [] \<Rightarrow> None | y # _ \<Rightarrow> Some y)"
  by (induction xs) auto

lemma find_cong_set: "(\<And>x. x \<in> set xs \<Longrightarrow> P x = Q x) \<Longrightarrow> List.find P xs = List.find Q xs"
  by (induction xs) auto

lemma sort_key_hd_min:
  assumes "sort_key k xs = y # ys" and "z \<in> set xs"
  shows "k y \<le> k z"
proof -
  from assms(1) have "sorted (map k (y # ys))" by (metis sorted_sort_key)
  moreover from assms have "z \<in> set (y # ys)" by (metis set_sort)
  ultimately show ?thesis by (auto simp: sorted_wrt_map)
qed

lemma find_sort_key_min:
  assumes "List.find P (sort_key k xs) = Some x" and "z \<in> set xs" and "P z"
  shows "k x \<le> k z"
proof -
  have "filter P (sort_key k xs) = sort_key k (filter P xs)" by (simp add: filter_sort)
  with assms(1) obtain ys where "sort_key k (filter P xs) = x # ys"
    by (auto simp: find_eq_hd_filter split: list.splits)
  then show ?thesis by (rule sort_key_hd_min) (use assms in simp)
qed

lemma find_sort_key_None: "List.find P (sort_key k xs) = None \<longleftrightarrow> (\<forall>x \<in> set xs. \<not> P x)"
  by (simp add: find_None_iff')

text \<open>\<open>Array.sort\<close> with the comparator \<open>b - a\<close>: stable, largest first.\<close>

definition sort_desc :: "('a \<Rightarrow> 'k::linordered_idom) \<Rightarrow> 'a list \<Rightarrow> 'a list" where
  "sort_desc k xs = sort_key (\<lambda>x. - k x) xs"

lemma mset_sort_desc [simp]: "mset (sort_desc k xs) = mset xs"
  by (simp add: sort_desc_def)

lemma set_sort_desc [simp]: "set (sort_desc k xs) = set xs"
  by (simp add: sort_desc_def)

lemma length_sort_desc [simp]: "length (sort_desc k xs) = length xs"
  by (simp add: sort_desc_def)

lemma sorted_sort_desc: "sorted_wrt (\<lambda>x y. k y \<le> k x) (sort_desc k xs)"
  using sorted_sort_key[of "\<lambda>x. - k x" xs] by (simp add: sort_desc_def sorted_wrt_map)

section \<open>Sums over lists\<close>

lemma sum_list_take_le:
  assumes "\<And>x. x \<in> set xs \<Longrightarrow> 0 \<le> f x"
  shows "sum_list (map f (take n xs)) \<le> (sum_list (map f xs) :: int)"
proof -
  have "sum_list (map f xs) = sum_list (map f (take n xs)) + sum_list (map f (drop n xs))"
    by (metis append_take_drop_id map_append sum_list_append)
  moreover have "0 \<le> sum_list (map f (drop n xs))"
    by (rule sum_list_nonneg) (auto dest: in_set_dropD intro: assms)
  ultimately show ?thesis by simp
qed

section \<open>Characters and strings\<close>

definition code_of :: "char \<Rightarrow> nat" where
  "code_of c = of_char c"

definition lower_char :: "char \<Rightarrow> char" where
  "lower_char c = (if 65 \<le> code_of c \<and> code_of c \<le> 90 then char_of (code_of c + 32) else c)"

definition to_lower :: "string \<Rightarrow> string" where
  "to_lower = map lower_char"

definition is_space :: "char \<Rightarrow> bool" where
  "is_space c \<longleftrightarrow> code_of c \<in> {9, 10, 11, 12, 13, 32, 160}"

definition trim :: "string \<Rightarrow> string" where
  "trim s = rev (dropWhile is_space (rev (dropWhile is_space s)))"

definition is_digit :: "char \<Rightarrow> bool" where
  "is_digit c \<longleftrightarrow> 48 \<le> code_of c \<and> code_of c \<le> 57"

definition is_hex :: "char \<Rightarrow> bool" where
  "is_hex c \<longleftrightarrow> is_digit c \<or> (97 \<le> code_of c \<and> code_of c \<le> 102) \<or> (65 \<le> code_of c \<and> code_of c \<le> 70)"

lemma code_of_char_of [str_simps]: "code_of (char_of n) = n mod 256"
  by (simp add: code_of_def)

lemma code_of_inj: "code_of a = code_of b \<longleftrightarrow> a = b"
  by (simp add: code_of_def)

lemma lower_char_idem [simp]: "lower_char (lower_char c) = lower_char c"
  by (simp add: lower_char_def str_simps)

lemma to_lower_idem [simp, str_simps]: "to_lower (to_lower s) = to_lower s"
  by (simp add: to_lower_def)

lemma length_to_lower [simp, str_simps]: "length (to_lower s) = length s"
  by (simp add: to_lower_def)

lemma to_lower_append [str_simps]: "to_lower (s @ t) = to_lower s @ to_lower t"
  by (simp add: to_lower_def)

lemma is_space_lower [simp]: "is_space (lower_char c) = is_space c"
  by (auto simp: is_space_def lower_char_def str_simps)

lemma is_hex_lower: "is_hex (lower_char c) = is_hex c"
  by (auto simp: is_hex_def is_digit_def lower_char_def str_simps)

lemma hex_not_space: "is_hex c \<Longrightarrow> \<not> is_space c"
  by (auto simp: is_hex_def is_digit_def is_space_def)

lemma digit_not_space: "is_digit c \<Longrightarrow> \<not> is_space c"
  by (auto simp: is_digit_def is_space_def)

lemma trim_id: "list_all (\<lambda>c. \<not> is_space c) s \<Longrightarrow> trim s = s"
proof -
  assume a: "list_all (\<lambda>c. \<not> is_space c) s"
  have d: "list_all (\<lambda>c. \<not> is_space c) t \<Longrightarrow> dropWhile is_space t = t" for t
    by (cases t) auto
  from a have "list_all (\<lambda>c. \<not> is_space c) (rev s)" by simp
  with a show ?thesis by (simp add: trim_def d)
qed

lemma dropWhile_hd_not: "s = [] \<or> \<not> P (hd s) \<Longrightarrow> dropWhile P s = s"
  by (cases s) auto

lemma dropWhile_idem': "dropWhile P (dropWhile P s) = dropWhile P s"
  by (rule dropWhile_hd_not) (use hd_dropWhile[of P s] in blast)

lemma trim_hd: "trim s \<noteq> [] \<Longrightarrow> \<not> is_space (hd (trim s))"
proof -
  assume ne: "trim s \<noteq> []"
  let ?t = "dropWhile is_space s"
  obtain u where u: "?t = trim s @ u"
    unfolding trim_def by (metis rev_append rev_rev_ident takeWhile_dropWhile_id)
  with ne have "?t \<noteq> []" and "hd ?t = hd (trim s)" by auto
  then show ?thesis using hd_dropWhile[of is_space s] by auto
qed

lemma trim_idem [simp, str_simps]: "trim (trim s) = trim s"
proof (cases "trim s = []")
  case True
  then show ?thesis by (simp add: trim_def[of "[]"])
next
  case False
  have "dropWhile is_space (trim s) = trim s"
    using trim_hd[OF False] by (intro dropWhile_hd_not) simp
  moreover have "dropWhile is_space (rev (trim s)) = rev (trim s)"
    by (simp add: trim_def dropWhile_idem')
  ultimately show ?thesis by (simp add: trim_def[of "trim s"])
qed

text \<open>Substring tests, for the regular expressions the source runs over error messages.\<close>

definition starts_with :: "string \<Rightarrow> string \<Rightarrow> bool" where
  "starts_with p s \<longleftrightarrow> take (length p) s = p"

definition ends_with :: "string \<Rightarrow> string \<Rightarrow> bool" where
  "ends_with p s \<longleftrightarrow> starts_with (rev p) (rev s)"

fun infix_of :: "string \<Rightarrow> string \<Rightarrow> bool" where
  "infix_of p [] = (p = [])"
| "infix_of p (x # xs) = (starts_with p (x # xs) \<or> infix_of p xs)"

text \<open>\<open>matches_ci p s\<close> is the regular expression \<open>/p/i\<close> for a literal lower-case \<open>p\<close>.\<close>

definition matches_ci :: "string \<Rightarrow> string \<Rightarrow> bool" where
  "matches_ci p s = infix_of p (to_lower s)"

text \<open>\<open>/a.*b/i\<close>: the dot matches anything but a line terminator.\<close>

fun gap_match :: "string \<Rightarrow> string \<Rightarrow> string \<Rightarrow> bool" where
  "gap_match a b [] = (a = [] \<and> b = [])"
| "gap_match a b (x # xs) =
     ((starts_with a (x # xs) \<and>
       infix_of b (takeWhile (\<lambda>c. code_of c \<noteq> 10 \<and> code_of c \<noteq> 13) (drop (length a) (x # xs))))
      \<or> gap_match a b xs)"

definition matches_gap_ci :: "string \<Rightarrow> string \<Rightarrow> string \<Rightarrow> bool" where
  "matches_gap_ci a b s = gap_match a b (to_lower s)"

lemma starts_with_iff: "starts_with p s \<longleftrightarrow> (\<exists>t. s = p @ t)"
  by (auto simp: starts_with_def) (metis append_take_drop_id)

lemma infix_of_start: "starts_with p s \<Longrightarrow> infix_of p s"
  by (cases s) (auto simp: starts_with_def)

lemma infix_of_append [simp]: "infix_of p (s @ p @ t)"
  by (induction s) (auto intro: infix_of_start simp: starts_with_iff)

lemma infix_of_iff: "infix_of p s \<longleftrightarrow> (\<exists>u v. s = u @ p @ v)"
proof
  show "infix_of p s \<Longrightarrow> \<exists>u v. s = u @ p @ v"
  proof (induction s)
    case (Cons x xs)
    then consider t where "x # xs = p @ t" | "infix_of p xs" by (auto simp: starts_with_iff)
    then show ?case
    proof cases
      case 1
      then show ?thesis by (metis append_Nil)
    next
      case 2
      with Cons.IH obtain u v where "xs = u @ p @ v" by blast
      then show ?thesis by (metis append_Cons)
    qed
  qed simp
qed auto

section \<open>Decimal numerals\<close>

definition digit_char :: "nat \<Rightarrow> char" where
  "digit_char d = char_of (48 + d)"

definition digit_val :: "char \<Rightarrow> nat" where
  "digit_val c = code_of c - 48"

fun show_nat :: "nat \<Rightarrow> string" where
  "show_nat n = (if n < 10 then [digit_char n] else show_nat (n div 10) @ [digit_char (n mod 10)])"

declare show_nat.simps [simp del]

definition show_int :: "int \<Rightarrow> string" where
  "show_int i = (if i < 0 then CHR ''-'' # show_nat (nat (- i)) else show_nat (nat i))"

definition dec_val :: "string \<Rightarrow> nat" where
  "dec_val s = foldl (\<lambda>a c. 10 * a + digit_val c) 0 s"

text \<open>The regular expression \<open>^[0-9]+$\<close>, which the source uses for decimal strings.\<close>

definition is_decimal :: "string \<Rightarrow> bool" where
  "is_decimal s \<longleftrightarrow> s \<noteq> [] \<and> list_all is_digit s"

lemma digit_char_code [str_simps]: "d < 10 \<Longrightarrow> code_of (digit_char d) = 48 + d"
  by (simp add: digit_char_def code_of_char_of)

lemma digit_val_char [simp]: "d < 10 \<Longrightarrow> digit_val (digit_char d) = d"
  by (simp add: digit_val_def digit_char_code)

lemma is_digit_char [simp]: "d < 10 \<Longrightarrow> is_digit (digit_char d)"
  by (simp add: is_digit_def digit_char_code)

lemma dec_val_snoc [simp]: "dec_val (s @ [c]) = 10 * dec_val s + digit_val c"
  by (simp add: dec_val_def)

lemma dec_val_Nil [simp]: "dec_val [] = 0"
  by (simp add: dec_val_def)

lemma dec_val_show_nat [simp, str_simps]: "dec_val (show_nat n) = n"
proof (induction n rule: show_nat.induct)
  case (1 n)
  show ?case
  proof (cases "n < 10")
    case True
    then show ?thesis using dec_val_snoc[of "[]" "digit_char n"] by (subst show_nat.simps) simp
  next
    case False
    with 1 show ?thesis by (subst show_nat.simps) simp
  qed
qed

lemma is_decimal_show_nat [simp, str_simps]: "is_decimal (show_nat n)"
proof (induction n rule: show_nat.induct)
  case (1 n)
  then show ?case
    by (cases "n < 10") (subst show_nat.simps, simp add: is_decimal_def)+
qed

lemma show_nat_inj [simp]: "show_nat m = show_nat n \<longleftrightarrow> m = n"
  by (metis dec_val_show_nat)

lemma show_nat_digits: "c \<in> set (show_nat n) \<Longrightarrow> is_digit c"
  using is_decimal_show_nat[of n] by (auto simp: is_decimal_def list_all_iff)

lemma show_nat_nonempty [simp]: "show_nat n \<noteq> []"
  using is_decimal_show_nat[of n] by (auto simp: is_decimal_def)

lemma show_int_nonneg: "0 \<le> i \<Longrightarrow> show_int i = show_nat (nat i)"
  by (simp add: show_int_def)

lemma decimal_no_space: "is_decimal s \<Longrightarrow> list_all (\<lambda>c. \<not> is_space c) s"
  by (auto simp: is_decimal_def list_all_iff digit_not_space)

lemma show_int_inj: "show_int a = show_int b \<Longrightarrow> a = b"
proof -
  assume eq: "show_int a = show_int b"
  have n: "hd (show_nat k) \<noteq> CHR ''-''" for k
  proof -
    have "is_digit (hd (show_nat k))" by (rule show_nat_digits[of _ k]) simp
    then show ?thesis by (auto simp: is_digit_def code_of_def)
  qed
  show ?thesis
  proof (cases "a < 0"; cases "b < 0")
    assume "a < 0" "\<not> b < 0"
    with eq n[of "nat b"] show ?thesis by (auto simp: show_int_def dest: arg_cong[where f = hd])
  next
    assume "\<not> a < 0" "b < 0"
    with eq n[of "nat a"] show ?thesis by (auto simp: show_int_def dest: arg_cong[where f = hd])
  qed (use eq in \<open>auto simp: show_int_def\<close>)
qed

section \<open>Associations updated in place\<close>

text \<open>A database table is an association list in the order the rows were inserted; an
  \<open>UPDATE ... WHERE\<close> rewrites the rows that match and keeps the order.\<close>

definition update_where :: "('r \<Rightarrow> bool) \<Rightarrow> ('r \<Rightarrow> 'r) \<Rightarrow> 'r list \<Rightarrow> 'r list" where
  "update_where p f rows = map (\<lambda>r. if p r then f r else r) rows"

lemma update_where_Nil [simp]: "update_where p f [] = []"
  by (simp add: update_where_def)

lemma update_where_Cons [simp]:
  "update_where p f (r # rs) = (if p r then f r else r) # update_where p f rs"
  by (simp add: update_where_def)

lemma length_update_where [simp]: "length (update_where p f rows) = length rows"
  by (simp add: update_where_def)

lemma set_update_where: "set (update_where p f rows) = (\<lambda>r. if p r then f r else r) ` set rows"
  by (simp add: update_where_def)

lemma update_where_all:
  "list_all P rows \<Longrightarrow> (\<And>r. r \<in> set rows \<Longrightarrow> p r \<Longrightarrow> P r \<Longrightarrow> P (f r)) \<Longrightarrow> list_all P (update_where p f rows)"
  by (induction rows) auto

lemma map_update_where_same:
  "(\<And>r. r \<in> set rows \<Longrightarrow> p r \<Longrightarrow> k (f r) = k r) \<Longrightarrow> map k (update_where p f rows) = map k rows"
  by (induction rows) auto

lemma update_where_gone: "(\<And>r. \<not> p (f r)) \<Longrightarrow> r \<in> set (update_where p f rows) \<Longrightarrow> \<not> p r"
  by (auto simp: set_update_where)

lemma update_where_keep: "r \<in> set rows \<Longrightarrow> \<not> p r \<Longrightarrow> r \<in> set (update_where p f rows)"
  by (induction rows) auto

lemma update_where_hit: "r \<in> set rows \<Longrightarrow> p r \<Longrightarrow> f r \<in> set (update_where p f rows)"
  by (induction rows) auto

lemma update_where_no_match: "(\<And>r. r \<in> set rows \<Longrightarrow> \<not> p r) \<Longrightarrow> update_where p f rows = rows"
  by (induction rows) auto

end
