(* ===== verification/Errors.thy ===== *)
theory Errors
  imports Prelude
begin

text \<open>
  The typed errors of the system (\<open>packages/core/src/errors.ts\<close>): categories, the default HTTP
  status, which errors may be retried, and the message that may be shown to a user, from which the
  query strings of URLs are cut. The ellipsis character the source writes is the constant
  \<open>ellipsis\<close> (a code unit outside ASCII).
\<close>

datatype error_category =
  AuthRequired | RateLimited | RetryableProvider | InvalidPayload | PermanentConfig | NotFound | Forbidden | Conflict

record app_error =
  category :: error_category
  err_message :: string
  err_hint :: "string option"
  retryable :: bool
  retry_after :: "int option"
  status_code :: int

record app_error_options =
  opt_hint :: "string option"
  opt_retry_after :: "int option"
  opt_status :: "int option"

fun default_status :: "error_category \<Rightarrow> int" where
  "default_status AuthRequired = 401"
| "default_status Forbidden = 403"
| "default_status NotFound = 404"
| "default_status Conflict = 409"
| "default_status RateLimited = 429"
| "default_status InvalidPayload = 400"
| "default_status PermanentConfig = 400"
| "default_status RetryableProvider = 502"

definition mk_app_error :: "error_category \<Rightarrow> string \<Rightarrow> app_error_options \<Rightarrow> app_error" where
  "mk_app_error c m opts =
     \<lparr>category = c, err_message = m, err_hint = opt_hint opts,
      retryable = (c = RetryableProvider \<or> (c = RateLimited \<and> opt_retry_after opts \<noteq> None)),
      retry_after = opt_retry_after opts,
      status_code = (case opt_status opts of None \<Rightarrow> default_status c | Some s \<Rightarrow> s)\<rparr>"

definition no_options :: app_error_options where
  "no_options = \<lparr>opt_hint = None, opt_retry_after = None, opt_status = None\<rparr>"

definition ellipsis :: char where
  "ellipsis = char_of (133 :: nat)"

text \<open>The replacement of \<open>/[?]\S+/g\<close> by a question mark and an ellipsis.\<close>

function strip_query :: "string \<Rightarrow> string" where
  "strip_query [] = []"
| "strip_query (c # cs) =
     (if c = CHR ''?'' \<and> cs \<noteq> [] \<and> \<not> is_space (hd cs)
      then CHR ''?'' # ellipsis # strip_query (dropWhile (\<lambda>x. \<not> is_space x) cs)
      else c # strip_query cs)"
  by pat_completeness auto
termination
  by (relation "measure length") (auto simp: le_imp_less_Suc length_dropWhile_le)

declare strip_query.simps(2) [simp del]

text \<open>What was thrown: one of the system's errors, another \<open>Error\<close> with its message, or anything else (with its \<open>String(value)\<close>).\<close>

datatype thrown = ThrownApp app_error | ThrownError string | ThrownOther string

definition safe_error_message :: "thrown \<Rightarrow> string \<Rightarrow> string" where
  "safe_error_message v fallback =
     (case v of
        ThrownApp e \<Rightarrow> err_message e
      | ThrownError m \<Rightarrow> strip_query m
      | ThrownOther _ \<Rightarrow> fallback)"

lemma strip_query_hd: "strip_query s = [] \<longleftrightarrow> s = []"
  by (cases s) (auto simp: strip_query.simps)

lemma strip_query_space_hd: "s \<noteq> [] \<Longrightarrow> is_space (hd s) \<Longrightarrow> is_space (hd (strip_query s))"
  by (cases s) (auto simp: strip_query.simps is_space_def code_of_def)

text \<open>Every question mark of a text is at its end, before a space, or before an ellipsis.\<close>

fun no_query :: "string \<Rightarrow> bool" where
  "no_query [] = True"
| "no_query [c] = True"
| "no_query (c # d # cs) = ((c = CHR ''?'' \<longrightarrow> is_space d \<or> d = ellipsis) \<and> no_query (d # cs))"

lemma no_query_ConsI:
  "no_query s \<Longrightarrow> (c = CHR ''?'' \<Longrightarrow> s \<noteq> [] \<Longrightarrow> is_space (hd s) \<or> hd s = ellipsis) \<Longrightarrow> no_query (c # s)"
  by (cases s) auto

lemma ellipsis_not_qmark: "ellipsis \<noteq> CHR ''?''"
proof -
  have "code_of ellipsis = 133" "code_of CHR ''?'' = 63"
    by (simp_all add: ellipsis_def code_of_char_of) (simp add: code_of_def)
  then show ?thesis by auto
qed

lemma no_query_strip: "no_query (strip_query s)"
proof (induction s rule: strip_query.induct)
  case 1
  then show ?case by simp
next
  case (2 c cs)
  show ?case
  proof (cases "c = CHR ''?'' \<and> cs \<noteq> [] \<and> \<not> is_space (hd cs)")
    case True
    from 2(1)[OF True] have "no_query (ellipsis # strip_query (dropWhile (\<lambda>x. \<not> is_space x) cs))"
      by (intro no_query_ConsI) (auto simp: ellipsis_not_qmark)
    with True show ?thesis by (simp add: strip_query.simps(2))
  next
    case False
    from 2(2)[OF False] have "no_query (c # strip_query cs)"
    proof (rule no_query_ConsI)
      assume "c = CHR ''?''" and "strip_query cs \<noteq> []"
      with False have "cs \<noteq> []" "is_space (hd cs)" by (auto simp: strip_query_hd)
      then show "is_space (hd (strip_query cs)) \<or> hd (strip_query cs) = ellipsis" by (simp add: strip_query_space_hd)
    qed
    then show ?thesis using False by (simp only: strip_query.simps(2) if_False)
  qed
qed

lemma strip_query_id: "list_all (\<lambda>c. c \<noteq> CHR ''?'') s \<Longrightarrow> strip_query s = s"
  by (induction s) (auto simp: strip_query.simps(2))

text \<open>
A third-party error shown to a user carries no query string: in the displayed message every
question mark is at the end, before white space, or before the ellipsis that replaced what followed
it; and a message without a question mark is shown unchanged.
\<close>

theorem safe_message_hides_queries:
  "no_query (safe_error_message (ThrownError m) fallback)
   \<and> (list_all (\<lambda>c. c \<noteq> CHR ''?'') m \<longrightarrow> safe_error_message (ThrownError m) fallback = m)"
  by (simp add: safe_error_message_def no_query_strip strip_query_id)

lemma safe_message_hides_queries_witness:
  "no_query (safe_error_message (ThrownError ''GET https://x/v2?key=1 failed'') ''e'')"
  using safe_message_hides_queries[of "''GET https://x/v2?key=1 failed''" "''e''"] by simp

end
