(* ===== verification/StateError.thy ===== *)
theory StateError
  imports Errors
begin

text \<open>
  State transformers that return a value or throw, in which the stateful functions of the program are
  written: \<open>attempt\<close> is a try block whose outcome is inspected, \<open>gate\<close> a step that may end the function
  it is in. The second half is the logic their properties are proved in: \<open>acts P m Q\<close> is a Hoare triple
  whose postcondition sees the thrown error or the value, \<open>keeps I m\<close> an invariant of the action, thrown
  or not; \<open>keep_rules\<close> walks over the combinators.
\<close>

section \<open>Actions\<close>

type_synonym ('s, 'a) eff = "'s \<Rightarrow> (thrown + 'a) \<times> 's"

definition ret :: "'a \<Rightarrow> ('s, 'a) eff" where
  "ret x w = (Inr x, w)"

definition throw :: "thrown \<Rightarrow> ('s, 'a) eff" where
  "throw e w = (Inl e, w)"

definition lift_sum :: "thrown + 'a \<Rightarrow> ('s, 'a) eff" where
  "lift_sum r w = (r, w)"

definition then_do :: "('s, 'a) eff \<Rightarrow> ('a \<Rightarrow> ('s, 'b) eff) \<Rightarrow> ('s, 'b) eff" where
  "then_do m f w = (case m w of (Inl e, w') \<Rightarrow> (Inl e, w') | (Inr x, w') \<Rightarrow> f x w')"

definition attempt :: "('s, 'a) eff \<Rightarrow> ('s, thrown + 'a) eff" where
  "attempt m w = (let (r, w') = m w in (Inr r, w'))"

definition try_catch :: "('s, 'a) eff \<Rightarrow> (thrown \<Rightarrow> ('s, 'a) eff) \<Rightarrow> ('s, 'a) eff" where
  "try_catch m h = then_do (attempt m) (\<lambda>r. case r of Inl e \<Rightarrow> h e | Inr x \<Rightarrow> ret x)"

text \<open>A step that may end the function it is in with a value of its own.\<close>

definition gate :: "('s, 'b + 'a) eff \<Rightarrow> ('a \<Rightarrow> ('s, 'b) eff) \<Rightarrow> ('s, 'b) eff" where
  "gate m f = then_do m (\<lambda>r. case r of Inl out \<Rightarrow> ret out | Inr x \<Rightarrow> f x)"


section \<open>A logic of actions\<close>

text \<open>\<open>acts P m Q\<close>: from a world with \<open>P\<close>, the action ends in a result and a world with \<open>Q\<close>.\<close>

definition acts :: "('s \<Rightarrow> bool) \<Rightarrow> ('s, 'a) eff \<Rightarrow> (thrown + 'a \<Rightarrow> 's \<Rightarrow> bool) \<Rightarrow> bool" where
  "acts P m Q \<longleftrightarrow> (\<forall>w r w'. P w \<longrightarrow> m w = (r, w') \<longrightarrow> Q r w')"

lemma actsI: "(\<And>w r w'. P w \<Longrightarrow> m w = (r, w') \<Longrightarrow> Q r w') \<Longrightarrow> acts P m Q"
  by (simp add: acts_def)

lemma actsD: "acts P m Q \<Longrightarrow> P w \<Longrightarrow> m w = (r, w') \<Longrightarrow> Q r w'"
  by (simp add: acts_def)

lemma acts_pre: "acts P' m Q \<Longrightarrow> (\<And>w. P w \<Longrightarrow> P' w) \<Longrightarrow> acts P m Q"
  unfolding acts_def by blast

lemma acts_post: "acts P m Q' \<Longrightarrow> (\<And>r w. Q' r w \<Longrightarrow> Q r w) \<Longrightarrow> acts P m Q"
  unfolding acts_def by blast

lemma acts_ret: "(\<And>w. P w \<Longrightarrow> Q (Inr x) w) \<Longrightarrow> acts P (ret x) Q"
  by (simp add: acts_def ret_def)

lemma acts_throw: "(\<And>w. P w \<Longrightarrow> Q (Inl e) w) \<Longrightarrow> acts P (throw e) Q"
  by (simp add: acts_def throw_def)

lemma acts_lift: "(\<And>w. P w \<Longrightarrow> Q r w) \<Longrightarrow> acts P (lift_sum r) Q"
  by (simp add: acts_def lift_sum_def)

lemma acts_then:
  assumes "acts P m (\<lambda>r w. case r of Inl e \<Rightarrow> Q (Inl e) w | Inr x \<Rightarrow> R x w)" and "\<And>x. acts (R x) (f x) Q"
  shows "acts P (then_do m f) Q"
proof (rule actsI)
  fix w r w' assume "P w" and e: "then_do m f w = (r, w')"
  obtain r1 w1 where m: "m w = (r1, w1)" by fastforce
  have c: "case r1 of Inl e \<Rightarrow> Q (Inl e) w1 | Inr x \<Rightarrow> R x w1" using actsD[OF assms(1) \<open>P w\<close> m] .
  show "Q r w'"
  proof (cases r1)
    case (Inl a)
    then show ?thesis using c e m by (simp add: then_do_def)
  next
    case (Inr x)
    then show ?thesis using c e m actsD[OF assms(2), of x w1 r w'] by (simp add: then_do_def)
  qed
qed

lemma acts_attempt: "acts P m (\<lambda>r w. Q (Inr r) w) \<Longrightarrow> acts P (attempt m) Q"
  by (auto simp: acts_def attempt_def split: prod.splits)

lemma acts_try:
  assumes "acts P m (\<lambda>r w. case r of Inl e \<Rightarrow> R e w | Inr x \<Rightarrow> Q (Inr x) w)" and "\<And>e. acts (R e) (h e) Q"
  shows "acts P (try_catch m h) Q"
  unfolding try_catch_def
  by (rule acts_then[where R = "\<lambda>r w. case r of Inl e \<Rightarrow> R e w | Inr x \<Rightarrow> Q (Inr x) w"], rule acts_attempt)
     (use assms in \<open>auto intro: acts_ret split: sum.splits\<close>)

lemma acts_if: "(c \<Longrightarrow> acts P a Q) \<Longrightarrow> (\<not> c \<Longrightarrow> acts P b Q) \<Longrightarrow> acts P (if c then a else b) Q"
  by simp

lemma acts_option:
  "acts P n Q \<Longrightarrow> (\<And>x. acts P (s x) Q) \<Longrightarrow> acts P (case o' of None \<Rightarrow> n | Some x \<Rightarrow> s x) Q"
  by (cases o') simp_all

lemma acts_prod: "(\<And>a b. acts P (f a b) Q) \<Longrightarrow> acts P (case p of (a, b) \<Rightarrow> f a b) Q"
  by (cases p) simp

lemma acts_sum:
  "(\<And>e. acts P (l e) Q) \<Longrightarrow> (\<And>x. acts P (r x) Q) \<Longrightarrow> acts P (case s of Inl e \<Rightarrow> l e | Inr x \<Rightarrow> r x) Q"
  by (cases s) simp_all

text \<open>A property of worlds that every step keeps is kept by the composition, thrown or not.\<close>

definition keeps :: "('s \<Rightarrow> bool) \<Rightarrow> ('s, 'a) eff \<Rightarrow> bool" where
  "keeps I m \<longleftrightarrow> acts I m (\<lambda>r w. I w)"

named_theorems keep_rules
named_theorems status_rules

lemma keepsI: "(\<And>w. I w \<Longrightarrow> I (snd (m w))) \<Longrightarrow> keeps I m"
  by (auto simp: keeps_def acts_def) (metis snd_conv)

lemma keepsD: "keeps I m \<Longrightarrow> I w \<Longrightarrow> m w = (r, w') \<Longrightarrow> I w'"
  by (auto simp: keeps_def acts_def)

lemma acts_keeps: "keeps I m \<Longrightarrow> (\<And>r w. I w \<Longrightarrow> Q r w) \<Longrightarrow> acts I m Q"
  unfolding keeps_def by (rule acts_post)

lemma acts_from_keeps: "keeps J m \<Longrightarrow> (\<And>w. P w \<Longrightarrow> J w) \<Longrightarrow> acts P m (\<lambda>r. J)"
  unfolding keeps_def acts_def by blast

lemma then_do_ret [simp]: "then_do (ret x) f = f x"
  by (rule ext) (simp add: then_do_def ret_def)

lemma acts_then_keep:
  assumes "keeps I m" and "\<And>x. acts I (f x) Q" and "\<And>e w. I w \<Longrightarrow> Q (Inl e) w"
  shows "acts I (then_do m f) Q"
  by (rule acts_then[where R = "\<lambda>_. I"], rule acts_keeps[OF assms(1)])
     (use assms(2,3) in \<open>auto split: sum.splits\<close>)

lemma keeps_ret [keep_rules]: "keeps I (ret x)"
  by (rule keepsI) (simp add: ret_def)

lemma keeps_throw [keep_rules]: "keeps I (throw e)"
  by (rule keepsI) (simp add: throw_def)

lemma keeps_lift [keep_rules]: "keeps I (lift_sum r)"
  by (rule keepsI) (simp add: lift_sum_def)

lemma keeps_then [keep_rules]: "keeps I m \<Longrightarrow> (\<And>x. keeps I (f x)) \<Longrightarrow> keeps I (then_do m f)"
  unfolding keeps_def by (rule acts_then[where R = "\<lambda>_. I"]) (auto intro: acts_post split: sum.splits)

lemma keeps_then_lift: "(\<And>x. r = Inr x \<Longrightarrow> keeps I (f x)) \<Longrightarrow> keeps I (then_do (lift_sum r) f)"
  by (cases r) (auto simp: keeps_def acts_def then_do_def lift_sum_def)

lemma keeps_attempt [keep_rules]: "keeps I m \<Longrightarrow> keeps I (attempt m)"
  unfolding keeps_def by (rule acts_attempt)

lemma keeps_try [keep_rules]: "keeps I m \<Longrightarrow> (\<And>e. keeps I (h e)) \<Longrightarrow> keeps I (try_catch m h)"
  unfolding try_catch_def by (intro keep_rules) (auto intro: keep_rules split: sum.splits)

lemma keeps_gate [keep_rules]: "keeps I m \<Longrightarrow> (\<And>x. keeps I (f x)) \<Longrightarrow> keeps I (gate m f)"
  unfolding gate_def by (intro keep_rules) (auto intro: keep_rules split: sum.splits)

lemma keeps_if [keep_rules]: "keeps I a \<Longrightarrow> keeps I b \<Longrightarrow> keeps I (if c then a else b)"
  by simp

lemma keeps_option [keep_rules]:
  "keeps I n \<Longrightarrow> (\<And>x. keeps I (s x)) \<Longrightarrow> keeps I (case o' of None \<Rightarrow> n | Some x \<Rightarrow> s x)"
  by (cases o') simp_all

lemma keeps_sum [keep_rules]:
  "(\<And>e. keeps I (l e)) \<Longrightarrow> (\<And>x. keeps I (r x)) \<Longrightarrow> keeps I (case s of Inl e \<Rightarrow> l e | Inr x \<Rightarrow> r x)"
  by (cases s) simp_all

lemma keeps_prod [keep_rules]: "(\<And>a b. keeps I (f a b)) \<Longrightarrow> keeps I (case p of (a, b) \<Rightarrow> f a b)"
  by (cases p) simp


section \<open>Loops and results\<close>

fun for_each :: "('a \<Rightarrow> ('s, unit) eff) \<Rightarrow> 'a list \<Rightarrow> ('s, unit) eff" where
  "for_each f [] = ret ()"
| "for_each f (x # xs) = then_do (f x) (\<lambda>_. for_each f xs)"

text \<open>Every normal result of an action, whatever the world.\<close>

definition yields :: "('s, 'a) eff \<Rightarrow> ('a \<Rightarrow> bool) \<Rightarrow> bool" where
  "yields m Q \<longleftrightarrow> (\<forall>w x w'. m w = (Inr x, w') \<longrightarrow> Q x)"

lemma yields_then: "(\<And>x. yields (f x) Q) \<Longrightarrow> yields (then_do m f) Q"
  unfolding yields_def then_do_def by (auto split: prod.splits sum.splits)

lemma yields_then_lift: "(\<And>x. r = Inr x \<Longrightarrow> yields (f x) Q) \<Longrightarrow> yields (then_do (lift_sum r) f) Q"
  unfolding yields_def then_do_def lift_sum_def by (cases r) auto

lemma yields_ret: "Q x \<Longrightarrow> yields (ret x) Q"
  by (simp add: yields_def ret_def)

lemma keeps_then_yields:
  assumes "keeps I m" and "yields m Q" and "\<And>x. Q x \<Longrightarrow> keeps I (f x)"
  shows "keeps I (then_do m f)"
proof (rule keepsI)
  fix w assume I: "I w"
  obtain r w1 where m: "m w = (r, w1)" by fastforce
  have I1: "I w1" using keepsD[OF assms(1) I m] .
  show "I (snd (then_do m f w))"
  proof (cases r)
    case (Inl e)
    then show ?thesis using m I1 by (simp add: then_do_def)
  next
    case (Inr x)
    then have "Q x" using assms(2) m unfolding yields_def by blast
    then have "keeps I (f x)" by (rule assms(3))
    from keepsD[OF this I1, of "fst (f x w1)" "snd (f x w1)"] show ?thesis using m Inr by (simp add: then_do_def)
  qed
qed

lemma keeps_for_each: "(\<And>x. x \<in> set xs \<Longrightarrow> keeps I (f x)) \<Longrightarrow> keeps I (for_each f xs)"
  by (induction xs) (auto intro: keep_rules)

lemma acts_then_lift:
  "(\<And>x. r = Inr x \<Longrightarrow> acts P (f x) Q) \<Longrightarrow> (\<And>e w. P w \<Longrightarrow> Q (Inl e) w) \<Longrightarrow> acts P (then_do (lift_sum r) f) Q"
  by (cases r) (simp_all add: acts_def then_do_def lift_sum_def)

lemma acts_then_yields:
  assumes "keeps P m" and "yields m Y" and "\<And>x. Y x \<Longrightarrow> acts P (f x) Q" and "\<And>e w. P w \<Longrightarrow> Q (Inl e) w"
  shows "acts P (then_do m f) Q"
proof (rule actsI)
  fix w r w' assume w: "P w" and e: "then_do m f w = (r, w')"
  obtain r1 w1 where m: "m w = (r1, w1)" by fastforce
  have w1: "P w1" using keepsD[OF assms(1) w m] .
  show "Q r w'"
  proof (cases r1)
    case (Inl x)
    then show ?thesis using e m assms(4)[OF w1] by (auto simp: then_do_def)
  next
    case (Inr x)
    have "Y x" using assms(2) m Inr unfolding yields_def by blast
    with Inr show ?thesis using e m w1 actsD[OF assms(3), of x w1 r w'] by (simp add: then_do_def)
  qed
qed

section \<open>Tables, a clock, and calls that fail\<close>

text \<open>
  The state of a worker: its tables, the readings of the clock still to come (the last one stays), and
  the database calls that will fail (\<open>Some message\<close>: that call throws and changes nothing). SQL \<open>now()\<close>
  reads the same clock as \<open>Date.now()\<close>.
\<close>

record 'd machine =
  m_db :: 'd
  m_clock :: "int list"
  m_faults :: "string option list"

definition clock :: "(('d, 'z) machine_scheme, int) eff" where
  "clock w = (case m_clock w of
      [] \<Rightarrow> (Inr 0, w)
    | [t] \<Rightarrow> (Inr t, w)
    | t # ts \<Rightarrow> (Inr t, w\<lparr>m_clock := ts\<rparr>))"

definition db_call :: "('d \<Rightarrow> 'a \<times> 'd) \<Rightarrow> (('d, 'z) machine_scheme, 'a) eff" where
  "db_call f w =
     (let (fault, rest) = (case m_faults w of [] \<Rightarrow> (None, []) | x # xs \<Rightarrow> (x, xs))
      in case fault of
           Some message \<Rightarrow> (Inl (ThrownError message), w\<lparr>m_faults := rest\<rparr>)
         | None \<Rightarrow> let (x, d) = f (m_db w) in (Inr x, w\<lparr>m_db := d, m_faults := rest\<rparr>))"

definition db_read :: "('d \<Rightarrow> 'a) \<Rightarrow> (('d, 'z) machine_scheme, 'a) eff" where
  "db_read f = db_call (\<lambda>d. (f d, d))"

definition db_write :: "('d \<Rightarrow> 'd) \<Rightarrow> (('d, 'z) machine_scheme, unit) eff" where
  "db_write f = db_call (\<lambda>d. ((), f d))"

lemma db_call_cases:
  obtains (fault) m fs where "db_call f w = (Inl (ThrownError m), w\<lparr>m_faults := fs\<rparr>)"
  | (ok) fs where "db_call f w = (Inr (fst (f (m_db w))), w\<lparr>m_db := snd (f (m_db w)), m_faults := fs\<rparr>)"
  by (cases "m_faults w"; cases "hd (m_faults w)"; cases "f (m_db w)") (auto simp: db_call_def)

section \<open>Properties of the tables\<close>

text \<open>A property of the worlds that depends on the tables alone is kept by everything that leaves them alone.\<close>

named_theorems db_rules

definition db_only :: "(('d, 'z) machine_scheme \<Rightarrow> bool) \<Rightarrow> bool" where
  "db_only I \<longleftrightarrow> (\<forall>w w'. m_db w' = m_db w \<longrightarrow> I w \<longrightarrow> I w')"

lemma db_onlyI: "db_only (\<lambda>w. J (m_db w))"
  by (simp add: db_only_def)

lemma db_onlyD: "db_only I \<Longrightarrow> I w \<Longrightarrow> m_db w' = m_db w \<Longrightarrow> I w'"
  unfolding db_only_def by blast

lemma keeps_clock_db [db_rules]: "db_only I \<Longrightarrow> keeps I clock"
  by (rule keepsI) (auto simp: clock_def intro: db_onlyD split: list.splits)

lemma keeps_read_db [db_rules]: "db_only I \<Longrightarrow> keeps I (db_read f)"
proof (rule keepsI)
  fix w assume "db_only I" "I w"
  then show "I (snd (db_read f w))"
    unfolding db_read_def by (cases rule: db_call_cases[of "\<lambda>d. (f d, d)" w]) (auto intro: db_onlyD)
qed

lemma keeps_call_db:
  assumes "db_only I" and "\<And>w fs. I w \<Longrightarrow> I (w\<lparr>m_db := snd (f (m_db w)), m_faults := fs\<rparr>)"
  shows "keeps I (db_call f)"
proof (rule keepsI)
  fix w assume "I w"
  then show "I (snd (db_call f w))"
    using assms by (cases rule: db_call_cases[of f w]) (auto intro: db_onlyD)
qed

lemma keeps_db_write:
  assumes "db_only I" and "\<And>w fs. I w \<Longrightarrow> I (w\<lparr>m_db := f (m_db w), m_faults := fs\<rparr>)"
  shows "keeps I (db_write f)"
  unfolding db_write_def by (rule keeps_call_db[OF assms(1)]) (simp add: assms(2))

lemma acts_call_db:
  assumes "\<And>w fs. P w \<Longrightarrow> Q (Inr (fst (f (m_db w)))) (w\<lparr>m_db := snd (f (m_db w)), m_faults := fs\<rparr>)"
    and "\<And>w e fs. P w \<Longrightarrow> Q (Inl e) (w\<lparr>m_faults := fs\<rparr>)"
  shows "acts P (db_call f) Q"
proof (rule actsI)
  fix w r w' assume "P w" "db_call f w = (r, w')"
  then show "Q r w'" using assms by (cases rule: db_call_cases[of f w]) auto
qed

lemma acts_db_write:
  assumes "\<And>w fs. P w \<Longrightarrow> Q (Inr ()) (w\<lparr>m_db := f (m_db w), m_faults := fs\<rparr>)" and "\<And>w e fs. P w \<Longrightarrow> Q (Inl e) (w\<lparr>m_faults := fs\<rparr>)"
  shows "acts P (db_write f) Q"
  unfolding db_write_def by (rule acts_call_db) (simp_all add: assms)

end
