(* ===== verification/Funding.thy ===== *)
theory Funding
  imports Prelude
begin

text \<open>
  Money: \<open>BigInt\<close> of a string, the wei helpers of packages/core/src/wei.ts, and the funding gate of
  packages/core/src/funding.ts that decides whether a wallet can pay for a mint. Wei are \<open>int\<close>
  (JavaScript \<open>bigint\<close>), the operator's messages are the strings the code builds (the dash before
  "top up" is outside ASCII and is the constant \<open>em_dash\<close>).
\<close>

section \<open>BigInt\<close>

definition hex_digit :: "char \<Rightarrow> nat option" where
  "hex_digit c =
     (let n = code_of c in
      if 48 \<le> n \<and> n \<le> 57 then Some (n - 48)
      else if 97 \<le> n \<and> n \<le> 102 then Some (n - 87)
      else if 65 \<le> n \<and> n \<le> 70 then Some (n - 55) else None)"

fun parse_base :: "nat \<Rightarrow> int \<Rightarrow> string \<Rightarrow> int option" where
  "parse_base b acc [] = Some acc"
| "parse_base b acc (c # cs) =
     (case hex_digit c of
        None \<Rightarrow> None
      | Some d \<Rightarrow> if d < b then parse_base b (int b * acc + int d) cs else None)"

definition parse_digits :: "nat \<Rightarrow> string \<Rightarrow> int option" where
  "parse_digits b s = (if s = [] then None else parse_base b 0 s)"

definition string_to_bigint :: "string \<Rightarrow> int option" where
  "string_to_bigint s =
     (let t = trim s; p = take 2 t in
      if t = [] then Some 0
      else if p = ''0x'' \<or> p = ''0X'' then parse_digits 16 (drop 2 t)
      else if p = ''0o'' \<or> p = ''0O'' then parse_digits 8 (drop 2 t)
      else if p = ''0b'' \<or> p = ''0B'' then parse_digits 2 (drop 2 t)
      else if hd t = CHR ''-'' then map_option uminus (parse_digits 10 (tl t))
      else if hd t = CHR ''+'' then parse_digits 10 (tl t)
      else parse_digits 10 t)"

definition big_int :: "string \<Rightarrow> js_error + int" where
  "big_int s = (case string_to_bigint s of
                  None \<Rightarrow> Inl (SyntaxError (''Cannot convert '' @ s @ '' to a BigInt''))
                | Some i \<Rightarrow> Inr i)"

section \<open>Wei strings\<close>

definition is_wei_string :: "string \<Rightarrow> bool" where
  "is_wei_string = is_decimal"

datatype wei_input = WeiText string | WeiBig int

definition to_wei :: "wei_input \<Rightarrow> js_error + string" where
  "to_wei v =
     (case v of
        WeiBig i \<Rightarrow> if i < 0 then Inl (RangeError ''wei must be non-negative'') else Inr (show_int i)
      | WeiText s \<Rightarrow>
          let trimmed = trim s in
          if starts_with ''0x'' trimmed \<or> starts_with ''0X'' trimmed then rmap show_int (big_int trimmed)
          else if \<not> is_decimal trimmed then Inl (RangeError (''invalid wei value: '' @ s))
          else Inr trimmed)"

definition pad_start :: "nat \<Rightarrow> string \<Rightarrow> string" where
  "pad_start n s = replicate (n - length s) (CHR ''0'') @ s"

definition drop_trailing_zeros :: "string \<Rightarrow> string" where
  "drop_trailing_zeros s = rev (dropWhile (\<lambda>c. c = CHR ''0'') (rev s))"

definition format_wei :: "string \<Rightarrow> nat \<Rightarrow> js_error + string" where
  "format_wei value decimals =
     rbind (big_int value) (\<lambda>i.
       let raw = pad_start (decimals + 1) (show_int i);
           cut = length raw - decimals;
           whole = (if take cut raw = [] then ''0'' else take cut raw);
           fraction = (if decimals > 0 then drop_trailing_zeros (drop cut raw) else [])
       in Inr (if fraction \<noteq> [] then whole @ ''.'' @ fraction else whole))"

section \<open>The funding gate\<close>

definition native_currency_addresses :: "string set" where
  "native_currency_addresses =
     {''0x0000000000000000000000000000000000000000'', ''0xeeeeeeeeeeeeeeeeeeeeeeeeeeeeeeeeeeeeeeee''}"

definition is_native_currency :: "string option \<Rightarrow> bool" where
  "is_native_currency currency =
     (case currency of
        None \<Rightarrow> True
      | Some c \<Rightarrow> trim c = [] \<or> to_lower (trim c) \<in> native_currency_addresses)"

record erc20_funding =
  e20_balance :: int
  e20_required :: int
  e20_allowance :: "int option"
  e20_symbol :: "string option"
  e20_decimals :: "nat option"

record funding_input =
  fi_native :: int
  fi_value :: int
  fi_gas_limit :: int
  fi_max_fee :: int
  fi_erc20 :: "erc20_funding option"

datatype funding_reason = InsufficientNative | InsufficientErc20 | Erc20Allowance

datatype funding_verdict =
  FundingOk (gas_reserve: int) (required_native: int)
| FundingShort (short_reason: funding_reason) (required_native: int) (shortfall: int) (short_message: string)

definition format_units_short :: "int \<Rightarrow> nat \<Rightarrow> nat \<Rightarrow> string" where
  "format_units_short value decimals max_fraction =
     (let negative = value < 0;
          raw = pad_start (decimals + 1) (show_int (if negative then - value else value));
          cut = length raw - decimals;
          whole = (if take cut raw = [] then ''0'' else take cut raw);
          fraction = drop_trailing_zeros (take max_fraction (drop cut raw))
      in (if negative then ''-'' else []) @ whole @ (if fraction \<noteq> [] then ''.'' @ fraction else []))"

abbreviation eth :: "int \<Rightarrow> string" where
  "eth v \<equiv> format_units_short v 18 6"

definition em_dash :: char where
  "em_dash = char_of (151 :: nat)"

definition assess_mint_funding :: "funding_input \<Rightarrow> funding_verdict" where
  "assess_mint_funding i =
     (let reserve = fi_gas_limit i * fi_max_fee i;
          required = fi_value i + reserve
      in if fi_native i < required then
           let short = required - fi_native i in
           FundingShort InsufficientNative required short
             (''insufficient_funds: wallet holds '' @ eth (fi_native i) @ '' ETH, needs '' @ eth required
              @ '' ETH (mint '' @ eth (fi_value i) @ '' + gas reserve '' @ eth reserve @ '') ''
              @ [em_dash] @ '' top up '' @ eth short @ '' ETH'')
         else case fi_erc20 i of
           None \<Rightarrow> FundingOk reserve required
         | Some e \<Rightarrow>
             let symbol = (case e20_symbol e of None \<Rightarrow> ''token'' | Some s \<Rightarrow> s);
                 decimals = (case e20_decimals e of None \<Rightarrow> 18 | Some d \<Rightarrow> d);
                 units = (\<lambda>v. format_units_short v decimals 6 @ '' '' @ symbol)
             in if e20_balance e < e20_required e then
                  let short = e20_required e - e20_balance e in
                  FundingShort InsufficientErc20 required short
                    (''insufficient_funds: wallet holds '' @ units (e20_balance e)
                     @ '', mint price needs '' @ units (e20_required e) @ '' '' @ [em_dash]
                     @ '' top up '' @ units short)
                else case e20_allowance e of
                  None \<Rightarrow> FundingOk reserve required
                | Some a \<Rightarrow>
                    if a < e20_required e
                    then FundingShort Erc20Allowance required (e20_required e - a)
                           (''erc20_allowance: the mint contract may spend '' @ units a
                            @ '' but the price is '' @ units (e20_required e) @ '' '' @ [em_dash]
                            @ '' approve the SeaDrop contract from this wallet first'')
                    else FundingOk reserve required)"

definition is_insufficient_funds_error :: "string \<Rightarrow> bool" where
  "is_insufficient_funds_error message \<longleftrightarrow>
     matches_ci ''insufficient balance'' message \<or> matches_ci ''insufficient funds'' message"

section \<open>Lemmas\<close>

lemma funding_ok_iff:
  "(\<exists>g r. assess_mint_funding i = FundingOk g r) \<longleftrightarrow>
     fi_value i + fi_gas_limit i * fi_max_fee i \<le> fi_native i \<and>
     (case fi_erc20 i of None \<Rightarrow> True
      | Some e \<Rightarrow> e20_required e \<le> e20_balance e \<and>
                  (case e20_allowance e of None \<Rightarrow> True | Some a \<Rightarrow> e20_required e \<le> a))"
  by (auto simp: assess_mint_funding_def Let_def split: option.splits)

lemma funding_required:
  "required_native (assess_mint_funding i) = fi_value i + fi_gas_limit i * fi_max_fee i"
  by (auto simp: assess_mint_funding_def Let_def split: option.splits)

lemma funding_short_cases:
  assumes "assess_mint_funding i = FundingShort why req short msg"
  shows "(case why of
            InsufficientNative \<Rightarrow> short = req - fi_native i \<and> fi_native i < req
          | InsufficientErc20 \<Rightarrow> req \<le> fi_native i \<and>
              (\<exists>e. fi_erc20 i = Some e \<and> short = e20_required e - e20_balance e \<and> e20_balance e < e20_required e)
          | Erc20Allowance \<Rightarrow> req \<le> fi_native i \<and>
              (\<exists>e a. fi_erc20 i = Some e \<and> e20_required e \<le> e20_balance e \<and> e20_allowance e = Some a
                 \<and> short = e20_required e - a \<and> a < e20_required e))"
  using assms by (auto simp: assess_mint_funding_def Let_def split: option.splits if_splits)

text \<open>The wallet after the operator adds \<open>x\<close> of what the verdict asks for.\<close>

fun top_up :: "funding_reason \<Rightarrow> int \<Rightarrow> funding_input \<Rightarrow> funding_input" where
  "top_up InsufficientNative x i = i\<lparr>fi_native := fi_native i + x\<rparr>"
| "top_up InsufficientErc20 x i =
     i\<lparr>fi_erc20 := map_option (\<lambda>e. e\<lparr>e20_balance := e20_balance e + x\<rparr>) (fi_erc20 i)\<rparr>"
| "top_up Erc20Allowance x i =
     i\<lparr>fi_erc20 := map_option (\<lambda>e. e\<lparr>e20_allowance := map_option (\<lambda>a. a + x) (e20_allowance e)\<rparr>) (fi_erc20 i)\<rparr>"

fun fails_for :: "funding_reason \<Rightarrow> funding_verdict \<Rightarrow> bool" where
  "fails_for why (FundingOk g r) = False"
| "fails_for why (FundingShort why' r s m) = (why' = why)"

text \<open>
A refusal names a positive shortfall that is exact: the same wallet with the shortfall added is no
longer refused for that reason, and with any smaller amount it still is.
\<close>

theorem funding_shortfall_exact:
  assumes "assess_mint_funding i = FundingShort why req short msg"
  shows "0 < short \<and> \<not> fails_for why (assess_mint_funding (top_up why short i))
    \<and> (\<forall>x < short. fails_for why (assess_mint_funding (top_up why x i)))"
proof -
  have r: "req = fi_value i + fi_gas_limit i * fi_max_fee i"
    using funding_required[of i] assms by simp
  note c = funding_short_cases[OF assms]
  have "0 < short" using c by (cases why) auto
  moreover have "\<not> fails_for why (assess_mint_funding (top_up why short i))"
    using c r by (cases why) (auto simp: assess_mint_funding_def Let_def split: option.splits)
  moreover have "fails_for why (assess_mint_funding (top_up why x i))" if "x < short" for x
    using c r that by (cases why) (auto simp: assess_mint_funding_def Let_def split: option.splits)
  ultimately show ?thesis by blast
qed

definition demo_funding :: funding_input where
  "demo_funding = \<lparr>fi_native = 100, fi_value = 60, fi_gas_limit = 10, fi_max_fee = 5, fi_erc20 = None\<rparr>"

lemma funding_shortfall_exact_witness:
  "\<not> fails_for InsufficientNative (assess_mint_funding (top_up InsufficientNative 10 demo_funding))
   \<and> fails_for InsufficientNative (assess_mint_funding (top_up InsufficientNative 9 demo_funding))"
proof -
  obtain m where m: "assess_mint_funding demo_funding = FundingShort InsufficientNative 110 10 m"
    by (simp add: assess_mint_funding_def demo_funding_def Let_def)
  show ?thesis using funding_shortfall_exact[OF m] by simp
qed

end
