(* ===== verification/FirePolicy.thy ===== *)
theory FirePolicy
  imports Prelude "HOL-Library.Product_Lexorder"
begin

text \<open>
  The pure decisions of the fire path (\<open>packages/core/src\<close>): \<open>execution.ts\<close> (may a plan fire,
  in which order RPC endpoints are tried), \<open>clock-offset.ts\<close>, \<open>fire-schedule.ts\<close> (wait, spin,
  fire or give up) and \<open>presign.ts\<close> (when to sign ahead of the opening). Wei amounts are bigint,
  so \<open>int\<close>; instants are milliseconds.
\<close>

section \<open>May this plan fire\<close>

datatype mint_plan_status = Draft | Armed | Executing | Executed | Expired | Cancelled | Failed

fun status_name :: "mint_plan_status \<Rightarrow> string" where
  "status_name Draft = ''draft''"
| "status_name Armed = ''armed''"
| "status_name Executing = ''executing''"
| "status_name Executed = ''executed''"
| "status_name Expired = ''expired''"
| "status_name Cancelled = ''cancelled''"
| "status_name Failed = ''failed''"

record fire_check =
  fc_status :: mint_plan_status
  fc_armed_until :: "js_date option"
  fc_signer_ceiling :: int
  fc_plan_ceiling :: int
  fc_spent :: int
  fc_tx_value :: int

text \<open>\<open>a <= b\<close> on \<open>getTime()\<close> values: any comparison with NaN is false.\<close>

definition time_le :: "js_date \<Rightarrow> js_date \<Rightarrow> bool" where
  "time_le a b = (case (a, b) of (Some x, Some y) \<Rightarrow> x \<le> y | _ \<Rightarrow> False)"

datatype fire_decision = FireOk | Refused string

definition can_fire_mint_plan :: "fire_check \<Rightarrow> js_date \<Rightarrow> fire_decision" where
  "can_fire_mint_plan c now =
     (if fc_status c \<noteq> Armed then
        Refused (''plan status is '' @ [CHR 0x27] @ status_name (fc_status c) @ [CHR 0x27] @ '', not '' @ [CHR 0x27] @ ''armed'' @ [CHR 0x27])
      else case fc_armed_until c of
        None \<Rightarrow> Refused ''plan has no arm window set''
      | Some until \<Rightarrow>
          if time_le until now then Refused ''arm window has expired''
          else if fc_plan_ceiling c \<le> 0 then Refused ''per-plan ceiling must be positive''
          else if fc_plan_ceiling c > fc_signer_ceiling c then
            Refused (''per-plan ceiling exceeds the signer'' @ [CHR 0x27] @ ''s coarse on-chain ceiling (ADR 0004 cap tiering)'')
          else if fc_spent c \<ge> fc_plan_ceiling c then Refused ''per-plan spend ceiling already reached''
          else if fc_spent c + fc_tx_value c > fc_plan_ceiling c then
            Refused ''transaction value exceeds the per-plan spend ceiling''
          else FireOk)"

section \<open>Order of RPC endpoints\<close>

datatype health = Healthy | UnknownHealth | Degraded | Down

fun health_rank :: "health \<Rightarrow> int" where
  "health_rank Healthy = 0"
| "health_rank UnknownHealth = 1"
| "health_rank Degraded = 2"
| "health_rank Down = 3"

record rpc_candidate =
  rpc_id :: string
  rpc_chain :: int
  rpc_enabled :: bool
  rpc_priority :: int
  rpc_health :: health

definition rank_rpc_endpoints ::
  "'a rpc_candidate_scheme list \<Rightarrow> int \<Rightarrow> 'a rpc_candidate_scheme list" where
  "rank_rpc_endpoints endpoints chain =
     (let kept = filter (\<lambda>e. rpc_chain e = chain \<and> rpc_enabled e) endpoints;
          indexed = zip kept [0..<length kept]
      in map fst (sort_key (\<lambda>(e, index). (health_rank (rpc_health e), rpc_priority e, index)) indexed))"

section \<open>Clock correction and fire phase\<close>

definition compute_clock_offset_ms :: "int \<Rightarrow> int \<Rightarrow> int" where
  "compute_clock_offset_ms local_now block_ts_sec = local_now - block_ts_sec * 1000"

definition to_chain_time_ms :: "int \<Rightarrow> int \<Rightarrow> int" where
  "to_chain_time_ms local_now offset = local_now - offset"

definition chain_time_to_local_ms :: "int \<Rightarrow> int \<Rightarrow> int" where
  "chain_time_to_local_ms chain_ms offset = chain_ms + offset"

record fire_input =
  fi_stage_start :: int
  fi_offset :: int
  fi_now :: int
  fi_hot_window :: int
  fi_lead :: int
  fi_continue :: int

datatype fire_phase = Waiting int | HotPhase int | Fire int | FireExpired

definition compute_fire_phase :: "fire_input \<Rightarrow> fire_phase" where
  "compute_fire_phase i =
     (let local_start = chain_time_to_local_ms (fi_stage_start i) (fi_offset i);
          fire_at = local_start - fi_lead i;
          hot_at = fire_at - fi_hot_window i;
          continue_until = local_start + fi_continue i;
          now = fi_now i
      in if now < hot_at then Waiting (hot_at - now)
         else if now < fire_at then HotPhase (fire_at - now)
         else if now \<le> continue_until then Fire (now - fire_at)
         else FireExpired)"

section \<open>When to pre-sign\<close>

record presign_input =
  ps_stage_start :: int
  ps_offset :: int
  ps_now :: int
  ps_lead :: int
  ps_ttl :: int
  ps_signed_at :: "int option"
  ps_nonce :: "int option"
  ps_current_nonce :: "int option"
  ps_continue :: int

datatype sign_reason = NoBlob | Stale | NonceAdvanced

datatype presign_decision = Wait int | Sign sign_reason | Keep | PresignExpired

definition decide_presign :: "presign_input \<Rightarrow> presign_decision" where
  "decide_presign i =
     (let local_start = chain_time_to_local_ms (ps_stage_start i) (ps_offset i);
          window_opens = local_start - ps_lead i;
          now = ps_now i
      in if now > local_start + ps_continue i then PresignExpired
         else if now < window_opens then Wait (window_opens - now)
         else case (ps_signed_at i, ps_nonce i) of
           (Some signed_at, Some nonce) \<Rightarrow>
             if (case ps_current_nonce i of None \<Rightarrow> False | Some cur \<Rightarrow> cur > nonce) then Sign NonceAdvanced
             else if now - signed_at > ps_ttl i then Sign Stale
             else Keep
         | _ \<Rightarrow> Sign NoBlob)"

definition is_stale_presign_error :: "string \<Rightarrow> bool" where
  "is_stale_presign_error message \<longleftrightarrow>
     matches_ci ''nonce too low'' message \<or> matches_ci ''nonce is too low'' message \<or>
     matches_ci ''already known'' message \<or> matches_ci ''replacement transaction underpriced'' message \<or>
     matches_ci ''invalid nonce'' message \<or> matches_gap_ci ''nonce'' ''expected'' message \<or>
     matches_ci ''max fee per gas less than block base fee'' message \<or>
     matches_ci ''fee cap less than block base fee'' message \<or>
     matches_ci ''cannot be lower than the block base fee'' message \<or>
     matches_ci ''transaction underpriced'' message"

section \<open>Properties of the fire predicate\<close>


lemma fire_ok_spend: "can_fire_mint_plan c now = FireOk \<Longrightarrow> fc_spent c + fc_tx_value c \<le> fc_plan_ceiling c"
  by (auto simp: can_fire_mint_plan_def split: if_splits option.splits)

text \<open>Firing repeatedly, with the spend carried forward as the predicate expects.\<close>

fun spend_run :: "fire_check \<Rightarrow> int \<Rightarrow> int list \<Rightarrow> int option" where
  "spend_run c now [] = Some (fc_spent c)"
| "spend_run c now (v # vs) =
     (if can_fire_mint_plan (c\<lparr>fc_tx_value := v\<rparr>) (Some now) = FireOk
      then spend_run (c\<lparr>fc_spent := fc_spent c + v\<rparr>) now vs else None)"

lemma can_fire_tx_le:
  "can_fire_mint_plan (c\<lparr>fc_tx_value := v\<rparr>) (Some now) = FireOk \<Longrightarrow> fc_spent c + v \<le> fc_plan_ceiling c"
  by (simp add: can_fire_mint_plan_def time_le_def split: option.splits if_splits)

text \<open>
Ceilings are cumulative for a caller that carries the spend forward: however many transactions
the predicate lets through, their total never exceeds the plan's ceiling.
\<close>

theorem spend_never_exceeds_ceiling:
  "fc_spent c \<le> fc_plan_ceiling c \<Longrightarrow> spend_run c now vs = Some tot \<Longrightarrow> tot \<le> fc_plan_ceiling c"
proof (induction vs arbitrary: c)
  case Nil
  then show ?case by simp
next
  case (Cons v vs)
  from Cons.prems(2) have ok: "can_fire_mint_plan (c\<lparr>fc_tx_value := v\<rparr>) (Some now) = FireOk"
    and run: "spend_run (c\<lparr>fc_spent := fc_spent c + v\<rparr>) now vs = Some tot"
    by (auto split: if_splits)
  from Cons.IH[OF _ run] can_fire_tx_le[OF ok] show ?case by simp
qed

definition demo_check :: fire_check where
  "demo_check = \<lparr>fc_status = Armed, fc_armed_until = Some (Some 100), fc_signer_ceiling = 1000,
     fc_plan_ceiling = 500, fc_spent = 0, fc_tx_value = 0\<rparr>"

lemma spend_never_exceeds_ceiling_witness:
  "spend_run demo_check 50 [200, 300] = Some 500 \<and> 500 \<le> fc_plan_ceiling demo_check"
proof -
  have r: "spend_run demo_check 50 [200, 300] = Some 500"
    by (simp add: demo_check_def can_fire_mint_plan_def time_le_def)
  from spend_never_exceeds_ceiling[OF _ r] r show ?thesis by (simp add: demo_check_def)
qed

section \<open>Properties of the endpoint order\<close>

lemma insort_key_inj_tiebreak:
  assumes "\<forall>(y, j) \<in> set ys. i < j"
  shows "map fst (insort_key (\<lambda>(e, j). (h e, p e, j :: nat)) (x, i) ys)
           = insort_key (\<lambda>e. (h e, p e)) x (map fst ys)"
  using assms by (induction ys) (auto simp: less_eq_prod_def less_prod_def)

lemma sort_key_index_stable:
  "map fst (sort_key (\<lambda>(e, j). (h e, p e, j :: nat)) (zip xs [n..<n + length xs]))
     = sort_key (\<lambda>e. (h e :: int, p e :: int)) xs"
proof (induction xs arbitrary: n)
  case Nil
  then show ?case by simp
next
  case (Cons x xs)
  have z: "zip (x # xs) [n..<n + length (x # xs)] = (x, n) # zip xs [Suc n..<Suc n + length xs]"
    by (simp add: upt_conv_Cons del: upt_Suc)
  have "\<forall>(y, j) \<in> set (sort_key (\<lambda>(e, j). (h e, p e, j)) (zip xs [Suc n..<Suc n + length xs])). n < j"
    by (auto dest!: set_zip_rightD)
  from insort_key_inj_tiebreak[OF this, of h p x] Cons.IH[of "Suc n"] show ?case
    unfolding z by simp
qed

text \<open>
Ranking RPC endpoints is the stable sort by health, then priority, of the enabled endpoints of
the chain: no such endpoint is lost or duplicated, not even one that is down, and two endpoints of
equal rank keep their order.
\<close>

theorem rank_rpc_stable_sort:
  "rank_rpc_endpoints endpoints chain =
     sort_key (\<lambda>e. (health_rank (rpc_health e), rpc_priority e))
       (filter (\<lambda>e. rpc_chain e = chain \<and> rpc_enabled e) endpoints)
   \<and> mset (rank_rpc_endpoints endpoints chain) = filter_mset (\<lambda>e. rpc_chain e = chain \<and> rpc_enabled e) (mset endpoints)
   \<and> sorted (map (\<lambda>e. (health_rank (rpc_health e), rpc_priority e)) (rank_rpc_endpoints endpoints chain))"
proof -
  let ?kept = "filter (\<lambda>e. rpc_chain e = chain \<and> rpc_enabled e) endpoints"
  have "rank_rpc_endpoints endpoints chain = sort_key (\<lambda>e. (health_rank (rpc_health e), rpc_priority e)) ?kept"
    using sort_key_index_stable[of "\<lambda>e. health_rank (rpc_health e)" rpc_priority ?kept 0]
    by (simp add: rank_rpc_endpoints_def)
  then show ?thesis by simp
qed

section \<open>Properties of the schedule\<close>

fun phase_rank :: "fire_phase \<Rightarrow> nat" where
  "phase_rank (Waiting _) = 0"
| "phase_rank (HotPhase _) = 1"
| "phase_rank (Fire _) = 2"
| "phase_rank FireExpired = 3"

definition fire_window :: "fire_input \<Rightarrow> int \<Rightarrow> bool" where
  "fire_window i t \<longleftrightarrow> fi_stage_start i + fi_offset i - fi_lead i \<le> t \<and> t \<le> fi_stage_start i + fi_offset i + fi_continue i"

lemma fire_phase_Fire_iff:
  assumes "0 \<le> fi_hot_window i"
  shows "phase_rank (compute_fire_phase i) = 2 \<longleftrightarrow> fire_window i (fi_now i)"
  using assms by (auto simp: compute_fire_phase_def fire_window_def chain_time_to_local_ms_def Let_def)

text \<open>
The phases come in order: as the local clock moves on, a plan goes from waiting to hot to fire
to expired and never back; it fires exactly inside the window from the lead before the opening (on
the clock-corrected time) to the continuation after it; and sleeping for the reported time of a
waiting or hot phase ends exactly at the next phase's start.
\<close>

theorem fire_phase_progress:
  assumes "0 \<le> fi_hot_window i" and "0 \<le> d"
  shows "phase_rank (compute_fire_phase i) \<le> phase_rank (compute_fire_phase (i\<lparr>fi_now := fi_now i + d\<rparr>))
    \<and> (phase_rank (compute_fire_phase i) = 2 \<longleftrightarrow> fire_window i (fi_now i))
    \<and> (\<forall>w. compute_fire_phase i = Waiting w \<longrightarrow> 0 < w \<and> phase_rank (compute_fire_phase (i\<lparr>fi_now := fi_now i + w\<rparr>)) \<ge> 1
          \<and> (d < w \<longrightarrow> phase_rank (compute_fire_phase (i\<lparr>fi_now := fi_now i + d\<rparr>)) = 0))
    \<and> (\<forall>w. compute_fire_phase i = HotPhase w \<longrightarrow> 0 < w \<and> fi_now i + w = fi_stage_start i + fi_offset i - fi_lead i)"
  using assms fire_phase_Fire_iff[OF assms(1)]
  by (auto simp: compute_fire_phase_def chain_time_to_local_ms_def Let_def)

definition demo_fire :: fire_input where
  "demo_fire = \<lparr>fi_stage_start = 10000, fi_offset = 300, fi_now = 9000, fi_hot_window = 2000, fi_lead = 700, fi_continue = 4000\<rparr>"

lemma fire_phase_progress_witness:
  "phase_rank (compute_fire_phase demo_fire) \<le> phase_rank (compute_fire_phase (demo_fire\<lparr>fi_now := 9000 + 800\<rparr>))
   \<and> compute_fire_phase demo_fire = HotPhase 600"
  using fire_phase_progress[of demo_fire 800]
  by (simp add: demo_fire_def compute_fire_phase_def chain_time_to_local_ms_def)

text \<open>
The hot loop cannot miss an opening: if it ticks every \<open>step\<close> milliseconds, no slower than the
fire window is long, and started before the window closed, then one of its ticks computes the fire
phase.
\<close>

theorem hot_loop_hits_window:
  assumes "0 < step" and "step \<le> fi_lead i + fi_continue i" and "0 \<le> fi_hot_window i"
    and "fi_now i \<le> fi_stage_start i + fi_offset i + fi_continue i"
  shows "\<exists>n. phase_rank (compute_fire_phase (i\<lparr>fi_now := fi_now i + int n * step\<rparr>)) = 2"
proof -
  define open_at where "open_at = fi_stage_start i + fi_offset i - fi_lead i"
  define n where "n = (if fi_now i \<ge> open_at then 0 else (open_at - fi_now i + step - 1) div step)"
  have n0: "0 \<le> n" using assms(1) by (simp add: n_def pos_imp_zdiv_nonneg_iff)
  have "open_at \<le> fi_now i + n * step \<and> fi_now i + n * step \<le> open_at + fi_lead i + fi_continue i"
  proof (cases "fi_now i \<ge> open_at")
    case True
    with assms(4) show ?thesis by (simp add: n_def open_at_def)
  next
    case False
    let ?m = "open_at - fi_now i + step - 1"
    have "?m = n * step + ?m mod step" using False by (simp add: n_def)
    moreover have "0 \<le> ?m mod step" "?m mod step < step" using assms(1) by simp_all
    ultimately show ?thesis using assms(2) by linarith
  qed
  moreover obtain k where "n = int k" using n0 zero_le_imp_eq_int by blast
  ultimately have "fire_window (i\<lparr>fi_now := fi_now i + int k * step\<rparr>) (fi_now i + int k * step)"
    by (simp add: fire_window_def open_at_def)
  then have "phase_rank (compute_fire_phase (i\<lparr>fi_now := fi_now i + int k * step\<rparr>)) = 2"
    using fire_phase_Fire_iff[of "i\<lparr>fi_now := fi_now i + int k * step\<rparr>"] assms(3) by simp
  then show ?thesis ..
qed

lemma hot_loop_hits_window_witness:
  "\<exists>n. phase_rank (compute_fire_phase (demo_fire\<lparr>fi_now := 9000 + int n * 200\<rparr>)) = 2"
  using hot_loop_hits_window[of 200 demo_fire] by (simp add: demo_fire_def)

definition presign_of :: "fire_input \<Rightarrow> presign_input \<Rightarrow> presign_input" where
  "presign_of i p = p\<lparr>ps_stage_start := fi_stage_start i, ps_offset := fi_offset i, ps_now := fi_now i,
     ps_continue := fi_continue i\<rparr>"

text \<open>
Signing ahead and firing agree on time: on the same clock the pre-sign decision is expired
exactly when the fire phase is, so a blob is never dropped while its plan may still fire; and a blob
that is kept is at most \<open>ttl\<close> old and carries a nonce the chain has not moved past.
\<close>

theorem presign_agrees_with_fire:
  assumes "0 \<le> fi_hot_window i" and "0 \<le> fi_lead i" and "0 \<le> fi_continue i"
  shows "(decide_presign (presign_of i p) = PresignExpired \<longleftrightarrow> compute_fire_phase i = FireExpired)
    \<and> (decide_presign (presign_of i p) = Keep \<longrightarrow>
        (\<exists>sa n. ps_signed_at p = Some sa \<and> ps_nonce p = Some n \<and> fi_now i - sa \<le> ps_ttl p
           \<and> (\<forall>cur. ps_current_nonce p = Some cur \<longrightarrow> cur \<le> n)))"
  using assms
  by (auto simp: decide_presign_def compute_fire_phase_def presign_of_def chain_time_to_local_ms_def Let_def
      split: option.splits)

definition demo_presign :: presign_input where
  "demo_presign = \<lparr>ps_stage_start = 0, ps_offset = 0, ps_now = 0, ps_lead = 45000, ps_ttl = 20000,
     ps_signed_at = Some 8000, ps_nonce = Some 7, ps_current_nonce = Some 7, ps_continue = 0\<rparr>"

lemma presign_agrees_with_fire_witness:
  "decide_presign (presign_of demo_fire demo_presign) \<noteq> PresignExpired
   \<and> decide_presign (presign_of demo_fire demo_presign) = Keep"
proof -
  have "compute_fire_phase demo_fire \<noteq> FireExpired"
    by (simp add: demo_fire_def compute_fire_phase_def chain_time_to_local_ms_def)
  with presign_agrees_with_fire[of demo_fire demo_presign] show ?thesis
    by (simp add: demo_fire_def) (simp add: decide_presign_def presign_of_def demo_presign_def chain_time_to_local_ms_def)
qed

lemma clock_offset_roundtrip:
  "to_chain_time_ms (chain_time_to_local_ms t offset) offset = t"
  "to_chain_time_ms local_now (compute_clock_offset_ms local_now ts) = ts * 1000"
  by (simp_all add: to_chain_time_ms_def chain_time_to_local_ms_def compute_clock_offset_ms_def)

end
