(* ===== verification/Stages.thy ===== *)
theory Stages
  imports Prelude
begin

text \<open>
  Drop stages and what is computed from them (\<open>packages/core/src\<close>): \<open>time.ts\<close> (timestamp
  parsing), \<open>stages.ts\<close> (half-open windows, current and next stage), \<open>status.ts\<close> (lifecycle),
  \<open>schedule.ts\<close> (eligibility re-check delays, freshness) and \<open>stage-alerts.ts\<close>.
  Every comparison parses its timestamps first, so each operation may throw on an invalid one;
  \<open>wf_stage\<close> is the condition under which none does, and under it the operations equal
  conditions on the stage's start and end in milliseconds.
\<close>

section \<open>Timestamps\<close>

definition parse_utc :: "utc \<Rightarrow> js_error + int" where
  "parse_utc value = (case value of None \<Rightarrow> Inl (RangeError ''invalid timestamp'') | Some t \<Rightarrow> Inr t)"

lemma parse_utc_simps [simp]: "parse_utc (Some t) = Inr t" "parse_utc None = Inl (RangeError ''invalid timestamp'')"
  by (simp_all add: parse_utc_def)

definition milliseconds_between :: "js_date \<Rightarrow> js_date \<Rightarrow> js_date" where
  "milliseconds_between a b = (case (a, b) of (Some x, Some y) \<Rightarrow> Some (x - y) | _ \<Rightarrow> None)"

section \<open>Stages\<close>

datatype stage_kind = Public | Allowlist | Presale | Gtd | Community | UnknownKind

record stage_view =
  label :: string
  kind :: stage_kind
  starts_at :: utc
  ends_at :: "utc option"
  stage_paused :: bool

definition is_restricted_stage :: "stage_kind \<Rightarrow> bool" where
  "is_restricted_stage k \<longleftrightarrow> k \<noteq> Public"

definition stage_starts_before :: "stage_view \<Rightarrow> utc \<Rightarrow> js_error + bool" where
  "stage_starts_before stage iso_now =
     rbind (parse_utc (starts_at stage)) (\<lambda>s. rbind (parse_utc iso_now) (\<lambda>now. Inr (s \<le> now)))"

definition is_stage_live :: "stage_view \<Rightarrow> utc \<Rightarrow> js_error + bool" where
  "is_stage_live stage iso_now =
     rbind (parse_utc iso_now) (\<lambda>now.
     rbind (parse_utc (starts_at stage)) (\<lambda>s.
       if s > now then Inr False
       else (case ends_at stage of
               None \<Rightarrow> Inr True
             | Some e \<Rightarrow> rbind (parse_utc e) (\<lambda>e. if e \<le> now then Inr False else Inr True))))"

record windowed_stage =
  w_stage :: stage_view
  ms_until_start :: int
  ms_until_end :: "int option"

definition window_of :: "int \<Rightarrow> stage_view \<Rightarrow> js_error + windowed_stage" where
  "window_of now stage =
     rbind (parse_utc (starts_at stage)) (\<lambda>s.
       case ends_at stage of
         None \<Rightarrow> Inr \<lparr>w_stage = stage, ms_until_start = s - now, ms_until_end = None\<rparr>
       | Some e \<Rightarrow> rbind (parse_utc e) (\<lambda>e.
           Inr \<lparr>w_stage = stage, ms_until_start = s - now, ms_until_end = Some (e - now)\<rparr>))"

definition windowed_stages :: "stage_view list \<Rightarrow> utc \<Rightarrow> js_error + windowed_stage list" where
  "windowed_stages stages iso_now =
     rbind (parse_utc iso_now) (\<lambda>now.
       rmap (sort_key ms_until_start) (rmap_list (window_of now) stages))"

definition window_open :: "windowed_stage \<Rightarrow> bool" where
  "window_open w \<longleftrightarrow> ms_until_start w \<le> 0 \<and> (case ms_until_end w of None \<Rightarrow> True | Some e \<Rightarrow> e > 0)"

definition current_stage :: "stage_view list \<Rightarrow> utc \<Rightarrow> js_error + stage_view option" where
  "current_stage stages iso_now =
     rmap (\<lambda>ws. map_option w_stage (List.find (\<lambda>w. window_open w \<and> \<not> stage_paused (w_stage w)) ws))
       (windowed_stages stages iso_now)"

definition next_stage :: "stage_view list \<Rightarrow> utc \<Rightarrow> js_error + stage_view option" where
  "next_stage stages iso_now =
     rmap (\<lambda>ws. let candidates = map w_stage (filter (\<lambda>w. ms_until_start w > 0 \<and> \<not> stage_paused (w_stage w)) ws)
                in (case candidates of [] \<Rightarrow> None | s # _ \<Rightarrow> Some s))
       (windowed_stages stages iso_now)"

definition relevant_stage :: "stage_view list \<Rightarrow> utc \<Rightarrow> js_error + stage_view option" where
  "relevant_stage stages iso_now =
     rbind (current_stage stages iso_now) (\<lambda>c.
       case c of Some s \<Rightarrow> Inr (Some s) | None \<Rightarrow> next_stage stages iso_now)"

section \<open>Lifecycle\<close>

datatype lifecycle_status = LIVE | NEXT | ENDED | SOLD_OUT | PAUSED | UNKNOWN

record supply_facts =
  minted :: "int option"
  max_supply :: "int option"
  verified :: bool

record status_input =
  si_stages :: "stage_view list"
  si_now :: utc
  si_paused :: "bool option"
  si_supply :: supply_facts

definition supply_exhausted :: "supply_facts \<Rightarrow> bool" where
  "supply_exhausted s \<longleftrightarrow> verified s \<and>
     (case (minted s, max_supply s) of (Some m, Some x) \<Rightarrow> m \<ge> x | _ \<Rightarrow> False)"

definition stage_ended :: "utc \<Rightarrow> stage_view \<Rightarrow> js_error + bool" where
  "stage_ended iso_now stage =
     (case ends_at stage of
        None \<Rightarrow> Inr False
      | Some e \<Rightarrow> rbind (parse_utc e) (\<lambda>e. rbind (parse_utc iso_now) (\<lambda>now. Inr (e \<le> now))))"

definition compute_lifecycle :: "status_input \<Rightarrow> js_error + lifecycle_status" where
  "compute_lifecycle inp =
     (let stages = si_stages inp; iso_now = si_now inp; paused = si_paused inp; supply = si_supply inp in
      if stages = [] \<and> paused \<noteq> Some True then Inr UNKNOWN
      else if supply_exhausted supply then Inr SOLD_OUT
      else rbind (rfind (\<lambda>s. is_stage_live s iso_now) stages) (\<lambda>live_stage.
        case live_stage of
          Some s \<Rightarrow>
            if stage_paused s \<or> paused = Some True then Inr PAUSED
            else if supply_exhausted supply then Inr SOLD_OUT
            else Inr LIVE
        | None \<Rightarrow>
            rbind (windowed_stages stages iso_now) (\<lambda>ws.
              let has_future_stage = list_ex (\<lambda>w. ms_until_start w > 0) ws in
              if paused = Some True then Inr (if has_future_stage then PAUSED else ENDED)
              else if has_future_stage then Inr NEXT
              else rbind (rall (stage_ended iso_now) stages) (\<lambda>all_ended.
                Inr (if all_ended then ENDED else UNKNOWN)))))"

definition remaining_supply :: "supply_facts \<Rightarrow> int option" where
  "remaining_supply s =
     (if verified s then
        (case (minted s, max_supply s) of (Some m, Some x) \<Rightarrow> Some (x - m) | _ \<Rightarrow> None)
      else None)"

text \<open>BigInt division truncates towards zero; \<open>Number\<close> and the division by 100 round to doubles.\<close>

definition bigint_div :: "int \<Rightarrow> int \<Rightarrow> int" where
  "bigint_div a b = sgn a * sgn b * (\<bar>a\<bar> div \<bar>b\<bar>)"

definition minted_percentage :: "supply_facts \<Rightarrow> rat option" where
  "minted_percentage s =
     (if \<not> verified s then None
      else (case (minted s, max_supply s) of
              (Some m, Some x) \<Rightarrow>
                if x = 0 then None else Some (ddiv (fl (of_int (bigint_div (m * 10000) x))) 100)
            | _ \<Rightarrow> None))"

section \<open>Eligibility scheduling and freshness\<close>

definition sched_far :: int where "sched_far = 6 * 60 * 60 * 1000"
definition sched_near :: int where "sched_near = 30 * 60 * 1000"
definition sched_imminent :: int where "sched_imminent = 5 * 60 * 1000"

record schedule_input =
  sc_stages :: "stage_view list"
  sc_lifecycle :: lifecycle_status
  sc_now :: utc
  sc_eligible :: bool

definition eligibility_retry_delay_ms :: "schedule_input \<Rightarrow> js_error + int option" where
  "eligibility_retry_delay_ms inp =
     (if sc_lifecycle inp = ENDED \<or> sc_lifecycle inp = SOLD_OUT then Inr None
      else rbind (relevant_stage (sc_stages inp) (sc_now inp)) (\<lambda>stage.
        case stage of
          None \<Rightarrow> Inr (if sc_lifecycle inp = UNKNOWN then Some sched_near else None)
        | Some stage \<Rightarrow>
            rbind (parse_utc (sc_now inp)) (\<lambda>now.
            rbind (parse_utc (starts_at stage)) (\<lambda>start.
            rbind (case ends_at stage of None \<Rightarrow> Inr None | Some e \<Rightarrow> rmap Some (parse_utc e)) (\<lambda>end.
              let live = (start \<le> now \<and> (case end of None \<Rightarrow> True | Some e \<Rightarrow> now < e)) in
              if live then Inr (Some (if sc_eligible inp then sched_near else sched_imminent))
              else let ms_until = start - now in
                if ms_until > 24 * 60 * 60 * 1000 then Inr (Some sched_far)
                else if ms_until > 60 * 60 * 1000 then Inr (Some sched_near)
                else Inr (Some sched_imminent))))))"

definition next_eligibility_due_at :: "schedule_input \<Rightarrow> js_error + int option" where
  "next_eligibility_due_at inp =
     rbind (eligibility_retry_delay_ms inp) (\<lambda>delay.
       case delay of
         None \<Rightarrow> Inr None
       | Some d \<Rightarrow> rbind (parse_utc (sc_now inp)) (\<lambda>now. Inr (Some (now + d))))"

datatype freshness = Hot | Warm | Cold

definition freshness_bucket :: "stage_view list \<Rightarrow> utc \<Rightarrow> js_error + freshness" where
  "freshness_bucket stages iso_now =
     rbind (windowed_stages stages iso_now) (\<lambda>windows.
     rbind (parse_utc iso_now) (\<lambda>now.
       if list_ex window_open windows then Inr Hot
       else (case List.find (\<lambda>w. ms_until_start w > 0) windows of
               None \<Rightarrow> Inr Cold
             | Some nearest \<Rightarrow>
                 Inr (if now + ms_until_start nearest - now < 24 * 60 * 60 * 1000 then Warm else Cold))))"

definition freshness_interval :: "freshness \<Rightarrow> int" where
  "freshness_interval b =
     (case b of Hot \<Rightarrow> 5 * 60 * 1000 | Warm \<Rightarrow> 30 * 60 * 1000 | Cold \<Rightarrow> 6 * 60 * 60 * 1000)"

section \<open>Stage-starting alert windows\<close>

definition due_stage_starting_windows :: "int \<Rightarrow> int list \<Rightarrow> int list" where
  "due_stage_starting_windows ms_until windows =
     (if ms_until \<le> 0 then [] else filter (\<lambda>minutes. ms_until \<le> minutes * 60000) windows)"

section \<open>Stages whose timestamps parse\<close>

definition wf_stage :: "stage_view \<Rightarrow> bool" where
  "wf_stage s \<longleftrightarrow> starts_at s \<noteq> None \<and> ends_at s \<noteq> Some None"

definition start_ms :: "stage_view \<Rightarrow> int" where
  "start_ms s = the (starts_at s)"

definition end_ms :: "stage_view \<Rightarrow> int option" where
  "end_ms s = map_option the (ends_at s)"

text \<open>The half-open window of a stage, the reference the operations are compared with.\<close>

definition open_at :: "stage_view \<Rightarrow> int \<Rightarrow> bool" where
  "open_at s now \<longleftrightarrow> start_ms s \<le> now \<and> (case end_ms s of None \<Rightarrow> True | Some e \<Rightarrow> now < e)"

definition over_at :: "stage_view \<Rightarrow> int \<Rightarrow> bool" where
  "over_at s now \<longleftrightarrow> (case end_ms s of None \<Rightarrow> False | Some e \<Rightarrow> e \<le> now)"

definition win :: "int \<Rightarrow> stage_view \<Rightarrow> windowed_stage" where
  "win now s = \<lparr>w_stage = s, ms_until_start = start_ms s - now, ms_until_end = map_option (\<lambda>e. e - now) (end_ms s)\<rparr>"

named_theorems stage_simps \<open>rules of well-formed stages\<close>

lemma wf_stageE:
  assumes "wf_stage s"
  obtains a where "starts_at s = Some a" "ends_at s = None" | a b where "starts_at s = Some a" "ends_at s = Some (Some b)"
  using assms by (cases "ends_at s") (auto simp: wf_stage_def)

lemma is_stage_live_wf [stage_simps]: "wf_stage s \<Longrightarrow> is_stage_live s (Some now) = Inr (open_at s now)"
  by (erule wf_stageE) (auto simp: is_stage_live_def open_at_def start_ms_def end_ms_def)

lemma stage_ended_wf [stage_simps]: "wf_stage s \<Longrightarrow> stage_ended (Some now) s = Inr (over_at s now)"
  by (erule wf_stageE) (auto simp: stage_ended_def over_at_def end_ms_def)

lemma window_of_wf [stage_simps]: "wf_stage s \<Longrightarrow> window_of now s = Inr (win now s)"
  by (erule wf_stageE) (auto simp: window_of_def win_def start_ms_def end_ms_def)

lemma win_sel [simp]: "w_stage (win now s) = s" "ms_until_start (win now s) = start_ms s - now"
  by (simp_all add: win_def)

lemma window_open_win [simp]: "window_open (win now s) = open_at s now"
  by (auto simp: window_open_def win_def open_at_def split: option.splits)

lemma windowed_stages_wf [stage_simps]:
  assumes "list_all wf_stage stages"
  shows "windowed_stages stages (Some now) = Inr (map (win now) (sort_key start_ms stages))"
proof -
  have "rmap_list (window_of now) stages = Inr (map (win now) stages)"
    using assms by (intro rmap_list_total) (auto simp: list_all_iff stage_simps)
  moreover have "sort_key ms_until_start (map (win now) stages) = map (win now) (sort_key start_ms stages)"
  proof (induction stages)
    case (Cons s ss)
    have ins: "insort_key ms_until_start (win now s) (map (win now) xs) = map (win now) (insort_key start_ms s xs)" for xs
      by (induction xs) auto
    from Cons.IH ins show ?case by simp
  qed simp
  ultimately show ?thesis by (simp add: windowed_stages_def)
qed

lemma find_map_win: "List.find P (map (win now) xs) = map_option (win now) (List.find (P \<circ> win now) xs)"
  by (induction xs) auto

lemma current_stage_wf [stage_simps]:
  "list_all wf_stage stages \<Longrightarrow>
   current_stage stages (Some now) =
     Inr (List.find (\<lambda>s. open_at s now \<and> \<not> stage_paused s) (sort_key start_ms stages))"
  by (simp add: current_stage_def windowed_stages_wf find_map_win o_def option.map_comp option.map_ident)

lemma next_stage_wf [stage_simps]:
  "list_all wf_stage stages \<Longrightarrow>
   next_stage stages (Some now) =
     Inr (List.find (\<lambda>s. start_ms s > now \<and> \<not> stage_paused s) (sort_key start_ms stages))"
  by (simp add: next_stage_def windowed_stages_wf find_eq_hd_filter filter_map o_def Let_def
      map_idI split: list.splits)

lemma list_ex_future [stage_simps]:
  "list_ex (\<lambda>w. ms_until_start w > 0) (map (win now) (sort_key start_ms stages))
     = (\<exists>s \<in> set stages. start_ms s > now)"
  by (auto simp: list_ex_iff)


lemma open_not_over: "open_at s now \<Longrightarrow> \<not> over_at s now \<and> \<not> start_ms s > now"
  by (auto simp: open_at_def over_at_def split: option.splits)

lemma windowed_order:
  "list_all wf_stage stages \<Longrightarrow>
   \<exists>ws. windowed_stages stages (Some now) = Inr ws \<and> sorted (map ms_until_start ws)
     \<and> mset (map w_stage ws) = mset stages"
proof -
  assume wf: "list_all wf_stage stages"
  let ?ws = "map (win now) (sort_key start_ms stages)"
  have "sorted (map start_ms (sort_key start_ms stages))" by simp
  then have "sorted (map ms_until_start ?ws)" by (simp add: sorted_wrt_map sorted_map o_def)
  moreover have "map w_stage ?ws = sort_key start_ms stages" by (simp add: map_idI o_def)
  then have "mset (map w_stage ?ws) = mset stages" by (simp only: mset_sort)
  ultimately show ?thesis using windowed_stages_wf[OF wf, of now] by blast
qed

text \<open>The lifecycle over milliseconds, without the error plumbing.\<close>

definition lifecycle_at :: "stage_view list \<Rightarrow> int \<Rightarrow> bool \<Rightarrow> bool \<Rightarrow> lifecycle_status" where
  "lifecycle_at stages now paused exhausted =
     (if stages = [] \<and> \<not> paused then UNKNOWN
      else if exhausted then SOLD_OUT
      else (case List.find (\<lambda>s. open_at s now) stages of
              Some s \<Rightarrow> if stage_paused s \<or> paused then PAUSED else LIVE
            | None \<Rightarrow>
                let future = (\<exists>s \<in> set stages. start_ms s > now) in
                if paused then (if future then PAUSED else ENDED)
                else if future then NEXT
                else if list_all (\<lambda>s. over_at s now) stages then ENDED else UNKNOWN))"

lemma compute_lifecycle_wf:
  assumes "list_all wf_stage (si_stages i)" and "si_now i = Some now"
  shows "compute_lifecycle i =
    Inr (lifecycle_at (si_stages i) now (si_paused i = Some True) (supply_exhausted (si_supply i)))"
proof -
  have live: "rfind (\<lambda>s. is_stage_live s (Some now)) (si_stages i) = Inr (List.find (\<lambda>s. open_at s now) (si_stages i))"
    using assms(1) by (intro rfind_total) (auto simp: list_all_iff stage_simps)
  have ended: "rall (stage_ended (Some now)) (si_stages i) = Inr (list_all (\<lambda>s. over_at s now) (si_stages i))"
    using assms(1) by (intro rall_total) (auto simp: list_all_iff stage_simps)
  show ?thesis
    unfolding compute_lifecycle_def lifecycle_at_def Let_def assms(2) live windowed_stages_wf[OF assms(1)] rbind_simps
      ended list_ex_future
    by (auto split: option.split)
qed

lemma lifecycle_at_sound:
  "(lifecycle_at ss now p x = LIVE \<longrightarrow> (\<exists>s \<in> set ss. open_at s now \<and> \<not> stage_paused s) \<and> \<not> p \<and> \<not> x)
   \<and> (lifecycle_at ss now p x = NEXT \<longrightarrow> (\<exists>s \<in> set ss. now < start_ms s) \<and> (\<forall>s \<in> set ss. \<not> open_at s now))
   \<and> (lifecycle_at ss now p x = ENDED \<longrightarrow> (\<forall>s \<in> set ss. \<not> open_at s now \<and> start_ms s \<le> now))
   \<and> (lifecycle_at ss now p x = SOLD_OUT \<longleftrightarrow> x \<and> (ss \<noteq> [] \<or> p))
   \<and> (lifecycle_at ss now p x = UNKNOWN \<longrightarrow> (\<forall>s \<in> set ss. \<not> open_at s now \<and> start_ms s \<le> now))"
proof (cases "List.find (\<lambda>s. open_at s now) ss")
  case None
  then have "\<forall>s \<in> set ss. \<not> open_at s now" by (simp add: find_None_iff)
  then show ?thesis by (auto simp: lifecycle_at_def Let_def None not_less)
next
  case (Some s)
  with find_SomeD[OF Some] show ?thesis by (auto simp: lifecycle_at_def Let_def)
qed

section \<open>Properties\<close>

text \<open>
C32 The lifecycle status is sound for every well-formed input, on each of its branches: the
computation never throws; LIVE is reported only while an unpaused stage is open, the source did
not report a pause and the supply is not verifiably exhausted; NEXT only with a future stage and
none open; ENDED only with no open and no future stage; SOLD_OUT exactly when verified supply is
exhausted and there is something to report on; UNKNOWN never while a stage is open or in the future.
\<close>

theorem lifecycle_sound:
  assumes "list_all wf_stage (si_stages i)" and "si_now i = Some now"
  shows "\<exists>st. compute_lifecycle i = Inr st
    \<and> (st = LIVE \<longrightarrow> (\<exists>s \<in> set (si_stages i). open_at s now \<and> \<not> stage_paused s)
          \<and> si_paused i \<noteq> Some True \<and> \<not> supply_exhausted (si_supply i))
    \<and> (st = NEXT \<longrightarrow> (\<exists>s \<in> set (si_stages i). now < start_ms s) \<and> (\<forall>s \<in> set (si_stages i). \<not> open_at s now))
    \<and> (st = ENDED \<longrightarrow> (\<forall>s \<in> set (si_stages i). \<not> open_at s now \<and> start_ms s \<le> now))
    \<and> (st = SOLD_OUT \<longleftrightarrow> supply_exhausted (si_supply i) \<and> (si_stages i \<noteq> [] \<or> si_paused i = Some True))
    \<and> (st = UNKNOWN \<longrightarrow> (\<forall>s \<in> set (si_stages i). \<not> open_at s now \<and> start_ms s \<le> now))"
  unfolding compute_lifecycle_wf[OF assms]
  using lifecycle_at_sound[of "si_stages i" now "si_paused i = Some True" "supply_exhausted (si_supply i)"]
  by blast

definition demo_stage :: "int \<Rightarrow> int \<Rightarrow> bool \<Rightarrow> stage_view" where
  "demo_stage s e p = \<lparr>label = ''phase'', kind = Public, starts_at = Some s, ends_at = Some (Some e), stage_paused = p\<rparr>"

definition no_supply :: supply_facts where
  "no_supply = \<lparr>minted = None, max_supply = None, verified = False\<rparr>"

lemma demo_stage_wf [simp]: "wf_stage (demo_stage s e p)"
  by (simp add: demo_stage_def wf_stage_def)

lemma demo_stage_sel [simp]:
  "open_at (demo_stage s e p) now \<longleftrightarrow> s \<le> now \<and> now < e" "start_ms (demo_stage s e p) = s"
  "stage_paused (demo_stage s e p) = p" "starts_at (demo_stage s e p) = Some s"
  "ends_at (demo_stage s e p) = Some (Some e)"
  by (auto simp: demo_stage_def open_at_def start_ms_def end_ms_def)

lemma lifecycle_sound_witness:
  "\<exists>st. compute_lifecycle \<lparr>si_stages = [demo_stage 10 20 False], si_now = Some 15, si_paused = None, si_supply = no_supply\<rparr> = Inr st
     \<and> st \<noteq> NEXT"
  using lifecycle_sound[of "\<lparr>si_stages = [demo_stage 10 20 False], si_now = Some 15, si_paused = None, si_supply = no_supply\<rparr>" 15]
  by auto

text \<open>
The status looks only at the FIRST open stage in the order given, paused or not: when that
stage is paused the project is reported PAUSED (if the supply is not exhausted), whatever other
stages are open. A superseded phase, kept as a paused row, therefore hides a live one.
\<close>

theorem lifecycle_first_open_paused:
  assumes "list_all wf_stage (si_stages i)" and "si_now i = Some now"
    and "List.find (\<lambda>s. open_at s now) (si_stages i) = Some s" and "stage_paused s"
    and "\<not> supply_exhausted (si_supply i)"
  shows "compute_lifecycle i = Inr PAUSED"
proof -
  have "si_stages i \<noteq> []" using assms(3) by auto
  with assms(3-5) show ?thesis unfolding compute_lifecycle_wf[OF assms(1,2)] by (simp add: lifecycle_at_def)
qed

lemma lifecycle_first_open_paused_witness:
  "compute_lifecycle \<lparr>si_stages = [demo_stage 5 20 True, demo_stage 10 20 False], si_now = Some 15,
      si_paused = None, si_supply = no_supply\<rparr> = Inr PAUSED
   \<and> current_stage [demo_stage 5 20 True, demo_stage 10 20 False] (Some 15) = Inr (Some (demo_stage 10 20 False))"
  using lifecycle_first_open_paused[of "\<lparr>si_stages = [demo_stage 5 20 True, demo_stage 10 20 False], si_now = Some 15,
      si_paused = None, si_supply = no_supply\<rparr>" 15 "demo_stage 5 20 True"]
  by (simp add: supply_exhausted_def no_supply_def current_stage_wf)

text \<open>
The stage a feed row summarises is never a paused one. It is an open stage with the earliest
start among the open unpaused ones, if there is one; else the unpaused stage that starts next; and
nothing only when no unpaused stage is open or to come.
\<close>

theorem relevant_stage_optimal:
  assumes "list_all wf_stage stages"
  shows "\<exists>r. relevant_stage stages (Some now) = Inr r \<and>
    (case r of
       None \<Rightarrow> \<forall>s \<in> set stages. stage_paused s \<or> (\<not> open_at s now \<and> start_ms s \<le> now)
     | Some s \<Rightarrow> s \<in> set stages \<and> \<not> stage_paused s \<and>
         (open_at s now \<and> (\<forall>t \<in> set stages. open_at t now \<and> \<not> stage_paused t \<longrightarrow> start_ms s \<le> start_ms t)
          \<or> now < start_ms s
            \<and> (\<forall>t \<in> set stages. \<not> stage_paused t \<longrightarrow> \<not> open_at t now \<and> (now < start_ms t \<longrightarrow> start_ms s \<le> start_ms t))))"
proof -
  let ?p = "\<lambda>s. open_at s now \<and> \<not> stage_paused s" and ?q = "\<lambda>s. start_ms s > now \<and> \<not> stage_paused s"
  let ?ss = "sort_key start_ms stages"
  have r: "relevant_stage stages (Some now) =
      Inr (case List.find ?p ?ss of Some s \<Rightarrow> Some s | None \<Rightarrow> List.find ?q ?ss)"
    unfolding relevant_stage_def current_stage_wf[OF assms] next_stage_wf[OF assms] rbind_simps
    by (simp split: option.split)
  note p = find_sort_key_min[of ?p start_ms stages] find_SomeD[of ?p ?ss] find_sort_key_None[of ?p start_ms stages]
  note q = find_sort_key_min[of ?q start_ms stages] find_SomeD[of ?q ?ss] find_sort_key_None[of ?q start_ms stages]
  show ?thesis
  proof (cases "List.find ?p ?ss")
    case (Some s)
    with p(1)[OF Some] p(2)[OF Some] show ?thesis unfolding r by simp
  next
    case None
    then have none: "\<forall>t \<in> set stages. \<not> ?p t" using p(3) by blast
    show ?thesis
    proof (cases "List.find ?q ?ss")
      case None2: None
      then have "\<forall>t \<in> set stages. \<not> ?q t" using q(3) by blast
      with none show ?thesis unfolding r None None2 by (auto simp: not_less)
    next
      case (Some s)
      with q(1)[OF Some] q(2)[OF Some] none show ?thesis unfolding r None Some by auto
    qed
  qed
qed

lemma relevant_stage_optimal_witness:
  "relevant_stage [demo_stage 30 40 False, demo_stage 20 25 True] (Some 15) = Inr (Some (demo_stage 30 40 False))"
proof -
  have "list_all wf_stage [demo_stage 30 40 False, demo_stage 20 25 True]" by simp
  from relevant_stage_optimal[OF this, of 15] show ?thesis
    by (simp add: relevant_stage_def current_stage_wf next_stage_wf)
qed

lemma retry_delay_wf:
  assumes "list_all wf_stage (sc_stages i)" and "sc_now i = Some now"
    and "sc_lifecycle i \<notin> {ENDED, SOLD_OUT}" and "relevant_stage (sc_stages i) (Some now) = Inr (Some s)"
    and "s \<in> set (sc_stages i)"
  shows "eligibility_retry_delay_ms i = Inr (Some
    (if open_at s now then (if sc_eligible i then sched_near else sched_imminent)
     else if start_ms s - now > 24 * ms_hour then sched_far
     else if start_ms s - now > ms_hour then sched_near else sched_imminent))"
proof -
  have "wf_stage s" using assms(1,5) by (simp add: list_all_iff)
  then show ?thesis
    by (rule wf_stageE)
      (use assms(3) in \<open>simp_all add: eligibility_retry_delay_ms_def assms(2,4) open_at_def start_ms_def end_ms_def Let_def\<close>)
qed

text \<open>
Rechecks never sleep through an opening. While a project is neither ended nor sold out and some
stage is relevant, the next eligibility check is scheduled, one of 5 minutes, 30 minutes or 6 hours
from now; for a stage still to come it is due before the stage opens, or within 5 minutes.
\<close>

theorem recheck_before_start:
  assumes "list_all wf_stage (sc_stages i)" and "sc_now i = Some now"
    and "sc_lifecycle i \<notin> {ENDED, SOLD_OUT}" and "relevant_stage (sc_stages i) (Some now) = Inr (Some s)"
  shows "\<exists>due. next_eligibility_due_at i = Inr (Some due)
    \<and> due - now \<in> {sched_imminent, sched_near, sched_far}
    \<and> (\<not> open_at s now \<longrightarrow> due < start_ms s \<or> due - now = sched_imminent)
    \<and> (open_at s now \<and> \<not> sc_eligible i \<longrightarrow> due - now = sched_imminent)"
proof -
  have "s \<in> set (sc_stages i)" using relevant_stage_optimal[OF assms(1), of now] assms(4) by auto
  from retry_delay_wf[OF assms this] show ?thesis
    using assms(2) by (auto simp: next_eligibility_due_at_def sched_far_def sched_near_def sched_imminent_def)
qed

lemma recheck_before_start_witness:
  "\<exists>due. next_eligibility_due_at \<lparr>sc_stages = [demo_stage 8000000 9000000 False], sc_lifecycle = NEXT,
      sc_now = Some 0, sc_eligible = False\<rparr> = Inr (Some due) \<and> due < 8000000"
proof -
  let ?i = "\<lparr>sc_stages = [demo_stage 8000000 9000000 False], sc_lifecycle = NEXT, sc_now = Some 0, sc_eligible = False\<rparr>"
  have "relevant_stage (sc_stages ?i) (Some 0) = Inr (Some (demo_stage 8000000 9000000 False))"
    by (simp add: relevant_stage_def current_stage_wf next_stage_wf)
  with recheck_before_start[of ?i 0 "demo_stage 8000000 9000000 False"] show ?thesis
    by (auto simp: sched_imminent_def)
qed

text \<open>
An alert window once crossed stays due until the stage starts: while the time to the start
shrinks and is still positive, the due windows only grow, they are always among the configured
ones in the configured order, and once the stage has started nothing is due.
\<close>

theorem due_windows_monotone:
  assumes "0 < later" and "later \<le> earlier"
  shows "\<exists>missed. set (due_stage_starting_windows later ws)
           = set (due_stage_starting_windows earlier ws) \<union> missed
      \<and> (\<forall>m \<in> missed. later \<le> m * 60000 \<and> m * 60000 < earlier)
      \<and> due_stage_starting_windows later ws = filter (\<lambda>m. m \<in> set (due_stage_starting_windows later ws)) ws
      \<and> due_stage_starting_windows (later - earlier) ws = []"
proof -
  have "due_stage_starting_windows later ws = filter (\<lambda>m. m \<in> set (due_stage_starting_windows later ws)) ws"
    using assms by (auto simp: due_stage_starting_windows_def intro: filter_cong)
  moreover have "set (due_stage_starting_windows later ws)
      = set (due_stage_starting_windows earlier ws) \<union> {m \<in> set ws. later \<le> m * 60000 \<and> m * 60000 < earlier}"
    using assms by (auto simp: due_stage_starting_windows_def)
  moreover have "due_stage_starting_windows (later - earlier) ws = []"
    using assms by (simp add: due_stage_starting_windows_def)
  ultimately show ?thesis by blast
qed

lemma due_windows_monotone_witness:
  "\<exists>missed. set (due_stage_starting_windows 240000 [60, 15, 5]) = set (due_stage_starting_windows 600000 [60, 15, 5]) \<union> missed"
  using due_windows_monotone[of 240000 600000 "[60, 15, 5]"] by auto

end
