(* ===== verification/MintPlans.thy ===== *)
theory MintPlans
  imports FirePolicy Stages
begin

text \<open>
  The execution tables and every query of packages/db/src/repositories/execution.ts: signers, mint
  plans and execution attempts, with the stages, wallets and projects they are joined with and the
  events the queries publish. A table is the list of its rows in physical order, which is the order
  Postgres may return ties in; a \<open>timestamptz\<close> is its instant in ms (\<open>None\<close> is SQL NULL); a comparison
  with NULL is false. Columns nothing below reads back (\<open>simulation_result\<close>, gas used, evidence ids)
  are left out of the rows. The clock a function reads (\<open>new Date()\<close>, or SQL \<open>now()\<close>) and the id
  \<open>gen_random_uuid()\<close> draws are arguments.

  Below the queries: the status graph of a plan as an abstract machine that every query refines, the
  claim's safety and exclusivity, and the life of a pre-signed transaction.
\<close>

section \<open>Rows\<close>

record raw_tx =
  tx_to :: string
  tx_data :: string
  tx_value :: string
  tx_chain :: int

record mint_plan =
  mp_id :: string
  mp_project :: string
  mp_stage :: "string option"
  mp_fire_at :: "int option"
  mp_signer :: "string option"
  mp_wallet :: string
  mp_quantity :: int
  mp_ceiling :: string
  mp_status :: mint_plan_status
  mp_armed_at :: "int option"
  mp_armed_until :: "int option"
  mp_armed_by :: "string option"
  mp_cached_tx :: "raw_tx option"
  mp_cached_at :: "int option"
  mp_raw :: "string option"
  mp_nonce :: "int option"
  mp_hash :: "string option"
  mp_presigned_at :: "int option"
  mp_created :: int
  mp_updated :: int

datatype attempt_status =
  Simulating | SimulatedOk | SimulatedRevert | AwaitingSignature | Broadcast | ProvisionalSuccess
  | Confirmed | AttemptFailed

record attempt =
  at_id :: string
  at_plan :: string
  at_status :: attempt_status
  at_pending :: "raw_tx option"
  at_hash :: "string option"
  at_error :: "string option"
  at_time :: int

datatype scheme_kind = BrowserWallet | Eip7702SafeZodiac | CustomExecutor | ManagedWalletKey

datatype signer_state = SignerPending | SignerActive | SignerRevoked

record signer =
  sg_id :: string
  sg_chain :: int
  sg_owner :: string
  sg_scheme :: scheme_kind
  sg_delegate :: "string option"
  sg_session_key :: "string option"
  sg_ceiling :: "string option"
  sg_status :: signer_state
  sg_created :: int

record drop_stage =
  ds_id :: string
  ds_project :: string
  ds_label :: string
  ds_type :: stage_kind
  ds_price :: "string option"
  ds_currency :: "string option"
  ds_max_per_wallet :: "int option"
  ds_starts :: int
  ds_paused :: bool

record wallet =
  wl_id :: string
  wl_address :: string
  wl_label :: "string option"
  wl_enabled :: bool
  wl_key :: "string option"
  wl_balance :: "string option"

record project =
  pr_id :: string
  pr_name :: string
  pr_slug :: "string option"
  pr_contract :: "string option"
  pr_chain :: int

record event =
  ev_type :: string
  ev_project :: string
  ev_at :: int

record db =
  plans :: "mint_plan list"
  attempts :: "attempt list"
  signers :: "signer list"
  stages :: "drop_stage list"
  wallets :: "wallet list"
  projects :: "project list"
  events :: "event list"

section \<open>Signers\<close>

record signer_input =
  si_chain :: int
  si_owner :: string
  si_scheme :: scheme_kind
  si_delegate :: "string option"
  si_session_key :: "string option"
  si_ceiling :: "string option"

definition create_signer :: "signer_input \<Rightarrow> string \<Rightarrow> int \<Rightarrow> db \<Rightarrow> signer \<times> db" where
  "create_signer i new_id now d =
     (let row = \<lparr>sg_id = new_id, sg_chain = si_chain i, sg_owner = to_lower (si_owner i),
                 sg_scheme = si_scheme i, sg_delegate = si_delegate i,
                 sg_session_key = si_session_key i, sg_ceiling = si_ceiling i,
                 sg_status = (if si_scheme i = BrowserWallet then SignerActive else SignerPending),
                 sg_created = now\<rparr>
      in (row, d\<lparr>signers := signers d @ [row]\<rparr>))"

definition list_signers :: "db \<Rightarrow> signer list" where
  "list_signers d = sort_desc sg_created (signers d)"

definition revoke_signer :: "string \<Rightarrow> db \<Rightarrow> db" where
  "revoke_signer i d =
     d\<lparr>signers := update_where (\<lambda>r. sg_id r = i) (\<lambda>r. r\<lparr>sg_status := SignerRevoked\<rparr>) (signers d)\<rparr>"

definition activate_signer :: "string \<Rightarrow> db \<Rightarrow> db" where
  "activate_signer i d =
     d\<lparr>signers := update_where (\<lambda>r. sg_id r = i) (\<lambda>r. r\<lparr>sg_status := SignerActive\<rparr>) (signers d)\<rparr>"

definition get_signer :: "string \<Rightarrow> db \<Rightarrow> signer option" where
  "get_signer i d = List.find (\<lambda>r. sg_id r = i) (signers d)"

definition set_signer_delegate_contract :: "string \<Rightarrow> string \<Rightarrow> db \<Rightarrow> db" where
  "set_signer_delegate_contract i addr d =
     d\<lparr>signers := update_where (\<lambda>r. sg_id r = i)
                    (\<lambda>r. r\<lparr>sg_delegate := Some (to_lower addr)\<rparr>) (signers d)\<rparr>"

definition set_signer_onchain_ceiling :: "string \<Rightarrow> string \<Rightarrow> db \<Rightarrow> db" where
  "set_signer_onchain_ceiling i wei d =
     d\<lparr>signers := update_where (\<lambda>r. sg_id r = i) (\<lambda>r. r\<lparr>sg_ceiling := Some wei\<rparr>) (signers d)\<rparr>"

section \<open>Creating, arming and disarming a plan\<close>

definition get_drop_stage :: "string \<Rightarrow> db \<Rightarrow> drop_stage option" where
  "get_drop_stage i d = List.find (\<lambda>r. ds_id r = i) (stages d)"

record plan_input =
  pi_project :: string
  pi_wallet :: string
  pi_stage :: "string option"
  pi_signer :: "string option"
  pi_quantity :: "int option"
  pi_ceiling :: string
  pi_fire_at :: "int option"

definition create_mint_plan :: "plan_input \<Rightarrow> string \<Rightarrow> int \<Rightarrow> db \<Rightarrow> mint_plan \<times> db" where
  "create_mint_plan i new_id now d =
     (let row = \<lparr>mp_id = new_id, mp_project = pi_project i, mp_stage = pi_stage i,
                 mp_fire_at = pi_fire_at i, mp_signer = pi_signer i, mp_wallet = pi_wallet i,
                 mp_quantity = (case pi_quantity i of None \<Rightarrow> 1 | Some q \<Rightarrow> q),
                 mp_ceiling = pi_ceiling i, mp_status = Draft,
                 mp_armed_at = None, mp_armed_until = None, mp_armed_by = None,
                 mp_cached_tx = None, mp_cached_at = None,
                 mp_raw = None, mp_nonce = None, mp_hash = None, mp_presigned_at = None,
                 mp_created = now, mp_updated = now\<rparr>
      in (row, d\<lparr>plans := plans d @ [row]\<rparr>))"

text \<open>An UPDATE of the plans table; \<open>returned\<close> is its RETURNING list.\<close>

definition update_plans :: "(mint_plan \<Rightarrow> bool) \<Rightarrow> (mint_plan \<Rightarrow> mint_plan) \<Rightarrow> db \<Rightarrow> db" where
  "update_plans p f d = d\<lparr>plans := update_where p f (plans d)\<rparr>"

definition returned :: "(mint_plan \<Rightarrow> bool) \<Rightarrow> (mint_plan \<Rightarrow> mint_plan) \<Rightarrow> db \<Rightarrow> mint_plan list" where
  "returned p f d = map f (filter p (plans d))"

definition first_row :: "'a list \<Rightarrow> 'a option" where
  "first_row rows = (case rows of [] \<Rightarrow> None | r # _ \<Rightarrow> Some r)"

definition arm_mint_plan :: "string \<Rightarrow> string \<Rightarrow> int \<Rightarrow> int \<Rightarrow> db \<Rightarrow> mint_plan option \<times> db" where
  "arm_mint_plan i user window_minutes now d =
     (let p = (\<lambda>r. mp_id r = i \<and> mp_status r = Draft);
          f = (\<lambda>r. r\<lparr>mp_status := Armed, mp_armed_at := Some now,
                     mp_armed_until := Some (now + window_minutes * 60000),
                     mp_armed_by := Some user, mp_updated := now\<rparr>)
      in (first_row (returned p f d), update_plans p f d))"

definition purge_presigned :: "mint_plan \<Rightarrow> mint_plan" where
  "purge_presigned r = r\<lparr>mp_raw := None, mp_nonce := None, mp_hash := None, mp_presigned_at := None\<rparr>"

definition disarm_mint_plan :: "string \<Rightarrow> int \<Rightarrow> db \<Rightarrow> mint_plan option \<times> db" where
  "disarm_mint_plan i now d =
     (let p = (\<lambda>r. mp_id r = i \<and> mp_status r = Armed);
          f = (\<lambda>r. (purge_presigned r)\<lparr>mp_status := Cancelled, mp_updated := now\<rparr>)
      in (first_row (returned p f d), update_plans p f d))"

definition cache_mint_plan_tx :: "string \<Rightarrow> raw_tx \<Rightarrow> int \<Rightarrow> db \<Rightarrow> db" where
  "cache_mint_plan_tx i tx now =
     update_plans (\<lambda>r. mp_id r = i)
       (\<lambda>r. r\<lparr>mp_cached_tx := Some tx, mp_cached_at := Some now, mp_updated := now\<rparr>)"

section \<open>Fire targets\<close>

definition coalesce :: "'a option \<Rightarrow> 'a option \<Rightarrow> 'a option" where
  "coalesce a b = (case a of None \<Rightarrow> b | Some x \<Rightarrow> Some x)"

definition stage_of :: "db \<Rightarrow> mint_plan \<Rightarrow> drop_stage option" where
  "stage_of d p = (case mp_stage p of None \<Rightarrow> None | Some s \<Rightarrow> get_drop_stage s d)"

definition wallet_of :: "db \<Rightarrow> mint_plan \<Rightarrow> wallet option" where
  "wallet_of d p = List.find (\<lambda>w. wl_id w = mp_wallet p) (wallets d)"

definition known_target :: "db \<Rightarrow> mint_plan \<Rightarrow> int option" where
  "known_target d p = coalesce (mp_fire_at p) (map_option ds_starts (stage_of d p))"

definition fire_target :: "db \<Rightarrow> mint_plan \<Rightarrow> int option" where
  "fire_target d p = coalesce (known_target d p) (mp_armed_at p)"

text \<open>SQL comparison with a possibly NULL column.\<close>

definition sql_le :: "int option \<Rightarrow> int \<Rightarrow> bool" where
  "sql_le a t = (case a of None \<Rightarrow> False | Some x \<Rightarrow> x \<le> t)"

definition sql_gt :: "int option \<Rightarrow> int \<Rightarrow> bool" where
  "sql_gt a t = (case a of None \<Rightarrow> False | Some x \<Rightarrow> x > t)"

definition plans_needing_pre_build :: "db \<Rightarrow> int \<Rightarrow> int \<Rightarrow> nat \<Rightarrow> int \<Rightarrow> mint_plan list" where
  "plans_needing_pre_build d now ttl limit lead =
     take limit (sort_key (\<lambda>p. the (fire_target d p))
       (filter (\<lambda>p. mp_status p = Armed \<and> sql_gt (mp_armed_until p) now \<and>
                    (case mp_cached_at p of None \<Rightarrow> True | Some t \<Rightarrow> t < now - ttl) \<and>
                    sql_le (fire_target d p) (now + lead))
               (plans d)))"

definition list_mint_plans :: "db \<Rightarrow> nat \<Rightarrow> mint_plan list" where
  "list_mint_plans d limit = take limit (sort_desc mp_created (plans d))"

definition get_mint_plan :: "string \<Rightarrow> db \<Rightarrow> mint_plan option" where
  "get_mint_plan i d = List.find (\<lambda>r. mp_id r = i) (plans d)"

section \<open>The status board\<close>

record board_row =
  br_id :: string
  br_wallet :: string
  br_address :: string
  br_wallet_label :: "string option"
  br_has_key :: bool
  br_quantity :: int
  br_status :: mint_plan_status
  br_stage :: "string option"
  br_stage_label :: "string option"
  br_fire_at :: "int option"
  br_stage_starts :: "int option"
  br_armed_until :: "int option"
  br_presigned :: bool
  br_ceiling :: string
  br_created :: int

definition board_row_of :: "db \<Rightarrow> mint_plan \<Rightarrow> wallet \<Rightarrow> board_row" where
  "board_row_of d p w =
     \<lparr>br_id = mp_id p, br_wallet = wl_id w, br_address = wl_address w, br_wallet_label = wl_label w,
      br_has_key = (wl_key w \<noteq> None), br_quantity = mp_quantity p, br_status = mp_status p,
      br_stage = mp_stage p, br_stage_label = map_option ds_label (stage_of d p),
      br_fire_at = mp_fire_at p, br_stage_starts = map_option ds_starts (stage_of d p),
      br_armed_until = mp_armed_until p, br_presigned = (mp_raw p \<noteq> None),
      br_ceiling = mp_ceiling p, br_created = mp_created p\<rparr>"

text \<open>When a plan fires, for the boards' order.\<close>

definition board_key :: "db \<Rightarrow> mint_plan \<Rightarrow> int" where
  "board_key d p = the (coalesce (known_target d p) (Some (mp_created p)))"

definition wallet_row :: "db \<Rightarrow> mint_plan \<Rightarrow> board_row list" where
  "wallet_row d p = (case wallet_of d p of None \<Rightarrow> [] | Some w \<Rightarrow> [board_row_of d p w])"

definition list_mint_plans_for_project :: "db \<Rightarrow> string \<Rightarrow> nat \<Rightarrow> board_row list" where
  "list_mint_plans_for_project d project limit =
     take limit (concat (map (wallet_row d)
       (sort_desc (board_key d) (filter (\<lambda>p. mp_project p = project) (plans d)))))"

record history_row = board_row +
  hr_project :: string
  hr_project_name :: string
  hr_project_slug :: "string option"
  hr_updated :: int

definition history_rows :: "db \<Rightarrow> mint_plan \<Rightarrow> history_row list" where
  "history_rows d p =
     (case List.find (\<lambda>r. pr_id r = mp_project p) (projects d) of
        None \<Rightarrow> []
      | Some r \<Rightarrow> map (\<lambda>b. board_row.extend b
                            (history_row.fields (pr_id r) (pr_name r) (pr_slug r) (mp_updated p)))
                      (wallet_row d p))"

definition list_mint_plan_history :: "db \<Rightarrow> nat \<Rightarrow> history_row list" where
  "list_mint_plan_history d limit =
     take limit (concat (map (history_rows d) (sort_desc (board_key d) (plans d))))"

definition latest_attempt_per_plan :: "db \<Rightarrow> string list \<Rightarrow> string \<Rightarrow> attempt option" where
  "latest_attempt_per_plan d ids =
     (if ids = [] then Map.empty
      else foldl (\<lambda>m r. if m (at_plan r) = None then m(at_plan r \<mapsto> r) else m) Map.empty
             (sort_desc at_time (filter (\<lambda>r. at_plan r \<in> set ids) (attempts d))))"

section \<open>Pre-signed transactions\<close>

record presign_candidate =
  pc_plan :: string
  pc_wallet :: string
  pc_address :: string
  pc_start :: int
  pc_presigned_at :: "int option"
  pc_nonce :: "int option"
  pc_cached_tx :: "raw_tx option"
  pc_cached_at :: "int option"
  pc_ceiling :: string
  pc_quantity :: int
  pc_price :: "string option"
  pc_currency :: "string option"

definition presign_rows :: "db \<Rightarrow> int \<Rightarrow> mint_plan \<Rightarrow> presign_candidate list" where
  "presign_rows d now p =
     (case (wallet_of d p, known_target d p) of
        (Some w, Some start) \<Rightarrow>
          if mp_status p = Armed \<and> sql_gt (mp_armed_until p) now \<and> wl_key w \<noteq> None \<and> wl_enabled w
          then [\<lparr>pc_plan = mp_id p, pc_wallet = wl_id w, pc_address = wl_address w, pc_start = start,
                 pc_presigned_at = mp_presigned_at p, pc_nonce = mp_nonce p,
                 pc_cached_tx = mp_cached_tx p, pc_cached_at = mp_cached_at p,
                 pc_ceiling = mp_ceiling p, pc_quantity = mp_quantity p,
                 pc_price = Option.bind (stage_of d p) ds_price,
                 pc_currency = Option.bind (stage_of d p) ds_currency\<rparr>]
          else []
      | _ \<Rightarrow> [])"

definition armed_managed_plans_for_presign :: "db \<Rightarrow> int \<Rightarrow> presign_candidate list" where
  "armed_managed_plans_for_presign d now = concat (map (presign_rows d now) (plans d))"

definition save_presigned_tx :: "string \<Rightarrow> string \<Rightarrow> int \<Rightarrow> string \<Rightarrow> int \<Rightarrow> db \<Rightarrow> db" where
  "save_presigned_tx i raw nonce hash now =
     update_plans (\<lambda>r. mp_id r = i)
       (\<lambda>r. r\<lparr>mp_raw := Some raw, mp_nonce := Some nonce, mp_hash := Some hash,
              mp_presigned_at := Some now, mp_updated := now\<rparr>)"

definition clear_presigned_tx :: "string \<Rightarrow> int \<Rightarrow> db \<Rightarrow> db" where
  "clear_presigned_tx i now =
     update_plans (\<lambda>r. mp_id r = i) (\<lambda>r. (purge_presigned r)\<lparr>mp_updated := now\<rparr>)"

definition clear_presigned_for_wallet :: "string \<Rightarrow> int \<Rightarrow> db \<Rightarrow> nat \<times> db" where
  "clear_presigned_for_wallet w now d =
     (let p = (\<lambda>r. mp_wallet r = w); f = (\<lambda>r. (purge_presigned r)\<lparr>mp_updated := now\<rparr>)
      in (length (returned p f d), update_plans p f d))"

definition cancel_open_plans_for_wallet :: "string \<Rightarrow> int \<Rightarrow> db \<Rightarrow> nat \<times> db" where
  "cancel_open_plans_for_wallet w now d =
     (let p = (\<lambda>r. mp_wallet r = w \<and> mp_status r \<in> {Draft, Armed, Executing});
          f = (\<lambda>r. (purge_presigned r)\<lparr>mp_status := Cancelled, mp_updated := now\<rparr>)
      in (length (returned p f d), update_plans p f d))"

text \<open>Deleting a plan cascades to its attempts (the foreign key of execution_attempts).\<close>

definition delete_mint_plan :: "string \<Rightarrow> db \<Rightarrow> bool \<times> db" where
  "delete_mint_plan i d =
     (let p = (\<lambda>r. mp_id r = i \<and> mp_status r = Draft)
      in (filter p (plans d) \<noteq> [],
          d\<lparr>plans := filter (\<lambda>r. \<not> p r) (plans d),
            attempts := filter (\<lambda>a. at_plan a \<notin> mp_id ` set (filter p (plans d))) (attempts d)\<rparr>))"

definition armed_plans_with_stage_start :: "db \<Rightarrow> int \<Rightarrow> (string \<times> int) list" where
  "armed_plans_with_stage_start d now =
     concat (map (\<lambda>p. case known_target d p of
                         None \<Rightarrow> []
                       | Some t \<Rightarrow> if mp_status p = Armed \<and> sql_gt (mp_armed_until p) now
                                   then [(mp_id p, t)] else [])
                 (plans d))"

section \<open>The claim\<close>

definition claim_fire_tolerance_ms :: int where "claim_fire_tolerance_ms = 500"

text \<open>The WHERE clause of the \<open>due\<close> query.\<close>

definition claim_due :: "db \<Rightarrow> int \<Rightarrow> int \<Rightarrow> int \<Rightarrow> mint_plan \<Rightarrow> bool" where
  "claim_due d now lease lead p \<longleftrightarrow>
     sql_gt (mp_armed_until p) now \<and>
     sql_le (fire_target d p) (now + max claim_fire_tolerance_ms lead + 50) \<and>
     (mp_fire_at p \<noteq> None \<or> \<not> (case stage_of d p of None \<Rightarrow> False | Some s \<Rightarrow> ds_paused s)) \<and>
     (mp_status p = Armed \<or> (mp_status p = Executing \<and> mp_updated p < now - lease))"

text \<open>RETURNING lists its columns by hand; the four pre-signed columns are not among them.\<close>

definition claim_columns :: "mint_plan \<Rightarrow> mint_plan" where
  "claim_columns r = purge_presigned r"

text \<open>\<open>locked\<close> are the rows other transactions hold (FOR UPDATE SKIP LOCKED); \<open>db_now\<close> is SQL now().\<close>

definition claim_armed_mint_plan ::
  "string list \<Rightarrow> int \<Rightarrow> int \<Rightarrow> int \<Rightarrow> int \<Rightarrow> db \<Rightarrow> mint_plan option \<times> db" where
  "claim_armed_mint_plan locked db_now now lease lead d =
     (case sort_key (\<lambda>p. (the (fire_target d p), the (mp_armed_until p)))
             (filter (\<lambda>p. claim_due d now lease lead p \<and> mp_id p \<notin> set locked) (plans d)) of
        [] \<Rightarrow> (None, d)
      | due # _ \<Rightarrow>
          let p = (\<lambda>r. mp_id r = mp_id due);
              f = (\<lambda>r. r\<lparr>mp_status := Executing, mp_updated := db_now\<rparr>)
          in (first_row (map claim_columns (returned p f d)), update_plans p f d))"

section \<open>Leaving the executing state\<close>

definition publish_event :: "event \<Rightarrow> db \<Rightarrow> db" where
  "publish_event e d = d\<lparr>events := events d @ [e]\<rparr>"

definition expire_stale_mint_plans :: "int \<Rightarrow> db \<Rightarrow> nat \<times> db" where
  "expire_stale_mint_plans now d =
     (let p = (\<lambda>r. mp_status r \<in> {Armed, Executing} \<and> sql_le (mp_armed_until r) now);
          f = (\<lambda>r. (purge_presigned r)\<lparr>mp_status := Expired, mp_updated := now\<rparr>);
          rows = returned p f d
      in (length rows,
          foldl (\<lambda>d' r. publish_event \<lparr>ev_type = ''execution.failed'', ev_project = mp_project r,
                                       ev_at = now\<rparr> d')
                (update_plans p f d) rows))"

definition release_mint_plan_to_armed :: "string \<Rightarrow> int \<Rightarrow> db \<Rightarrow> db" where
  "release_mint_plan_to_armed i now =
     update_plans (\<lambda>r. mp_id r = i \<and> mp_status r = Executing \<and> sql_gt (mp_armed_until r) now)
       (\<lambda>r. r\<lparr>mp_status := Armed, mp_updated := now\<rparr>)"

definition mark_mint_plan_executed :: "string \<Rightarrow> int \<Rightarrow> db \<Rightarrow> db" where
  "mark_mint_plan_executed i now =
     update_plans (\<lambda>r. mp_id r = i \<and> mp_status r = Executing)
       (\<lambda>r. (purge_presigned r)\<lparr>mp_status := Executed, mp_updated := now\<rparr>)"

definition fail_mint_plan_execution :: "string \<Rightarrow> int \<Rightarrow> db \<Rightarrow> db" where
  "fail_mint_plan_execution i now =
     update_plans (\<lambda>r. mp_id r = i \<and> mp_status r = Executing)
       (\<lambda>r. (purge_presigned r)\<lparr>mp_status := Failed, mp_updated := now\<rparr>)"

section \<open>Attempts\<close>

record attempt_input =
  ai_plan :: string
  ai_status :: attempt_status
  ai_pending :: "raw_tx option"
  ai_hash :: "string option"
  ai_error :: "string option"

definition record_execution_attempt :: "attempt_input \<Rightarrow> string \<Rightarrow> int \<Rightarrow> db \<Rightarrow> attempt \<times> db" where
  "record_execution_attempt i new_id now d =
     (let row = \<lparr>at_id = new_id, at_plan = ai_plan i, at_status = ai_status i,
                 at_pending = ai_pending i, at_hash = ai_hash i, at_error = ai_error i,
                 at_time = now\<rparr>
      in (row, d\<lparr>attempts := attempts d @ [row]\<rparr>))"

definition latest_broadcast_attempt :: "db \<Rightarrow> string \<Rightarrow> (string \<times> int) option" where
  "latest_broadcast_attempt d plan =
     (case sort_desc at_time (filter (\<lambda>r. at_plan r = plan \<and> at_status r = Broadcast) (attempts d)) of
        [] \<Rightarrow> None
      | row # _ \<Rightarrow> (case at_hash row of None \<Rightarrow> None | Some h \<Rightarrow> Some (h, at_time row)))"

text \<open>The LIKE pattern \<open>reverted_onchain%\<close>, in which the underscore stands for any one character.\<close>

definition like_reverted_onchain :: "string \<Rightarrow> bool" where
  "like_reverted_onchain e \<longleftrightarrow> take 8 e = ''reverted'' \<and> take 7 (drop 9 e) = ''onchain''"

definition count_reverted_attempts :: "db \<Rightarrow> string \<Rightarrow> nat" where
  "count_reverted_attempts d plan =
     length (filter (\<lambda>r. at_plan r = plan \<and> at_status r = AttemptFailed \<and>
                         (case at_error r of None \<Rightarrow> False | Some e \<Rightarrow> like_reverted_onchain e))
                    (attempts d))"

definition list_execution_attempts :: "db \<Rightarrow> nat \<Rightarrow> attempt list" where
  "list_execution_attempts d limit = take limit (sort_desc at_time (attempts d))"

definition list_pending_signatures :: "db \<Rightarrow> attempt list" where
  "list_pending_signatures d =
     sort_desc at_time (filter (\<lambda>r. at_status r = AwaitingSignature) (attempts d))"

definition mark_execution_attempt_broadcast :: "string \<Rightarrow> string \<Rightarrow> db \<Rightarrow> attempt option \<times> db" where
  "mark_execution_attempt_broadcast i hash d =
     (let p = (\<lambda>r. at_id r = i \<and> at_status r = AwaitingSignature);
          f = (\<lambda>r. r\<lparr>at_status := Broadcast, at_hash := Some hash\<rparr>)
      in (first_row (map f (filter p (attempts d))),
          d\<lparr>attempts := update_where p f (attempts d)\<rparr>))"

section \<open>The status graph every query refines\<close>

inductive status_edge :: "mint_plan_status \<Rightarrow> mint_plan_status \<Rightarrow> bool" where
  arm: "status_edge Draft Armed"
| disarm: "status_edge Armed Cancelled"
| claim: "status_edge Armed Executing"
| release: "status_edge Executing Armed"
| executed: "status_edge Executing Executed"
| fail: "status_edge Executing Failed"
| expire_armed: "status_edge Armed Expired"
| expire_executing: "status_edge Executing Expired"
| wallet_gone: "s \<in> {Draft, Armed, Executing} \<Longrightarrow> status_edge s Cancelled"

code_pred status_edge .

inductive_cases status_edgeE: "status_edge s s'"

fun terminal :: "mint_plan_status \<Rightarrow> bool" where
  "terminal Draft = False"
| "terminal Armed = False"
| "terminal Executing = False"
| "terminal Executed = True"
| "terminal Expired = True"
| "terminal Cancelled = True"
| "terminal Failed = True"

lemma terminal_no_edge: "terminal s \<Longrightarrow> \<not> status_edge s s'"
  by (auto elim!: status_edgeE)

lemma no_edge_to_draft: "\<not> status_edge s Draft"
  by (auto elim!: status_edgeE)

lemma terminal_stays: "status_edge\<^sup>*\<^sup>* s s' \<Longrightarrow> terminal s \<Longrightarrow> s' = s"
  by (induction rule: converse_rtranclp_induct) (auto dest: terminal_no_edge)

section \<open>Queries as steps\<close>

datatype plan_op =
  DoCreate plan_input string int
| DoArm string string int int
| DoDisarm string int
| DoCache string raw_tx int
| DoSave string string int string int
| DoClear string int
| DoClearWallet string int
| DoCancelWallet string int
| DoDelete string
| DoClaim "string list" int int int int
| DoExpire int
| DoRelease string int
| DoExecuted string int
| DoFail string int
| DoRecord attempt_input string int
| DoMark string string

fun run_op :: "plan_op \<Rightarrow> db \<Rightarrow> db" where
  "run_op (DoCreate i new now) d = snd (create_mint_plan i new now d)"
| "run_op (DoArm i u m now) d = snd (arm_mint_plan i u m now d)"
| "run_op (DoDisarm i now) d = snd (disarm_mint_plan i now d)"
| "run_op (DoCache i tx now) d = cache_mint_plan_tx i tx now d"
| "run_op (DoSave i raw n h now) d = save_presigned_tx i raw n h now d"
| "run_op (DoClear i now) d = clear_presigned_tx i now d"
| "run_op (DoClearWallet w now) d = snd (clear_presigned_for_wallet w now d)"
| "run_op (DoCancelWallet w now) d = snd (cancel_open_plans_for_wallet w now d)"
| "run_op (DoDelete i) d = snd (delete_mint_plan i d)"
| "run_op (DoClaim lk dn now lease lead) d = snd (claim_armed_mint_plan lk dn now lease lead d)"
| "run_op (DoExpire now) d = snd (expire_stale_mint_plans now d)"
| "run_op (DoRelease i now) d = release_mint_plan_to_armed i now d"
| "run_op (DoExecuted i now) d = mark_mint_plan_executed i now d"
| "run_op (DoFail i now) d = fail_mint_plan_execution i now d"
| "run_op (DoRecord a new now) d = snd (record_execution_attempt a new now d)"
| "run_op (DoMark i h) d = snd (mark_execution_attempt_broadcast i h d)"

definition plan_ids :: "db \<Rightarrow> string list" where
  "plan_ids d = map mp_id (plans d)"

text \<open>The database draws fresh ids; a broadcast is recorded with its hash, as every caller does.\<close>

fun op_ok :: "plan_op \<Rightarrow> db \<Rightarrow> bool" where
  "op_ok (DoCreate i new now) d = (new \<notin> set (plan_ids d))"
| "op_ok (DoRecord a new now) d = (ai_status a = Broadcast \<longrightarrow> ai_hash a \<noteq> None)"
| "op_ok _ d = True"

inductive plan_steps :: "db \<Rightarrow> db \<Rightarrow> bool" where
  none: "plan_steps d d"
| one: "plan_steps d d' \<Longrightarrow> op_ok op d' \<Longrightarrow> plan_steps d (run_op op d')"

section \<open>What a query may do to a row\<close>

definition same_terms :: "mint_plan \<Rightarrow> mint_plan \<Rightarrow> bool" where
  "same_terms r r' \<longleftrightarrow> mp_id r' = mp_id r \<and> mp_project r' = mp_project r \<and> mp_stage r' = mp_stage r
     \<and> mp_fire_at r' = mp_fire_at r \<and> mp_signer r' = mp_signer r \<and> mp_wallet r' = mp_wallet r
     \<and> mp_quantity r' = mp_quantity r \<and> mp_ceiling r' = mp_ceiling r"

definition row_ok :: "mint_plan \<Rightarrow> mint_plan \<Rightarrow> bool" where
  "row_ok r r' \<longleftrightarrow> same_terms r r' \<and>
     (mp_status r' = mp_status r \<or> status_edge (mp_status r) (mp_status r'))"

lemma same_terms_refl [simp]: "same_terms r r"
  by (simp add: same_terms_def)

lemma same_terms_trans: "same_terms a b \<Longrightarrow> same_terms b c \<Longrightarrow> same_terms a c"
  by (simp add: same_terms_def)

lemma row_ok_refl [simp]: "row_ok r r"
  by (simp add: row_ok_def)

definition refines :: "db \<Rightarrow> db \<Rightarrow> bool" where
  "refines d d' \<longleftrightarrow> (\<exists>f keep new. plans d' = map f (filter keep (plans d)) @ new
     \<and> (\<forall>r \<in> set (plans d). row_ok r (f r) \<and> (keep r \<or> mp_status r = Draft))
     \<and> (\<forall>r \<in> set new. mp_status r = Draft) \<and> distinct (map mp_id new)
     \<and> (\<forall>r \<in> set new. mp_id r \<notin> set (plan_ids d)))"

lemma refinesI:
  assumes "plans d' = map f (filter keep (plans d)) @ new"
    and "\<And>r. r \<in> set (plans d) \<Longrightarrow> row_ok r (f r)"
    and "\<And>r. r \<in> set (plans d) \<Longrightarrow> keep r \<or> mp_status r = Draft"
    and "new = [] \<or> (\<exists>x. new = [x] \<and> mp_status x = Draft \<and> mp_id x \<notin> set (plan_ids d))"
  shows "refines d d'"
  unfolding refines_def
  by (rule exI[of _ f], rule exI[of _ keep], rule exI[of _ new]) (use assms in auto)

lemma refines_update:
  assumes "\<And>r. r \<in> set (plans d) \<Longrightarrow> p r \<Longrightarrow> row_ok r (f r)"
  shows "refines d (update_plans p f d)"
  by (rule refinesI[where f = "\<lambda>r. if p r then f r else r" and keep = "\<lambda>_. True" and new = "[]"])
     (simp_all add: update_plans_def update_where_def assms)

lemma refines_same_plans: "plans d' = plans d \<Longrightarrow> refines d d'"
  by (rule refinesI[where f = id and keep = "\<lambda>_. True" and new = "[]"]) simp_all

lemma refines_plans_cong: "plans d1 = plans d2 \<Longrightarrow> refines d d1 \<Longrightarrow> refines d d2"
  by (simp add: refines_def)

lemma plans_publish_fold:
  "plans (foldl (\<lambda>d' r. publish_event (g r) d') d rows) = plans d"
  "attempts (foldl (\<lambda>d' r. publish_event (g r) d') d rows) = attempts d"
  "events (foldl (\<lambda>d' r. publish_event (g r) d') d rows) = events d @ map g rows"
  by (induction rows arbitrary: d) (simp_all add: publish_event_def)

lemmas row_defs = row_ok_def same_terms_def purge_presigned_def

lemma claim_cases:
  obtains "claim_armed_mint_plan lk dn now lease lead d = (None, d)"
  | due where "due \<in> set (plans d)" "claim_due d now lease lead due" "mp_id due \<notin> set lk"
      "claim_armed_mint_plan lk dn now lease lead d =
         (first_row (map claim_columns (returned (\<lambda>r. mp_id r = mp_id due)
            (\<lambda>r. r\<lparr>mp_status := Executing, mp_updated := dn\<rparr>) d)),
          update_plans (\<lambda>r. mp_id r = mp_id due) (\<lambda>r. r\<lparr>mp_status := Executing, mp_updated := dn\<rparr>) d)"
proof (cases "sort_key (\<lambda>p. (the (fire_target d p), the (mp_armed_until p)))
             (filter (\<lambda>p. claim_due d now lease lead p \<and> mp_id p \<notin> set lk) (plans d))")
  case Nil
  then show ?thesis using that(1) by (simp add: claim_armed_mint_plan_def)
next
  case (Cons due rest)
  have "due \<in> set (sort_key (\<lambda>p. (the (fire_target d p), the (mp_armed_until p)))
             (filter (\<lambda>p. claim_due d now lease lead p \<and> mp_id p \<notin> set lk) (plans d)))"
    by (simp add: Cons)
  then have f: "due \<in> set (plans d)" "claim_due d now lease lead due" "mp_id due \<notin> set lk" by auto
  show ?thesis by (rule that(2)[OF f]) (simp add: claim_armed_mint_plan_def Cons Let_def)
qed

lemma same_id_same_row:
  "distinct (plan_ids d) \<Longrightarrow> r \<in> set (plans d) \<Longrightarrow> r' \<in> set (plans d) \<Longrightarrow> mp_id r = mp_id r' \<Longrightarrow> r = r'"
  by (auto simp: plan_ids_def distinct_map dest: inj_onD)

lemma due_status: "claim_due d now lease lead p \<Longrightarrow> mp_status p = Armed \<or> mp_status p = Executing"
  by (auto simp: claim_due_def)

lemma refines_claim:
  assumes "distinct (plan_ids d)"
  shows "refines d (snd (claim_armed_mint_plan lk dn now lease lead d))"
proof (cases rule: claim_cases[of lk dn now lease lead d])
  case 1
  then show ?thesis by (simp add: refines_same_plans)
next
  case (2 due)
  have "row_ok r (r\<lparr>mp_status := Executing, mp_updated := dn\<rparr>)"
    if "r \<in> set (plans d)" and "mp_id r = mp_id due" for r
    using same_id_same_row[OF assms that(1) 2(1) that(2)] due_status[OF 2(2)]
    by (auto simp: row_defs status_edge.simps)
  then show ?thesis by (simp add: 2(4) refines_update)
qed

text \<open>Every query refines the status graph.\<close>

lemma run_op_refines:
  assumes "distinct (plan_ids d)" and "op_ok op d"
  shows "refines d (run_op op d)"
proof (cases op)
  case (DoCreate i new now)
  then show ?thesis using assms(2)
    by (intro refinesI[where f = id and keep = "\<lambda>_. True"
              and new = "[fst (create_mint_plan i new now d)]"])
       (simp_all add: create_mint_plan_def Let_def)
next
  case (DoDelete i)
  then show ?thesis
    by (intro refinesI[where f = id and keep = "\<lambda>r. \<not> (mp_id r = i \<and> mp_status r = Draft)"
              and new = "[]"]) (auto simp: delete_mint_plan_def Let_def)
next
  case (DoClaim lk dn now lease lead)
  then show ?thesis using refines_claim[OF assms(1)] by simp
next
  case (DoExpire now)
  show ?thesis unfolding DoExpire
    by (simp add: expire_stale_mint_plans_def Let_def,
        rule refines_plans_cong[OF plans_publish_fold(1)[symmetric]], rule refines_update)
       (auto simp: row_defs status_edge.simps)
next
  case (DoRecord a new now)
  show ?thesis unfolding DoRecord
    by (rule refines_same_plans) (simp add: record_execution_attempt_def Let_def)
next
  case (DoMark i h)
  show ?thesis unfolding DoMark
    by (rule refines_same_plans) (simp add: mark_execution_attempt_broadcast_def Let_def)
qed (auto simp: arm_mint_plan_def disarm_mint_plan_def cache_mint_plan_tx_def save_presigned_tx_def
       clear_presigned_tx_def clear_presigned_for_wallet_def cancel_open_plans_for_wallet_def
       release_mint_plan_to_armed_def mark_mint_plan_executed_def fail_mint_plan_execution_def
       Let_def row_defs status_edge.simps intro!: refines_update)

lemma refines_distinct:
  assumes "refines d d'" and "distinct (plan_ids d)"
  shows "distinct (plan_ids d')"
proof -
  obtain f keep new where e: "plans d' = map f (filter keep (plans d)) @ new"
    and r: "\<forall>r \<in> set (plans d). row_ok r (f r)" and n: "distinct (map mp_id new)"
    and nn: "\<forall>r \<in> set new. mp_id r \<notin> set (plan_ids d)"
    using assms(1) by (auto simp: refines_def)
  have "map mp_id (map f (filter keep (plans d))) = map mp_id (filter keep (plans d))"
    using r by (auto simp: row_ok_def same_terms_def)
  then show ?thesis using assms(2) n nn
    by (auto simp: plan_ids_def e distinct_map_filter simp del: map_map) (metis imageI)
qed

lemma refines_row:
  assumes "refines d d'" and "r \<in> set (plans d)" and "mp_status r \<noteq> Draft"
  shows "\<exists>r' \<in> set (plans d'). row_ok r r'"
proof -
  obtain f keep new where e: "plans d' = map f (filter keep (plans d)) @ new"
    and h: "\<forall>r \<in> set (plans d). row_ok r (f r) \<and> (keep r \<or> mp_status r = Draft)"
    using assms(1) unfolding refines_def by blast
  have "f r \<in> set (plans d')" "row_ok r (f r)" using e h assms(2,3) by auto
  then show ?thesis by blast
qed

lemma plan_steps_distinct: "plan_steps d d' \<Longrightarrow> distinct (plan_ids d) \<Longrightarrow> distinct (plan_ids d')"
  by (induction rule: plan_steps.induct) (auto dest: refines_distinct run_op_refines)

section \<open>The life of a plan\<close>

lemma plan_steps_row:
  assumes "plan_steps d d'" and "distinct (plan_ids d)" and "r \<in> set (plans d)" and "mp_status r \<noteq> Draft"
  shows "\<exists>r' \<in> set (plans d'). same_terms r r' \<and> mp_status r' \<noteq> Draft
           \<and> status_edge\<^sup>*\<^sup>* (mp_status r) (mp_status r')"
  using assms
proof (induction rule: plan_steps.induct)
  case (none d)
  then show ?case using same_terms_refl by blast
next
  case (one d d' op)
  obtain r1 where r1: "r1 \<in> set (plans d')" "same_terms r r1" "mp_status r1 \<noteq> Draft"
      "status_edge\<^sup>*\<^sup>* (mp_status r) (mp_status r1)"
    using one.IH[OF one.prems] by auto
  have "refines d' (run_op op d')"
    by (rule run_op_refines[OF plan_steps_distinct[OF one.hyps(1) one.prems(1)] one.hyps(2)])
  from refines_row[OF this r1(1) r1(3)] obtain r2 where r2: "r2 \<in> set (plans (run_op op d'))" "row_ok r1 r2"
    by auto
  have st: "mp_status r2 = mp_status r1 \<or> status_edge (mp_status r1) (mp_status r2)"
    using r2(2) by (simp add: row_ok_def)
  then have "mp_status r2 \<noteq> Draft" using r1(3) no_edge_to_draft by metis
  moreover have "status_edge\<^sup>*\<^sup>* (mp_status r) (mp_status r2)"
    using r1(4) st by (metis rtranclp.rtrancl_into_rtrancl)
  moreover have "same_terms r r2" using r1(2) r2(2) by (auto simp: row_ok_def intro: same_terms_trans)
  ultimately show ?case using r2(1) by blast
qed


definition demo_plan :: "string \<Rightarrow> mint_plan_status \<Rightarrow> int \<Rightarrow> int \<Rightarrow> mint_plan" where
  "demo_plan i st fire until = \<lparr>mp_id = i, mp_project = ''p'', mp_stage = None, mp_fire_at = Some fire,
     mp_signer = None, mp_wallet = ''w'', mp_quantity = 1, mp_ceiling = ''1000'', mp_status = st,
     mp_armed_at = Some 0, mp_armed_until = Some until, mp_armed_by = None, mp_cached_tx = None,
     mp_cached_at = None, mp_raw = None, mp_nonce = None, mp_hash = None, mp_presigned_at = None,
     mp_created = 0, mp_updated = 0\<rparr>"

definition demo_db :: "mint_plan list \<Rightarrow> db" where
  "demo_db ps = \<lparr>plans = ps, attempts = [], signers = [], stages = [], wallets = [], projects = [], events = []\<rparr>"

lemmas demo_defs = demo_db_def demo_plan_def plan_ids_def


section \<open>Claiming\<close>

text \<open>What the claim returns, as a reference.\<close>

definition due_for :: "db \<Rightarrow> string list \<Rightarrow> int \<Rightarrow> int \<Rightarrow> int \<Rightarrow> mint_plan \<Rightarrow> bool" where
  "due_for d lk now lease lead p \<longleftrightarrow> p \<in> set (plans d) \<and> claim_due d now lease lead p \<and> mp_id p \<notin> set lk"

lemma filter_unique_id:
  "distinct (map mp_id ps) \<Longrightarrow> r \<in> set ps \<Longrightarrow> filter (\<lambda>x. mp_id x = mp_id r) ps = [r]"
proof (induction ps)
  case (Cons x ps)
  show ?case
  proof (cases "x = r")
    case True
    then have "filter (\<lambda>x. mp_id x = mp_id r) ps = []" using Cons.prems(1) by (auto simp: filter_empty_conv) (metis imageI)
    then show ?thesis using True by simp
  next
    case False
    then have "mp_id x \<noteq> mp_id r" using Cons.prems by (auto simp: image_iff)
    then show ?thesis using Cons False by simp
  qed
qed simp

lemma claim_Some:
  assumes "claim_armed_mint_plan lk dn now lease lead d = (Some p, d')" and "distinct (plan_ids d)"
  obtains due where "due_for d lk now lease lead due"
    and "\<And>q. due_for d lk now lease lead q \<Longrightarrow>
           (the (fire_target d due), the (mp_armed_until due)) \<le> (the (fire_target d q), the (mp_armed_until q))"
    and "p = claim_columns (due\<lparr>mp_status := Executing, mp_updated := dn\<rparr>)"
    and "d' = update_plans (\<lambda>r. mp_id r = mp_id due) (\<lambda>r. r\<lparr>mp_status := Executing, mp_updated := dn\<rparr>) d"
proof -
  let ?k = "\<lambda>p. (the (fire_target d p), the (mp_armed_until p))"
  let ?q = "filter (\<lambda>p. claim_due d now lease lead p \<and> mp_id p \<notin> set lk) (plans d)"
  obtain due rest where c: "sort_key ?k ?q = due # rest"
    using assms(1) by (cases "sort_key ?k ?q") (simp_all add: claim_armed_mint_plan_def)
  have "set (sort_key ?k ?q) = set ?q" by simp
  then have mem: "due \<in> set ?q" using c by auto
  have eq: "claim_armed_mint_plan lk dn now lease lead d =
        (first_row (map claim_columns (returned (\<lambda>r. mp_id r = mp_id due)
            (\<lambda>r. r\<lparr>mp_status := Executing, mp_updated := dn\<rparr>) d)),
         update_plans (\<lambda>r. mp_id r = mp_id due) (\<lambda>r. r\<lparr>mp_status := Executing, mp_updated := dn\<rparr>) d)"
    by (simp add: claim_armed_mint_plan_def c Let_def)
  have f: "filter (\<lambda>r. mp_id r = mp_id due) (plans d) = [due]"
    using filter_unique_id[of "plans d" due] assms(2) mem by (simp add: plan_ids_def)
  show ?thesis
  proof (rule that)
    show "due_for d lk now lease lead due" using mem by (simp add: due_for_def)
    show "?k due \<le> ?k q" if "due_for d lk now lease lead q" for q
      using sort_key_hd_min[OF c, of q] that by (simp add: due_for_def)
    show "p = claim_columns (due\<lparr>mp_status := Executing, mp_updated := dn\<rparr>)"
      using assms(1) eq by (simp add: returned_def f first_row_def)
    show "d' = update_plans (\<lambda>r. mp_id r = mp_id due) (\<lambda>r. r\<lparr>mp_status := Executing, mp_updated := dn\<rparr>) d"
      using assms(1) eq by simp
  qed
qed

text \<open>
C8 A claim only ever returns a plan inside its arm window that is armed or whose lease has lapsed,
never earlier than the larger of 500 ms and the configured lead (plus 50 ms) before its fire target, and never on a
paused stage unless the operator gave the instant; no other due plan fires earlier; and the row it
returns carries no pre-signed transaction.
\<close>

theorem claim_safe:
  assumes "claim_armed_mint_plan lk dn now lease lead d = (Some p, d')" and "distinct (plan_ids d)"
  shows "\<exists>due \<in> set (plans d). same_terms due p \<and> mp_status p = Executing \<and> mp_raw p = None
    \<and> sql_gt (mp_armed_until due) now
    \<and> (mp_status due = Armed \<or> mp_status due = Executing \<and> mp_updated due < now - lease)
    \<and> (\<exists>t. fire_target d due = Some t \<and> t \<le> now + max 500 lead + 50
         \<and> (\<forall>q t'. due_for d lk now lease lead q \<longrightarrow> fire_target d q = Some t' \<longrightarrow> t \<le> t'))
    \<and> (mp_fire_at due = None \<longrightarrow> (\<forall>s. stage_of d due = Some s \<longrightarrow> \<not> ds_paused s))"
proof -
  obtain due where due: "due_for d lk now lease lead due"
    and min: "\<And>q. due_for d lk now lease lead q \<Longrightarrow>
           (the (fire_target d due), the (mp_armed_until due)) \<le> (the (fire_target d q), the (mp_armed_until q))"
    and p: "p = claim_columns (due\<lparr>mp_status := Executing, mp_updated := dn\<rparr>)"
    using claim_Some[OF assms] by metis
  have cd: "claim_due d now lease lead due" and mem: "due \<in> set (plans d)"
    using due by (auto simp: due_for_def)
  obtain t where t: "fire_target d due = Some t" "t \<le> now + max 500 lead + 50"
    using cd by (auto simp: claim_due_def sql_le_def claim_fire_tolerance_ms_def split: option.splits)
  have le: "t \<le> t'" if "due_for d lk now lease lead q" "fire_target d q = Some t'" for q t'
    using min[OF that(1)] that(2) t(1) by (auto simp: less_eq_prod_def)
  have "mp_fire_at due = None \<longrightarrow> (\<forall>s. stage_of d due = Some s \<longrightarrow> \<not> ds_paused s)"
    using cd by (auto simp: claim_due_def)
  moreover have "sql_gt (mp_armed_until due) now"
      "mp_status due = Armed \<or> mp_status due = Executing \<and> mp_updated due < now - lease"
    using cd by (auto simp: claim_due_def)
  moreover have "same_terms due p" "mp_status p = Executing" "mp_raw p = None"
    by (simp_all add: p claim_columns_def row_defs)
  ultimately show ?thesis using mem t le by (intro bexI[of _ due] conjI exI[of _ t] allI impI) auto
qed

lemma claim_safe_witness:
  "\<exists>p d'. claim_armed_mint_plan [] 1000 1000 30000 0 (demo_db [demo_plan ''a'' Armed 1400 9000]) = (Some p, d')
     \<and> mp_raw p = None"
proof -
  have e: "claim_armed_mint_plan [] 1000 1000 30000 0 (demo_db [demo_plan ''a'' Armed 1400 9000]) =
     (Some (claim_columns ((demo_plan ''a'' Armed 1400 9000)\<lparr>mp_status := Executing, mp_updated := 1000\<rparr>)),
      update_plans (\<lambda>r. mp_id r = ''a'') (\<lambda>r. r\<lparr>mp_status := Executing, mp_updated := 1000\<rparr>)
        (demo_db [demo_plan ''a'' Armed 1400 9000]))"
    by (simp add: claim_armed_mint_plan_def demo_defs claim_due_def sql_gt_def sql_le_def fire_target_def
        known_target_def coalesce_def claim_fire_tolerance_ms_def returned_def first_row_def)
  have "distinct (plan_ids (demo_db [demo_plan ''a'' Armed 1400 9000]))" by (simp add: demo_defs)
  from claim_safe[OF e this] show ?thesis using e by blast
qed

section \<open>Claims are exclusive\<close>

text \<open>One claim of a pass: the rows locked by other transactions, the clocks and the lead.\<close>

record claim_call =
  cl_locked :: "string list"
  cl_db_now :: int
  cl_now :: int
  cl_lead :: int

fun claim_run :: "int \<Rightarrow> claim_call list \<Rightarrow> db \<Rightarrow> string list" where
  "claim_run lease [] d = []"
| "claim_run lease (c # cs) d =
     (case claim_armed_mint_plan (cl_locked c) (cl_db_now c) (cl_now c) lease (cl_lead c) d of
        (None, d') \<Rightarrow> claim_run lease cs d'
      | (Some p, d') \<Rightarrow> mp_id p # claim_run lease cs d')"

text \<open>Rows claimed since \<open>since\<close>: executing, with a lease that runs until \<open>since + lease\<close> at least.\<close>

definition leased_since :: "int \<Rightarrow> db \<Rightarrow> string \<Rightarrow> bool" where
  "leased_since since d i \<longleftrightarrow> (\<forall>r \<in> set (plans d). mp_id r = i \<longrightarrow> mp_status r = Executing \<and> since \<le> mp_updated r)"

lemma claim_plan_ids: "plan_ids (snd (claim_armed_mint_plan lk dn now lease lead d)) = plan_ids d"
  by (cases rule: claim_cases[of lk dn now lease lead d])
     (simp_all add: plan_ids_def update_plans_def map_update_where_same)

lemma leased_update:
  "leased_since since d i \<Longrightarrow> since \<le> dn \<Longrightarrow>
   leased_since since (update_plans p (\<lambda>r. r\<lparr>mp_status := Executing, mp_updated := dn\<rparr>) d) i"
  by (auto simp: leased_since_def update_plans_def set_update_where)

lemma leased_claim:
  assumes "leased_since since d i" and "since \<le> dn"
  shows "leased_since since (snd (claim_armed_mint_plan lk dn now lease lead d)) i"
  using assms by (cases rule: claim_cases[of lk dn now lease lead d]) (simp_all add: leased_update)

lemma claim_run_avoids:
  assumes "distinct (plan_ids d)" and "leased_since since d i"
    and "\<forall>c \<in> set cs. since \<le> cl_db_now c \<and> cl_now c \<le> since + lease"
  shows "i \<notin> set (claim_run lease cs d)"
  using assms
proof (induction cs arbitrary: d)
  case (Cons c cs)
  obtain o' d' where e: "claim_armed_mint_plan (cl_locked c) (cl_db_now c) (cl_now c) lease (cl_lead c) d = (o', d')"
    by fastforce
  have d'_def: "d' = snd (claim_armed_mint_plan (cl_locked c) (cl_db_now c) (cl_now c) lease (cl_lead c) d)"
    using e by simp
  have ih: "i \<notin> set (claim_run lease cs d')"
    using Cons.IH[of d'] leased_claim[OF Cons.prems(2)] Cons.prems(1,3) by (simp add: d'_def claim_plan_ids)
  show ?case
  proof (cases o')
    case None
    then show ?thesis using ih e by simp
  next
    case (Some p)
    then have "claim_armed_mint_plan (cl_locked c) (cl_db_now c) (cl_now c) lease (cl_lead c) d = (Some p, d')"
      using e by simp
    from claim_Some[OF this Cons.prems(1)] obtain due
      where due: "due_for d (cl_locked c) (cl_now c) lease (cl_lead c) due"
        and p: "p = claim_columns (due\<lparr>mp_status := Executing, mp_updated := cl_db_now c\<rparr>)"
      by metis
    have "mp_id p \<noteq> i"
    proof
      assume "mp_id p = i"
      then have "mp_id due = i" by (simp add: p claim_columns_def purge_presigned_def)
      then have "mp_status due = Executing" "since \<le> mp_updated due"
        using Cons.prems(2) due by (auto simp: leased_since_def due_for_def)
      then show False using due Cons.prems(3) by (auto simp: due_for_def claim_due_def)
    qed
    then show ?thesis using ih e Some by simp
  qed
qed simp


definition demo_call :: claim_call where
  "demo_call = \<lparr>cl_locked = [], cl_db_now = 1000, cl_now = 1000, cl_lead = 0\<rparr>"

lemmas claim_eval = claim_armed_mint_plan_def demo_defs claim_due_def sql_gt_def sql_le_def fire_target_def
  known_target_def coalesce_def claim_fire_tolerance_ms_def returned_def first_row_def update_plans_def
  claim_columns_def purge_presigned_def demo_call_def


section \<open>The pre-signed transaction\<close>

text \<open>A terminal plan holds no pre-signed transaction.\<close>

definition purged :: "db \<Rightarrow> bool" where
  "purged d \<longleftrightarrow> (\<forall>r \<in> set (plans d). terminal (mp_status r) \<longrightarrow> mp_raw r = None)"

text \<open>A pre-signed transaction is written to a plan that has not finished.\<close>

fun save_open :: "plan_op \<Rightarrow> db \<Rightarrow> bool" where
  "save_open (DoSave i raw n h now) d = (\<forall>r \<in> set (plans d). mp_id r = i \<longrightarrow> \<not> terminal (mp_status r))"
| "save_open _ d = True"

fun run_ops :: "plan_op list \<Rightarrow> db \<Rightarrow> db" where
  "run_ops [] d = d"
| "run_ops (op # ops) d = run_ops ops (run_op op d)"

fun saves_open :: "plan_op list \<Rightarrow> db \<Rightarrow> bool" where
  "saves_open [] d = True"
| "saves_open (op # ops) d = (save_open op d \<and> saves_open ops (run_op op d))"

lemma purged_update:
  assumes "purged d"
    and "\<And>r. r \<in> set (plans d) \<Longrightarrow> p r \<Longrightarrow> (terminal (mp_status r) \<longrightarrow> mp_raw r = None) \<Longrightarrow>
           (terminal (mp_status (f r)) \<longrightarrow> mp_raw (f r) = None)"
  shows "purged (update_plans p f d)"
  using assms by (auto simp: purged_def update_plans_def set_update_where)

lemma purged_cong: "plans d' = plans d \<Longrightarrow> purged d' = purged d"
  by (simp add: purged_def)

lemma purged_op:
  assumes "purged d" and "save_open op d"
  shows "purged (run_op op d)"
proof (cases op)
  case (DoCreate i new now)
  then show ?thesis using assms(1) by (auto simp: create_mint_plan_def Let_def purged_def)
next
  case (DoDelete i)
  then show ?thesis using assms(1) by (auto simp: delete_mint_plan_def Let_def purged_def)
next
  case (DoClaim lk dn now lease lead)
  show ?thesis unfolding DoClaim
    using assms(1) by (cases rule: claim_cases[of lk dn now lease lead d]) (simp_all add: purged_update)
next
  case (DoExpire now)
  show ?thesis unfolding DoExpire
    using assms(1) by (simp add: expire_stale_mint_plans_def Let_def purged_cong[OF plans_publish_fold(1)])
      (auto intro!: purged_update simp: purge_presigned_def)
next
  case (DoRecord a new now)
  show ?thesis unfolding DoRecord
    using assms(1) by (simp add: record_execution_attempt_def Let_def purged_def)
next
  case (DoMark i h)
  show ?thesis unfolding DoMark
    using assms(1) by (simp add: mark_execution_attempt_broadcast_def Let_def purged_def)
next
  case (DoSave i raw n h now)
  show ?thesis unfolding DoSave using assms
    by (auto simp: DoSave save_presigned_tx_def intro!: purged_update)
qed (use assms(1) in \<open>auto simp: arm_mint_plan_def disarm_mint_plan_def cache_mint_plan_tx_def
       clear_presigned_tx_def clear_presigned_for_wallet_def cancel_open_plans_for_wallet_def
       release_mint_plan_to_armed_def mark_mint_plan_executed_def fail_mint_plan_execution_def
       Let_def purge_presigned_def intro!: purged_update\<close>)

text \<open>
C20 As long as the pre-sign pass only writes to plans that have not finished, no sequence of queries
leaves a spend-capable pre-signed transaction on a terminal plan: every way into a terminal status purges it.
\<close>

theorem terminal_plans_purged:
  "purged d \<Longrightarrow> saves_open ops d \<Longrightarrow> purged (run_ops ops d)"
  by (induction ops arbitrary: d) (auto intro: purged_op)

lemma terminal_plans_purged_witness:
  "purged (run_ops [DoSave ''a'' ''0xraw'' 7 ''0xh'' 3, DoDisarm ''a'' 4] (demo_db [demo_plan ''a'' Armed 5 50]))
   \<and> mp_raw (hd (plans (run_ops [DoSave ''a'' ''0xraw'' 7 ''0xh'' 3] (demo_db [demo_plan ''a'' Armed 5 50])))) = Some ''0xraw''"
proof
  show "purged (run_ops [DoSave ''a'' ''0xraw'' 7 ''0xh'' 3, DoDisarm ''a'' 4] (demo_db [demo_plan ''a'' Armed 5 50]))"
    by (rule terminal_plans_purged) (simp_all add: purged_def demo_defs save_presigned_tx_def update_plans_def)
  show "mp_raw (hd (plans (run_ops [DoSave ''a'' ''0xraw'' 7 ''0xh'' 3] (demo_db [demo_plan ''a'' Armed 5 50])))) = Some ''0xraw''"
    by (simp add: demo_defs save_presigned_tx_def update_plans_def)
qed

lemma update_plans_mem: "r \<in> set (plans d) \<Longrightarrow> (if p r then f r else r) \<in> set (plans (update_plans p f d))"
  by (simp add: update_plans_def set_update_where)

lemma disarm_then_save:
  assumes "r \<in> set (plans d)" and "mp_id r = i" and "mp_status r = Armed"
  shows "\<exists>r' \<in> set (plans (save_presigned_tx i raw n h t (snd (disarm_mint_plan i now d)))).
           mp_id r' = i \<and> mp_status r' = Cancelled \<and> mp_raw r' = Some raw"
proof -
  let ?p = "\<lambda>x. mp_id x = i \<and> mp_status x = Armed"
  let ?f = "\<lambda>x. (purge_presigned x)\<lparr>mp_status := Cancelled, mp_updated := now\<rparr>"
  have a: "?f r \<in> set (plans (snd (disarm_mint_plan i now d)))"
    using update_plans_mem[OF assms(1), of ?p ?f] assms(2,3) by (simp add: disarm_mint_plan_def Let_def)
  have "mp_id (?f r) = i" using assms(2) by (simp add: purge_presigned_def)
  with update_plans_mem[OF a, of "\<lambda>x. mp_id x = i"
      "\<lambda>x. x\<lparr>mp_raw := Some raw, mp_nonce := Some n, mp_hash := Some h, mp_presigned_at := Some t, mp_updated := t\<rparr>"]
  show ?thesis unfolding save_presigned_tx_def by (rule_tac bexI) (auto simp: purge_presigned_def)
qed

text \<open>
The write itself has no status guard: a pre-sign pass that read its candidates before the operator
disarmed the plan leaves the signed transaction on the cancelled plan, and neither a later pass over
finished plans (expiry, release, executed, failed) nor a second disarm removes it.
\<close>

theorem save_after_disarm_keeps_blob:
  assumes "r \<in> set (plans d)" and "mp_id r = i" and "mp_status r = Armed"
  shows "\<exists>r' \<in> set (plans (run_ops [DoDisarm i t1, DoSave i raw n h t2, DoExpire t3, DoRelease i t4,
                            DoExecuted i t5, DoFail i t6, DoDisarm i t7] d)).
           mp_id r' = i \<and> mp_status r' = Cancelled \<and> mp_raw r' = Some raw"
proof -
  obtain r' where r': "r' \<in> set (plans (run_ops [DoDisarm i t1, DoSave i raw n h t2] d))"
      "mp_id r' = i" "mp_status r' = Cancelled" "mp_raw r' = Some raw"
    using disarm_then_save[OF assms, of raw n h t2 t1] by auto
  have keep: "r' \<in> set (plans (update_plans p f e))" if "r' \<in> set (plans e)" "\<not> p r'" for p f e
    using update_plans_mem[OF that(1), of p f] that(2) by simp
  have "r' \<in> set (plans (run_ops [DoExpire t3, DoRelease i t4, DoExecuted i t5, DoFail i t6, DoDisarm i t7] e))"
    if "r' \<in> set (plans e)" for e
    using that r'(3)
    by (simp add: expire_stale_mint_plans_def release_mint_plan_to_armed_def mark_mint_plan_executed_def
        fail_mint_plan_execution_def disarm_mint_plan_def Let_def keep plans_publish_fold)
  from this[OF r'(1)] r'(2-) show ?thesis by auto
qed

lemma save_after_disarm_keeps_blob_witness:
  "\<exists>r' \<in> set (plans (run_ops [DoDisarm ''a'' 1, DoSave ''a'' ''0xraw'' 7 ''0xh'' 2, DoExpire 90, DoRelease ''a'' 91,
       DoExecuted ''a'' 92, DoFail ''a'' 93, DoDisarm ''a'' 94] (demo_db [demo_plan ''a'' Armed 5 50]))).
     mp_id r' = ''a'' \<and> mp_status r' = Cancelled \<and> mp_raw r' = Some ''0xraw''"
  by (rule save_after_disarm_keeps_blob[of "demo_plan ''a'' Armed 5 50"]) (simp_all add: demo_defs)

section \<open>The idempotency key\<close>

definition all_hashed :: "db \<Rightarrow> bool" where
  "all_hashed d \<longleftrightarrow> (\<forall>a \<in> set (attempts d). at_status a = Broadcast \<longrightarrow> at_hash a \<noteq> None)"

lemma attempts_update_plans [simp]: "attempts (update_plans p f d) = attempts d"
  by (simp add: update_plans_def)

lemma attempts_claim [simp]: "attempts (snd (claim_armed_mint_plan lk dn now lease lead d)) = attempts d"
  by (cases rule: claim_cases[of lk dn now lease lead d]) simp_all

lemma attempts_other:
  "\<nexists>i. op = DoDelete i \<Longrightarrow> \<nexists>a n t. op = DoRecord a n t \<Longrightarrow> \<nexists>i h. op = DoMark i h \<Longrightarrow>
   attempts (run_op op d) = attempts d"
  by (cases op)
     (simp_all add: create_mint_plan_def arm_mint_plan_def disarm_mint_plan_def cache_mint_plan_tx_def
       save_presigned_tx_def clear_presigned_tx_def clear_presigned_for_wallet_def
       cancel_open_plans_for_wallet_def release_mint_plan_to_armed_def mark_mint_plan_executed_def
       fail_mint_plan_execution_def expire_stale_mint_plans_def plans_publish_fold Let_def)

lemma broadcast_kept:
  assumes "a \<in> set (attempts d)" and "at_status a = Broadcast" and "at_plan a = mp_id r"
    and "r \<in> set (plans d)" and "mp_status r \<noteq> Draft" and "distinct (plan_ids d)"
  shows "a \<in> set (attempts (run_op op d))"
proof (cases op)
  case (DoDelete i)
  have "mp_id r \<notin> mp_id ` set (filter (\<lambda>r. mp_id r = i \<and> mp_status r = Draft) (plans d))"
    using same_id_same_row[OF assms(6,4)] assms(5) by (auto simp: image_iff)
  then show ?thesis using assms(1,3) by (simp add: DoDelete delete_mint_plan_def Let_def)
next
  case (DoRecord b new now)
  then show ?thesis using assms(1) by (simp add: record_execution_attempt_def Let_def)
next
  case (DoMark i h)
  then show ?thesis using assms(1,2)
    by (auto simp: mark_execution_attempt_broadcast_def Let_def set_update_where image_iff intro!: bexI[of _ a])
qed (use assms(1) attempts_other[of op d] in auto)

lemma all_hashed_op:
  assumes "all_hashed d" and "op_ok op d"
  shows "all_hashed (run_op op d)"
proof (cases op)
  case (DoDelete i)
  then show ?thesis using assms(1) by (simp add: all_hashed_def delete_mint_plan_def Let_def)
next
  case (DoRecord b new now)
  then show ?thesis using assms by (auto simp: all_hashed_def record_execution_attempt_def Let_def)
next
  case (DoMark i h)
  then show ?thesis using assms(1)
    by (auto simp: all_hashed_def mark_execution_attempt_broadcast_def Let_def set_update_where)
qed (use assms(1) attempts_other[of op d] in \<open>auto simp: all_hashed_def\<close>)

lemma latest_broadcast_Some:
  assumes "a \<in> set (attempts d)" and "at_status a = Broadcast" and "at_plan a = i" and "all_hashed d"
  shows "\<exists>h t. latest_broadcast_attempt d i = Some (h, t) \<and> at_time a \<le> t"
proof -
  let ?xs = "filter (\<lambda>r. at_plan r = i \<and> at_status r = Broadcast) (attempts d)"
  obtain b rest where b: "sort_desc at_time ?xs = b # rest"
    using assms(1-3) set_sort_desc[of at_time ?xs] by (cases "sort_desc at_time ?xs") auto
  have "b \<in> set ?xs" using b set_sort_desc[of at_time ?xs] by auto
  then obtain h where "at_hash b = Some h" using assms(4) by (auto simp: all_hashed_def)
  moreover have "at_time a \<le> at_time b"
    using sort_key_hd_min[of "\<lambda>x. - at_time x" ?xs b rest a] b assms(1-3) by (simp add: sort_desc_def)
  ultimately show ?thesis by (auto simp: latest_broadcast_attempt_def b)
qed

lemma broadcast_kept_steps:
  assumes "plan_steps d d'" and "distinct (plan_ids d)" and "all_hashed d"
    and "r \<in> set (plans d)" and "mp_status r \<noteq> Draft"
    and "a \<in> set (attempts d)" and "at_status a = Broadcast" and "at_plan a = mp_id r"
  shows "a \<in> set (attempts d') \<and> all_hashed d'"
  using assms
proof (induction rule: plan_steps.induct)
  case (one d d' op)
  from plan_steps_row[OF one.hyps(1) one.prems(1,3,4)]
  obtain r' where r': "r' \<in> set (plans d')" "same_terms r r'" "mp_status r' \<noteq> Draft" by auto
  have "a \<in> set (attempts d')" "all_hashed d'" using one.IH one.prems by auto
  moreover have "at_plan a = mp_id r'" using one.prems(7) r'(2) by (simp add: same_terms_def)
  ultimately show ?case
    using broadcast_kept[OF _ one.prems(6) _ r'(1,3) plan_steps_distinct[OF one.hyps(1) one.prems(1)]]
      all_hashed_op one.hyps(2) by blast
qed simp


definition demo_attempt :: "string \<Rightarrow> string \<Rightarrow> int \<Rightarrow> attempt" where
  "demo_attempt i h t = \<lparr>at_id = i, at_plan = ''a'', at_status = Broadcast, at_pending = None,
     at_hash = Some h, at_error = None, at_time = t\<rparr>"


section \<open>The expiry sweep\<close>

text \<open>
After the sweep no armed or executing plan is past its window; plans inside their window are
untouched, the count is the number of plans it expired, and one failure event is published for each.
\<close>

theorem expire_sweep_complete:
  assumes "expire_stale_mint_plans now d = (n, d')"
  shows "(\<forall>r \<in> set (plans d'). mp_status r \<in> {Armed, Executing} \<longrightarrow> \<not> sql_le (mp_armed_until r) now)
    \<and> (\<forall>r \<in> set (plans d). sql_gt (mp_armed_until r) now \<longrightarrow> r \<in> set (plans d'))
    \<and> n = length (filter (\<lambda>r. mp_status r \<in> {Armed, Executing} \<and> sql_le (mp_armed_until r) now) (plans d))
    \<and> length (events d') = length (events d) + n"
proof -
  let ?p = "\<lambda>r. mp_status r \<in> {Armed, Executing} \<and> sql_le (mp_armed_until r) now"
  let ?f = "\<lambda>r. (purge_presigned r)\<lparr>mp_status := Expired, mp_updated := now\<rparr>"
  have pl: "plans d' = update_where ?p ?f (plans d)" and n: "n = length (filter ?p (plans d))"
    and ev: "length (events d') = length (events d) + n"
    using assms by (auto simp: expire_stale_mint_plans_def Let_def plans_publish_fold returned_def update_plans_def)
  have "\<not> ?p (?f r)" for r by simp
  then have 1: "\<not> ?p r" if "r \<in> set (plans d')" for r
    using update_where_gone[of ?p ?f r "plans d"] that unfolding pl by blast
  have 2: "r \<in> set (plans d')" if "r \<in> set (plans d)" "sql_gt (mp_armed_until r) now" for r
  proof -
    have "\<not> sql_le (mp_armed_until r) now"
      using that(2) by (auto simp: sql_le_def sql_gt_def split: option.splits)
    then show ?thesis using update_where_keep[OF that(1), of ?p ?f] unfolding pl by blast
  qed
  show ?thesis using 1 2 n ev by (intro conjI ballI impI) blast+
qed

lemma expire_sweep_complete_witness:
  "\<exists>n d'. expire_stale_mint_plans 60 (demo_db [demo_plan ''a'' Armed 5 50, demo_plan ''b'' Executing 5 90]) = (n, d')
     \<and> n = 1 \<and> demo_plan ''b'' Executing 5 90 \<in> set (plans d')"
proof -
  obtain n d' where e: "expire_stale_mint_plans 60 (demo_db [demo_plan ''a'' Armed 5 50, demo_plan ''b'' Executing 5 90]) = (n, d')"
    by fastforce
  have "n = 1" "demo_plan ''b'' Executing 5 90 \<in> set (plans d')"
    using expire_sweep_complete[OF e] by (simp_all add: demo_defs sql_gt_def sql_le_def)
  then show ?thesis using e by blast
qed

end
