(* ===== verification/MintReads.thy ===== *)
theory MintReads
  imports Errors Funding MintPlans
begin

text \<open>
  The chain reads around a mint: the receipt of a broadcast and the fate of an earlier one
  (apps/worker/src/mint-receipt.ts), the ordered endpoint lists and their failover (mint-rpc.ts,
  workers/rpc-health.ts), the classification of OpenSea's answers and the allowance pre-check
  (mint-tx.ts), and the calldata of a public stage built without OpenSea (seadrop-public-mint.ts,
  packages/providers/src/chain/seadrop-public.ts). The RPC calls themselves and viem's ABI encoder
  are arguments. A \<open>Number\<close> made of a \<open>bigint\<close> is its double, again an integer.
\<close>

section \<open>Errors of calls\<close>

definition message_or_string :: "thrown \<Rightarrow> string" where
  "message_or_string e = (case e of ThrownApp a \<Rightarrow> err_message a | ThrownError m \<Rightarrow> m | ThrownOther s \<Rightarrow> s)"

text \<open>\<open>error instanceof Error ? error : new Error(String(error))\<close>\<close>

definition as_error :: "thrown \<Rightarrow> thrown" where
  "as_error e = (case e of ThrownOther s \<Rightarrow> ThrownError s | _ \<Rightarrow> e)"

section \<open>What OpenSea's refusals mean\<close>

definition is_terminal_mint_build_error :: "string \<Rightarrow> bool" where
  "is_terminal_mint_build_error m \<longleftrightarrow>
     matches_ci ''minted out'' m \<or> matches_ci ''sold out'' m \<or> matches_ci ''insufficient balance'' m"

text \<open>\<open>[^.]{0,n}p\<close> at the start of a string, and \<open>max(?:imum)?[^.]{0,40}per wallet\<close> anywhere.\<close>

fun gap_upto :: "nat \<Rightarrow> string \<Rightarrow> string \<Rightarrow> bool" where
  "gap_upto n p [] = (p = [])"
| "gap_upto n p (c # cs) =
     (starts_with p (c # cs) \<or>
      (case n of 0 \<Rightarrow> False | Suc k \<Rightarrow> c \<noteq> CHR ''.'' \<and> gap_upto k p cs))"

fun max_per_wallet :: "string \<Rightarrow> bool" where
  "max_per_wallet [] = False"
| "max_per_wallet (c # cs) =
     (starts_with ''max'' (c # cs) \<and> gap_upto 40 ''per wallet'' (drop 3 (c # cs)) \<or>
      starts_with ''maximum'' (c # cs) \<and> gap_upto 40 ''per wallet'' (drop 7 (c # cs)) \<or>
      max_per_wallet cs)"

definition is_per_wallet_limit_error :: "string \<Rightarrow> bool" where
  "is_per_wallet_limit_error m \<longleftrightarrow>
     max_per_wallet (to_lower m) \<or> matches_ci ''already minted'' m \<or> matches_ci ''exceeds'' m"

definition is_minted_out_error :: "string \<Rightarrow> bool" where
  "is_minted_out_error m \<longleftrightarrow>
     matches_ci ''fully minted out'' m \<or> matches_ci ''minted out'' m \<or> matches_ci ''sold out'' m"

text \<open>\<open>provider returned 4\d\d\<close>\<close>

fun provider_4xx :: "string \<Rightarrow> bool" where
  "provider_4xx [] = False"
| "provider_4xx (c # cs) =
     (starts_with ''provider returned 4'' (c # cs) \<and>
      (case drop 19 (c # cs) of a # b # _ \<Rightarrow> is_digit a \<and> is_digit b | _ \<Rightarrow> False) \<or>
      provider_4xx cs)"

section \<open>Allowance and supply\<close>

definition num_of_big :: "int \<Rightarrow> int" where
  "num_of_big i = \<lfloor>fl (of_int i)\<rfloor>"

definition num_sub :: "int \<Rightarrow> int \<Rightarrow> int" where
  "num_sub a b = \<lfloor>dsub (of_int a) (of_int b)\<rfloor>"

definition max_safe_integer :: int where "max_safe_integer = 2 ^ 53 - 1"

record mint_stats =
  ms_minter :: int
  ms_total :: int
  ms_max :: int

definition minted_out_clock_lag_grace_ms :: int where "minted_out_clock_lag_grace_ms = 5000"

definition minted_out_is_terminal :: "int \<Rightarrow> int option \<Rightarrow> mint_stats option \<Rightarrow> bool" where
  "minted_out_is_terminal now target supply =
     (case supply of
        Some s \<Rightarrow> if ms_max s > 0 then ms_total s \<ge> ms_max s
                  else (case target of None \<Rightarrow> True | Some t \<Rightarrow> now \<ge> t + minted_out_clock_lag_grace_ms)
      | None \<Rightarrow> (case target of None \<Rightarrow> True | Some t \<Rightarrow> now \<ge> t + minted_out_clock_lag_grace_ms))"

datatype precheck_verdict = PrecheckOk int | PrecheckMintedOut | PrecheckExhausted int

definition precheck_allowance :: "int \<Rightarrow> int option \<Rightarrow> mint_stats \<Rightarrow> precheck_verdict" where
  "precheck_allowance requested cap s =
     (let supply_left = (if ms_max s > 0 then num_of_big (ms_max s - ms_total s) else max_safe_integer)
      in if supply_left \<le> 0 then PrecheckMintedOut
         else case cap of
           Some c \<Rightarrow>
             let remaining = num_sub c (num_of_big (ms_minter s))
             in if remaining \<le> 0 then PrecheckExhausted c
                else PrecheckOk (max 1 (min requested (min remaining supply_left)))
         | None \<Rightarrow> PrecheckOk (max 1 (min requested supply_left)))"

record public_drop =
  pd_price :: int
  pd_start_sec :: int
  pd_end_sec :: int
  pd_max_per_wallet :: int
  pd_fee_bps :: int
  pd_restrict_fee :: bool

definition mintable_quantity :: "int \<Rightarrow> public_drop \<Rightarrow> mint_stats \<Rightarrow> int" where
  "mintable_quantity requested dr s =
     (let per_wallet_left = num_sub (pd_max_per_wallet dr) (num_of_big (ms_minter s));
          supply_left = num_of_big (ms_max s - ms_total s)
      in max 0 (min requested (min per_wallet_left supply_left)))"

section \<open>Endpoints\<close>

record rpc_endpoint = rpc_candidate +
  rpc_url :: string

definition push_new :: "string list \<Rightarrow> string \<Rightarrow> string list" where
  "push_new out url = (if url \<in> set out then out else out @ [url])"

definition resolve_broadcast_rpc_urls :: "rpc_endpoint list \<Rightarrow> int \<Rightarrow> string option \<Rightarrow> nat \<Rightarrow> string list" where
  "resolve_broadcast_rpc_urls table chain fallback limit =
     (let endpoints = filter (\<lambda>e. rpc_chain e = chain) table;
          ranked = filter (\<lambda>e. rpc_health e \<noteq> Down) (rank_rpc_endpoints endpoints chain);
          urls = foldl (\<lambda>out e. push_new out (rpc_url e)) [] ranked;
          all = (case fallback of
                   None \<Rightarrow> urls
                 | Some f \<Rightarrow> if f \<noteq> [] then push_new urls f else urls)
      in take limit all)"

definition resolve_best_rpc_url :: "rpc_endpoint list \<Rightarrow> int \<Rightarrow> string option \<Rightarrow> string option" where
  "resolve_best_rpc_url table chain fallback =
     (let endpoints = filter (\<lambda>e. rpc_chain e = chain) table
      in case List.find (\<lambda>e. rpc_health e \<noteq> Down) (rank_rpc_endpoints endpoints chain) of
           Some e \<Rightarrow> Some (rpc_url e)
         | None \<Rightarrow> fallback)"

record mint_rpc_config =
  alchemy_rpc :: "string option"
  chainstack_rpc :: "string option"
  drpc_rpc :: "string option"
  default_rpc :: "string option"

definition push_url :: "string list \<Rightarrow> string option \<Rightarrow> string list" where
  "push_url out url =
     (case url of None \<Rightarrow> out
      | Some u \<Rightarrow> if trim u \<noteq> [] \<and> u \<notin> set out then out @ [u] else out)"

definition mint_rpc_urls :: "mint_rpc_config \<Rightarrow> string list \<Rightarrow> string list" where
  "mint_rpc_urls c registry =
     push_url (foldl (\<lambda>out u. push_url out (Some u))
                 (foldl push_url [] [alchemy_rpc c, chainstack_rpc c, drpc_rpc c]) registry)
       (default_rpc c)"

fun try_each :: "thrown \<Rightarrow> string list \<Rightarrow> (string \<Rightarrow> thrown + 'a) \<Rightarrow> thrown + 'a" where
  "try_each prev [] f = Inl (as_error prev)"
| "try_each prev (u # us) f = (case f u of Inr x \<Rightarrow> Inr x | Inl e \<Rightarrow> try_each e us f)"

definition with_rpc_failover :: "string list \<Rightarrow> (string \<Rightarrow> thrown + 'a) \<Rightarrow> thrown + 'a" where
  "with_rpc_failover urls f =
     (if urls = [] then Inl (ThrownError ''withRpcFailover: no RPC endpoints configured'')
      else try_each (ThrownOther ''undefined'') urls f)"

section \<open>Receipts\<close>

datatype receipt_outcome = Mined | Reverted | Unresolved

text \<open>One \<open>getTransactionReceipt\<close>: it throws, finds nothing, or reads a status.\<close>

type_synonym receipt_reading = "thrown + string option"

definition reading_outcome :: "receipt_reading \<Rightarrow> receipt_outcome" where
  "reading_outcome r =
     (case r of
        Inl _ \<Rightarrow> Unresolved
      | Inr None \<Rightarrow> Unresolved
      | Inr (Some status) \<Rightarrow> if status = ''success'' then Mined else Reverted)"

text \<open>The polling loop on the readings it makes and the clock after each; \<open>None\<close>: still polling.\<close>

fun poll_receipt :: "int \<Rightarrow> (receipt_reading \<times> int) list \<Rightarrow> receipt_outcome option" where
  "poll_receipt deadline [] = None"
| "poll_receipt deadline ((r, now) # polls) =
     (if reading_outcome r \<noteq> Unresolved then Some (reading_outcome r)
      else if now \<ge> deadline then Some Unresolved
      else poll_receipt deadline polls)"

definition wait_for_mint_receipt :: "int \<Rightarrow> int option \<Rightarrow> (receipt_reading \<times> int) list \<Rightarrow> receipt_outcome option" where
  "wait_for_mint_receipt now timeout polls =
     poll_receipt (now + (case timeout of None \<Rightarrow> 2000 | Some t \<Rightarrow> t)) polls"

fun resolve_tx_outcome :: "(string \<Rightarrow> string \<Rightarrow> receipt_reading) \<Rightarrow> string list \<Rightarrow> string \<Rightarrow> receipt_outcome" where
  "resolve_tx_outcome read [] h = Unresolved"
| "resolve_tx_outcome read (u # us) h =
     (if reading_outcome (read u h) \<noteq> Unresolved then reading_outcome (read u h)
      else resolve_tx_outcome read us h)"

text \<open>A rejection of \<open>Promise.any\<close>: an \<open>AggregateError\<close> with the endpoints' errors, or something else.\<close>

datatype rejection = AggregateError "thrown list" string | OtherRejection thrown

definition broadcast_priority :: "(string \<Rightarrow> bool) list" where
  "broadcast_priority =
     [\<lambda>m. matches_ci ''insufficient funds'' m \<or> matches_ci ''insufficient balance'' m,
      \<lambda>m. matches_ci ''nonce too low'' m \<or> matches_ci ''nonce is too low'' m \<or> matches_ci ''already known'' m
          \<or> matches_ci ''replacement transaction underpriced'' m \<or> matches_ci ''invalid nonce'' m
          \<or> matches_gap_ci ''nonce'' ''expected'' m,
      \<lambda>m. matches_ci ''max fee per gas less than block base fee'' m
          \<or> matches_ci ''fee cap less than block base fee'' m
          \<or> matches_ci ''cannot be lower than the block base fee'' m
          \<or> matches_ci ''transaction underpriced'' m,
      \<lambda>m. matches_ci ''revert'' m \<or> matches_ci ''execution reverted'' m]"

fun first_by_priority :: "(string \<Rightarrow> bool) list \<Rightarrow> thrown list \<Rightarrow> thrown option" where
  "first_by_priority [] errs = None"
| "first_by_priority (p # ps) errs =
     (case List.find (\<lambda>e. p (message_or_string e)) errs of
        Some e \<Rightarrow> Some e
      | None \<Rightarrow> first_by_priority ps errs)"

definition pick_broadcast_error :: "rejection \<Rightarrow> thrown" where
  "pick_broadcast_error aggregate =
     (let errors = (case aggregate of AggregateError es _ \<Rightarrow> es | OtherRejection e \<Rightarrow> [e]);
          as_errors = map as_error errors
      in case as_errors of
           [] \<Rightarrow> (case aggregate of AggregateError _ m \<Rightarrow> ThrownError m | OtherRejection e \<Rightarrow> as_error e)
         | e # _ \<Rightarrow> (case first_by_priority broadcast_priority as_errors of Some h \<Rightarrow> h | None \<Rightarrow> e))"

section \<open>A public mint without OpenSea\<close>

definition seadrop_address :: string where
  "seadrop_address = ''0x00005ea00ac477b1030ce78506496e8c2de24bf5''"

definition zero_address :: string where
  "zero_address = ''0x0000000000000000000000000000000000000000''"

record sign_tx = raw_tx +
  tx_from :: string

text \<open>\<open>enc\<close> is viem's encoding of \<open>mintPublic(nft, feeRecipient, minterIfNotPayer, quantity)\<close>.\<close>

definition build_mint_public_tx ::
  "(string \<Rightarrow> string \<Rightarrow> string \<Rightarrow> int \<Rightarrow> string) \<Rightarrow> string \<Rightarrow> string \<Rightarrow> int \<Rightarrow> int \<Rightarrow> string option \<Rightarrow> string \<times> string \<times> string" where
  "build_mint_public_tx enc nft fee_recipient quantity price minter_if_not_payer =
     (seadrop_address,
      enc nft fee_recipient (case minter_if_not_payer of None \<Rightarrow> zero_address | Some m \<Rightarrow> m) quantity,
      show_int (price * quantity))"

record self_served_built =
  ss_tx :: sign_tx
  ss_start_ms :: int
  ss_end_ms :: int
  ss_requested :: int
  ss_quantity :: int

datatype self_served =
  SelfBuilt self_served_built | NotSelfServable | SelfSoldOut | SelfExhausted | SelfReadFailed string

record chain_reads =
  read_public_drop :: "string \<Rightarrow> string \<Rightarrow> thrown + public_drop"
  read_fee_recipient :: "string \<Rightarrow> string \<Rightarrow> thrown + string option"
  read_mint_stats :: "string \<Rightarrow> string \<Rightarrow> string \<Rightarrow> thrown + mint_stats"

text \<open>The three reads run together; of several failures the first in the code's order is reported.\<close>

definition build_self_served_public_mint ::
  "chain_reads \<Rightarrow> (string \<Rightarrow> string \<Rightarrow> string \<Rightarrow> int \<Rightarrow> string) \<Rightarrow> string list \<Rightarrow> string option \<Rightarrow> db
     \<Rightarrow> string option \<Rightarrow> string \<Rightarrow> int \<Rightarrow> int \<Rightarrow> string option \<Rightarrow> self_served" where
  "build_self_served_public_mint cr enc urls stage_id d contract minter quantity chain minter_if_not_payer =
     (case (stage_id, contract) of
        (Some sid, Some nft) \<Rightarrow>
          (case get_drop_stage sid d of
             None \<Rightarrow> NotSelfServable
           | Some stage \<Rightarrow>
               if ds_type stage \<noteq> Public then NotSelfServable
               else if \<not> is_native_currency (ds_currency stage) then NotSelfServable
               else case rbind (with_rpc_failover urls (\<lambda>u. read_public_drop cr u nft)) (\<lambda>dr.
                         rbind (with_rpc_failover urls (\<lambda>u. read_fee_recipient cr u nft)) (\<lambda>fr.
                         rbind (with_rpc_failover urls (\<lambda>u. read_mint_stats cr u nft minter)) (\<lambda>st.
                         Inr (dr, fr, st)))) of
                      Inl e \<Rightarrow> SelfReadFailed (message_or_string e)
                    | Inr (dr, fr, st) \<Rightarrow>
                        (case fr of
                           None \<Rightarrow> NotSelfServable
                         | Some fee_recipient \<Rightarrow>
                             if ms_total st \<ge> ms_max st then SelfSoldOut
                             else let q = mintable_quantity quantity dr st in
                               if q < 1 then SelfExhausted
                               else let (t, dt, v) = build_mint_public_tx enc nft fee_recipient q
                                                        (pd_price dr) minter_if_not_payer in
                                 SelfBuilt \<lparr>ss_tx = \<lparr>tx_to = t, tx_data = dt, tx_value = v, tx_chain = chain,
                                                     tx_from = minter\<rparr>,
                                            ss_start_ms = pd_start_sec dr * 1000,
                                            ss_end_ms = pd_end_sec dr * 1000,
                                            ss_requested = quantity, ss_quantity = q\<rparr>))
      | _ \<Rightarrow> NotSelfServable)"

section \<open>Quantities\<close>

lemma num_of_big_exact: "\<bar>i\<bar> \<le> 2 ^ 53 \<Longrightarrow> num_of_big i = i"
  by (simp add: num_of_big_def fl_of_int)

lemma num_sub_exact: "\<bar>a - b\<bar> \<le> 2 ^ 53 \<Longrightarrow> num_sub a b = a - b"
  using fl_of_int[of "a - b"] by (simp add: num_sub_def dsub_def)

text \<open>A contract whose numbers are exact doubles (the source's quantities are far below).\<close>

definition small_stats :: "mint_stats \<Rightarrow> bool" where
  "small_stats s \<longleftrightarrow> 0 \<le> ms_minter s \<and> ms_minter s \<le> 2 ^ 52 \<and> 0 \<le> ms_total s \<and> ms_total s \<le> 2 ^ 52
     \<and> 0 \<le> ms_max s \<and> ms_max s \<le> 2 ^ 52"

lemma precheck_exact:
  assumes "small_stats s" and "\<And>c. cap = Some c \<Longrightarrow> 0 \<le> c \<and> c \<le> 2 ^ 52"
  shows "precheck_allowance requested cap s =
     (if ms_max s > 0 \<and> ms_total s \<ge> ms_max s then PrecheckMintedOut
      else case cap of
        Some c \<Rightarrow> if c \<le> ms_minter s then PrecheckExhausted c
                  else PrecheckOk (max 1 (min requested (min (c - ms_minter s)
                         (if ms_max s > 0 then ms_max s - ms_total s else max_safe_integer))))
      | None \<Rightarrow> PrecheckOk (max 1 (min requested
                         (if ms_max s > 0 then ms_max s - ms_total s else max_safe_integer))))"
proof -
  have a: "num_of_big (ms_max s - ms_total s) = ms_max s - ms_total s"
    using assms(1) by (intro num_of_big_exact) (auto simp: small_stats_def)
  have b: "num_of_big (ms_minter s) = ms_minter s"
    using assms(1) by (intro num_of_big_exact) (auto simp: small_stats_def)
  have c: "num_sub c (ms_minter s) = c - ms_minter s" if "cap = Some c" for c
    using assms(1) assms(2)[OF that] by (intro num_sub_exact) (auto simp: small_stats_def)
  show ?thesis
    by (cases cap) (use c in \<open>auto simp: precheck_allowance_def a b Let_def max_safe_integer_def\<close>)
qed

text \<open>
A pre-check that lets a plan go on names a quantity the contract will take: at least one, at most
what was asked, within what is left of the wallet's cumulative cap and of a published supply.
\<close>

theorem precheck_within_limits:
  assumes "precheck_allowance requested cap s = PrecheckOk q" and "small_stats s" and "1 \<le> requested"
    and "\<And>c. cap = Some c \<Longrightarrow> 0 \<le> c \<and> c \<le> 2 ^ 52"
  shows "1 \<le> q \<and> q \<le> requested \<and> (\<forall>c. cap = Some c \<longrightarrow> ms_minter s + q \<le> c)
    \<and> (0 < ms_max s \<longrightarrow> ms_total s + q \<le> ms_max s)"
  using assms(1,3) precheck_exact[OF assms(2), of cap requested, OF assms(4)]
  by (cases cap) (auto simp: max_safe_integer_def split: if_splits)

definition demo_stats :: mint_stats where
  "demo_stats = \<lparr>ms_minter = 1, ms_total = 90, ms_max = 100\<rparr>"

lemma precheck_within_limits_witness:
  "precheck_allowance 5 (Some 3) demo_stats = PrecheckOk 2 \<and> ms_minter demo_stats + 2 \<le> 3"
proof -
  have s: "small_stats demo_stats" by (simp add: small_stats_def demo_stats_def)
  have e: "precheck_allowance 5 (Some 3) demo_stats = PrecheckOk 2"
    by (subst precheck_exact[OF s]) (auto simp: demo_stats_def)
  show ?thesis using precheck_within_limits[OF e s] e by simp
qed

lemma mintable_exact:
  assumes "small_stats s" and "0 \<le> pd_max_per_wallet dr" and "pd_max_per_wallet dr \<le> 2 ^ 52"
  shows "mintable_quantity requested dr s =
    max 0 (min requested (min (pd_max_per_wallet dr - ms_minter s) (ms_max s - ms_total s)))"
proof -
  have a: "num_of_big (ms_max s - ms_total s) = ms_max s - ms_total s"
    using assms(1) by (intro num_of_big_exact) (auto simp: small_stats_def)
  have b: "num_of_big (ms_minter s) = ms_minter s"
    using assms(1) by (intro num_of_big_exact) (auto simp: small_stats_def)
  have c: "num_sub (pd_max_per_wallet dr) (ms_minter s) = pd_max_per_wallet dr - ms_minter s"
    using assms by (intro num_sub_exact) (auto simp: small_stats_def)
  show ?thesis by (simp add: mintable_quantity_def a b c Let_def)
qed

section \<open>Failover and receipts\<close>

lemma failover_ok_iff: "(\<exists>x. with_rpc_failover urls f = Inr x) \<longleftrightarrow> (\<exists>u \<in> set urls. \<exists>x. f u = Inr x)"
proof (induction urls)
  case (Cons u us)
  have "(\<exists>x. try_each e us f = Inr x) \<longleftrightarrow> (\<exists>u \<in> set us. \<exists>x. f u = Inr x)" for e
    by (induction us arbitrary: e) (auto split: sum.splits)
  then show ?case by (cases "f u") (auto simp: with_rpc_failover_def)
qed (simp add: with_rpc_failover_def)

lemma resolve_definite_iff:
  "resolve_tx_outcome read urls h = Unresolved \<longleftrightarrow> (\<forall>u \<in> set urls. reading_outcome (read u h) = Unresolved)"
  by (induction urls) auto

lemma resolve_from_endpoint:
  "resolve_tx_outcome read urls h = o' \<Longrightarrow> o' \<noteq> Unresolved \<Longrightarrow> \<exists>u \<in> set urls. reading_outcome (read u h) = o'"
  by (induction urls) (auto split: if_splits)

lemma poll_returns:
  "p \<in> set polls \<Longrightarrow> snd p \<ge> deadline \<Longrightarrow> \<exists>o'. poll_receipt deadline polls = Some o'"
  by (induction polls) auto

lemma poll_unresolved_late:
  "poll_receipt deadline polls = Some Unresolved \<Longrightarrow> \<exists>p \<in> set polls. snd p \<ge> deadline"
  by (induction polls) (auto split: if_splits)

section \<open>Endpoint lists\<close>

lemma distinct_push_url: "distinct out \<Longrightarrow> distinct (push_url out u)"
  by (auto simp: push_url_def split: option.splits)

lemma distinct_fold_push: "distinct out \<Longrightarrow> distinct (foldl (\<lambda>out u. push_url out (g u)) out us)"
  by (induction us arbitrary: out) (simp_all add: distinct_push_url)

lemma mint_rpc_urls_distinct: "distinct (mint_rpc_urls c registry)"
  unfolding mint_rpc_urls_def by (simp add: distinct_push_url distinct_fold_push)

section \<open>The two supply checks disagree\<close>

text \<open>
A contract that publishes no supply cap (maxSupply 0) is unbounded for the pre-check of an allowlist
stage, as its comment says, but sold out for the self-served public path, whose caller then fails the plan.
\<close>

theorem uncapped_public_drop_sold_out:
  assumes "ms_max st = 0" and "0 \<le> ms_total st"
    and "get_drop_stage sid d = Some stage" and "ds_type stage = Public" and "is_native_currency (ds_currency stage)"
    and "with_rpc_failover urls (\<lambda>u. read_public_drop cr u nft) = Inr dr"
    and "with_rpc_failover urls (\<lambda>u. read_fee_recipient cr u nft) = Inr (Some fr)"
    and "with_rpc_failover urls (\<lambda>u. read_mint_stats cr u nft minter) = Inr st"
  shows "build_self_served_public_mint cr enc urls (Some sid) d (Some nft) minter q chain minp = SelfSoldOut
    \<and> precheck_allowance q None st \<noteq> PrecheckMintedOut"
  using assms
  by (simp add: build_self_served_public_mint_def precheck_allowance_def max_safe_integer_def Let_def)

definition demo_stage_row :: drop_stage where
  "demo_stage_row = \<lparr>ds_id = ''s'', ds_project = ''p'', ds_label = ''Public'', ds_type = Public, ds_price = None,
     ds_currency = None, ds_max_per_wallet = None, ds_starts = 0, ds_paused = False\<rparr>"

definition demo_drop :: public_drop where
  "demo_drop = \<lparr>pd_price = 5, pd_start_sec = 0, pd_end_sec = 100, pd_max_per_wallet = 3, pd_fee_bps = 0,
     pd_restrict_fee = True\<rparr>"

definition demo_reads :: "mint_stats \<Rightarrow> chain_reads" where
  "demo_reads st = \<lparr>read_public_drop = (\<lambda>u n. Inr demo_drop), read_fee_recipient = (\<lambda>u n. Inr (Some ''0xfee'')),
     read_mint_stats = (\<lambda>u n m. Inr st)\<rparr>"

lemma uncapped_public_drop_sold_out_witness:
  "build_self_served_public_mint (demo_reads \<lparr>ms_minter = 0, ms_total = 7, ms_max = 0\<rparr>) (\<lambda>_ _ _ _. ''0x'') [''u'']
     (Some ''s'') (demo_db []\<lparr>stages := [demo_stage_row]\<rparr>) (Some ''0xnft'') ''0xme'' 1 4663 None = SelfSoldOut"
  using uncapped_public_drop_sold_out[of "\<lparr>ms_minter = 0, ms_total = 7, ms_max = 0\<rparr>" "''s''"
      "demo_db []\<lparr>stages := [demo_stage_row]\<rparr>" demo_stage_row "[''u'']"
      "demo_reads \<lparr>ms_minter = 0, ms_total = 7, ms_max = 0\<rparr>" "''0xnft''" demo_drop "''0xfee''" "''0xme''"]
  by (simp add: demo_reads_def demo_db_def demo_stage_row_def get_drop_stage_def is_native_currency_def
      with_rpc_failover_def)

end
