(* ===== verification/Pipeline.thy ===== *)
theory Pipeline
  imports MintReads
begin

text \<open>
  The execution pipeline (packages/execution/src/pipeline.ts, adapters.ts) and the signing chokepoint's
  checks (packages/signing/src/index.ts): policy, mandatory simulation, shadow mode, signer capability,
  hand-off. The simulation is the function the caller injects; a rejected promise is \<open>Inl\<close>. viem's
  account and serializer, which turn a request into a signed transaction, are a parameter
  (\<open>signer_lib\<close>) of the two signing functions.
\<close>

section \<open>The signing chokepoint\<close>

record signer_handle =
  sh_id :: string
  sh_scheme :: scheme_kind

fun scheme_name :: "scheme_kind \<Rightarrow> string" where
  "scheme_name BrowserWallet = ''browser_wallet''"
| "scheme_name Eip7702SafeZodiac = ''eip7702_safe_zodiac''"
| "scheme_name CustomExecutor = ''custom_executor''"
| "scheme_name ManagedWalletKey = ''managed_wallet_key''"

definition not_implemented_scheme :: "string \<Rightarrow> thrown" where
  "not_implemented_scheme scheme =
     ThrownError (''signing scheme '' @ [CHR 0x27] @ scheme @ [CHR 0x27]
       @ '' is not implemented in this codebase yet '' @ [em_dash] @ '' Phase 2 delegated ''
       @ ''custody (ADR 0004) requires the owner'' @ [CHR 0x27] @ ''s Ledger hardware confirmation, a registered ''
       @ ''WebAuthn step-up factor, and explicit ToS-risk acceptance before it can be built and ''
       @ ''used for real. See docs/execution-architecture.md.'')"

definition assert_signable :: "signer_handle \<Rightarrow> thrown + unit" where
  "assert_signable s =
     (if sh_scheme s \<noteq> BrowserWallet \<and> sh_scheme s \<noteq> CustomExecutor \<and> sh_scheme s \<noteq> ManagedWalletKey
      then Inl (not_implemented_scheme (scheme_name (sh_scheme s))) else Inr ())"

record sign_request =
  sr_plan :: string
  sr_tx :: raw_tx

definition to_browser_sign_request :: "string \<Rightarrow> sign_tx \<Rightarrow> sign_request" where
  "to_browser_sign_request plan tx =
     \<lparr>sr_plan = plan, sr_tx = \<lparr>tx_to = tx_to tx, tx_data = tx_data tx, tx_value = tx_value tx,
                              tx_chain = tx_chain tx\<rparr>\<rparr>"

text \<open>An untyped value from the browser: a string or anything else.\<close>

datatype unknown = UText string | UOther

definition is_tx_hash :: "string \<Rightarrow> bool" where
  "is_tx_hash s \<longleftrightarrow> take 2 s = ''0x'' \<and> length s = 66 \<and> list_all is_hex (drop 2 s)"

definition parse_browser_sign_result :: "unknown \<Rightarrow> unknown \<Rightarrow> thrown + string \<times> string" where
  "parse_browser_sign_result plan_id tx_hash =
     (case plan_id of
        UOther \<Rightarrow> Inl (ThrownError ''browser sign result missing planId'')
      | UText p \<Rightarrow>
          if length p = 0 then Inl (ThrownError ''browser sign result missing planId'')
          else case tx_hash of
            UOther \<Rightarrow> Inl (ThrownError ''browser sign result has an invalid tx hash'')
          | UText h \<Rightarrow> if \<not> is_tx_hash h then Inl (ThrownError ''browser sign result has an invalid tx hash'')
                       else Inr (p, to_lower h))"

text \<open>What viem signs: an EIP-1559 transaction.\<close>

record eip1559 =
  e_to :: string
  e_data :: string
  e_value :: int
  e_chain :: int
  e_nonce :: int
  e_gas :: int
  e_max_fee :: int
  e_priority_fee :: int

record signer_lib =
  sl_sign :: "string \<Rightarrow> eip1559 \<Rightarrow> thrown + string"
  sl_keccak :: "string \<Rightarrow> string"
  sl_encode_execute :: "string \<Rightarrow> string \<Rightarrow> int \<Rightarrow> string"

record mint_sign_request =
  sq_chain :: int
  sq_to :: string
  sq_data :: string
  sq_value :: string
  sq_nonce :: int
  sq_max_fee :: string
  sq_priority_fee :: string
  sq_gas :: int

definition of_js :: "js_error + 'a \<Rightarrow> thrown + 'a" where
  "of_js r = (case r of
      Inl (RangeError m) \<Rightarrow> Inl (ThrownError m) | Inl (SyntaxError m) \<Rightarrow> Inl (ThrownError m)
    | Inl (PlainError m) \<Rightarrow> Inl (ThrownError m) | Inr x \<Rightarrow> Inr x)"

lemma of_js_simps [simp]: "of_js (Inr x) = Inr x" "(of_js r = Inr y) = (r = Inr y)"
  by (auto simp: of_js_def split: sum.splits js_error.splits)

text \<open>\<open>signManagedMintTransaction\<close>: the raw transaction and its hash.\<close>

definition sign_managed_mint_transaction :: "signer_lib \<Rightarrow> mint_sign_request \<Rightarrow> string \<Rightarrow> thrown + string \<times> string" where
  "sign_managed_mint_transaction lib q key =
     rbind (of_js (big_int (sq_value q))) (\<lambda>v.
     rbind (of_js (big_int (sq_max_fee q))) (\<lambda>mf.
     rbind (of_js (big_int (sq_priority_fee q))) (\<lambda>pf.
     rbind (sl_sign lib key \<lparr>e_to = sq_to q, e_data = sq_data q, e_value = v, e_chain = sq_chain q,
                             e_nonce = sq_nonce q, e_gas = sq_gas q, e_max_fee = mf, e_priority_fee = pf\<rparr>) (\<lambda>raw.
     Inr (raw, sl_keccak lib raw)))))"

text \<open>\<open>signExecutorTransaction\<close>: the operator calls the executor and sends no ETH of its own.\<close>

definition sign_executor_transaction ::
  "signer_lib \<Rightarrow> mint_sign_request \<Rightarrow> string \<Rightarrow> string \<Rightarrow> thrown + string \<times> string" where
  "sign_executor_transaction lib q executor key =
     rbind (of_js (big_int (sq_value q))) (\<lambda>v.
     let calldata = sl_encode_execute lib (sq_to q) (sq_data q) v in
     rbind (of_js (big_int (sq_max_fee q))) (\<lambda>mf.
     rbind (of_js (big_int (sq_priority_fee q))) (\<lambda>pf.
     rbind (sl_sign lib key \<lparr>e_to = executor, e_data = calldata, e_value = 0, e_chain = sq_chain q,
                             e_nonce = sq_nonce q, e_gas = sq_gas q, e_max_fee = mf, e_priority_fee = pf\<rparr>) (\<lambda>raw.
     Inr (raw, sl_keccak lib raw)))))"

section \<open>The pipeline\<close>

datatype simulation = SimOk int | SimRevert string

record sim_call =
  sc_rpc :: string
  sc_from :: string
  sc_to :: string
  sc_data :: string
  sc_value :: string

type_synonym simulate_fn = "sim_call \<Rightarrow> thrown + simulation"

record pipeline_deps =
  dp_rpc :: string
  dp_live :: bool
  dp_simulate :: simulate_fn
  dp_now :: js_date

record pipeline_input =
  in_plan :: string
  in_status :: mint_plan_status
  in_armed_until :: "js_date option"
  in_signer_ceiling :: int
  in_plan_ceiling :: int
  in_spent :: int
  in_signer :: signer_handle
  in_recipient :: string
  in_tx :: sign_tx

datatype pipeline_outcome =
  BlockedPolicy string
| BlockedSimulation string
| ShadowWouldFire int
| BlockedScheme string
| ReadyBrowser sign_request
| ReadyDelegated signer_handle sign_tx int

definition policy_of :: "pipeline_input \<Rightarrow> int \<Rightarrow> fire_check" where
  "policy_of i value =
     \<lparr>fc_status = in_status i, fc_armed_until = in_armed_until i, fc_signer_ceiling = in_signer_ceiling i,
      fc_plan_ceiling = in_plan_ceiling i, fc_spent = in_spent i, fc_tx_value = value\<rparr>"

definition sim_call_of :: "pipeline_input \<Rightarrow> string \<Rightarrow> sim_call" where
  "sim_call_of i rpc = \<lparr>sc_rpc = rpc, sc_from = in_recipient i, sc_to = tx_to (in_tx i),
                        sc_data = tx_data (in_tx i), sc_value = tx_value (in_tx i)\<rparr>"

definition run_execution_pipeline :: "pipeline_input \<Rightarrow> pipeline_deps \<Rightarrow> thrown + pipeline_outcome" where
  "run_execution_pipeline i deps =
     rbind (of_js (big_int (tx_value (in_tx i)))) (\<lambda>value.
     case can_fire_mint_plan (policy_of i value) (dp_now deps) of
       Refused reason \<Rightarrow> Inr (BlockedPolicy reason)
     | FireOk \<Rightarrow>
         rbind (dp_simulate deps (sim_call_of i (dp_rpc deps))) (\<lambda>sim.
         case sim of
           SimRevert reason \<Rightarrow> Inr (BlockedSimulation reason)
         | SimOk gas \<Rightarrow>
             if \<not> dp_live deps then Inr (ShadowWouldFire gas)
             else case assert_signable (in_signer i) of
               Inl e \<Rightarrow> Inr (BlockedScheme (message_or_string e))
             | Inr _ \<Rightarrow>
                 if sh_scheme (in_signer i) = BrowserWallet
                 then Inr (ReadyBrowser (to_browser_sign_request (in_plan i) (in_tx i)))
                 else Inr (ReadyDelegated (in_signer i) (in_tx i) gas)))"

text \<open>OpenSea's adapter: calldata from the client (a parameter), addressed to the target it names.\<close>

definition open_sea_adapter ::
  "(string \<Rightarrow> string \<Rightarrow> int \<Rightarrow> thrown + string \<times> string \<times> string) \<Rightarrow> string \<Rightarrow> int \<Rightarrow> string \<Rightarrow> int \<Rightarrow> thrown + sign_tx" where
  "open_sea_adapter build_drop_mint slug chain minter quantity =
     rbind (build_drop_mint slug minter quantity) (\<lambda>(target, calldata, value).
       Inr \<lparr>tx_to = target, tx_data = calldata, tx_value = value, tx_chain = chain, tx_from = minter\<rparr>)"

section \<open>Properties\<close>

lemma assert_signable_iff: "(\<exists>u. assert_signable s = Inr u) \<longleftrightarrow> sh_scheme s \<noteq> Eip7702SafeZodiac"
  by (cases "sh_scheme s") (simp_all add: assert_signable_def)

lemma assert_signable_Inr: "assert_signable s = (if sh_scheme s = Eip7702SafeZodiac
    then Inl (not_implemented_scheme ''eip7702_safe_zodiac'') else Inr ())"
  by (cases "sh_scheme s") (simp_all add: assert_signable_def)

text \<open>
The pipeline hands a transaction to a server-side signer exactly when live execution is on, the fire
predicate accepts its value, the simulation of that very transaction from its recipient succeeded, and
the scheme is one that signs on the server; what is handed on is the transaction that was simulated.
\<close>

theorem delegated_iff_all_gates:
  "run_execution_pipeline i deps = Inr (ReadyDelegated s tx gas) \<longleftrightarrow>
     dp_live deps \<and> s = in_signer i \<and> tx = in_tx i \<and> sh_scheme s \<in> {CustomExecutor, ManagedWalletKey}
     \<and> (\<exists>v. big_int (tx_value tx) = Inr v \<and> can_fire_mint_plan (policy_of i v) (dp_now deps) = FireOk)
     \<and> dp_simulate deps (sim_call_of i (dp_rpc deps)) = Inr (SimOk gas)"
proof (cases "big_int (tx_value (in_tx i))")
  case (Inl e)
  then show ?thesis by (auto simp: run_execution_pipeline_def of_js_def split: js_error.splits)
next
  case v: (Inr v)
  show ?thesis
  proof (cases "can_fire_mint_plan (policy_of i v) (dp_now deps)")
    case (Refused r)
    then show ?thesis by (auto simp: run_execution_pipeline_def v)
  next
    case FireOk
    then show ?thesis
      by (cases "dp_simulate deps (sim_call_of i (dp_rpc deps))"; cases "sh_scheme (in_signer i)")
         (auto simp: run_execution_pipeline_def v assert_signable_def split: simulation.splits)
  qed
qed

lemma delegated_gates:
  assumes "run_execution_pipeline i deps = Inr (ReadyDelegated s tx gas)"
  shows "dp_live deps" "s = in_signer i" "tx = in_tx i" "sh_scheme s \<in> {CustomExecutor, ManagedWalletKey}"
    "\<exists>v. big_int (tx_value tx) = Inr v \<and> can_fire_mint_plan (policy_of i v) (dp_now deps) = FireOk"
    "dp_simulate deps (sim_call_of i (dp_rpc deps)) = Inr (SimOk gas)"
proof -
  obtain v where v: "big_int (tx_value (in_tx i)) = Inr v"
    using assms by (cases "big_int (tx_value (in_tx i))")
      (auto simp: run_execution_pipeline_def of_js_def split: js_error.splits)
  have f: "can_fire_mint_plan (policy_of i v) (dp_now deps) = FireOk"
    using assms by (cases "can_fire_mint_plan (policy_of i v) (dp_now deps)")
      (auto simp: run_execution_pipeline_def v)
  have "dp_live deps \<and> s = in_signer i \<and> tx = in_tx i \<and> sh_scheme s \<in> {CustomExecutor, ManagedWalletKey}
     \<and> dp_simulate deps (sim_call_of i (dp_rpc deps)) = Inr (SimOk gas)"
    using assms
    by (cases "dp_simulate deps (sim_call_of i (dp_rpc deps))"; cases "sh_scheme (in_signer i)")
       (auto simp: run_execution_pipeline_def v f assert_signable_def split: simulation.splits if_splits)
  with v f show "dp_live deps" "s = in_signer i" "tx = in_tx i" "sh_scheme s \<in> {CustomExecutor, ManagedWalletKey}"
    "\<exists>v. big_int (tx_value tx) = Inr v \<and> can_fire_mint_plan (policy_of i v) (dp_now deps) = FireOk"
    "dp_simulate deps (sim_call_of i (dp_rpc deps)) = Inr (SimOk gas)"
    by auto
qed

text \<open>The pipeline never offers more value than the plan's ceiling leaves.\<close>

lemma delegated_within_ceiling:
  assumes "run_execution_pipeline i deps = Inr (ReadyDelegated s tx gas)"
  shows "\<exists>v. big_int (tx_value tx) = Inr v \<and> in_spent i + v \<le> in_plan_ceiling i"
proof -
  obtain v where v: "big_int (tx_value tx) = Inr v" "can_fire_mint_plan (policy_of i v) (dp_now deps) = FireOk"
    using delegated_gates(5)[OF assms] by blast
  from fire_ok_spend[OF v(2)] v(1) show ?thesis by (auto simp: policy_of_def)
qed

lemma shadow_never_ready:
  "\<not> dp_live deps \<Longrightarrow> run_execution_pipeline i deps \<noteq> Inr (ReadyDelegated s tx gas)
     \<and> run_execution_pipeline i deps \<noteq> Inr (ReadyBrowser q)"
  by (auto simp: run_execution_pipeline_def rbind_Inr_iff split: fire_decision.splits simulation.splits if_splits)

lemma parse_browser_sign_result_iff:
  "parse_browser_sign_result p h = Inr r \<longleftrightarrow>
     (\<exists>ps hs. p = UText ps \<and> ps \<noteq> [] \<and> h = UText hs \<and> is_tx_hash hs \<and> r = (ps, to_lower hs))"
  by (auto simp: parse_browser_sign_result_def split: unknown.splits)

text \<open>A signed mint carries the value, nonce and target it was asked for.\<close>

lemma sign_managed_Inr:
  "sign_managed_mint_transaction lib q key = Inr (raw, h) \<longleftrightarrow>
     (\<exists>v mf pf. big_int (sq_value q) = Inr v \<and> big_int (sq_max_fee q) = Inr mf \<and> big_int (sq_priority_fee q) = Inr pf
        \<and> sl_sign lib key \<lparr>e_to = sq_to q, e_data = sq_data q, e_value = v, e_chain = sq_chain q,
             e_nonce = sq_nonce q, e_gas = sq_gas q, e_max_fee = mf, e_priority_fee = pf\<rparr> = Inr raw
        \<and> h = sl_keccak lib raw)"
  by (auto simp: sign_managed_mint_transaction_def rbind_Inr_iff)

end
