(* ===== verification/Nonce.thy ===== *)
theory Nonce
  imports Prelude
begin

text \<open>
  Per-wallet nonce reservation (\<open>apps/worker/src/nonce-allocator.ts\<close>). The two module-level maps
  are the state: the highest nonce handed out with its instant, and the pool of nonces given back.
  The interface its clients rely on (the fire path and the pre-sign pass, which sign for several
  plans of one wallet) is the locale \<open>exclusive_source\<close>: a nonce taken is not one that is still
  out. The allocator provides it while no reservation has outlived its time to live.
\<close>

section \<open>The allocator\<close>

record nonce_state =
  reservations :: "string \<rightharpoonup> int \<times> int"
  freed :: "string \<rightharpoonup> int list"

definition reservation_ttl_ms :: int where
  "reservation_ttl_ms = 60000"

definition nonce_key :: "string \<Rightarrow> string" where
  "nonce_key wallet = to_lower wallet"

definition pool_of :: "nonce_state \<Rightarrow> string \<Rightarrow> int list" where
  "pool_of s k = (case freed s k of None \<Rightarrow> [] | Some p \<Rightarrow> p)"

definition reserve_nonce :: "nonce_state \<Rightarrow> string \<Rightarrow> int \<Rightarrow> int \<Rightarrow> int \<times> nonce_state" where
  "reserve_nonce s wallet rpc_nonce now =
     (let k = nonce_key wallet;
          held = reservations s k;
          usable = (case held of None \<Rightarrow> False | Some (_, t) \<Rightarrow> now - t \<le> reservation_ttl_ms);
          pool = sort (filter (\<lambda>n. n \<ge> rpc_nonce) (pool_of s k))
      in case pool of
           reuse # rest \<Rightarrow>
             (reuse,
              s\<lparr>freed := (freed s)(k \<mapsto> rest),
                reservations :=
                  (if \<not> usable \<or> reuse > (case held of None \<Rightarrow> - 1 | Some (h, _) \<Rightarrow> h)
                   then (reservations s)(k \<mapsto> (reuse, now)) else reservations s)\<rparr>)
         | [] \<Rightarrow>
             (let nxt = (case held of Some (h, _) \<Rightarrow> if usable then max rpc_nonce (h + 1) else rpc_nonce
                                    | None \<Rightarrow> rpc_nonce)
              in (nxt, s\<lparr>freed := (freed s)(k \<mapsto> []),
                         reservations := (reservations s)(k \<mapsto> (nxt, now))\<rparr>)))"

definition release_nonce :: "nonce_state \<Rightarrow> string \<Rightarrow> int \<Rightarrow> nonce_state" where
  "release_nonce s wallet nonce =
     (let k = nonce_key wallet;
          held = reservations s k;
          s1 = (case held of
                  Some (h, _) \<Rightarrow> if h = nonce then s\<lparr>reservations := (reservations s)(k := None)\<rparr> else s
                | None \<Rightarrow> s);
          highest = (case held of None \<Rightarrow> - 1 | Some (h, _) \<Rightarrow> h)
      in if nonce > highest then s1
         else let pool = pool_of s1 k
              in if nonce \<in> set pool then s1 else s1\<lparr>freed := (freed s1)(k \<mapsto> pool @ [nonce])\<rparr>)"

definition reset_nonce_reservations :: nonce_state where
  "reset_nonce_reservations = \<lparr>reservations = Map.empty, freed = Map.empty\<rparr>"

section \<open>The interface: a source of exclusive tokens\<close>

datatype ('r, 'n) use = Take 'r | Give 'n

locale exclusive_source =
  fixes take_tok :: "'s \<Rightarrow> 'r \<Rightarrow> 'n \<times> 's"
    and give_tok :: "'s \<Rightarrow> 'n \<Rightarrow> 's"
    and inv :: "'s \<Rightarrow> 'n set \<Rightarrow> bool"
    and ready :: "'s \<Rightarrow> 'r \<Rightarrow> bool"
  assumes take_fresh: "inv s out \<Longrightarrow> ready s r \<Longrightarrow> take_tok s r = (n, s') \<Longrightarrow> n \<notin> out \<and> inv s' (insert n out)"
    and give_keeps: "inv s out \<Longrightarrow> n \<in> out \<Longrightarrow> inv (give_tok s n) (out - {n})"
begin

text \<open>Any use of the source, with the tokens that are out; a token is given back only by whoever has it.\<close>

inductive uses :: "'s \<Rightarrow> 'n set \<Rightarrow> ('r, 'n) use list \<Rightarrow> 's \<Rightarrow> 'n set \<Rightarrow> bool" where
  uses_nil: "uses s out [] s out"
| uses_take: "uses s out us s1 out1 \<Longrightarrow> ready s1 r \<Longrightarrow> take_tok s1 r = (n, s2) \<Longrightarrow>
     uses s out (us @ [Take r]) s2 (insert n out1)"
| uses_give: "uses s out us s1 out1 \<Longrightarrow> n \<in> out1 \<Longrightarrow>
     uses s out (us @ [Give n]) (give_tok s1 n) (out1 - {n})"

lemma uses_inv: "uses s out us s' out' \<Longrightarrow> inv s out \<Longrightarrow> inv s' out'"
  by (induction rule: uses.induct) (auto dest: take_fresh give_keeps)

lemma next_is_exclusive:
  "uses s out us s' out' \<Longrightarrow> inv s out \<Longrightarrow> ready s' r \<Longrightarrow> fst (take_tok s' r) \<notin> out'"
  using take_fresh[of s' out' r "fst (take_tok s' r)" "snd (take_tok s' r)"] uses_inv by fastforce

end

section \<open>The allocator provides it\<close>

definition nonce_inv :: "string \<Rightarrow> nonce_state \<Rightarrow> int set \<Rightarrow> bool" where
  "nonce_inv w s out \<longleftrightarrow>
     distinct (pool_of s (nonce_key w)) \<and> set (pool_of s (nonce_key w)) \<inter> out = {}
     \<and> (\<forall>x \<in> out. (\<exists>h t. reservations s (nonce_key w) = Some (h, t) \<and> x \<le> h)
                    \<or> (\<exists>p \<in> set (pool_of s (nonce_key w)). x < p))"

definition reservation_live :: "string \<Rightarrow> nonce_state \<Rightarrow> int \<times> int \<Rightarrow> bool" where
  "reservation_live w s r \<longleftrightarrow>
     (\<forall>h t. reservations s (nonce_key w) = Some (h, t) \<longrightarrow> snd r - t \<le> reservation_ttl_ms)"

definition wallet_take :: "string \<Rightarrow> nonce_state \<Rightarrow> int \<times> int \<Rightarrow> int \<times> nonce_state" where
  "wallet_take w s r = reserve_nonce s w (fst r) (snd r)"

lemma pool_of_upd [simp]: "pool_of (s\<lparr>freed := (freed s)(k \<mapsto> p), reservations := m\<rparr>) k = p"
  "pool_of (s\<lparr>freed := (freed s)(k \<mapsto> p)\<rparr>) k = p" "pool_of (s\<lparr>reservations := m\<rparr>) k = pool_of s k"
  by (simp_all add: pool_of_def)

lemma reserve_cases:
  fixes s w rpc now
  defines "k \<equiv> nonce_key w"
  obtains (reuse) p rest where "sort (filter (\<lambda>n. n \<ge> rpc) (pool_of s k)) = p # rest"
      "fst (reserve_nonce s w rpc now) = p" "pool_of (snd (reserve_nonce s w rpc now)) k = rest"
      "reservations (snd (reserve_nonce s w rpc now)) k =
         (case reservations s k of None \<Rightarrow> Some (p, now)
          | Some (h, t) \<Rightarrow> if now - t \<le> reservation_ttl_ms \<and> p \<le> h then Some (h, t) else Some (p, now))"
    | (fresh) "\<forall>q \<in> set (pool_of s k). q < rpc"
      "fst (reserve_nonce s w rpc now) =
         (case reservations s k of None \<Rightarrow> rpc
          | Some (h, t) \<Rightarrow> if now - t \<le> reservation_ttl_ms then max rpc (h + 1) else rpc)"
      "pool_of (snd (reserve_nonce s w rpc now)) k = []"
      "reservations (snd (reserve_nonce s w rpc now)) k = Some (fst (reserve_nonce s w rpc now), now)"
proof (cases "sort (filter (\<lambda>n. n \<ge> rpc) (pool_of s k))")
  case Nil
  then have "filter (\<lambda>n. n \<ge> rpc) (pool_of s k) = []" by (metis length_0_conv length_sort)
  then have "\<forall>q \<in> set (pool_of s k). q < rpc" by (auto simp: filter_empty_conv)
  with Nil show thesis
    by (intro fresh) (auto simp: reserve_nonce_def k_def[symmetric] Let_def split: option.split prod.split)
next
  case (Cons p rest)
  then show thesis
    by (intro reuse[OF Cons]) (auto simp: reserve_nonce_def k_def[symmetric] Let_def split: option.split prod.split)
qed

lemma sort_filter_Cons:
  assumes "sort (filter (\<lambda>n. n \<ge> rpc) pool) = p # rest" and "distinct (pool :: int list)"
  shows "p \<in> set pool" "rpc \<le> p" "distinct rest" "p \<notin> set rest" "set rest = {q \<in> set pool. rpc \<le> q} - {p}"
    "\<forall>q \<in> set rest. p < q"
proof -
  have s: "set (p # rest) = {q \<in> set pool. rpc \<le> q}" and d: "distinct (p # rest)" and o: "sorted (p # rest)"
    using assms by (metis set_sort set_filter, metis distinct_sort distinct_filter, metis sorted_sort)
  from s d o show "p \<in> set pool" "rpc \<le> p" "distinct rest" "p \<notin> set rest"
    "set rest = {q \<in> set pool. rpc \<le> q} - {p}" "\<forall>q \<in> set rest. p < q"
    by (auto simp: order_le_less)
qed

lemma wallet_take_fresh:
  assumes inv: "nonce_inv w s out" and live: "reservation_live w s r" and tk: "wallet_take w s r = (n, s')"
  shows "n \<notin> out \<and> nonce_inv w s' (insert n out)"
proof -
  obtain rpc now where r: "r = (rpc, now)" by fastforce
  let ?k = "nonce_key w"
  have n: "n = fst (reserve_nonce s w rpc now)" and s': "s' = snd (reserve_nonce s w rpc now)"
    using tk by (auto simp: wallet_take_def r)
  have live': "now - t \<le> reservation_ttl_ms" if "reservations s ?k = Some (h, t)" for h t
    using live that by (auto simp: reservation_live_def r)
  have d: "distinct (pool_of s ?k)" and disj: "set (pool_of s ?k) \<inter> out = {}"
    and bnd: "\<And>x. x \<in> out \<Longrightarrow> (\<exists>h t. reservations s ?k = Some (h, t) \<and> x \<le> h) \<or> (\<exists>p \<in> set (pool_of s ?k). x < p)"
    using inv by (auto simp: nonce_inv_def)
  show ?thesis
  proof (cases rule: reserve_cases[of rpc s w now])
    case (reuse p rest)
    note sf = sort_filter_Cons[OF reuse(1) d]
    have np: "n = p" and pool: "pool_of s' ?k = rest" using reuse(2,3) n s' by simp_all
    have "p \<notin> out" using sf(1) disj by auto
    moreover obtain h t where res: "reservations s' ?k = Some (h, t)" "p \<le> h"
      "\<And>h0 t0. reservations s ?k = Some (h0, t0) \<Longrightarrow> h0 \<le> h"
      using reuse(4) live' unfolding s' by (auto split: option.splits if_splits prod.splits)
    have "(\<exists>h t. reservations s' ?k = Some (h, t) \<and> x \<le> h) \<or> (\<exists>p \<in> set rest. x < p)" if "x \<in> insert n out" for x
    proof (cases "x = p")
      case False
      with that np have "x \<in> out" by simp
      from bnd[OF this] show ?thesis
      proof (elim disjE exE conjE bexE)
        fix h0 t0 assume "reservations s ?k = Some (h0, t0)" "x \<le> h0"
        with res show ?thesis by force
      next
        fix q assume q: "q \<in> set (pool_of s ?k)" "x < q"
        then show ?thesis
          by (cases "q \<in> set rest") (use sf(2,5) res q in \<open>force+\<close>)
      qed
    qed (use res in auto)
    ultimately show ?thesis using sf disj by (auto simp: nonce_inv_def np pool)
  next
    case fresh
    have out_lt: "x < n" if "x \<in> out" for x
      using bnd[OF that] fresh(1,2) live' unfolding n by (force split: option.splits prod.splits)
    then have "n \<notin> out" by blast
    moreover have "nonce_inv w s' (insert n out)"
      using fresh(3,4) out_lt unfolding nonce_inv_def s' n by (auto intro: less_imp_le)
    ultimately show ?thesis by simp
  qed
qed

lemma release_keeps:
  assumes inv: "nonce_inv w s out" and n: "n \<in> out"
  shows "nonce_inv w (release_nonce s w n) (out - {n})"
proof -
  let ?k = "nonce_key w"
  have notin: "n \<notin> set (pool_of s ?k)" using inv n by (auto simp: nonce_inv_def)
  show ?thesis
  proof (cases "reservations s ?k")
    case None
    with inv notin show ?thesis by (fastforce simp: nonce_inv_def release_nonce_def Let_def)
  next
    case (Some ht)
    obtain h t where ht: "ht = (h, t)" by fastforce
    consider "n = h" | "h < n" | "n < h" by linarith
    then show ?thesis
    proof cases
      case 1
      have "reservations (release_nonce s w n) ?k = None"
        and pool: "pool_of (release_nonce s w n) ?k = pool_of s ?k @ [n]"
        using notin Some ht 1 by (simp_all add: release_nonce_def Let_def pool_of_def)
      moreover have "x < n \<or> (\<exists>p \<in> set (pool_of s ?k). x < p)" if "x \<in> out - {n}" for x
        using inv that Some ht 1 by (force simp: nonce_inv_def)
      ultimately show ?thesis using inv notin by (auto simp: nonce_inv_def)
    next
      case 2
      with inv notin Some ht show ?thesis by (fastforce simp: nonce_inv_def release_nonce_def Let_def)
    next
      case 3
      with inv notin Some ht show ?thesis by (fastforce simp: nonce_inv_def release_nonce_def Let_def)
    qed
  qed
qed

interpretation wallet_nonces: exclusive_source "wallet_take w" "\<lambda>s n. release_nonce s w n" "nonce_inv w" "reservation_live w"
  for w
  by unfold_locales (auto dest: wallet_take_fresh intro: release_keeps)

lemma nonce_inv_reset [simp]: "nonce_inv w reset_nonce_reservations {}"
  by (simp add: nonce_inv_def reset_nonce_reservations_def pool_of_def)

section \<open>Properties\<close>

text \<open>
C6 No nonce is handed to two signers. Over any sequence of reservations and releases on one
wallet, interleaved in any way among its plans, where only a holder releases its nonce and no
reservation outlives its 60 seconds, the next reserved nonce is none of those still out.
\<close>

theorem reserved_nonce_exclusive:
  assumes "exclusive_source.uses (wallet_take w) (\<lambda>s n. release_nonce s w n) (reservation_live w)
      reset_nonce_reservations {} us s out"
    and "reservation_live w s (rpc, now)"
  shows "fst (reserve_nonce s w rpc now) \<notin> out"
  using wallet_nonces.next_is_exclusive[OF assms(1) nonce_inv_reset assms(2)] by (simp add: wallet_take_def)

lemma reserved_nonce_exclusive_witness:
  "fst (reserve_nonce (snd (reserve_nonce reset_nonce_reservations ''0xab'' 5 1000)) ''0xab'' 5 1001) \<noteq> 5"
proof -
  let ?s = "snd (reserve_nonce reset_nonce_reservations ''0xab'' 5 1000)"
  have k: "wallet_take ''0xab'' reset_nonce_reservations (5, 1000) = (5, ?s)"
    by (simp add: wallet_take_def reserve_nonce_def reset_nonce_reservations_def
        pool_of_def Let_def)
  have "reservation_live ''0xab'' reset_nonce_reservations (5, 1000)"
    by (simp add: reservation_live_def reset_nonce_reservations_def)
  from wallet_nonces.uses_take[OF wallet_nonces.uses_nil this k]
  have u: "exclusive_source.uses (wallet_take ''0xab'') (\<lambda>s n. release_nonce s ''0xab'' n) (reservation_live ''0xab'')
      reset_nonce_reservations {} [Take (5, 1000)] ?s {5}" by simp
  have "reservation_live ''0xab'' ?s (5, 1001)"
    by (auto simp: reservation_live_def reserve_nonce_def reset_nonce_reservations_def pool_of_def Let_def
        reservation_ttl_ms_def)
  from reserved_nonce_exclusive[OF u this] show ?thesis by simp
qed

text \<open>
A reserved nonce is never behind the chain: it is at least the pending nonce the RPC reports;
with nothing reserved or returned it is exactly that; and reserving or releasing for one wallet
leaves every other wallet's state alone.
\<close>

theorem reserve_ge_rpc:
  "rpc \<le> fst (reserve_nonce s w rpc now)
   \<and> (reservations s (nonce_key w) = None \<and> pool_of s (nonce_key w) = [] \<longrightarrow> fst (reserve_nonce s w rpc now) = rpc)
   \<and> (\<forall>k. k \<noteq> nonce_key w \<longrightarrow>
        reservations (snd (reserve_nonce s w rpc now)) k = reservations s k
        \<and> freed (snd (reserve_nonce s w rpc now)) k = freed s k
        \<and> reservations (release_nonce s w n) k = reservations s k \<and> freed (release_nonce s w n) k = freed s k)"
proof -
  have ge: "rpc \<le> fst (reserve_nonce s w rpc now)"
  proof (cases rule: reserve_cases[of rpc s w now])
    case (reuse p rest)
    then have "p \<in> set (sort (filter (\<lambda>n. n \<ge> rpc) (pool_of s (nonce_key w))))" by simp
    then show ?thesis using reuse(2) by simp
  next
    case fresh
    then show ?thesis by (auto split: option.split prod.split)
  qed
  have "fst (reserve_nonce s w rpc now) = rpc"
    if "reservations s (nonce_key w) = None" "pool_of s (nonce_key w) = []"
    using that by (simp add: reserve_nonce_def Let_def)
  with ge show ?thesis
    by (auto simp: reserve_nonce_def release_nonce_def Let_def split: list.split option.split prod.split)
qed

lemma reserve_ge_rpc_witness:
  "7 \<le> fst (reserve_nonce reset_nonce_reservations ''0xab'' 7 0)"
  using reserve_ge_rpc[of 7 reset_nonce_reservations "''0xab''" 0] by simp

fun reserve_many :: "nonce_state \<Rightarrow> string \<Rightarrow> int \<Rightarrow> int list \<Rightarrow> int list" where
  "reserve_many s w rpc [] = []"
| "reserve_many s w rpc (t # ts) =
     (let (n, s') = reserve_nonce s w rpc t in n # reserve_many s' w rpc ts)"

definition spaced :: "int \<Rightarrow> int list \<Rightarrow> bool" where
  "spaced d ts \<longleftrightarrow> (\<forall>i < length ts - 1. ts ! Suc i - ts ! i \<le> d)"

lemma spaced_Cons2 [simp]: "spaced d (a # b # ts) \<longleftrightarrow> b - a \<le> d \<and> spaced d (b # ts)"
  by (auto simp: spaced_def nth_Cons split: nat.split)

lemma reserve_many_from:
  assumes "reservations s (nonce_key w) = Some (h, t)" and "pool_of s (nonce_key w) = []" and "rpc \<le> h + 1"
    and "spaced reservation_ttl_ms (t # ts)"
  shows "reserve_many s w rpc ts = map (\<lambda>i. h + 1 + int i) [0..<length ts]"
  using assms
proof (induction ts arbitrary: s h t)
  case Nil
  then show ?case by simp
next
  case (Cons u ts)
  have r: "reserve_nonce s w rpc u = (h + 1, s\<lparr>freed := (freed s)(nonce_key w \<mapsto> []),
      reservations := (reservations s)(nonce_key w \<mapsto> (h + 1, u))\<rparr>)"
    using Cons.prems by (simp add: reserve_nonce_def Let_def)
  have "map (\<lambda>i. h + 1 + int i) [0..<length (u # ts)] = (h + 1) # map (\<lambda>i. h + 1 + 1 + int i) [0..<length ts]"
    by (simp add: upt_conv_Cons map_Suc_upt[symmetric] o_def algebra_simps del: upt_Suc)
  moreover have "reserve_many (s\<lparr>freed := (freed s)(nonce_key w \<mapsto> []),
      reservations := (reservations s)(nonce_key w \<mapsto> (h + 1, u))\<rparr>) w rpc ts
        = map (\<lambda>i. h + 1 + 1 + int i) [0..<length ts]"
    by (rule Cons.IH[of _ _ u]) (use Cons.prems in simp_all)
  ultimately show ?case by (simp only: reserve_many.simps(2) r Let_def prod.case)
qed

text \<open>
Sibling plans on one wallet get consecutive nonces: while the RPC keeps reporting the same
pending nonce and the reservations follow each other within 60 seconds, the \<open>i\<close>-th of them is
that nonce plus \<open>i\<close>, so the transactions leave no gap and do not collide.
\<close>

theorem siblings_consecutive:
  assumes "spaced reservation_ttl_ms ts"
  shows "reserve_many reset_nonce_reservations w rpc ts = map (\<lambda>i. rpc + int i) [0..<length ts]"
proof (cases ts)
  case Nil
  then show ?thesis by simp
next
  case (Cons t us)
  let ?s = "snd (reserve_nonce reset_nonce_reservations w rpc t)"
  have r: "fst (reserve_nonce reset_nonce_reservations w rpc t) = rpc"
    and "reservations ?s (nonce_key w) = Some (rpc, t)" and "pool_of ?s (nonce_key w) = []"
    by (simp_all add: reserve_nonce_def reset_nonce_reservations_def pool_of_def Let_def)
  then have "reserve_many ?s w rpc us = map (\<lambda>i. rpc + 1 + int i) [0..<length us]"
    using assms Cons by (intro reserve_many_from[of _ _ _ t]) simp_all
  moreover have "map (\<lambda>i. rpc + int i) [0..<length ts] = rpc # map (\<lambda>i. rpc + 1 + int i) [0..<length us]"
    by (simp add: Cons upt_conv_Cons map_Suc_upt[symmetric] o_def algebra_simps del: upt_Suc)
  ultimately show ?thesis using Cons r by (simp add: Let_def split_beta)
qed

lemma siblings_consecutive_witness:
  "reserve_many reset_nonce_reservations ''0xab'' 4 [0, 10, 60000] = [4, 5, 6]"
  using siblings_consecutive[of "[0, 10, 60000]" "''0xab''" 4]
  by (simp add: reservation_ttl_ms_def spaced_def upt_conv_Cons nth_Cons split: nat.split)

text \<open>
A failed sibling leaves no hole: when plan A holds \<open>n\<close>, plan B then holds \<open>n + 1\<close>, and A gives
\<open>n\<close> back because it never reached the wire, A's next reservation is \<open>n\<close> again.
\<close>

theorem released_nonce_reused:
  assumes "0 \<le> n" and "t2 - t1 \<le> reservation_ttl_ms"
  shows "let (a, s1) = reserve_nonce reset_nonce_reservations w n t1;
             (b, s2) = reserve_nonce s1 w n t2;
             (a', s3) = reserve_nonce (release_nonce s2 w a) w n t3
         in a = n \<and> b = n + 1 \<and> a' = n"
  using assms
  by (simp add: reserve_nonce_def release_nonce_def reset_nonce_reservations_def pool_of_def Let_def)

lemma released_nonce_reused_witness:
  "let (a, s1) = reserve_nonce reset_nonce_reservations ''0xab'' 9 0;
       (b, s2) = reserve_nonce s1 ''0xab'' 9 5;
       (a', s3) = reserve_nonce (release_nonce s2 ''0xab'' a) ''0xab'' 9 10
   in a = 9 \<and> b = 9 + 1 \<and> a' = 9"
  using released_nonce_reused[of 9 5 0 "''0xab''" 10] by (simp add: reservation_ttl_ms_def)

text \<open>
The order of release matters, and one order leaves a hole: when the later sibling B gives back
\<open>n + 1\<close> first and A then gives back \<open>n\<close>, the second release is dropped, and the next reservation is
\<open>n + 1\<close> although the chain still expects \<open>n\<close>; every reservation after it, within the time to live,
goes further up, so nobody signs \<open>n\<close>.
\<close>

theorem release_in_reverse_leaves_gap:
  assumes "0 \<le> n" and "t2 - t1 \<le> reservation_ttl_ms" and "t4 - t3 \<le> reservation_ttl_ms"
  shows "let (a, s1) = reserve_nonce reset_nonce_reservations w n t1;
             (b, s2) = reserve_nonce s1 w n t2;
             s3 = release_nonce (release_nonce s2 w b) w a;
             (c, s4) = reserve_nonce s3 w n t3;
             (d, s5) = reserve_nonce s4 w n t4
         in a = n \<and> b = n + 1 \<and> c = n + 1 \<and> d = n + 2"
  using assms
  by (simp add: reserve_nonce_def release_nonce_def reset_nonce_reservations_def pool_of_def Let_def)

lemma release_in_reverse_leaves_gap_witness:
  "let (a, s1) = reserve_nonce reset_nonce_reservations ''0xab'' 9 0;
       (b, s2) = reserve_nonce s1 ''0xab'' 9 5;
       s3 = release_nonce (release_nonce s2 ''0xab'' b) ''0xab'' a;
       (c, s4) = reserve_nonce s3 ''0xab'' 9 10;
       (d, s5) = reserve_nonce s4 ''0xab'' 9 20
   in a = 9 \<and> b = 9 + 1 \<and> c = 9 + 1 \<and> d = 9 + 2"
  using release_in_reverse_leaves_gap[of 9 5 0 20 10 "''0xab''"] by (simp add: reservation_ttl_ms_def)

end
