(* ===== verification/Effects.thy ===== *)
theory Effects
  imports StateError Pipeline Nonce
begin

text \<open>
  The world a worker pass acts on, and its actions. Next to the tables and the clock the world holds the
  nonce allocator's maps and the pre-sign pass's back-off map, and two traces that the code does not
  have: the transactions handed to a key, and the raw transactions put on the wire with what the
  endpoints answered.
\<close>

text \<open>One use of a key: what it was asked to sign.\<close>

record key_use =
  ku_to :: string
  ku_data :: string
  ku_value :: int
  ku_nonce :: int

record world = "db machine" +
  w_nonces :: nonce_state
  w_ids :: nat
  w_signed :: "key_use list"
  w_sent :: "string list"
  w_accepted :: "string list"
  w_recheck :: "string \<rightharpoonup> int"

type_synonym 'a act = "(world, 'a) eff"

section \<open>Primitive actions\<close>

definition fresh_id :: "string act" where
  "fresh_id w = (Inr (show_nat (w_ids w)), w\<lparr>w_ids := Suc (w_ids w)\<rparr>)"

text \<open>\<open>record(status, extra)\<close> of the passes.\<close>

definition record_attempt :: "string \<Rightarrow> attempt_status \<Rightarrow> string option \<Rightarrow> raw_tx option \<Rightarrow> string option \<Rightarrow> unit act" where
  "record_attempt plan st error pending hash =
     then_do fresh_id (\<lambda>i. then_do clock (\<lambda>t.
       db_write (\<lambda>d. snd (record_execution_attempt
         \<lparr>ai_plan = plan, ai_status = st, ai_pending = pending, ai_hash = hash, ai_error = error\<rparr> i t d))))"

definition record_failed :: "string \<Rightarrow> string \<Rightarrow> unit act" where
  "record_failed plan code = record_attempt plan AttemptFailed (Some code) None None"

definition record_broadcast :: "string \<Rightarrow> string \<Rightarrow> unit act" where
  "record_broadcast plan hash = record_attempt plan Broadcast None None (Some hash)"

definition record_sim_revert :: "string \<Rightarrow> string \<Rightarrow> unit act" where
  "record_sim_revert plan reason = record_attempt plan SimulatedRevert (Some reason) None None"

definition release_plan :: "string \<Rightarrow> unit act" where
  "release_plan plan = then_do clock (\<lambda>t. db_write (release_mint_plan_to_armed plan t))"

definition mark_executed :: "string \<Rightarrow> unit act" where
  "mark_executed plan = then_do clock (\<lambda>t. db_write (mark_mint_plan_executed plan t))"

definition clear_presigned :: "string \<Rightarrow> unit act" where
  "clear_presigned plan = then_do clock (\<lambda>t. db_write (clear_presigned_tx plan t))"

definition publish :: "string \<Rightarrow> string \<Rightarrow> unit act" where
  "publish typ project =
     then_do clock (\<lambda>t. db_write (publish_event \<lparr>ev_type = typ, ev_project = project, ev_at = t\<rparr>))"

definition take_nonce :: "string \<Rightarrow> int \<Rightarrow> int act" where
  "take_nonce wallet rpc =
     then_do clock (\<lambda>t w. let (n, s) = reserve_nonce (w_nonces w) wallet rpc t in (Inr n, w\<lparr>w_nonces := s\<rparr>))"

definition give_nonce :: "string \<Rightarrow> int \<Rightarrow> unit act" where
  "give_nonce wallet n w = (Inr (), w\<lparr>w_nonces := release_nonce (w_nonces w) wallet n\<rparr>)"

text \<open>Hand a transaction to a key: the trace records every use of one.\<close>

definition use_key :: "key_use \<Rightarrow> thrown + 'a \<Rightarrow> 'a act" where
  "use_key t r w = (r, w\<lparr>w_signed := w_signed w @ [t]\<rparr>)"

text \<open>
  \<open>Promise.any\<close> over the endpoints: any acceptance may win (\<open>pick\<close> chooses among them); when all
  refuse, \<open>pickBroadcastError\<close> chooses the error.
\<close>

definition race_broadcast :: "(string \<Rightarrow> string \<Rightarrow> thrown + string) \<Rightarrow> nat \<Rightarrow> string list \<Rightarrow> string \<Rightarrow> string act" where
  "race_broadcast send pick urls raw w =
     (let w1 = w\<lparr>w_sent := w_sent w @ [raw]\<rparr>;
          answers = map (\<lambda>u. send u raw) urls;
          accepted = concat (map (\<lambda>r. case r of Inl _ \<Rightarrow> [] | Inr h \<Rightarrow> [h]) answers);
          refused = concat (map (\<lambda>r. case r of Inl e \<Rightarrow> [e] | Inr _ \<Rightarrow> []) answers)
      in if accepted \<noteq> []
         then let h = accepted ! (pick mod length accepted) in (Inr h, w1\<lparr>w_accepted := w_accepted w1 @ [h]\<rparr>)
         else (Inl (pick_broadcast_error (AggregateError refused ''All promises were rejected'')), w1))"

definition one_broadcast :: "(string \<Rightarrow> string \<Rightarrow> thrown + string) \<Rightarrow> string \<Rightarrow> string \<Rightarrow> string act" where
  "one_broadcast send url raw w =
     (let w1 = w\<lparr>w_sent := w_sent w @ [raw]\<rparr>
      in case send url raw of
           Inl e \<Rightarrow> (Inl e, w1)
         | Inr h \<Rightarrow> (Inr h, w1\<lparr>w_accepted := w_accepted w1 @ [h]\<rparr>))"

section \<open>What the actions leave alone\<close>

lemma keeps_outcome [keep_rules]:
  "keeps I a \<Longrightarrow> keeps I b \<Longrightarrow> keeps I c \<Longrightarrow>
   keeps I (case r of Mined \<Rightarrow> a | Reverted \<Rightarrow> b | Unresolved \<Rightarrow> c)"
  by (cases r) simp_all

definition st :: "string \<Rightarrow> world \<Rightarrow> mint_plan_status option" where
  "st i w = map_option mp_status (get_mint_plan i (m_db w))"

definition trace :: "world \<Rightarrow> key_use list \<times> string list \<times> string list" where
  "trace w = (w_signed w, w_sent w, w_accepted w)"

definition reverts :: "string \<Rightarrow> world \<Rightarrow> nat" where
  "reverts i w = count_reverted_attempts (m_db w) i"

text \<open>
  Properties that depend on a plan's status and the traces and survive further reverts, or that depend
  on the traces alone.
\<close>

definition on_status :: "string \<Rightarrow> (world \<Rightarrow> bool) \<Rightarrow> bool" where
  "on_status i I \<longleftrightarrow> (\<forall>w w'. st i w' = st i w \<longrightarrow> trace w' = trace w \<longrightarrow> reverts i w \<le> reverts i w' \<longrightarrow> I w \<longrightarrow> I w')"

definition on_trace :: "(world \<Rightarrow> bool) \<Rightarrow> bool" where
  "on_trace I \<longleftrightarrow> (\<forall>w w'. trace w' = trace w \<longrightarrow> I w \<longrightarrow> I w')"

lemma on_trace_status: "on_trace I \<Longrightarrow> on_status i I"
  by (auto simp: on_trace_def on_status_def)

lemma on_statusD:
  "on_status i I \<Longrightarrow> I w \<Longrightarrow> st i w' = st i w \<Longrightarrow> trace w' = trace w \<Longrightarrow> reverts i w \<le> reverts i w' \<Longrightarrow> I w'"
  unfolding on_status_def by blast

lemma on_traceD: "on_trace I \<Longrightarrow> I w \<Longrightarrow> trace w' = trace w \<Longrightarrow> I w'"
  unfolding on_trace_def by blast

lemma get_update_plans:
  assumes "\<And>r. mp_id (f r) = mp_id r"
  shows "get_mint_plan i (update_plans p f d) = map_option (\<lambda>r. if p r then f r else r) (get_mint_plan i d)"
proof -
  have "List.find (\<lambda>r. mp_id r = i) (update_where p f rs)
      = map_option (\<lambda>r. if p r then f r else r) (List.find (\<lambda>r. mp_id r = i) rs)" for rs
    by (induction rs) (simp_all add: assms)
  then show ?thesis by (simp add: get_mint_plan_def update_plans_def)
qed

lemma count_update_plans [simp]: "count_reverted_attempts (update_plans p f d) i = count_reverted_attempts d i"
  by (simp add: count_reverted_attempts_def)

lemma get_mint_plan_id: "get_mint_plan i d = Some r \<Longrightarrow> mp_id r = i"
  by (auto simp: get_mint_plan_def dest!: find_SomeD)

lemma st_faults [simp]: "st i (w\<lparr>m_faults := fs\<rparr>) = st i w" "trace (w\<lparr>m_faults := fs\<rparr>) = trace w"
  "reverts i (w\<lparr>m_faults := fs\<rparr>) = reverts i w"
  by (simp_all add: st_def trace_def reverts_def)

lemma st_db: "st i (w\<lparr>m_db := d, m_faults := fs\<rparr>) = map_option mp_status (get_mint_plan i d)"
  "trace (w\<lparr>m_db := d, m_faults := fs\<rparr>) = trace w"
  "reverts i (w\<lparr>m_db := d, m_faults := fs\<rparr>) = count_reverted_attempts d i"
  by (simp_all add: st_def trace_def reverts_def)

lemma keeps_db_call:
  assumes "on_status i I" and "\<And>d. map_option mp_status (get_mint_plan i (snd (f d))) = map_option mp_status (get_mint_plan i d)"
    and "\<And>d. count_reverted_attempts d i \<le> count_reverted_attempts (snd (f d)) i"
  shows "keeps I (db_call f)"
proof (rule keepsI)
  fix w assume I: "I w"
  show "I (snd (db_call f w))"
  proof (cases rule: db_call_cases[of f w])
    case (fault m fs)
    then show ?thesis by (simp add: on_statusD[OF assms(1) I])
  next
    case (ok fs)
    have "st i (w\<lparr>m_db := snd (f (m_db w)), m_faults := fs\<rparr>) = st i w"
      by (simp only: st_db assms(2)) (simp add: st_def)
    moreover have "reverts i w \<le> reverts i (w\<lparr>m_db := snd (f (m_db w)), m_faults := fs\<rparr>)"
      by (simp only: st_db(3) assms(3)) (simp add: reverts_def assms(3))
    ultimately show ?thesis unfolding ok snd_conv by (rule on_statusD[OF assms(1) I _ st_db(2)])
  qed
qed

lemma keeps_db_call_trace:
  assumes "on_trace I"
  shows "keeps I (db_call f)"
proof (rule keepsI)
  fix w assume I: "I w"
  show "I (snd (db_call f w))"
  proof (cases rule: db_call_cases[of f w])
    case (fault m fs)
    show ?thesis unfolding fault snd_conv by (rule on_traceD[OF assms I]) simp
  next
    case (ok fs)
    show ?thesis unfolding ok snd_conv by (rule on_traceD[OF assms I st_db(2)])
  qed
qed

lemma keeps_clock [status_rules]: "on_status i I \<Longrightarrow> keeps I clock"
  by (rule keepsI) (auto simp: clock_def st_def trace_def reverts_def intro: on_statusD split: list.splits)

lemma keeps_fresh_id [status_rules]: "on_status i I \<Longrightarrow> keeps I fresh_id"
  by (rule keepsI) (auto simp: fresh_id_def st_def trace_def reverts_def intro: on_statusD)

lemma keeps_give_nonce [status_rules]: "on_status i I \<Longrightarrow> keeps I (give_nonce a n)"
  by (rule keepsI) (auto simp: give_nonce_def st_def trace_def reverts_def intro: on_statusD)

lemma keeps_take_nonce [status_rules]: "on_status i I \<Longrightarrow> keeps I (take_nonce a n)"
  unfolding take_nonce_def
  by (intro keeps_then keeps_clock, assumption, rule keepsI)
     (auto simp: st_def trace_def reverts_def intro: on_statusD split: prod.splits)

lemma keeps_db_read [status_rules]: "on_status i I \<Longrightarrow> keeps I (db_read f)"
  unfolding db_read_def by (rule keeps_db_call) simp_all

lemma keeps_record [status_rules]: "on_status i I \<Longrightarrow> keeps I (record_attempt p s e pend h)"
  unfolding record_attempt_def db_write_def
  by (intro keeps_then keeps_fresh_id keeps_clock keeps_db_call)
     (simp_all add: record_execution_attempt_def get_mint_plan_def count_reverted_attempts_def Let_def)

lemma keeps_record_failed [status_rules]: "on_status i I \<Longrightarrow> keeps I (record_failed p c)"
  and keeps_record_broadcast [status_rules]: "on_status i I \<Longrightarrow> keeps I (record_broadcast p h)"
  and keeps_record_sim_revert [status_rules]: "on_status i I \<Longrightarrow> keeps I (record_sim_revert p c)"
  by (simp_all add: record_failed_def record_broadcast_def record_sim_revert_def keeps_record)

lemma keeps_clear_presigned [status_rules]: "on_status i I \<Longrightarrow> keeps I (clear_presigned p)"
  unfolding clear_presigned_def db_write_def
  by (intro keeps_then keeps_clock keeps_db_call)
     (simp_all add: clear_presigned_tx_def get_update_plans purge_presigned_def option.map_comp comp_def if_distrib
        cong: if_cong)

lemma keeps_publish [status_rules]: "on_status i I \<Longrightarrow> keeps I (publish t p)"
  unfolding publish_def db_write_def
  by (intro keeps_then keeps_clock keeps_db_call) (simp_all add: publish_event_def get_mint_plan_def count_reverted_attempts_def)

text \<open>The status changes leave the traces alone.\<close>

lemma keeps_trace_status:
  assumes "on_trace I"
  shows "keeps I (release_plan p)" "keeps I (mark_executed p)"
    "keeps I (then_do clock (\<lambda>t. db_write (fail_mint_plan_execution p t)))"
  using assms on_trace_status[OF assms]
  by (auto simp: release_plan_def mark_executed_def db_write_def intro!: keeps_then keeps_clock keeps_db_call_trace)

text \<open>A plan on its way: executing (the last write may have failed), executed, or failed; not armed.\<close>

definition in_flight :: "string \<Rightarrow> world \<Rightarrow> bool" where
  "in_flight i w \<longleftrightarrow> st i w \<in> {Some Executing, Some Executed, Some Failed}"

lemma in_flight_on_status: "on_status i (in_flight i)"
  by (simp add: on_status_def in_flight_def)

lemma keeps_in_flight_executed: "keeps (in_flight i) (mark_executed i)"
  unfolding mark_executed_def db_write_def
proof (intro keeps_then keeps_clock[OF in_flight_on_status] keepsI)
  fix t w assume "in_flight i w"
  then obtain p where p: "get_mint_plan i (m_db w) = Some p" "mp_status p \<in> {Executing, Executed, Failed}"
    by (auto simp: in_flight_def st_def)
  then show "in_flight i (snd (db_call (\<lambda>d. ((), mark_mint_plan_executed i t d)) w))"
    by (cases rule: db_call_cases[of "\<lambda>d. ((), mark_mint_plan_executed i t d)" w])
       (auto simp: in_flight_def st_db st_def mark_mint_plan_executed_def get_update_plans purge_presigned_def)
qed

end
