(* ===== verification/ManagedFire.thy ===== *)
theory ManagedFire
  imports Effects
begin

text \<open>
  The firing functions of apps/worker/src/workers/execution.ts that sign: \<open>runManagedFire\<close> (its
  pre-signed fast path and its live path), \<open>runDelegatedFire\<close>, \<open>signWithManagedKeySealed\<close> and
  \<open>failPlanAndNotify\<close>. A try block is cut where a variable its catch reads changes: each piece is an
  \<open>attempt\<close>, and its error goes to the catch with the values those variables have there. What the
  chain, the endpoints, the vault and viem answer is the record \<open>fire_env\<close>, one field per call site.
\<close>

section \<open>The environment of a pass\<close>

record worker_config =
  cf_live :: bool
  cf_chain :: int
  cf_rpc_url :: "string option"
  cf_mint_rpc :: mint_rpc_config
  cf_lead :: int
  cf_skip_simulation :: bool
  cf_presign_gas :: int

record fee_context =
  fee_nonce :: int
  fee_max :: string
  fee_priority :: string

record fire_env =
  cfg :: worker_config
  x_rpc_table :: "rpc_endpoint list"
  x_send :: "string \<Rightarrow> string \<Rightarrow> thrown + string"
  x_pick :: nat
  x_wait :: "string \<Rightarrow> receipt_outcome"
  x_receipt :: "string \<Rightarrow> string \<Rightarrow> receipt_reading"
  x_fees :: "string \<Rightarrow> string \<Rightarrow> thrown + fee_context"
  x_fees_live :: "string \<Rightarrow> string \<Rightarrow> thrown + fee_context"
  x_simulate_live :: simulate_fn
  x_open_key :: "string \<Rightarrow> thrown + string"
  x_lib :: signer_lib
  x_credential :: "string \<Rightarrow> thrown + string option"
  x_key_address :: "string \<Rightarrow> thrown + string"

definition max_onchain_reverts :: nat where "max_onchain_reverts = 3"

section \<open>Terminal failure\<close>

definition fail_plan_and_notify :: "string \<Rightarrow> string \<Rightarrow> unit act" where
  "fail_plan_and_notify plan project =
     then_do (then_do clock (\<lambda>t. db_write (fail_mint_plan_execution plan t))) (\<lambda>_.
     publish ''execution.failed'' project)"

text \<open>A revert is counted; the third ends the plan, an earlier one puts it back in the race.\<close>

definition after_revert :: "string \<Rightarrow> string \<Rightarrow> string \<Rightarrow> unit act" where
  "after_revert plan project code =
     then_do (record_failed plan code) (\<lambda>_.
     then_do (db_read (\<lambda>d. count_reverted_attempts d plan)) (\<lambda>reverts.
     if reverts \<ge> max_onchain_reverts then fail_plan_and_notify plan project
     else release_plan plan))"

definition complete_plan :: "string \<Rightarrow> string \<Rightarrow> unit act" where
  "complete_plan plan project =
     then_do (mark_executed plan) (\<lambda>_. publish ''execution.broadcast'' project)"

section \<open>The pre-signed fast path\<close>

definition broadcast_urls :: "fire_env \<Rightarrow> string \<Rightarrow> string list act" where
  "broadcast_urls env rpc =
     then_do (db_read (\<lambda>_. resolve_broadcast_rpc_urls (x_rpc_table env) (cf_chain (cfg env)) (Some rpc) 4)) (\<lambda>urls.
     ret (if urls \<noteq> [] then urls else [rpc]))"

text \<open>Once a hash exists: write it down, ask the chain, and finish or go on competing.\<close>

definition fast_after_broadcast :: "fire_env \<Rightarrow> string \<Rightarrow> string \<Rightarrow> string \<Rightarrow> unit act" where
  "fast_after_broadcast env plan project h =
     then_do (record_broadcast plan h) (\<lambda>_.
     then_do (clear_presigned plan) (\<lambda>_.
     if x_wait env h = Reverted then after_revert plan project ''reverted_onchain''
     else complete_plan plan project))"

definition fast_bookkeeping_failed :: "string \<Rightarrow> unit act" where
  "fast_bookkeeping_failed plan =
     then_do (attempt (clear_presigned plan)) (\<lambda>_.
     then_do (attempt (mark_executed plan)) (\<lambda>_. ret ()))"

text \<open>No endpoint took the blob. \<open>True\<close>: the pass ends here; \<open>False\<close>: sign a live transaction.\<close>

definition fast_rejected ::
  "fire_env \<Rightarrow> string \<Rightarrow> string \<Rightarrow> string \<Rightarrow> string list \<Rightarrow> string option \<Rightarrow> int option \<Rightarrow> thrown \<Rightarrow> bool act" where
  "fast_rejected env plan project address urls hash nonce e =
     (let message = message_or_string e in
      then_do (clear_presigned plan) (\<lambda>_.
      if \<not> is_stale_presign_error message then
        then_do (record_failed plan (take 200 message)) (\<lambda>_.
        if is_insufficient_funds_error message
        then then_do (fail_plan_and_notify plan project) (\<lambda>_. ret True)
        else then_do (release_plan plan) (\<lambda>_. ret True))
      else
        (case hash of
           Some h \<Rightarrow>
             if resolve_tx_outcome (x_receipt env) urls h = Mined
             then then_do (record_broadcast plan h) (\<lambda>_. then_do (mark_executed plan) (\<lambda>_. ret True))
             else then_do (case nonce of None \<Rightarrow> ret () | Some n \<Rightarrow> give_nonce address n) (\<lambda>_. ret False)
         | None \<Rightarrow> then_do (case nonce of None \<Rightarrow> ret () | Some n \<Rightarrow> give_nonce address n) (\<lambda>_. ret False))))"

definition fast_path ::
  "fire_env \<Rightarrow> string \<Rightarrow> string \<Rightarrow> wallet \<Rightarrow> string \<Rightarrow> string list \<Rightarrow> string \<Rightarrow> string option \<Rightarrow> int option \<Rightarrow> bool act" where
  "fast_path env plan project wallet rpc urls raw hash nonce =
     then_do (attempt (then_do (broadcast_urls env rpc) (\<lambda>us. race_broadcast (x_send env) (x_pick env) us raw))) (\<lambda>r.
     case r of
       Inr h \<Rightarrow>
         then_do (attempt (fast_after_broadcast env plan project h)) (\<lambda>r2.
         case r2 of
           Inr _ \<Rightarrow> ret True
         | Inl _ \<Rightarrow> then_do (fast_bookkeeping_failed plan) (\<lambda>_. ret True))
     | Inl e \<Rightarrow> fast_rejected env plan project (wl_address wallet) urls hash nonce e)"

section \<open>The live path\<close>

record fire_mode =
  md_near :: bool
  md_fees :: "(thrown + fee_context) option"
  md_urls :: "string list"
  md_hold :: "int option"
  md_start :: "int option"

definition managed_key_sign_failed :: thrown where
  "managed_key_sign_failed =
     ThrownError ''managed_key_sign_failed: could not open or sign with the sealed wallet key''"

text \<open>Open the sealed key and sign; whatever goes wrong is one fixed error.\<close>

definition sign_with_managed_key_sealed :: "fire_env \<Rightarrow> mint_sign_request \<Rightarrow> string \<Rightarrow> (string \<times> string) act" where
  "sign_with_managed_key_sealed env q sealed =
     try_catch
       (then_do (lift_sum (x_open_key env sealed)) (\<lambda>key.
        then_do (lift_sum (of_js (big_int (sq_value q)))) (\<lambda>v.
        use_key \<lparr>ku_to = sq_to q, ku_data = sq_data q, ku_value = v, ku_nonce = sq_nonce q\<rparr>
          (sign_managed_mint_transaction (x_lib env) q key))))
       (\<lambda>_. throw managed_key_sign_failed)"

text \<open>Simulation and fees together; \<open>None\<close>: the simulation reverted and the plan was put back.\<close>

definition live_prepare ::
  "fire_env \<Rightarrow> string \<Rightarrow> raw_tx \<Rightarrow> wallet \<Rightarrow> string \<Rightarrow> fire_mode \<Rightarrow> (int \<times> fee_context) option act" where
  "live_prepare env plan tx wallet rpc mode =
     then_do (lift_sum
       (if md_near mode \<and> cf_skip_simulation (cfg env) then Inr (SimOk (cf_presign_gas (cfg env)))
        else x_simulate_live env \<lparr>sc_rpc = rpc, sc_from = wl_address wallet, sc_to = tx_to tx,
                                  sc_data = tx_data tx, sc_value = tx_value tx\<rparr>)) (\<lambda>sim.
     then_do (lift_sum
       (case md_fees mode of
          Some (Inr f) \<Rightarrow> Inr f
        | _ \<Rightarrow> with_rpc_failover (md_urls mode) (\<lambda>u. x_fees_live env u (wl_address wallet)))) (\<lambda>fees.
     case sim of
       SimRevert reason \<Rightarrow>
         then_do (record_sim_revert plan reason) (\<lambda>_. then_do (release_plan plan) (\<lambda>_. ret None))
     | SimOk gas \<Rightarrow> ret (Some (gas, fees))))"

text \<open>Record the intent, then race the signed transaction.\<close>

definition live_broadcast :: "fire_env \<Rightarrow> string \<Rightarrow> string \<Rightarrow> fire_mode \<Rightarrow> string \<Rightarrow> string \<Rightarrow> string act" where
  "live_broadcast env plan rpc mode raw h =
     then_do (record_broadcast plan h) (\<lambda>_.
     then_do (if md_urls mode \<noteq> [] then ret (md_urls mode) else broadcast_urls env rpc) (\<lambda>urls.
     race_broadcast (x_send env) (x_pick env) urls raw))"

definition live_after_broadcast :: "fire_env \<Rightarrow> string \<Rightarrow> string \<Rightarrow> fire_mode \<Rightarrow> string \<Rightarrow> unit act" where
  "live_after_broadcast env plan project mode h =
     (if x_wait env h = Reverted then
        then_do (case md_start mode of None \<Rightarrow> ret False | Some s \<Rightarrow> then_do clock (\<lambda>t. ret (t < s + 1000))) (\<lambda>early.
        after_revert plan project (if early then ''reverted_early'' else ''reverted_onchain''))
      else complete_plan plan project)"

fun category_name :: "error_category \<Rightarrow> string" where
  "category_name AuthRequired = ''AuthRequired''"
| "category_name RateLimited = ''RateLimited''"
| "category_name RetryableProvider = ''RetryableProvider''"
| "category_name InvalidPayload = ''InvalidPayload''"
| "category_name PermanentConfig = ''PermanentConfig''"
| "category_name NotFound = ''NotFound''"
| "category_name Forbidden = ''Forbidden''"
| "category_name Conflict = ''Conflict''"

definition error_code_of :: "string \<Rightarrow> thrown \<Rightarrow> string" where
  "error_code_of other e =
     (case e of ThrownApp a \<Rightarrow> category_name (category a) | ThrownError m \<Rightarrow> take 200 m | ThrownOther _ \<Rightarrow> other)"

definition error_is_insufficient_funds :: "thrown \<Rightarrow> bool" where
  "error_is_insufficient_funds e =
     (case e of ThrownApp a \<Rightarrow> is_insufficient_funds_error (err_message a)
      | ThrownError m \<Rightarrow> is_insufficient_funds_error m | ThrownOther _ \<Rightarrow> False)"

text \<open>Nothing reached the wire: give the nonce back, record, and end or put the plan back.\<close>

definition live_not_sent :: "string \<Rightarrow> string \<Rightarrow> string \<Rightarrow> int option \<Rightarrow> thrown \<Rightarrow> unit act" where
  "live_not_sent plan project address nonce e =
     then_do (case nonce of None \<Rightarrow> ret () | Some n \<Rightarrow> give_nonce address n) (\<lambda>_.
     then_do (record_failed plan (error_code_of ''unknown_managed_signing_error'' e)) (\<lambda>_.
     if error_is_insufficient_funds e then fail_plan_and_notify plan project
     else release_plan plan))"

text \<open>The catch: \<open>signed\<close> and \<open>accepted\<close> are the hashes the try block had reached.\<close>

definition live_catch ::
  "fire_env \<Rightarrow> string \<Rightarrow> string \<Rightarrow> string \<Rightarrow> fire_mode \<Rightarrow> int option \<Rightarrow> string option \<Rightarrow> string option \<Rightarrow> thrown \<Rightarrow> unit act" where
  "live_catch env plan project address mode nonce signed accepted e =
     (if accepted \<noteq> None then then_do (attempt (mark_executed plan)) (\<lambda>_. ret ())
      else case signed of
        None \<Rightarrow> live_not_sent plan project address nonce e
      | Some h \<Rightarrow>
          (case resolve_tx_outcome (x_receipt env) (md_urls mode) h of
             Mined \<Rightarrow> then_do (attempt (mark_executed plan)) (\<lambda>_. ret ())
           | Unresolved \<Rightarrow> release_plan plan
           | Reverted \<Rightarrow> live_not_sent plan project address nonce e))"

definition sign_request_of :: "raw_tx \<Rightarrow> int \<Rightarrow> fee_context \<Rightarrow> int \<Rightarrow> mint_sign_request" where
  "sign_request_of tx nonce fees gas =
     \<lparr>sq_chain = tx_chain tx, sq_to = tx_to tx, sq_data = tx_data tx, sq_value = tx_value tx, sq_nonce = nonce,
      sq_max_fee = fee_max fees, sq_priority_fee = fee_priority fees, sq_gas = bigint_div (gas * 120) 100\<rparr>"

text \<open>From the signature on: wait for the open, send, and see it through.\<close>

definition live_send ::
  "fire_env \<Rightarrow> string \<Rightarrow> string \<Rightarrow> string \<Rightarrow> string \<Rightarrow> fire_mode \<Rightarrow> int \<Rightarrow> string \<Rightarrow> string \<Rightarrow> unit act" where
  "live_send env plan project address rpc mode n raw h =
     then_do (case md_hold mode of None \<Rightarrow> ret () | Some _ \<Rightarrow> then_do clock (\<lambda>_. ret ())) (\<lambda>_.
     then_do (attempt (live_broadcast env plan rpc mode raw h)) (\<lambda>b.
     case b of
       Inl e \<Rightarrow> live_catch env plan project address mode (Some n) (Some h) None e
     | Inr bh \<Rightarrow>
         then_do (attempt (live_after_broadcast env plan project mode bh)) (\<lambda>a.
         case a of
           Inl e \<Rightarrow> live_catch env plan project address mode (Some n) (Some h) (Some bh) e
         | Inr _ \<Rightarrow> ret ())))"

definition live_sign ::
  "fire_env \<Rightarrow> string \<Rightarrow> string \<Rightarrow> raw_tx \<Rightarrow> string \<Rightarrow> string \<Rightarrow> string \<Rightarrow> fire_mode \<Rightarrow> int \<Rightarrow> fee_context \<Rightarrow> unit act" where
  "live_sign env plan project tx address sealed rpc mode gas fees =
     then_do (take_nonce address (fee_nonce fees)) (\<lambda>n.
     then_do (attempt (sign_with_managed_key_sealed env (sign_request_of tx n fees gas) sealed)) (\<lambda>s.
     case s of
       Inl e \<Rightarrow> live_catch env plan project address mode (Some n) None None e
     | Inr signed \<Rightarrow> live_send env plan project address rpc mode n (fst signed) (snd signed)))"

definition live_path ::
  "fire_env \<Rightarrow> string \<Rightarrow> string \<Rightarrow> raw_tx \<Rightarrow> wallet \<Rightarrow> string \<Rightarrow> string \<Rightarrow> fire_mode \<Rightarrow> unit act" where
  "live_path env plan project tx wallet sealed rpc mode =
     then_do (attempt (live_prepare env plan tx wallet rpc mode)) (\<lambda>p.
     case p of
       Inl e \<Rightarrow> live_catch env plan project (wl_address wallet) mode None None None e
     | Inr prepared \<Rightarrow>
         (case prepared of
            None \<Rightarrow> ret ()
          | Some (gas, fees) \<Rightarrow> live_sign env plan project tx (wl_address wallet) sealed rpc mode gas fees))"

definition run_managed_fire ::
  "fire_env \<Rightarrow> string \<Rightarrow> string \<Rightarrow> raw_tx \<Rightarrow> wallet \<Rightarrow> string \<Rightarrow> fire_mode \<Rightarrow> unit act" where
  "run_managed_fire env plan project tx wallet rpc mode =
     (case wl_key wallet of
        None \<Rightarrow> then_do (record_failed plan ''managed_key_missing'') (\<lambda>_. fail_plan_and_notify plan project)
      | Some sealed \<Rightarrow>
          then_do (db_read (get_mint_plan plan)) (\<lambda>fresh.
          then_do
            (case fresh of
               None \<Rightarrow> ret False
             | Some f \<Rightarrow>
                 (case mp_raw f of
                    None \<Rightarrow> ret False
                  | Some raw \<Rightarrow>
                      if md_near mode \<or> raw = [] then ret False
                      else fast_path env plan project wallet rpc (md_urls mode) raw (mp_hash f) (mp_nonce f))) (\<lambda>ended.
          if ended then ret () else live_path env plan project tx wallet sealed rpc mode)))"

section \<open>The delegated path\<close>

definition delegated_try ::
  "fire_env \<Rightarrow> string \<Rightarrow> string \<Rightarrow> raw_tx \<Rightarrow> string \<Rightarrow> string \<Rightarrow> string \<Rightarrow> unit act" where
  "delegated_try env plan project tx executor credential rpc =
     then_do (db_call (\<lambda>d. ((), d))) (\<lambda>_.
     then_do (lift_sum (x_credential env credential)) (\<lambda>secret.
     case secret of
       None \<Rightarrow> then_do (record_failed plan ''session_key_credential_missing'') (\<lambda>_. fail_plan_and_notify plan project)
     | Some key \<Rightarrow>
         then_do (lift_sum (x_key_address env key)) (\<lambda>operator.
         then_do (lift_sum (of_js (big_int (tx_value tx)))) (\<lambda>v.
         then_do (lift_sum (x_simulate_live env
            \<lparr>sc_rpc = rpc, sc_from = operator, sc_to = executor,
             sc_data = sl_encode_execute (x_lib env) (tx_to tx) (tx_data tx) v, sc_value = ''0''\<rparr>)) (\<lambda>sim.
         case sim of
           SimRevert reason \<Rightarrow> then_do (record_sim_revert plan reason) (\<lambda>_. release_plan plan)
         | SimOk gas \<Rightarrow>
             then_do (lift_sum (x_fees_live env rpc operator)) (\<lambda>fees.
             then_do (use_key
                 \<lparr>ku_to = executor, ku_data = sl_encode_execute (x_lib env) (tx_to tx) (tx_data tx) v, ku_value = 0,
                  ku_nonce = fee_nonce fees\<rparr>
                 (sign_executor_transaction (x_lib env) (sign_request_of tx (fee_nonce fees) fees gas) executor key))
               (\<lambda>(raw, h).
             then_do (one_broadcast (x_send env) rpc raw) (\<lambda>bh.
             then_do (record_broadcast plan bh) (\<lambda>_. complete_plan plan project)))))))))"

definition run_delegated_fire ::
  "fire_env \<Rightarrow> string \<Rightarrow> string \<Rightarrow> raw_tx \<Rightarrow> signer option \<Rightarrow> string \<Rightarrow> unit act" where
  "run_delegated_fire env plan project tx row rpc =
     (case row of
        None \<Rightarrow> then_do (record_failed plan ''delegated_signer_misconfigured'') (\<lambda>_. fail_plan_and_notify plan project)
      | Some s \<Rightarrow>
          (case (sg_delegate s, sg_session_key s) of
             (Some executor, Some credential) \<Rightarrow>
               try_catch (delegated_try env plan project tx executor credential rpc) (\<lambda>e.
                 then_do (record_failed plan (error_code_of ''unknown_delegated_signing_error'' e)) (\<lambda>_.
                 release_plan plan))
           | _ \<Rightarrow> then_do (record_failed plan ''delegated_signer_misconfigured'') (\<lambda>_.
                  fail_plan_and_notify plan project)))"

section \<open>Bookkeeping keeps the traces\<close>

lemmas act_defs = complete_plan_def after_revert_def fail_plan_and_notify_def fast_after_broadcast_def
  fast_bookkeeping_failed_def fast_rejected_def broadcast_urls_def live_prepare_def live_not_sent_def
  live_catch_def live_after_broadcast_def

lemma keeps_bookkeeping:
  assumes "on_trace I"
  shows "keeps I (fail_plan_and_notify p q)" "keeps I (after_revert p q c)" "keeps I (complete_plan p q)"
    "keeps I (fast_after_broadcast env p q h)" "keeps I (fast_bookkeeping_failed p)"
    "keeps I (fast_rejected env p q a us ho no e)" "keeps I (broadcast_urls env rpc)"
    "keeps I (live_prepare env p tx w rpc mode)" "keeps I (live_not_sent p q a no e)"
    "keeps I (live_catch env p q a mode no so ao e)" "keeps I (live_after_broadcast env p q mode h)"
proof -
  note k = keep_rules status_rules[OF on_trace_status[OF assms]] keeps_trace_status[OF assms]
  show 1: "keeps I (fail_plan_and_notify p q)" for p q
    unfolding fail_plan_and_notify_def by (intro k)
  show 2: "keeps I (after_revert p q c)" for p q c
    unfolding after_revert_def by (intro k 1)
  show 3: "keeps I (complete_plan p q)" for p q
    unfolding complete_plan_def by (intro k)
  show "keeps I (fast_after_broadcast env p q h)"
    unfolding fast_after_broadcast_def by (intro k 2 3)
  show "keeps I (fast_bookkeeping_failed p)"
    unfolding fast_bookkeeping_failed_def by (intro k)
  show "keeps I (fast_rejected env p q a us ho no e)"
    unfolding fast_rejected_def Let_def by (intro k 1)
  show "keeps I (broadcast_urls env rpc)"
    unfolding broadcast_urls_def by (intro k)
  show "keeps I (live_prepare env p tx w rpc mode)"
    unfolding live_prepare_def by (intro k) (auto split: simulation.splits intro!: k)
  show 4: "keeps I (live_not_sent p q a no e)" for no
    unfolding live_not_sent_def by (intro k 1)
  show "keeps I (live_catch env p q a mode no so ao e)"
    unfolding live_catch_def by (intro k 4)
  show "keeps I (live_after_broadcast env p q mode h)"
    unfolding live_after_broadcast_def by (intro k 2 3)
qed

lemma keeps_sign:
  assumes "on_trace I"
    and "\<And>v n r. big_int (tx_value tx) = Inr v \<Longrightarrow>
           keeps I (use_key \<lparr>ku_to = tx_to tx, ku_data = tx_data tx, ku_value = v, ku_nonce = n\<rparr> (r :: thrown + string \<times> string))"
  shows "keeps I (sign_with_managed_key_sealed env (sign_request_of tx n fees gas) sealed)"
  unfolding sign_with_managed_key_sealed_def sign_request_of_def
  by (intro keeps_try keeps_throw keeps_then keeps_lift keeps_then_lift) (simp add: assms(2))

lemma keeps_run_managed:
  assumes t: "on_trace I"
    and r: "\<And>us raw. keeps I (race_broadcast (x_send env) (x_pick env) us raw)"
    and u: "\<And>v n r. big_int (tx_value tx) = Inr v \<Longrightarrow>
           keeps I (use_key \<lparr>ku_to = tx_to tx, ku_data = tx_data tx, ku_value = v, ku_nonce = n\<rparr> (r :: thrown + string \<times> string))"
  shows "keeps I (run_managed_fire env p q tx wl rpc mode)"
proof -
  note k = keep_rules status_rules[OF on_trace_status[OF t]] keeps_bookkeeping[OF t] keeps_trace_status[OF t] r
  have fast: "keeps I (fast_path env p q wl rpc us raw ho no)" for us raw ho no
    unfolding fast_path_def by (intro k)
  have send: "keeps I (live_send env p q a rpc mode n raw h)" for a n raw h
    unfolding live_send_def live_broadcast_def by (intro k)
  have "keeps I (live_sign env p q tx a sealed rpc mode gas fees)" for a sealed gas fees
    unfolding live_sign_def by (intro k send keeps_sign[OF t u])
  then have live: "keeps I (live_path env p q tx wl sealed rpc mode)" for sealed
    unfolding live_path_def by (intro k)
  show ?thesis unfolding run_managed_fire_def by (intro k fast live)
qed

lemma keeps_run_delegated:
  assumes t: "on_trace I"
    and r: "\<And>raw. keeps I (one_broadcast (x_send env) rpc raw)"
    and u: "\<And>t d n r. keeps I (use_key \<lparr>ku_to = t, ku_data = d, ku_value = 0, ku_nonce = n\<rparr> (r :: thrown + string \<times> string))"
  shows "keeps I (run_delegated_fire env p q tx row rpc)"
proof -
  note k = keep_rules status_rules[OF on_trace_status[OF t]] keeps_bookkeeping[OF t] keeps_trace_status[OF t] r u
    keeps_db_call_trace[OF t]
  have "keeps I (delegated_try env p q tx e c rpc)" for e c
    unfolding delegated_try_def
    by (intro k) (rename_tac x xa xb xc xd, case_tac xd; simp; intro k)
  then show ?thesis unfolding run_delegated_fire_def by (intro k)
qed

lemma keeps_urls: "on_status i I \<Longrightarrow> keeps I (broadcast_urls env rpc)"
  unfolding broadcast_urls_def by (intro keep_rules status_rules)

section \<open>After an acceptance\<close>

definition sent :: "string \<Rightarrow> nat \<Rightarrow> world \<Rightarrow> bool" where
  "sent i k w \<longleftrightarrow> st i w = Some Executing \<and> k \<le> reverts i w"

definition ready :: "string \<Rightarrow> string list \<Rightarrow> nat \<Rightarrow> world \<Rightarrow> bool" where
  "ready i a k w \<longleftrightarrow> sent i k w \<and> w_accepted w = a"

definition settled :: "string \<Rightarrow> string list \<Rightarrow> world \<Rightarrow> bool" where
  "settled i a w \<longleftrightarrow> w_accepted w = a \<or> in_flight i w"

lemma sent_on_status: "on_status i (sent i k)"
  by (auto simp: on_status_def sent_def)

lemma ready_on_status: "on_status i (ready i a k)"
  by (auto simp: on_status_def ready_def sent_def trace_def)

lemma accepted_on_trace: "on_trace (\<lambda>w. w_accepted w = a)"
  by (simp add: on_trace_def trace_def)

lemma ready_settled: "ready i a k w \<Longrightarrow> settled i a w"
  by (simp add: ready_def settled_def)

lemma acts_race:
  "acts (ready i a k) (race_broadcast send pick urls raw)
     (\<lambda>r w. case r of Inl _ \<Rightarrow> ready i a k w | Inr h \<Rightarrow> sent i k w)"
  by (rule actsI)
     (auto simp: race_broadcast_def Let_def ready_def sent_def st_def reverts_def split: if_splits sum.splits)

lemma keeps_in_flight_complete: "keeps (in_flight i) (complete_plan i q)"
  unfolding complete_plan_def by (intro keep_rules status_rules[OF in_flight_on_status] keeps_in_flight_executed)

lemma sent_in_flight: "sent i k w \<Longrightarrow> in_flight i w"
  by (simp add: sent_def in_flight_def)

lemma count_record_failed:
  "count_reverted_attempts (snd (record_execution_attempt \<lparr>ai_plan = i, ai_status = AttemptFailed, ai_pending = None,
     ai_hash = None, ai_error = Some ''reverted_onchain''\<rparr> x t d)) i = Suc (count_reverted_attempts d i)"
  by (simp add: record_execution_attempt_def count_reverted_attempts_def like_reverted_onchain_def Let_def)

lemma keeps_in_flight_fail: "keeps (in_flight i) (fail_plan_and_notify i q)"
proof -
  have "keeps (in_flight i) (db_write (fail_mint_plan_execution i t))" for t
    unfolding db_write_def
  proof (rule keepsI)
    fix w assume "in_flight i w"
    then obtain p where p: "get_mint_plan i (m_db w) = Some p" "mp_status p \<in> {Executing, Executed, Failed}"
      by (auto simp: in_flight_def st_def)
    then show "in_flight i (snd (db_call (\<lambda>d. ((), fail_mint_plan_execution i t d)) w))"
      by (cases rule: db_call_cases[of "\<lambda>d. ((), fail_mint_plan_execution i t d)" w])
         (auto simp: in_flight_def st_db st_def fail_mint_plan_execution_def get_update_plans purge_presigned_def)
  qed
  then show ?thesis unfolding fail_plan_and_notify_def
    by (intro keep_rules status_rules[OF in_flight_on_status])
qed

text \<open>A recorded revert raises the count, so the third one ends the plan.\<close>

lemma acts_record_revert:
  "acts (sent i k) (record_failed i ''reverted_onchain'')
     (\<lambda>r w. case r of Inl _ \<Rightarrow> in_flight i w | Inr _ \<Rightarrow> sent i (Suc k) w)"
  unfolding record_failed_def record_attempt_def db_write_def
proof (intro acts_then_keep[OF keeps_fresh_id[OF sent_on_status]] acts_then_keep[OF keeps_clock[OF sent_on_status]])
  fix x t
  let ?f = "\<lambda>d. ((), snd (record_execution_attempt \<lparr>ai_plan = i, ai_status = AttemptFailed, ai_pending = None,
     ai_hash = None, ai_error = Some ''reverted_onchain''\<rparr> x t d))"
  show "acts (sent i k) (db_call ?f) (\<lambda>r w. case r of Inl _ \<Rightarrow> in_flight i w | Inr _ \<Rightarrow> sent i (Suc k) w)"
  proof (rule actsI)
    fix w r w' assume w: "sent i k w" and e: "db_call ?f w = (r, w')"
    have g: "get_mint_plan i (snd (?f d)) = get_mint_plan i d" for d
      by (simp add: record_execution_attempt_def get_mint_plan_def Let_def)
    show "case r of Inl _ \<Rightarrow> in_flight i w' | Inr _ \<Rightarrow> sent i (Suc k) w'"
    proof (cases rule: db_call_cases[of ?f w])
      case (fault m fs)
      then show ?thesis using e w by (auto simp: sent_in_flight sent_def in_flight_def)
    next
      case (ok fs)
      have "st i w' = st i w" using ok e g by (auto simp: st_def)
      moreover have "reverts i w' = Suc (reverts i w)"
        using ok e count_record_failed[of i x t "m_db w"] by (auto simp: reverts_def)
      ultimately show ?thesis using w ok e by (auto simp: sent_def)
    qed
  qed
qed (auto simp: sent_in_flight)

lemma acts_count:
  "acts (sent i k) (db_read (\<lambda>d. count_reverted_attempts d i))
     (\<lambda>r w. sent i k w \<and> (case r of Inl _ \<Rightarrow> True | Inr n \<Rightarrow> k \<le> n))"
proof (rule actsI)
  fix w r w' assume w: "sent i k w" and e: "db_read (\<lambda>d. count_reverted_attempts d i) w = (r, w')"
  show "sent i k w' \<and> (case r of Inl _ \<Rightarrow> True | Inr n \<Rightarrow> k \<le> n)"
    using w e unfolding db_read_def
    by (cases rule: db_call_cases[of "\<lambda>d. (count_reverted_attempts d i, d)" w])
       (auto simp: sent_def reverts_def st_def)
qed

lemma acts_after_revert:
  assumes "2 \<le> k"
  shows "acts (sent i k) (after_revert i q ''reverted_onchain'') (\<lambda>r. in_flight i)"
  unfolding after_revert_def
proof (rule acts_then[where R = "\<lambda>_. sent i (Suc k)"], goal_cases)
  case 1
  show ?case by (rule acts_post[OF acts_record_revert]) (auto split: sum.splits)
next
  case (2 u)
  show ?case
  proof (rule acts_then[where R = "\<lambda>n w. sent i (Suc k) w \<and> Suc k \<le> n"], goal_cases)
    case 1
    show ?case by (rule acts_post[OF acts_count]) (auto simp: sent_in_flight split: sum.splits)
  next
    case (2 n)
    show ?case
    proof (cases "max_onchain_reverts \<le> n")
      case True
      then show ?thesis by (auto intro!: acts_from_keeps[OF keeps_in_flight_fail] sent_in_flight)
    next
      case False
      then show ?thesis using assms by (auto simp: acts_def max_onchain_reverts_def)
    qed
  qed
qed

lemma acts_fast_after:
  assumes "x_wait env h = Reverted \<Longrightarrow> 2 \<le> k"
  shows "acts (sent i k) (fast_after_broadcast env i q h) (\<lambda>r. in_flight i)"
  unfolding fast_after_broadcast_def
proof (rule acts_then_keep[OF keeps_record_broadcast[OF sent_on_status]],
       rule acts_then_keep[OF keeps_clear_presigned[OF sent_on_status]], rule acts_if, goal_cases)
  case (1 u v)
  then show ?case using acts_after_revert assms by simp
next
  case (2 u v)
  show ?case by (rule acts_from_keeps[OF keeps_in_flight_complete sent_in_flight])
qed (auto simp: sent_in_flight)

lemma keeps_in_flight_bookkeeping: "keeps (in_flight i) (fast_bookkeeping_failed i)"
  unfolding fast_bookkeeping_failed_def by (intro keep_rules status_rules[OF in_flight_on_status] keeps_in_flight_executed)

text \<open>After a refusal the fast path either ends without an acceptance or leaves the plan as it was.\<close>

definition rejected_post :: "string \<Rightarrow> string list \<Rightarrow> nat \<Rightarrow> thrown + bool \<Rightarrow> world \<Rightarrow> bool" where
  "rejected_post i a k r w = (if r = Inr False then ready i a k w else w_accepted w = a)"

lemma acts_fast_rejected:
  "acts (ready i a k) (fast_rejected env i q addr urls h n e) (rejected_post i a k)"
proof -
  have acc: "keeps (\<lambda>w. w_accepted w = a) m \<Longrightarrow> acts (ready i a k) m (\<lambda>r w. w_accepted w = a)" for m :: "'x act"
    by (rule acts_pre[where P' = "\<lambda>w. w_accepted w = a"], erule acts_keeps) (auto simp: ready_def)
  note k = keeps_trace_status[OF accepted_on_trace[of a]] keeps_bookkeeping(1)[OF accepted_on_trace[of a]]
    status_rules[OF ready_on_status]
  have t: "acts (ready i a k) (then_do m (\<lambda>_. ret True)) (rejected_post i a k)"
    if "keeps (\<lambda>w. w_accepted w = a) m" for m :: "unit act"
    by (rule acts_then[where R = "\<lambda>_ w. w_accepted w = a"], rule acts_post[OF acc[OF that]])
       (auto intro!: acts_ret simp: rejected_post_def split: sum.splits)
  have f: "acts (ready i a k) (then_do (case n of None \<Rightarrow> ret () | Some n \<Rightarrow> give_nonce addr n) (\<lambda>_. ret False))
     (rejected_post i a k)"
    by (rule acts_then_keep)
       (auto intro!: keep_rules acts_ret status_rules[OF ready_on_status] simp: ready_def rejected_post_def)
  have t2: "acts (ready i a k) (then_do m (\<lambda>_. then_do m' (\<lambda>_. ret True))) (rejected_post i a k)"
    if "keeps (ready i a k) m" "keeps (\<lambda>w. w_accepted w = a) m'" for m m' :: "unit act"
    by (rule acts_then_keep[OF that(1) t[OF that(2)]]) (simp add: ready_def rejected_post_def)
  have t3: "acts (ready i a k) (then_do m (\<lambda>_. if c then then_do m1 (\<lambda>_. ret True) else then_do m2 (\<lambda>_. ret True)))
      (rejected_post i a k)"
    if "keeps (ready i a k) m" "keeps (\<lambda>w. w_accepted w = a) m1" "keeps (\<lambda>w. w_accepted w = a) m2"
    for m m1 m2 :: "unit act" and c
    by (rule acts_then_keep[OF that(1)]) (auto intro: t[OF that(2)] t[OF that(3)] simp: ready_def rejected_post_def)
  show ?thesis
    unfolding fast_rejected_def Let_def
    by (rule acts_then_keep[OF keeps_clear_presigned[OF ready_on_status]]; (intro acts_if acts_option f t2 t3 k)?)
       (simp add: ready_def rejected_post_def)
qed

definition fast_post :: "string \<Rightarrow> string list \<Rightarrow> nat \<Rightarrow> thrown + bool \<Rightarrow> world \<Rightarrow> bool" where
  "fast_post i a k r w = (if r = Inr False then ready i a k w else settled i a w)"

lemma acts_fast_path:
  assumes nr: "\<And>h. x_wait env h = Reverted \<Longrightarrow> 2 \<le> k"
  shows "acts (ready i a k) (fast_path env i q wl rpc urls raw ho no) (fast_post i a k)"
  unfolding fast_path_def
proof (rule acts_then[where R = "\<lambda>r w. case r of Inl _ \<Rightarrow> ready i a k w | Inr h \<Rightarrow> sent i k w"], goal_cases)
  case 1
  show ?case
    by (rule acts_attempt, simp, rule acts_then_keep[OF keeps_urls[OF ready_on_status]]) (auto intro: acts_race)
next
  case (2 x)
  show ?case
  proof (cases x)
    case (Inl e)
    then show ?thesis
      by simp (rule acts_post[OF acts_fast_rejected], auto simp: fast_post_def rejected_post_def settled_def)
  next
    case (Inr h)
    have 1: "acts (sent i k) (attempt (fast_after_broadcast env i q h))
        (\<lambda>r w. case r of Inl e \<Rightarrow> fast_post i a k (Inl e) w | Inr _ \<Rightarrow> in_flight i w)"
      by (rule acts_attempt, rule acts_post[OF acts_fast_after[OF nr]]) simp_all
    show ?thesis unfolding Inr
      by (simp, rule acts_then[OF 1])
         (auto intro!: acts_ret acts_then_keep[OF keeps_in_flight_bookkeeping]
            simp: fast_post_def settled_def split: sum.splits)
  qed
qed

lemma keeps_ready_use_key: "keeps (ready i a k) (use_key t r)"
  by (rule keepsI) (simp add: use_key_def ready_def sent_def st_def reverts_def)

lemma keeps_ready_sign: "keeps (ready i a k) (sign_with_managed_key_sealed env q sealed)"
  unfolding sign_with_managed_key_sealed_def by (intro keep_rules keeps_ready_use_key)

lemma acts_live_prepare:
  "acts (ready i a k) (live_prepare env i tx wl rpc mode)
     (\<lambda>r w. case r of Inr (Some _) \<Rightarrow> ready i a k w | _ \<Rightarrow> w_accepted w = a)"
  unfolding live_prepare_def
proof (rule acts_then_keep[OF keeps_lift], rule acts_then_keep[OF keeps_lift], goal_cases)
  case (1 sim fees)
  show ?case
  proof (cases sim)
    case (SimOk g)
    then show ?thesis by (simp add: acts_ret)
  next
    case (SimRevert reason)
    have "acts (ready i a k) (then_do (record_sim_revert i reason) (\<lambda>_. then_do (release_plan i) (\<lambda>_. ret None)))
        (\<lambda>r w. w_accepted w = a \<and> (\<forall>x. r \<noteq> Inr (Some x)))"
      by (rule acts_then_keep[OF keeps_record_sim_revert[OF ready_on_status]],
          rule acts_pre[where P' = "\<lambda>w. w_accepted w = a"],
          rule acts_then_keep[OF keeps_trace_status(1)[OF accepted_on_trace]])
         (auto intro!: acts_ret simp: ready_def)
    then show ?thesis unfolding SimRevert
      by simp (erule acts_post, auto split: sum.splits option.splits)
  qed
qed (auto simp: ready_def)

lemma acts_live_broadcast:
  "acts (ready i a k) (live_broadcast env i rpc mode raw h)
     (\<lambda>r w. case r of Inl _ \<Rightarrow> ready i a k w | Inr _ \<Rightarrow> sent i k w)"
  unfolding live_broadcast_def
  by (rule acts_then_keep[OF keeps_record_broadcast[OF ready_on_status]], rule acts_then_keep)
     (auto intro: acts_race keeps_urls[OF ready_on_status] keeps_ret)

lemma acts_catch_unsent:
  "acts (ready i a k) (live_catch env i q addr mode no so None e) (\<lambda>r. settled i a)"
  "acts (\<lambda>w. w_accepted w = a) (live_catch env i q addr mode no so None e) (\<lambda>r. settled i a)"
proof -
  show *: "acts (\<lambda>w. w_accepted w = a) (live_catch env i q addr mode no so None e) (\<lambda>r. settled i a)"
    by (rule acts_keeps[OF keeps_bookkeeping(10)[OF accepted_on_trace]]) (simp add: settled_def)
  show "acts (ready i a k) (live_catch env i q addr mode no so None e) (\<lambda>r. settled i a)"
    by (rule acts_pre[OF *]) (simp add: ready_def)
qed

lemma acts_catch_sent:
  "acts (in_flight i) (live_catch env i q addr mode no so (Some h) e) (\<lambda>r. settled i a)"
  unfolding live_catch_def
  by (simp, rule acts_then_keep[OF keeps_attempt[OF keeps_in_flight_executed]])
     (auto intro!: acts_ret simp: settled_def)

lemma acts_live_send:
  assumes nr: "\<And>h. x_wait env h = Reverted \<Longrightarrow> 2 \<le> k \<and> md_start mode = None"
  shows "acts (ready i a k) (live_send env i q addr rpc mode n raw h) (\<lambda>r. settled i a)"
  unfolding live_send_def
proof (rule acts_then_keep, goal_cases)
  case 1
  show ?case by (intro keep_rules status_rules[OF ready_on_status])
next
  case (2 u)
  have after: "acts (sent i k) (live_after_broadcast env i q mode bh) (\<lambda>r. in_flight i)" for bh
    unfolding live_after_broadcast_def
  proof (rule acts_if, goal_cases)
    case 1
    then have "2 \<le> k" "md_start mode = None" using nr by auto
    then show ?case by (simp add: acts_after_revert)
  next
    case 2
    show ?case by (rule acts_from_keeps[OF keeps_in_flight_complete sent_in_flight])
  qed
  have sent: "acts (sent i k) (then_do (attempt (live_after_broadcast env i q mode bh)) (\<lambda>x. case x of
       Inl e \<Rightarrow> live_catch env i q addr mode (Some n) (Some h) (Some bh) e | Inr _ \<Rightarrow> ret ())) (\<lambda>r. settled i a)" for bh
    by (rule acts_then[where R = "\<lambda>_. in_flight i"], rule acts_attempt, rule acts_post[OF after])
       (auto intro!: acts_sum acts_catch_sent acts_ret simp: settled_def)
  show ?case
  proof (rule acts_then[where R = "\<lambda>r w. case r of Inl _ \<Rightarrow> ready i a k w | Inr _ \<Rightarrow> sent i k w"], goal_cases)
    case 1
    show ?case by (rule acts_attempt, rule acts_post[OF acts_live_broadcast]) simp
  next
    case (2 x)
    show ?case
    proof (cases x)
      case (Inl e)
      show ?thesis unfolding Inl sum.case by (rule acts_catch_unsent(1))
    next
      case (Inr bh)
      show ?thesis unfolding Inr sum.case by (rule sent)
    qed
  qed
qed (rule ready_settled)

lemma acts_live_sign:
  assumes nr: "\<And>h. x_wait env h = Reverted \<Longrightarrow> 2 \<le> k \<and> md_start mode = None"
  shows "acts (ready i a k) (live_sign env i q tx addr sealed rpc mode gas fees) (\<lambda>r. settled i a)"
  unfolding live_sign_def
  by (intro acts_then_keep[OF keeps_take_nonce[OF ready_on_status]] acts_then_keep[OF keeps_attempt[OF keeps_ready_sign]]
      acts_sum acts_catch_unsent(1) acts_live_send[OF nr] ready_settled)

lemma acts_live_path:
  assumes nr: "\<And>h. x_wait env h = Reverted \<Longrightarrow> 2 \<le> k \<and> md_start mode = None"
  shows "acts (ready i a k) (live_path env i q tx wl sealed rpc mode) (\<lambda>r. settled i a)"
  unfolding live_path_def
proof (rule acts_then[where R = "\<lambda>r w. case r of Inr (Some _) \<Rightarrow> ready i a k w | _ \<Rightarrow> w_accepted w = a"], goal_cases)
  case 1
  show ?case by (rule acts_attempt, rule acts_post[OF acts_live_prepare]) simp
next
  case (2 p)
  show ?case
  proof (cases p)
    case (Inl e)
    show ?thesis unfolding Inl sum.case by (rule acts_catch_unsent(2))
  next
    case (Inr o')
    show ?thesis unfolding Inr sum.case
      by (cases o') (auto simp: settled_def intro!: acts_live_sign[OF nr] acts_ret)
  qed
qed

lemma acts_run_managed:
  assumes nr: "\<And>h. x_wait env h = Reverted \<Longrightarrow> 2 \<le> k \<and> md_start mode = None"
  shows "acts (ready i a k) (run_managed_fire env i q tx wl rpc mode) (\<lambda>r. settled i a)"
proof (cases "wl_key wl")
  case None
  have "keeps (\<lambda>w. w_accepted w = a) (then_do (record_failed i ''managed_key_missing'') (\<lambda>_. fail_plan_and_notify i q))"
    by (intro keep_rules keeps_bookkeeping[OF accepted_on_trace] status_rules[OF on_trace_status[OF accepted_on_trace]])
  from acts_pre[OF acts_keeps[OF this, where Q = "\<lambda>r. settled i a"], of "ready i a k"] show ?thesis
    by (simp add: run_managed_fire_def None settled_def ready_def)
next
  case (Some sealed)
  have fast: "acts (ready i a k) (case fresh of None \<Rightarrow> ret False | Some f \<Rightarrow>
       (case mp_raw f of None \<Rightarrow> ret False | Some raw \<Rightarrow>
         if md_near mode \<or> raw = [] then ret False
         else fast_path env i q wl rpc (md_urls mode) raw (mp_hash f) (mp_nonce f))) (fast_post i a k)" for fresh
    by (intro acts_option acts_if acts_fast_path[OF nr[THEN conjunct1]] acts_ret) (simp_all add: fast_post_def)
  have rest: "acts (ready i a k) (then_do (case fresh of None \<Rightarrow> ret False | Some f \<Rightarrow>
       (case mp_raw f of None \<Rightarrow> ret False | Some raw \<Rightarrow>
         if md_near mode \<or> raw = [] then ret False
         else fast_path env i q wl rpc (md_urls mode) raw (mp_hash f) (mp_nonce f)))
       (\<lambda>ended. if ended then ret () else live_path env i q tx wl sealed rpc mode)) (\<lambda>r. settled i a)" for fresh
  proof (rule acts_then[where R = "\<lambda>b w. if b then settled i a w else ready i a k w"], goal_cases)
    case 1
    show ?case by (rule acts_post[OF fast]) (auto simp: fast_post_def split: sum.splits if_splits)
  next
    case (2 b)
    show ?case using acts_live_path[OF nr] by (cases b) (auto intro: acts_ret)
  qed
  show ?thesis
    unfolding run_managed_fire_def Some option.case
    by (rule acts_then_keep[OF keeps_db_read[OF ready_on_status] rest]) (rule ready_settled)
qed


section \<open>Concrete passes\<close>

definition demo_config :: worker_config where
  "demo_config = \<lparr>cf_live = True, cf_chain = 4663, cf_rpc_url = None,
     cf_mint_rpc = \<lparr>alchemy_rpc = None, chainstack_rpc = None, drpc_rpc = None, default_rpc = None\<rparr>,
     cf_lead = 150, cf_skip_simulation = True, cf_presign_gas = 300000\<rparr>"

definition demo_env :: "(string \<Rightarrow> string \<Rightarrow> thrown + string) \<Rightarrow> receipt_outcome \<Rightarrow> receipt_reading \<Rightarrow> fire_env" where
  "demo_env send outcome reading =
     \<lparr>cfg = demo_config, x_rpc_table = [], x_send = send, x_pick = 0, x_wait = (\<lambda>_. outcome),
      x_receipt = (\<lambda>_ _. reading), x_fees = (\<lambda>_ _. Inr \<lparr>fee_nonce = 7, fee_max = ''2'', fee_priority = ''1''\<rparr>),
      x_fees_live = (\<lambda>_ _. Inr \<lparr>fee_nonce = 7, fee_max = ''2'', fee_priority = ''1''\<rparr>),
      x_simulate_live = (\<lambda>_. Inr (SimOk 100000)), x_open_key = (\<lambda>_. Inr ''key''),
      x_lib = \<lparr>sl_sign = (\<lambda>_ _. Inr ''0xraw''), sl_keccak = (\<lambda>_. ''0xh''), sl_encode_execute = (\<lambda>_ _ _. ''0xc'')\<rparr>,
      x_credential = (\<lambda>_. Inr None), x_key_address = (\<lambda>_. Inr ''0xop'')\<rparr>"

definition demo_wallet :: wallet where
  "demo_wallet = \<lparr>wl_id = ''w'', wl_address = ''0xme'', wl_label = None, wl_enabled = True, wl_key = Some ''sealed'',
     wl_balance = None\<rparr>"

definition demo_tx :: raw_tx where
  "demo_tx = \<lparr>tx_to = ''0xsea'', tx_data = ''0xdata'', tx_value = ''5'', tx_chain = 4663\<rparr>"

definition demo_mode :: fire_mode where
  "demo_mode = \<lparr>md_near = True, md_fees = None, md_urls = [''u''], md_hold = None, md_start = None\<rparr>"

definition demo_world :: world where
  "demo_world = \<lparr>m_db = demo_db [demo_plan ''a'' Executing 5 50], m_clock = [10], m_faults = [],
     w_nonces = reset_nonce_reservations, w_ids = 0, w_signed = [], w_sent = [], w_accepted = [], w_recheck = Map.empty\<rparr>"

lemmas prim_defs = then_do_def attempt_def try_catch_def ret_def throw_def lift_sum_def clock_def db_call_def db_read_def
  db_write_def fresh_id_def record_attempt_def record_failed_def record_broadcast_def record_sim_revert_def
  release_plan_def mark_executed_def clear_presigned_def publish_def take_nonce_def give_nonce_def use_key_def
  race_broadcast_def

lemmas fire_defs = run_managed_fire_def live_path_def live_sign_def live_send_def live_prepare_def live_broadcast_def
  live_after_broadcast_def live_catch_def live_not_sent_def sign_with_managed_key_sealed_def sign_request_of_def
  complete_plan_def after_revert_def fail_plan_and_notify_def broadcast_urls_def with_rpc_failover_def

lemmas table_defs = record_execution_attempt_def release_mint_plan_to_armed_def mark_mint_plan_executed_def
  get_mint_plan_def update_plans_def publish_event_def count_reverted_attempts_def like_reverted_onchain_def sql_gt_def

lemma big_int_5: "big_int ''5'' = Inr 5" and big_int_2: "big_int ''2'' = Inr 2" and big_int_1: "big_int ''1'' = Inr 1"
  by code_simp+

lemmas sign_eval = sign_managed_mint_transaction_def big_int_5 big_int_2 big_int_1 of_js_def
  reserve_nonce_def reset_nonce_reservations_def pool_of_def

lemmas demo_fire_defs = demo_config_def demo_env_def demo_wallet_def demo_tx_def demo_mode_def demo_world_def demo_db_def
  demo_plan_def

lemma demo_reverted_pass:
  "\<exists>w'. run_managed_fire (demo_env (\<lambda>_ _. Inr ''0xh'') Reverted (Inr None)) ''a'' ''p'' demo_tx demo_wallet ''u'' demo_mode
      demo_world = (Inr (), w') \<and> st ''a'' w' = Some Armed \<and> w_accepted w' = [''0xh''] \<and> reverts ''a'' w' = 1"
  by (simp add: fire_defs prim_defs table_defs sign_eval demo_fire_defs st_def reverts_def max_onchain_reverts_def Let_def)


text \<open>
  Every endpoint refuses the signed transaction and the chain cannot say whether it landed: the plan goes
  back to armed, with the intent recorded, and waits for the idempotency gate of its next claim.
\<close>

lemma unresolved_send_rearms:
  "\<exists>w'. run_managed_fire (demo_env (\<lambda>_ _. Inl (ThrownError ''timeout'')) Unresolved (Inr None)) ''a'' ''p'' demo_tx
      demo_wallet ''u'' demo_mode demo_world = (Inr (), w')
    \<and> st ''a'' w' = Some Armed \<and> latest_broadcast_attempt (m_db w') ''a'' = Some (''0xh'', 10)"
  by (simp add: fire_defs prim_defs table_defs sign_eval demo_fire_defs st_def Let_def reading_outcome_def
      pick_broadcast_error_def as_error_def broadcast_priority_def message_or_string_def matches_ci_def
      matches_gap_ci_def to_lower_def lower_char_def code_of_def starts_with_def
      latest_broadcast_attempt_def sort_desc_def)

end
