(* ===== verification/FirePass.thy ===== *)
theory FirePass
  imports ManagedFire
begin

text \<open>
  \<open>runMintExecutionPass\<close> of apps/worker/src/workers/execution.ts, the pass that claims one due plan and
  fires it, cut into its steps: idempotency gate, signer resolution, self-served public stage, allowance
  pre-check, calldata, pipeline, dispatch, and the catch. A step that may end the pass is a \<open>gate\<close>. The
  metrics, the log lines and the warm-up of sockets are left out.
\<close>

section \<open>The environment\<close>

record pass_env =
  pe_fire :: fire_env
  pe_locked :: "string list"
  pe_receipt_prior :: "string \<Rightarrow> string \<Rightarrow> receipt_reading"
  pe_simulate :: simulate_fn
  pe_reads :: chain_reads
  pe_stats_early :: "string \<Rightarrow> string \<Rightarrow> string \<Rightarrow> thrown + mint_stats"
  pe_stats_late :: "string \<Rightarrow> string \<Rightarrow> string \<Rightarrow> thrown + mint_stats"
  pe_encode_mint :: "string \<Rightarrow> string \<Rightarrow> string \<Rightarrow> int \<Rightarrow> string"
  pe_clock_offset :: "int option"
  pe_caps :: "string \<Rightarrow> (string \<times> int) list"
  pe_build :: "string \<Rightarrow> string \<Rightarrow> int \<Rightarrow> thrown + string \<times> string \<times> string"
  pe_burst :: "string \<Rightarrow> string \<Rightarrow> int \<Rightarrow> thrown + string \<times> string \<times> string"

abbreviation pe_cfg :: "pass_env \<Rightarrow> worker_config" where
  "pe_cfg env \<equiv> cfg (pe_fire env)"

definition max_parallel_fires :: int where "max_parallel_fires = 8"
definition prior_broadcast_grace_ms :: int where "prior_broadcast_grace_ms = 3000"
definition self_served_max_hold_ms :: int where "self_served_max_hold_ms = 15000"
definition fire_burst_window_ms :: int where "fire_burst_window_ms = 20000"
definition cache_ttl_ms :: int where "cache_ttl_ms = 5 * 60 * 1000"

section \<open>The fire instant\<close>

definition fire_target_ms :: "mint_plan \<Rightarrow> int option act" where
  "fire_target_ms p =
     (case mp_fire_at p of
        Some t \<Rightarrow> ret (Some t)
      | None \<Rightarrow> (case mp_stage p of None \<Rightarrow> ret None
                 | Some s \<Rightarrow> db_read (\<lambda>d. map_option ds_starts (get_drop_stage s d))))"

definition is_near_fire_instant :: "mint_plan \<Rightarrow> int \<Rightarrow> bool act" where
  "is_near_fire_instant p window =
     then_do (fire_target_ms p) (\<lambda>target.
     case target of None \<Rightarrow> ret False | Some t \<Rightarrow> then_do clock (\<lambda>now. ret (\<bar>now - t\<bar> \<le> window)))"

section \<open>The idempotency gate\<close>

text \<open>\<open>Inl\<close>: the pass ends with that outcome.\<close>

definition idempotency_gate :: "pass_env \<Rightarrow> string list \<Rightarrow> mint_plan \<Rightarrow> (string + unit) act" where
  "idempotency_gate env urls p =
     then_do (db_read (\<lambda>d. latest_broadcast_attempt d (mp_id p))) (\<lambda>prior.
     case prior of
       None \<Rightarrow> ret (Inr ())
     | Some (h, at_ms) \<Rightarrow>
         (case resolve_tx_outcome (pe_receipt_prior env) urls h of
            Mined \<Rightarrow> then_do (mark_executed (mp_id p)) (\<lambda>_. ret (Inl ''already_broadcast''))
          | Reverted \<Rightarrow> ret (Inr ())
          | Unresolved \<Rightarrow>
              then_do clock (\<lambda>now.
              if now - at_ms < prior_broadcast_grace_ms
              then then_do (release_plan (mp_id p)) (\<lambda>_. ret (Inl ''awaiting_prior_broadcast''))
              else ret (Inr ()))))"

section \<open>Who signs\<close>

record signer_choice =
  ch_handle :: signer_handle
  ch_ceiling :: int
  ch_delegated :: "signer option"

definition resolve_signer :: "mint_plan \<Rightarrow> wallet \<Rightarrow> signer_choice act" where
  "resolve_signer p wl =
     then_do (lift_sum (of_js (big_int (mp_ceiling p)))) (\<lambda>c.
     let none = \<lparr>ch_handle = \<lparr>sh_id = ''unregistered'', sh_scheme = BrowserWallet\<rparr>, ch_ceiling = c,
                 ch_delegated = None\<rparr> in
     then_do
       (case mp_signer p of
          None \<Rightarrow> ret none
        | Some sid \<Rightarrow>
            then_do (db_read (get_signer sid)) (\<lambda>row.
            case row of
              None \<Rightarrow> ret none
            | Some r \<Rightarrow>
                if sg_status r = SignerActive then
                  then_do (case sg_ceiling r of None \<Rightarrow> ret c | Some s \<Rightarrow> lift_sum (of_js (big_int s))) (\<lambda>c'.
                  ret \<lparr>ch_handle = \<lparr>sh_id = sg_id r, sh_scheme = sg_scheme r\<rparr>, ch_ceiling = c',
                       ch_delegated = (if sg_scheme r = CustomExecutor then Some r else None)\<rparr>)
                else ret none)) (\<lambda>ch.
     ret (if sh_scheme (ch_handle ch) = BrowserWallet \<and> wl_key wl \<noteq> None
          then ch\<lparr>ch_handle := \<lparr>sh_id = ''managed:'' @ wl_id wl, sh_scheme = ManagedWalletKey\<rparr>\<rparr>
          else ch)))"

section \<open>A public stage served without OpenSea\<close>

record self_served_plan =
  sp_tx :: "sign_tx option"
  sp_hold :: "int option"
  sp_start :: "int option"

definition no_self_served :: self_served_plan where
  "no_self_served = \<lparr>sp_tx = None, sp_hold = None, sp_start = None\<rparr>"

definition end_failed :: "mint_plan \<Rightarrow> string \<Rightarrow> string \<Rightarrow> (string + 'a) act" where
  "end_failed p code outcome =
     then_do (record_failed (mp_id p) code) (\<lambda>_.
     then_do (fail_plan_and_notify (mp_id p) (mp_project p)) (\<lambda>_. ret (Inl outcome)))"

definition self_served_window :: "pass_env \<Rightarrow> mint_plan \<Rightarrow> self_served_built \<Rightarrow> (string + self_served_plan) act" where
  "self_served_window env p b =
     then_do (if ss_quantity b < ss_requested b
              then record_failed (mp_id p) (''quantity_clamped: requested='' @ show_int (ss_requested b)
                     @ '' using='' @ show_int (ss_quantity b))
              else ret ()) (\<lambda>_.
     then_do (db_read (\<lambda>_. case pe_clock_offset env of None \<Rightarrow> 0 | Some o' \<Rightarrow> o')) (\<lambda>offset.
     let open_local = chain_time_to_local_ms (ss_start_ms b) offset;
         close_local = chain_time_to_local_ms (ss_end_ms b) offset in
     then_do (fire_target_ms p) (\<lambda>_.
     then_do clock (\<lambda>now.
     if now > close_local then end_failed p ''public_window_closed'' ''public_window_closed''
     else
       let send_at = open_local - cf_lead (pe_cfg env) in
       then_do clock (\<lambda>now2.
       let wait = send_at - now2 in
       if wait > self_served_max_hold_ms
       then then_do (release_plan (mp_id p)) (\<lambda>_. ret (Inl ''self_served_not_open''))
       else ret (Inr \<lparr>sp_tx = Some (ss_tx b), sp_hold = (if wait > 0 then Some send_at else None),
                      sp_start = Some (ss_start_ms b)\<rparr>))))))"

definition self_served_step ::
  "pass_env \<Rightarrow> string list \<Rightarrow> mint_plan \<Rightarrow> project \<Rightarrow> wallet \<Rightarrow> scheme_kind \<Rightarrow> (string + self_served_plan) act" where
  "self_served_step env urls p pr wl scheme =
     then_do
       (if mp_stage p = None \<or> pr_contract pr = None then ret NotSelfServable
        else db_read (\<lambda>d. build_self_served_public_mint (pe_reads env) (pe_encode_mint env) urls (mp_stage p) d
               (pr_contract pr) (wl_address wl) (mp_quantity p) (pr_chain pr)
               (if scheme = CustomExecutor then Some (wl_address wl) else None))) (\<lambda>result.
     case result of
       SelfSoldOut \<Rightarrow> end_failed p ''minted_out: on-chain supply exhausted'' ''minted_out''
     | SelfExhausted \<Rightarrow> end_failed p ''allowance_exhausted: on-chain getMintStats'' ''allowance_exhausted''
     | SelfReadFailed m \<Rightarrow>
         then_do (record_failed (mp_id p) (take 200 (''self_served_read_failed: '' @ m))) (\<lambda>_.
         ret (Inr no_self_served))
     | NotSelfServable \<Rightarrow> ret (Inr no_self_served)
     | SelfBuilt b \<Rightarrow> self_served_window env p b)"

section \<open>The allowance pre-check and the calldata\<close>

text \<open>\<open>stats\<close> is \<open>None\<close> when no read was started, \<open>Some None\<close> when it failed.\<close>

definition precheck_step ::
  "pass_env \<Rightarrow> mint_plan \<Rightarrow> bool \<Rightarrow> mint_stats option option \<Rightarrow> (string + int) act" where
  "precheck_step env p self_served stats =
     (case (self_served, stats) of
        (False, Some (Some s)) \<Rightarrow>
          then_do (case mp_stage p of None \<Rightarrow> ret [] | Some _ \<Rightarrow> db_read (\<lambda>_. pe_caps env (mp_project p))) (\<lambda>caps.
          let cap = map_option snd (List.find (\<lambda>c. mp_stage p = Some (fst c)) caps) in
          case precheck_allowance (mp_quantity p) cap s of
            PrecheckMintedOut \<Rightarrow> end_failed p ''precheck_minted_out'' ''precheck_minted_out''
          | PrecheckExhausted c \<Rightarrow>
              end_failed p (''precheck_allowance_exhausted: cap='' @ show_int c) ''precheck_allowance_exhausted''
          | PrecheckOk q \<Rightarrow> ret (Inr q))
      | _ \<Rightarrow> ret (Inr (mp_quantity p)))"

fun descend :: "(int \<Rightarrow> thrown + 'a) \<Rightarrow> nat \<Rightarrow> thrown + 'a" where
  "descend build 0 = Inl (ThrownError ''mint build failed at every quantity'')"
| "descend build (Suc n) =
     (case build (int (Suc n)) of
        Inr x \<Rightarrow> Inr x
      | Inl e \<Rightarrow> if \<not> is_per_wallet_limit_error (message_or_string e) \<or> n = 0 then Inl e else descend build n)"

definition with_from :: "raw_tx \<Rightarrow> string \<Rightarrow> sign_tx" where
  "with_from tx from = \<lparr>tx_to = tx_to tx, tx_data = tx_data tx, tx_value = tx_value tx, tx_chain = tx_chain tx,
                        tx_from = from\<rparr>"

definition calldata_step ::
  "pass_env \<Rightarrow> mint_plan \<Rightarrow> project \<Rightarrow> string \<Rightarrow> wallet \<Rightarrow> bool \<Rightarrow> sign_tx option \<Rightarrow> int \<Rightarrow> sign_tx act" where
  "calldata_step env p pr slug wl near self_tx quantity =
     (case self_tx of
        Some tx \<Rightarrow> ret tx
      | None \<Rightarrow>
          then_do (case (near, mp_cached_at p) of
                     (False, Some t) \<Rightarrow> then_do clock (\<lambda>now. ret (now - t < cache_ttl_ms))
                   | _ \<Rightarrow> ret False) (\<lambda>fresh.
          case (fresh, mp_cached_tx p) of
            (True, Some tx) \<Rightarrow> ret (with_from tx (wl_address wl))
          | _ \<Rightarrow>
              then_do clock (\<lambda>_.
              lift_sum (rmap (\<lambda>(t, dt, v). \<lparr>tx_to = t, tx_data = dt, tx_value = v, tx_chain = pr_chain pr,
                                            tx_from = wl_address wl\<rparr>)
                (descend ((if near then pe_burst env else pe_build env) slug (wl_address wl)) (nat quantity))))))"

section \<open>The pipeline and what follows\<close>

definition pipeline_step ::
  "pass_env \<Rightarrow> mint_plan \<Rightarrow> wallet \<Rightarrow> string \<Rightarrow> bool \<Rightarrow> signer_choice \<Rightarrow> sign_tx \<Rightarrow> pipeline_outcome act" where
  "pipeline_step env p wl rpc near ch tx =
     then_do (lift_sum (of_js (big_int (mp_ceiling p)))) (\<lambda>c.
     then_do clock (\<lambda>now.
     lift_sum (run_execution_pipeline
       \<lparr>in_plan = mp_id p, in_status = Armed, in_armed_until = map_option Some (mp_armed_until p),
        in_signer_ceiling = ch_ceiling ch, in_plan_ceiling = c, in_spent = 0, in_signer = ch_handle ch,
        in_recipient = wl_address wl, in_tx = tx\<rparr>
       \<lparr>dp_rpc = rpc, dp_live = cf_live (pe_cfg env),
        dp_simulate = (if near \<and> cf_skip_simulation (pe_cfg env) \<and> sh_scheme (ch_handle ch) = ManagedWalletKey
                       then (\<lambda>_. Inr (SimOk (cf_presign_gas (pe_cfg env)))) else pe_simulate env),
        dp_now = Some now\<rparr>)))"

fun stage_name :: "pipeline_outcome \<Rightarrow> string" where
  "stage_name (BlockedPolicy _) = ''blocked_policy''"
| "stage_name (BlockedSimulation _) = ''blocked_simulation''"
| "stage_name (ShadowWouldFire _) = ''shadow_would_fire''"
| "stage_name (BlockedScheme _) = ''blocked_scheme_not_implemented''"
| "stage_name (ReadyBrowser _) = ''ready_for_browser_signature''"
| "stage_name (ReadyDelegated _ _ _) = ''ready_for_delegated_signature''"

definition raw_of :: "sign_tx \<Rightarrow> raw_tx" where
  "raw_of tx = \<lparr>tx_to = tx_to tx, tx_data = tx_data tx, tx_value = tx_value tx, tx_chain = tx_chain tx\<rparr>"

definition dispatch ::
  "pass_env \<Rightarrow> mint_plan \<Rightarrow> wallet \<Rightarrow> string \<Rightarrow> fire_mode \<Rightarrow> signer_choice \<Rightarrow> pipeline_outcome \<Rightarrow> unit act" where
  "dispatch env p wl rpc mode ch outcome =
     (case outcome of
        BlockedSimulation reason \<Rightarrow> then_do (record_sim_revert (mp_id p) reason) (\<lambda>_. release_plan (mp_id p))
      | ShadowWouldFire gas \<Rightarrow>
          then_do (record_attempt (mp_id p) SimulatedOk None None None) (\<lambda>_. release_plan (mp_id p))
      | BlockedPolicy reason \<Rightarrow>
          then_do (record_failed (mp_id p) (take 200 reason)) (\<lambda>_. fail_plan_and_notify (mp_id p) (mp_project p))
      | BlockedScheme reason \<Rightarrow>
          then_do (record_failed (mp_id p) (take 200 reason)) (\<lambda>_. fail_plan_and_notify (mp_id p) (mp_project p))
      | ReadyBrowser q \<Rightarrow>
          then_do (record_attempt (mp_id p) AwaitingSignature None (Some (sr_tx q)) None) (\<lambda>_.
          publish ''execution.awaiting_signature'' (mp_project p))
      | ReadyDelegated s tx gas \<Rightarrow>
          if sh_scheme (ch_handle ch) = ManagedWalletKey
          then run_managed_fire (pe_fire env) (mp_id p) (mp_project p) (raw_of tx) wl rpc mode
          else run_delegated_fire (pe_fire env) (mp_id p) (mp_project p) (raw_of tx) (ch_delegated ch) rpc)"

text \<open>From the resolved rows to the outcome.\<close>

definition fire_plan ::
  "pass_env \<Rightarrow> mint_plan \<Rightarrow> project \<Rightarrow> string \<Rightarrow> wallet \<Rightarrow> string list \<Rightarrow> string \<Rightarrow> bool
     \<Rightarrow> (thrown + fee_context) option \<Rightarrow> mint_stats option option \<Rightarrow> string act" where
  "fire_plan env p pr slug wl urls rpc near fees stats =
     then_do (resolve_signer p wl) (\<lambda>ch.
     gate (self_served_step env urls p pr wl (sh_scheme (ch_handle ch))) (\<lambda>sp.
     gate (precheck_step env p (sp_tx sp \<noteq> None) stats) (\<lambda>quantity.
     then_do (calldata_step env p pr slug wl near (sp_tx sp) quantity) (\<lambda>tx.
     then_do (pipeline_step env p wl rpc near ch tx) (\<lambda>outcome.
     then_do (dispatch env p wl rpc
                \<lparr>md_near = near, md_fees = fees, md_urls = urls, md_hold = sp_hold sp, md_start = sp_start sp\<rparr>
                ch outcome) (\<lambda>_.
     ret (stage_name outcome)))))))"

definition stats_target :: "project option \<Rightarrow> wallet option \<Rightarrow> (string \<times> string) option" where
  "stats_target pr wl =
     (case (pr, wl) of
        (Some r, Some w) \<Rightarrow> (case pr_contract r of None \<Rightarrow> None | Some c \<Rightarrow> Some (c, wl_address w))
      | _ \<Rightarrow> None)"

definition pass_rest ::
  "pass_env \<Rightarrow> mint_plan \<Rightarrow> project option \<Rightarrow> wallet option \<Rightarrow> string list \<Rightarrow> string \<Rightarrow> string act" where
  "pass_rest env p pr wl urls rpc =
     then_do (is_near_fire_instant p fire_burst_window_ms) (\<lambda>near.
     let racing = (near \<and> (case wl of None \<Rightarrow> False | Some w \<Rightarrow> wl_key w \<noteq> None));
         fees = (case (racing, wl) of
                   (True, Some w) \<Rightarrow> Some (with_rpc_failover urls (\<lambda>u. x_fees (pe_fire env) u (wl_address w)))
                 | _ \<Rightarrow> None);
         stats = (case (racing, stats_target pr wl) of
                   (True, Some (nft, minter)) \<Rightarrow>
                     Some (case with_rpc_failover urls (\<lambda>u. pe_stats_early env u nft minter) of
                             Inl _ \<Rightarrow> None | Inr s \<Rightarrow> Some s)
                 | _ \<Rightarrow> None)
     in gate (idempotency_gate env urls p) (\<lambda>_.
        case (pr, wl) of
          (Some r, Some w) \<Rightarrow>
            (case pr_slug r of
               None \<Rightarrow> then_do (record_failed (mp_id p) ''no_mint_adapter_for_project'') (\<lambda>_.
                       ret ''no_mint_adapter_for_project'')
             | Some slug \<Rightarrow> fire_plan env p r slug w urls rpc near fees stats)
        | _ \<Rightarrow> then_do (record_failed (mp_id p) ''missing_project_or_wallet'') (\<lambda>_.
               ret ''missing_project_or_wallet'')))"

section \<open>The catch\<close>

definition catch_failed :: "mint_plan \<Rightarrow> string \<Rightarrow> string \<Rightarrow> string act" where
  "catch_failed p code outcome =
     then_do (record_failed (mp_id p) code) (\<lambda>_.
     then_do (fail_plan_and_notify (mp_id p) (mp_project p)) (\<lambda>_. ret outcome))"

definition catch_minted_out :: "pass_env \<Rightarrow> mint_plan \<Rightarrow> string list \<Rightarrow> (string \<times> string) option \<Rightarrow> string \<Rightarrow> string act" where
  "catch_minted_out env p urls target message =
     then_do (fire_target_ms p) (\<lambda>target_ms.
     let supply = (case target of
           None \<Rightarrow> None
         | Some (nft, minter) \<Rightarrow>
             if urls = [] then None
             else (case with_rpc_failover urls (\<lambda>u. pe_stats_late env u nft minter) of
                     Inl _ \<Rightarrow> None | Inr s \<Rightarrow> Some s)) in
     then_do clock (\<lambda>now.
     if \<not> minted_out_is_terminal now target_ms supply then
       then_do (record_failed (mp_id p) (take 200 (''minted_out_pre_open: '' @ message))) (\<lambda>_.
       then_do (release_plan (mp_id p)) (\<lambda>_. ret ''minted_out_pre_open''))
     else catch_failed p (take 200 (''minted_out: '' @ message)) ''minted_out''))"

definition pass_catch :: "pass_env \<Rightarrow> mint_plan \<Rightarrow> string list \<Rightarrow> (string \<times> string) option \<Rightarrow> thrown \<Rightarrow> string act" where
  "pass_catch env p urls target e =
     (let message = (case e of ThrownApp a \<Rightarrow> err_message a | ThrownError m \<Rightarrow> m | ThrownOther _ \<Rightarrow> ''unknown_error'') in
      if is_minted_out_error message then catch_minted_out env p urls target message
      else if is_insufficient_funds_error message
      then catch_failed p (take 200 (''insufficient_funds: '' @ message)) ''insufficient_funds''
      else if provider_4xx message \<and> is_per_wallet_limit_error message
      then catch_failed p (take 200 (''allowance_exhausted: '' @ message)) ''allowance_exhausted''
      else if provider_4xx message \<and> is_terminal_mint_build_error message
      then catch_failed p (take 200 (''refused: '' @ message)) ''refused''
      else
        then_do (record_failed (mp_id p) (take 200 message)) (\<lambda>_.
        then_do (attempt (release_plan (mp_id p))) (\<lambda>_. ret ''error'')))"

section \<open>The pass\<close>

record pass_summary =
  sm_expired :: nat
  sm_outcome :: "string option"
  sm_plan :: "string option"

text \<open>The try block, with the variables its catch reads at each point.\<close>

definition pass_body :: "pass_env \<Rightarrow> mint_plan \<Rightarrow> string act" where
  "pass_body env p =
     then_do (attempt (db_read (\<lambda>_. resolve_broadcast_rpc_urls (x_rpc_table (pe_fire env)) (cf_chain (pe_cfg env))
                                  (cf_rpc_url (pe_cfg env)) 4))) (\<lambda>r.
     case r of
       Inl e \<Rightarrow> pass_catch env p [] None e
     | Inr registry \<Rightarrow>
         let urls = mint_rpc_urls (cf_mint_rpc (pe_cfg env)) registry in
         if urls = [] then
           try_catch (then_do (record_failed (mp_id p) ''no_rpc_configured'') (\<lambda>_. ret ''no_rpc_configured''))
             (pass_catch env p [] None)
         else
           then_do (attempt (then_do (db_read (\<lambda>d. List.find (\<lambda>r. pr_id r = mp_project p) (projects d))) (\<lambda>pr.
                             then_do (db_read (\<lambda>d. wallet_of d p)) (\<lambda>wl. ret (pr, wl))))) (\<lambda>rows.
           case rows of
             Inl e \<Rightarrow> pass_catch env p urls None e
           | Inr found \<Rightarrow>
               try_catch (pass_rest env p (fst found) (snd found) urls (hd urls))
                 (pass_catch env p urls (stats_target (fst found) (snd found)))))"

definition run_mint_execution_pass :: "pass_env \<Rightarrow> pass_summary act" where
  "run_mint_execution_pass env =
     then_do clock (\<lambda>now.
     then_do (db_call (expire_stale_mint_plans now)) (\<lambda>expired.
     then_do clock (\<lambda>db_now.
     then_do (db_call (claim_armed_mint_plan (pe_locked env) db_now now 30000 (cf_lead (pe_cfg env)))) (\<lambda>claimed.
     case claimed of
       None \<Rightarrow> ret \<lparr>sm_expired = expired, sm_outcome = None, sm_plan = None\<rparr>
     | Some p \<Rightarrow>
         then_do (pass_body env p) (\<lambda>outcome.
         ret \<lparr>sm_expired = expired, sm_outcome = Some outcome, sm_plan = Some (mp_id p)\<rparr>)))))"

section \<open>Everything but the two signing functions leaves the traces alone\<close>

lemma keeps_end_failed: "on_trace I \<Longrightarrow> keeps I (end_failed p c o')"
  unfolding end_failed_def
  by (intro keep_rules keeps_bookkeeping status_rules[OF on_trace_status]) assumption+

lemma keeps_steps:
  assumes t: "on_trace I"
  shows "keeps I (fire_target_ms p)" "keeps I (is_near_fire_instant p window)"
    "keeps I (idempotency_gate env urls p)" "keeps I (resolve_signer p wl)"
    "keeps I (self_served_step env urls p pr wl scheme)" "keeps I (precheck_step env p b stats)"
    "keeps I (calldata_step env p pr slug wl near self_tx quantity)"
    "keeps I (pipeline_step env p wl rpc near ch tx)" "keeps I (pass_catch env p urls target e)"
proof -
  note k = keep_rules status_rules[OF on_trace_status[OF t]] keeps_bookkeeping[OF t] keeps_trace_status[OF t]
    keeps_end_failed[OF t]
  show 1: "keeps I (fire_target_ms p)" for p
    unfolding fire_target_ms_def by (intro k)
  show "keeps I (is_near_fire_instant p window)"
    unfolding is_near_fire_instant_def by (intro k 1)
  show "keeps I (idempotency_gate env urls p)"
    unfolding idempotency_gate_def by (intro k)
  show "keeps I (resolve_signer p wl)"
    unfolding resolve_signer_def Let_def by (intro k)
  have w: "keeps I (self_served_window env p b)" for b
    unfolding self_served_window_def Let_def by (intro k 1)
  show "keeps I (self_served_step env urls p pr wl scheme)"
    unfolding self_served_step_def
  proof (rule keeps_then, goal_cases)
    case 1
    show ?case by (intro k)
  next
    case (2 x)
    show ?case by (cases x) (auto intro!: w k)
  qed
  show "keeps I (precheck_step env p b stats)"
    unfolding precheck_step_def Let_def
    by (cases b; cases stats; cases "the stats")
       (auto intro!: k split: precheck_verdict.splits option.splits)
  show "keeps I (calldata_step env p pr slug wl near self_tx quantity)"
    unfolding calldata_step_def by (auto intro!: k split: option.splits bool.splits)
  show "keeps I (pipeline_step env p wl rpc near ch tx)"
    unfolding pipeline_step_def by (intro k)
  have m: "keeps I (catch_failed p c o')" for c o'
    unfolding catch_failed_def by (intro k)
  have n: "keeps I (catch_minted_out env p urls target msg)" for msg
    unfolding catch_minted_out_def Let_def by (intro k 1 m)
  show "keeps I (pass_catch env p urls target e)"
    unfolding pass_catch_def Let_def by (intro k m n)
qed

text \<open>What must be kept of a hand-off for a property of the traces to hold of the whole pass.\<close>

definition dispatch_keeps :: "pass_env \<Rightarrow> mint_plan \<Rightarrow> (world \<Rightarrow> bool) \<Rightarrow> bool" where
  "dispatch_keeps env p I \<longleftrightarrow> (\<forall>wl rpc near ch tx mode w outcome w'.
     pipeline_step env p wl rpc near ch tx w = (Inr outcome, w') \<longrightarrow> keeps I (dispatch env p wl rpc mode ch outcome))"

lemma keeps_fire_plan:
  assumes t: "on_trace I" and d: "dispatch_keeps env p I"
  shows "keeps I (fire_plan env p pr slug wl urls rpc near fees stats)"
proof -
  have tail: "keeps I (then_do (pipeline_step env p wl rpc near ch tx) (\<lambda>outcome.
     then_do (dispatch env p wl rpc mode ch outcome) (\<lambda>_. ret (stage_name outcome))))" for ch tx mode
    unfolding keeps_def
  proof (rule acts_then[where R = "\<lambda>outcome w. I w \<and> keeps I (dispatch env p wl rpc mode ch outcome)"], goal_cases)
    case 1
    show ?case
    proof (rule actsI)
      fix w r w' assume "I w" and e: "pipeline_step env p wl rpc near ch tx w = (r, w')"
      have "I w'" using \<open>I w\<close> e keepsD[OF keeps_steps(8)[OF t]] by blast
      show "case r of Inl e \<Rightarrow> I w' | Inr outcome \<Rightarrow> I w' \<and> keeps I (dispatch env p wl rpc mode ch outcome)"
      proof (cases r)
        case (Inr outcome)
        then show ?thesis using \<open>I w'\<close> d[unfolded dispatch_keeps_def, rule_format, OF e[unfolded Inr]] by simp
      qed (use \<open>I w'\<close> in simp)
    qed
  next
    case (2 outcome)
    show ?case
    proof (cases "keeps I (dispatch env p wl rpc mode ch outcome)")
      case True
      then have "keeps I (then_do (dispatch env p wl rpc mode ch outcome) (\<lambda>_. ret (stage_name outcome)))"
        by (intro keep_rules)
      then show ?thesis unfolding keeps_def by (rule acts_pre) simp
    next
      case False
      then show ?thesis by (simp add: acts_def)
    qed
  qed
  show ?thesis unfolding fire_plan_def by (intro keep_rules keeps_steps[OF t] tail)
qed

lemma keeps_pass_body:
  assumes t: "on_trace I" and d: "dispatch_keeps env p I"
  shows "keeps I (pass_body env p)"
proof -
  note k = keep_rules status_rules[OF on_trace_status[OF t]] keeps_steps[OF t]
  have rest: "keeps I (pass_rest env p pr wl urls rpc)" for pr wl urls rpc
    unfolding pass_rest_def Let_def
  proof (intro k, goal_cases)
    case (1 near u)
    show ?case by (cases pr; cases wl) (auto intro!: k keeps_fire_plan[OF t d] split: option.splits)
  qed
  show ?thesis unfolding pass_body_def Let_def by (intro k rest)
qed

lemma keeps_pass:
  assumes t: "on_trace I" and d: "\<And>p. dispatch_keeps env p I"
  shows "keeps I (run_mint_execution_pass env)"
  unfolding run_mint_execution_pass_def
  by (intro keep_rules status_rules[OF on_trace_status[OF t]] keeps_db_call_trace[OF t] keeps_pass_body[OF t d])

lemma pipeline_step_outcome:
  assumes "pipeline_step env p wl rpc near ch tx w = (Inr outcome, w')"
  shows "\<exists>c i deps. big_int (mp_ceiling p) = Inr c \<and> in_plan_ceiling i = c \<and> in_spent i = 0
    \<and> dp_live deps = cf_live (pe_cfg env) \<and> run_execution_pipeline i deps = Inr outcome"
proof -
  have "\<exists>c i deps. big_int (mp_ceiling p) = Inr c \<and> in_plan_ceiling i = c \<and> in_spent i = 0
    \<and> dp_live deps = cf_live (pe_cfg env) \<and> run_execution_pipeline i deps = Inr outcome"
    if e: "then_do (lift_sum (of_js (big_int (mp_ceiling p)))) (\<lambda>c. then_do clock (\<lambda>now. lift_sum
        (run_execution_pipeline (g c now) (f now)))) w = (Inr outcome, w')"
      and g: "\<And>c now. in_plan_ceiling (g c now) = c \<and> in_spent (g c now) = 0"
      and f: "\<And>now. dp_live (f now) = cf_live (pe_cfg env)" for g f
  proof -
    obtain c where c: "big_int (mp_ceiling p) = Inr c"
      using e by (cases "of_js (big_int (mp_ceiling p))") (auto simp: then_do_def lift_sum_def)
    obtain now w1 where "clock w = (Inr now, w1)"
      by (cases "clock w"; cases "fst (clock w)") (auto simp: clock_def split: list.splits)
    then have "run_execution_pipeline (g c now) (f now) = Inr outcome"
      using e by (simp add: then_do_def lift_sum_def c)
    then show ?thesis using c f g by blast
  qed
  from this[OF assms[unfolded pipeline_step_def]] show ?thesis by simp
qed

section \<open>Shadow mode\<close>

lemma keeps_dispatch_other:
  assumes "on_trace I" and "\<nexists>s tx gas. outcome = ReadyDelegated s tx gas"
  shows "keeps I (dispatch env p wl rpc mode ch outcome)"
proof -
  note k = keep_rules status_rules[OF on_trace_status[OF assms(1)]] keeps_bookkeeping[OF assms(1)]
    keeps_trace_status[OF assms(1)]
  show ?thesis unfolding dispatch_def using assms(2) by (cases outcome) (auto intro!: k)
qed

text \<open>
C5 With live execution off, a whole pass (expiry, claim, and everything it does for the claimed plan,
whatever the chain, the provider and the database answer) hands nothing to a key and puts nothing on the wire.
\<close>

theorem shadow_pass_is_silent:
  assumes "run_mint_execution_pass env w = (r, w')" and "\<not> cf_live (pe_cfg env)"
  shows "w_signed w' = w_signed w \<and> w_sent w' = w_sent w"
proof -
  let ?I = "\<lambda>x. w_signed x = w_signed w \<and> w_sent x = w_sent w"
  have t: "on_trace ?I" by (simp add: on_trace_def trace_def)
  have "dispatch_keeps env p ?I" for p
    unfolding dispatch_keeps_def
  proof (intro allI impI)
    fix wl rpc near ch tx mode w0 outcome w1
    assume "pipeline_step env p wl rpc near ch tx w0 = (Inr outcome, w1)"
    then obtain i deps where "dp_live deps = cf_live (pe_cfg env)" "run_execution_pipeline i deps = Inr outcome"
      using pipeline_step_outcome by blast
    then have "\<nexists>s tx gas. outcome = ReadyDelegated s tx gas"
      using assms(2) shadow_never_ready[of deps i] by auto
    then show "keeps ?I (dispatch env p wl rpc mode ch outcome)" by (rule keeps_dispatch_other[OF t])
  qed
  from keepsD[OF keeps_pass[OF t this] _ assms(1)] show ?thesis by simp
qed

section \<open>The ceiling\<close>

definition signs_within :: "key_use list \<Rightarrow> int \<Rightarrow> world \<Rightarrow> bool" where
  "signs_within old c w \<longleftrightarrow> (\<exists>fresh. w_signed w = old @ fresh \<and> (\<forall>u \<in> set fresh. ku_value u \<le> c))"

lemma signs_within_on_trace: "on_trace (signs_within old c)"
  by (simp add: on_trace_def signs_within_def trace_def)

lemma signs_within_race:
  "keeps (signs_within old c) (race_broadcast send pick us raw)" "keeps (signs_within old c) (one_broadcast send u raw)"
  by (auto intro!: keepsI simp: signs_within_def race_broadcast_def one_broadcast_def Let_def split: sum.splits)

lemma signs_within_use_key:
  assumes "ku_value t \<le> c"
  shows "keeps (signs_within old c) (use_key t r)"
proof (rule keepsI)
  fix w assume "signs_within old c w"
  then obtain fresh where "w_signed w = old @ fresh" "\<forall>u \<in> set fresh. ku_value u \<le> c"
    by (auto simp: signs_within_def)
  then show "signs_within old c (snd (use_key t r w))" using assms
    by (auto simp: signs_within_def use_key_def intro!: exI[of _ "fresh @ [t]"])
qed

lemma fire_ok_positive: "can_fire_mint_plan c now = FireOk \<Longrightarrow> 0 < fc_plan_ceiling c"
  by (auto simp: can_fire_mint_plan_def split: if_splits option.splits)

text \<open>
C9 Every transaction the pass of a claimed plan hands to a key carries at most the plan's own ceiling,
on the managed and on the delegated path, for whatever calldata the provider returned.
\<close>

theorem pass_signs_within_ceiling:
  assumes "pass_body env p w = (r, w')" and "big_int (mp_ceiling p) = Inr c"
  shows "\<exists>fresh. w_signed w' = w_signed w @ fresh \<and> (\<forall>u \<in> set fresh. ku_value u \<le> c)"
proof -
  let ?I = "signs_within (w_signed w) c"
  note t = signs_within_on_trace[of "w_signed w" c]
  have "dispatch_keeps env p ?I"
    unfolding dispatch_keeps_def
  proof (intro allI impI)
    fix wl rpc near ch tx mode w0 outcome w1
    assume "pipeline_step env p wl rpc near ch tx w0 = (Inr outcome, w1)"
    then obtain i deps where i: "in_plan_ceiling i = c" "in_spent i = 0"
      and run: "run_execution_pipeline i deps = Inr outcome"
      using pipeline_step_outcome assms(2) by fastforce
    show "keeps ?I (dispatch env p wl rpc mode ch outcome)"
    proof (cases "\<exists>s tx gas. outcome = ReadyDelegated s tx gas")
      case False
      then show ?thesis by (intro keeps_dispatch_other[OF t])
    next
      case True
      then obtain s tx' gas where o': "outcome = ReadyDelegated s tx' gas" by blast
      obtain v where v: "big_int (tx_value tx') = Inr v" "v \<le> c"
        using delegated_within_ceiling[OF run[unfolded o']] i by auto
      have "0 < c"
        using delegated_gates(5)[OF run[unfolded o']] i(1)
        by (auto simp: policy_of_def dest!: fire_ok_positive)
      then show ?thesis unfolding dispatch_def o' using v
        by (auto intro!: keeps_run_managed[OF t signs_within_race(1)] keeps_run_delegated[OF t signs_within_race(2)]
            signs_within_use_key simp: raw_of_def)
    qed
  qed
  from keepsD[OF keeps_pass_body[OF t this] _ assms(1)]
  show ?thesis by (simp add: signs_within_def)
qed

section \<open>The idempotency gate\<close>

text \<open>A recent broadcast of the plan is on record, and the clock has not left its grace period.\<close>

definition recent_broadcast :: "string \<Rightarrow> string \<Rightarrow> int \<Rightarrow> int \<Rightarrow> world \<Rightarrow> bool" where
  "recent_broadcast i h t grace w \<longleftrightarrow> latest_broadcast_attempt (m_db w) i = Some (h, t)
     \<and> m_clock w \<noteq> [] \<and> (\<forall>c \<in> set (m_clock w). c < t + grace)"

definition silent_recent :: "string \<Rightarrow> string \<Rightarrow> int \<Rightarrow> int \<Rightarrow> key_use list \<Rightarrow> string list \<Rightarrow> world \<Rightarrow> bool" where
  "silent_recent i h t grace sg sn w \<longleftrightarrow> recent_broadcast i h t grace w \<and> w_signed w = sg \<and> w_sent w = sn"

lemma keeps_recent_read: "keeps (silent_recent i h t g sg sn) (db_read f)"
  unfolding db_read_def
proof (rule keepsI)
  fix w assume "silent_recent i h t g sg sn w"
  then show "silent_recent i h t g sg sn (snd (db_call (\<lambda>d. (f d, d)) w))"
    by (cases rule: db_call_cases[of "\<lambda>d. (f d, d)" w]) (simp_all add: silent_recent_def recent_broadcast_def)
qed

lemma keeps_recent_clock: "keeps (silent_recent i h t g sg sn) clock"
  by (rule keepsI) (auto simp: clock_def silent_recent_def recent_broadcast_def split: list.splits)

lemma clock_recent: "silent_recent i h t g sg sn w \<Longrightarrow> clock w = (r, w') \<Longrightarrow> \<exists>c. r = Inr c \<and> c < t + g"
  by (auto simp: clock_def silent_recent_def recent_broadcast_def split: list.splits)

lemma keeps_recent_near: "keeps (silent_recent i h t g sg sn) (is_near_fire_instant p window)"
  unfolding is_near_fire_instant_def fire_target_ms_def
  by (intro keep_rules keeps_recent_read keeps_recent_clock)

definition silent :: "key_use list \<Rightarrow> string list \<Rightarrow> world \<Rightarrow> bool" where
  "silent sg sn w \<longleftrightarrow> w_signed w = sg \<and> w_sent w = sn"

lemma silent_on_trace: "on_trace (silent sg sn)"
  by (simp add: on_trace_def silent_def trace_def)

lemma acts_gate_stops:
  assumes nr: "\<And>u. reading_outcome (pe_receipt_prior env u h) \<noteq> Reverted"
  shows "acts (silent_recent (mp_id p) h t prior_broadcast_grace_ms sg sn) (idempotency_gate env urls p)
     (\<lambda>r w. silent sg sn w \<and> r \<noteq> Inr (Inr ()))"
  unfolding idempotency_gate_def
proof (rule acts_then[where R = "\<lambda>prior w. silent_recent (mp_id p) h t prior_broadcast_grace_ms sg sn w \<and> prior = Some (h, t)"], goal_cases)
  case 1
  show ?case
  proof (rule actsI)
    fix w r w'
    assume w: "silent_recent (mp_id p) h t prior_broadcast_grace_ms sg sn w"
      and e: "db_read (\<lambda>d. latest_broadcast_attempt d (mp_id p)) w = (r, w')"
    have "silent_recent (mp_id p) h t prior_broadcast_grace_ms sg sn w'" by (rule keepsD[OF keeps_recent_read w e])
    moreover have "r = Inr x \<Longrightarrow> x = Some (h, t)" for x
      using e w unfolding db_read_def
      by (cases rule: db_call_cases[of "\<lambda>d. (latest_broadcast_attempt d (mp_id p), d)" w])
         (auto simp: silent_recent_def recent_broadcast_def)
    ultimately show "case r of Inl e \<Rightarrow> silent sg sn w' \<and> Inl e \<noteq> Inr (Inr ())
        | Inr x \<Rightarrow> silent_recent (mp_id p) h t prior_broadcast_grace_ms sg sn w' \<and> x = Some (h, t)"
      by (auto simp: silent_def silent_recent_def split: sum.splits)
  qed
next
  case (2 prior)
  let ?P = "silent_recent (mp_id p) h t prior_broadcast_grace_ms sg sn"
  have fin: "acts ?P (then_do m (\<lambda>_. ret (Inl o'))) (\<lambda>r w. silent sg sn w \<and> r \<noteq> Inr (Inr ()))"
    if "keeps (silent sg sn) m" for m :: "unit act" and o' :: string
  proof (rule acts_pre[where P' = "silent sg sn"])
    show "acts (silent sg sn) (then_do m (\<lambda>_. ret (Inl o'))) (\<lambda>r w. silent sg sn w \<and> r \<noteq> Inr (Inr ()))"
      by (rule acts_then_keep[OF that]) (auto intro: acts_ret)
  qed (simp add: silent_recent_def silent_def)
  note k = keeps_trace_status[OF silent_on_trace]
  have late: "acts ?P (then_do clock (\<lambda>now. if now - t < prior_broadcast_grace_ms
        then then_do (release_plan (mp_id p)) (\<lambda>_. ret (Inl o')) else ret (Inr ())))
      (\<lambda>r w. silent sg sn w \<and> r \<noteq> Inr (Inr ()))" for o' :: string
  proof (rule acts_then[where R = "\<lambda>now w. ?P w \<and> now - t < prior_broadcast_grace_ms"], goal_cases)
    case 1
    show ?case
    proof (rule actsI)
      fix w r w' assume w: "?P w" and e: "clock w = (r, w')"
      obtain c where "r = Inr c" "c < t + prior_broadcast_grace_ms" using clock_recent[OF w e] by blast
      then show "case r of Inl e \<Rightarrow> silent sg sn w' \<and> Inl e \<noteq> Inr (Inr ())
          | Inr x \<Rightarrow> ?P w' \<and> x - t < prior_broadcast_grace_ms"
        using keepsD[OF keeps_recent_clock w e] by simp
    qed
  next
    case (2 now)
    show ?case
    proof (cases "now - t < prior_broadcast_grace_ms")
      case True
      then show ?thesis using acts_pre[OF fin[OF k(1)], of "\<lambda>w. ?P w \<and> now - t < prior_broadcast_grace_ms"] by simp
    qed (simp add: acts_def)
  qed
  show ?case
  proof (cases "prior = Some (h, t)")
    case True
    have "resolve_tx_outcome (pe_receipt_prior env) urls h \<noteq> Reverted"
      using resolve_from_endpoint[of "pe_receipt_prior env" urls h Reverted] nr by auto
    then show ?thesis
      by (cases "resolve_tx_outcome (pe_receipt_prior env) urls h")
         (use fin[OF k(2)] late in \<open>auto simp: True\<close>)
  qed (simp add: acts_def)
qed

text \<open>
C7 While a broadcast of the plan is on record, no endpoint reports that it reverted, and it is less than
three seconds old, a new pass over the plan signs nothing and sends nothing, even when database calls
fail on the way: a re-claimed plan cannot mint twice inside the grace period.
\<close>

theorem gate_blocks_second_send:
  assumes "pass_body env p w = (r, w')"
    and "latest_broadcast_attempt (m_db w) (mp_id p) = Some (h, t)"
    and "\<And>u. reading_outcome (pe_receipt_prior env u h) \<noteq> Reverted"
    and "m_clock w \<noteq> []" and "\<forall>c \<in> set (m_clock w). c < t + 3000"
  shows "w_signed w' = w_signed w \<and> w_sent w' = w_sent w"
proof -
  let ?P = "silent_recent (mp_id p) h t prior_broadcast_grace_ms (w_signed w) (w_sent w)"
  let ?S = "silent (w_signed w) (w_sent w)"
  have ps: "?P x \<Longrightarrow> ?S x" for x by (simp add: silent_recent_def silent_def)
  have rest: "acts ?P (pass_rest env p pr wl urls rpc) (\<lambda>r. ?S)" for pr wl urls rpc
    unfolding pass_rest_def Let_def gate_def
  proof (rule acts_then_keep[OF keeps_recent_near], goal_cases)
    case (1 near)
    show ?case
      by (rule acts_then[where R = "\<lambda>x w. ?S w \<and> x \<noteq> Inr ()"], rule acts_post[OF acts_gate_stops[OF assms(3)]])
         (auto intro!: acts_sum acts_ret simp: acts_def ret_def split: sum.splits)
  qed (rule ps)
  have catch: "keeps ?S (pass_catch env p urls target e)" for urls target e
    by (rule keeps_steps(9)[OF silent_on_trace])
  have tc: "acts ?P (try_catch m hd') (\<lambda>r. ?S)"
    if "acts ?P m (\<lambda>r. ?S)" "\<And>e. keeps ?S (hd' e)" for m :: "string act" and hd'
    by (rule acts_try[where R = "\<lambda>_. ?S"], rule acts_post[OF that(1)])
       (auto intro: acts_keeps[OF that(2)] split: sum.splits)
  have body: "acts ?P (pass_body env p) (\<lambda>r. ?S)"
    unfolding pass_body_def Let_def
    by (intro acts_then_keep[OF keeps_attempt[OF keeps_recent_read]] acts_sum acts_if tc rest
          acts_from_keeps[OF catch] catch
          acts_then_keep[OF keeps_attempt[OF keeps_then[OF keeps_recent_read keeps_then[OF keeps_recent_read keeps_ret]]]]
          acts_from_keeps[OF keeps_then[OF keeps_record_failed[OF on_trace_status[OF silent_on_trace]] keeps_ret]] ps)
  have "?P w" using assms(2,4,5) by (simp add: silent_recent_def recent_broadcast_def prior_broadcast_grace_ms_def)
  from actsD[OF body this assms(1)] show ?thesis by (simp add: silent_def)
qed

section \<open>Concrete passes\<close>

definition demo_pass_env :: "bool \<Rightarrow> pass_env" where
  "demo_pass_env live =
     \<lparr>pe_fire = (demo_env (\<lambda>_ _. Inr ''0xh'') Mined (Inr None))\<lparr>cfg := demo_config\<lparr>cf_live := live, cf_rpc_url := Some ''u''\<rparr>\<rparr>,
      pe_locked = [], pe_receipt_prior = (\<lambda>_ _. Inr None), pe_simulate = (\<lambda>_. Inr (SimOk 100000)),
      pe_reads = demo_reads demo_stats, pe_stats_early = (\<lambda>_ _ _. Inr demo_stats),
      pe_stats_late = (\<lambda>_ _ _. Inr demo_stats), pe_encode_mint = (\<lambda>_ _ _ _. ''0xdata''), pe_clock_offset = None,
      pe_caps = (\<lambda>_. []), pe_build = (\<lambda>_ _ _. Inr (''0xsea'', ''0xdata'', ''5'')),
      pe_burst = (\<lambda>_ _ _. Inr (''0xsea'', ''0xdata'', ''5''))\<rparr>"

definition demo_project :: project where
  "demo_project = \<lparr>pr_id = ''p'', pr_name = ''Demo'', pr_slug = Some ''demo'', pr_contract = None, pr_chain = 4663\<rparr>"

definition demo_pass_world :: "mint_plan_status \<Rightarrow> attempt list \<Rightarrow> world" where
  "demo_pass_world s atts = demo_world\<lparr>m_db := (demo_db [demo_plan ''a'' s 5 50])
     \<lparr>wallets := [demo_wallet], projects := [demo_project], attempts := atts\<rparr>\<rparr>"

lemma big_int_1000: "big_int ''1000'' = Inr 1000"
  by code_simp

lemmas pass_defs = run_mint_execution_pass_def pass_body_def pass_rest_def fire_plan_def dispatch_def pipeline_step_def
  calldata_step_def precheck_step_def self_served_step_def resolve_signer_def idempotency_gate_def gate_def
  is_near_fire_instant_def fire_target_ms_def stats_target_def no_self_served_def

lemmas pass_eval = resolve_broadcast_rpc_urls_def push_new_def rank_rpc_endpoints_def mint_rpc_urls_def push_url_def
  trim_def is_space_def code_of_def wallet_of_def run_execution_pipeline_def policy_of_def sim_call_of_def
  can_fire_mint_plan_def time_le_def assert_signable_def raw_of_def latest_broadcast_attempt_def sort_desc_def
  fire_burst_window_ms_def expire_stale_mint_plans_def claim_armed_mint_plan_def claim_due_def sql_le_def
  fire_target_def known_target_def coalesce_def claim_fire_tolerance_ms_def returned_def first_row_def
  claim_columns_def purge_presigned_def big_int_1000

lemma shadow_pass_is_silent_witness:
  "\<exists>s w'. run_mint_execution_pass (demo_pass_env False) (demo_pass_world Armed []) = (Inr s, w')
     \<and> sm_outcome s = Some ''shadow_would_fire'' \<and> w_signed w' = [] \<and> w_sent w' = []"
proof -
  have "\<exists>s w'. run_mint_execution_pass (demo_pass_env False) (demo_pass_world Armed []) = (Inr s, w')
     \<and> sm_outcome s = Some ''shadow_would_fire''"
    by (simp add: pass_defs pass_eval fire_defs prim_defs table_defs sign_eval demo_fire_defs demo_pass_env_def
        demo_pass_world_def demo_project_def Let_def)
  then obtain s w' where r: "run_mint_execution_pass (demo_pass_env False) (demo_pass_world Armed []) = (Inr s, w')"
      "sm_outcome s = Some ''shadow_would_fire''" by blast
  have "\<not> cf_live (pe_cfg (demo_pass_env False))" by (simp add: demo_pass_env_def demo_env_def)
  from shadow_pass_is_silent[OF r(1) this] r show ?thesis by (simp add: demo_pass_world_def demo_world_def)
qed

lemma pass_signs_within_ceiling_witness:
  "\<exists>r w' u. pass_body (demo_pass_env True) (demo_plan ''a'' Executing 5 50) (demo_pass_world Executing []) = (r, w')
     \<and> w_signed w' = [u] \<and> ku_value u \<le> 1000"
proof -
  have "\<exists>r w' u. pass_body (demo_pass_env True) (demo_plan ''a'' Executing 5 50) (demo_pass_world Executing []) = (r, w')
     \<and> w_signed w' = [u]"
    by (simp add: pass_defs pass_eval fire_defs prim_defs table_defs sign_eval demo_fire_defs demo_pass_env_def
        demo_pass_world_def demo_project_def Let_def)
  then obtain r w' u where e: "pass_body (demo_pass_env True) (demo_plan ''a'' Executing 5 50) (demo_pass_world Executing []) = (r, w')"
      "w_signed w' = [u]" by blast
  have "big_int (mp_ceiling (demo_plan ''a'' Executing 5 50)) = Inr 1000" by (simp add: demo_plan_def big_int_1000)
  from pass_signs_within_ceiling[OF e(1) this] e show ?thesis
    by (auto simp: demo_pass_world_def demo_world_def)
qed

lemma gate_blocks_second_send_witness:
  "\<exists>r w'. pass_body (demo_pass_env True) (demo_plan ''a'' Executing 5 50)
      (demo_pass_world Executing [demo_attempt ''x'' ''0xh'' 9]) = (r, w') \<and> w_sent w' = []"
proof -
  obtain r w' where e: "pass_body (demo_pass_env True) (demo_plan ''a'' Executing 5 50)
      (demo_pass_world Executing [demo_attempt ''x'' ''0xh'' 9]) = (r, w')" by fastforce
  have "w_sent w' = w_sent (demo_pass_world Executing [demo_attempt ''x'' ''0xh'' 9])"
    by (rule gate_blocks_second_send[OF e, of "''0xh''" 9, THEN conjunct2])
       (simp_all add: demo_pass_world_def demo_world_def latest_broadcast_attempt_def demo_attempt_def sort_desc_def
          demo_plan_def demo_pass_env_def reading_outcome_def)
  then show ?thesis using e by (auto simp: demo_pass_world_def demo_world_def)
qed

end
