(* ===== verification/PresignPass.thy ===== *)
theory PresignPass
  imports FirePass
begin

text \<open>
  The two other loops of apps/worker/src/workers/execution.ts: \<open>runPresignPass\<close>, which keeps the plans
  of managed wallets signed ahead of their fire instant, and \<open>runMintHotLoop\<close>, the 200 ms tick that
  starts pre-sign and execution passes without waiting for them. What the chain and OpenSea answer to a
  candidate is a function of its plan id; the back-off map \<open>underfundedRecheckAt\<close> is \<open>w_recheck\<close>.
\<close>

section \<open>Environment and the back-off map\<close>

record erc20_reading =
  er_balance :: int
  er_allowance :: "int option"
  er_symbol :: "string option"
  er_decimals :: "nat option"

record presign_env =
  pv_fire :: fire_env
  pv_offset :: "int option"
  pv_enabled :: bool
  pv_lead :: int
  pv_ttl :: int
  pv_continue :: int
  pv_hot_window :: int
  pv_fees :: "string \<Rightarrow> string \<Rightarrow> string \<Rightarrow> thrown + fee_context"
  pv_build :: "string \<Rightarrow> string \<Rightarrow> string \<Rightarrow> int \<Rightarrow> thrown + string \<times> string \<times> string"
  pv_balance :: "string \<Rightarrow> string \<Rightarrow> string \<Rightarrow> thrown + int"
  pv_erc20 :: "string \<Rightarrow> string \<Rightarrow> string \<Rightarrow> string \<Rightarrow> string \<Rightarrow> thrown + erc20_reading"

abbreviation pv_cfg :: "presign_env \<Rightarrow> worker_config" where
  "pv_cfg env \<equiv> cfg (pv_fire env)"

definition underfunded_recheck_ms :: int where "underfunded_recheck_ms = 15000"

definition recheck_until :: "string \<Rightarrow> int act" where
  "recheck_until plan w = (Inr (case w_recheck w plan of None \<Rightarrow> 0 | Some t \<Rightarrow> t), w)"

definition set_recheck :: "string \<Rightarrow> int \<Rightarrow> unit act" where
  "set_recheck plan t w = (Inr (), w\<lparr>w_recheck := (w_recheck w)(plan \<mapsto> t)\<rparr>)"

definition clear_recheck :: "string \<Rightarrow> unit act" where
  "clear_recheck plan w = (Inr (), w\<lparr>w_recheck := (w_recheck w)(plan := None)\<rparr>)"

section \<open>Reads and writes of a candidate\<close>

definition record_wallet_balance :: "string \<Rightarrow> int \<Rightarrow> unit act" where
  "record_wallet_balance wallet balance =
     then_do clock (\<lambda>_. db_write (\<lambda>d. d\<lparr>wallets := update_where (\<lambda>w. wl_id w = wallet)
       (\<lambda>w. w\<lparr>wl_balance := Some (show_int balance)\<rparr>) (wallets d)\<rparr>))"

definition get_wallet_signing_key_sealed :: "string \<Rightarrow> db \<Rightarrow> string option" where
  "get_wallet_signing_key_sealed wallet d =
     Option.bind (List.find (\<lambda>w. wl_id w = wallet) (wallets d)) wl_key"

definition claimless_plan_project :: "string \<Rightarrow> db \<Rightarrow> string option" where
  "claimless_plan_project plan d = map_option mp_project (get_mint_plan plan d)"

definition erc20_funding_of ::
  "presign_env \<Rightarrow> string \<Rightarrow> presign_candidate \<Rightarrow> string \<Rightarrow> thrown + erc20_funding option" where
  "erc20_funding_of env rpc c spender =
     (case (pc_currency c, pc_price c) of
        (Some currency, Some price) \<Rightarrow>
          if \<not> is_native_currency (pc_currency c) \<and> is_decimal price then
            (case pv_erc20 env (pc_plan c) rpc currency (pc_address c) spender of
               Inl _ \<Rightarrow> Inr None
             | Inr r \<Rightarrow>
                 rmap (\<lambda>unit_price. Some \<lparr>e20_balance = er_balance r, e20_required = unit_price * max 1 (pc_quantity c),
                                        e20_allowance = er_allowance r, e20_symbol = er_symbol r,
                                        e20_decimals = er_decimals r\<rparr>)
                   (of_js (big_int price)))
          else Inr None
      | _ \<Rightarrow> Inr None)"

definition assess_presign_funding ::
  "presign_env \<Rightarrow> string \<Rightarrow> presign_candidate \<Rightarrow> raw_tx \<Rightarrow> string \<Rightarrow> funding_verdict act" where
  "assess_presign_funding env rpc c tx max_fee =
     then_do (lift_sum (pv_balance env (pc_plan c) rpc (pc_address c))) (\<lambda>native.
     then_do (attempt (record_wallet_balance (pc_wallet c) native)) (\<lambda>_.
     then_do (lift_sum (erc20_funding_of env rpc c (tx_to tx))) (\<lambda>e20.
     then_do (lift_sum (of_js (big_int (tx_value tx)))) (\<lambda>v.
     then_do (lift_sum (of_js (big_int max_fee))) (\<lambda>fee.
     ret (assess_mint_funding \<lparr>fi_native = native, fi_value = v, fi_gas_limit = cf_presign_gas (pv_cfg env),
                               fi_max_fee = fee, fi_erc20 = e20\<rparr>))))))"

text \<open>Calldata: the cached one while it is fresh, else a new build; \<open>None\<close>: there is nothing to build from.\<close>

definition cached_calldata :: "presign_candidate \<Rightarrow> raw_tx option act" where
  "cached_calldata c =
     (case (pc_cached_tx c, pc_cached_at c) of
        (Some tx, Some t) \<Rightarrow> then_do clock (\<lambda>now. ret (if now - t < cache_ttl_ms then Some tx else None))
      | _ \<Rightarrow> ret None)"

definition presign_calldata :: "presign_env \<Rightarrow> presign_candidate \<Rightarrow> raw_tx option \<Rightarrow> raw_tx option act" where
  "presign_calldata env c cached =
     (case cached of
        Some tx \<Rightarrow> ret (Some tx)
      | None \<Rightarrow>
          then_do (db_read (claimless_plan_project (pc_plan c))) (\<lambda>project_id.
          then_do (db_read (\<lambda>d. List.find (\<lambda>r. pr_id r = (case project_id of None \<Rightarrow> [] | Some i \<Rightarrow> i)) (projects d)))
            (\<lambda>project.
          case project of
            None \<Rightarrow> ret None
          | Some pr \<Rightarrow>
              (case pr_slug pr of
                 None \<Rightarrow> ret None
               | Some slug \<Rightarrow>
                   then_do (lift_sum (pv_build env (pc_plan c) slug (pc_address c) (pc_quantity c))) (\<lambda>(t, dt, v).
                   ret (Some \<lparr>tx_to = t, tx_data = dt, tx_value = v, tx_chain = pr_chain pr\<rparr>))))))"

section \<open>The pre-sign pass\<close>

definition presign_input_of :: "presign_env \<Rightarrow> int \<Rightarrow> int \<Rightarrow> presign_candidate \<Rightarrow> int option \<Rightarrow> presign_input" where
  "presign_input_of env now offset c current =
     \<lparr>ps_stage_start = pc_start c, ps_offset = offset, ps_now = now, ps_lead = pv_lead env, ps_ttl = pv_ttl env,
      ps_signed_at = pc_presigned_at c, ps_nonce = pc_nonce c, ps_current_nonce = current,
      ps_continue = pv_continue env\<rparr>"

text \<open>Reserve a nonce, sign, save the blob.\<close>

definition presign_sign :: "presign_env \<Rightarrow> presign_candidate \<Rightarrow> fee_context \<Rightarrow> raw_tx \<Rightarrow> int \<Rightarrow> string \<Rightarrow> unit act" where
  "presign_sign env c fees tx v sealed =
     then_do (lift_sum (x_open_key (pv_fire env) sealed)) (\<lambda>key.
     then_do (take_nonce (pc_address c) (fee_nonce fees)) (\<lambda>n.
     then_do (use_key \<lparr>ku_to = tx_to tx, ku_data = tx_data tx, ku_value = v, ku_nonce = n\<rparr>
        (sign_managed_mint_transaction (x_lib (pv_fire env))
           \<lparr>sq_chain = tx_chain tx, sq_to = tx_to tx, sq_data = tx_data tx, sq_value = tx_value tx, sq_nonce = n,
            sq_max_fee = fee_max fees, sq_priority_fee = fee_priority fees, sq_gas = cf_presign_gas (pv_cfg env)\<rparr> key))
       (\<lambda>signed.
     then_do clock (\<lambda>t. db_write (save_presigned_tx (pc_plan c) (fst signed) n (snd signed) t)))))"

definition presign_funded ::
  "presign_env \<Rightarrow> string \<Rightarrow> int \<Rightarrow> presign_candidate \<Rightarrow> fee_context \<Rightarrow> raw_tx \<Rightarrow> int \<Rightarrow> unit act" where
  "presign_funded env rpc now c fees tx v =
     then_do (assess_presign_funding env rpc c tx (fee_max fees)) (\<lambda>funding.
     case funding of
       FundingShort reason required missing message \<Rightarrow>
         then_do (set_recheck (pc_plan c) (now + underfunded_recheck_ms)) (\<lambda>_.
         record_failed (pc_plan c) (take 200 message))
     | FundingOk reserve required \<Rightarrow>
         then_do (clear_recheck (pc_plan c)) (\<lambda>_.
         then_do (db_read (get_wallet_signing_key_sealed (pc_wallet c))) (\<lambda>sealed.
         case sealed of None \<Rightarrow> ret () | Some s \<Rightarrow> presign_sign env c fees tx v s)))"

definition presign_try ::
  "presign_env \<Rightarrow> string \<Rightarrow> int \<Rightarrow> int \<Rightarrow> presign_candidate \<Rightarrow> raw_tx option \<Rightarrow> unit act" where
  "presign_try env rpc now offset c cached =
     then_do (lift_sum (pv_fees env (pc_plan c) rpc (pc_address c))) (\<lambda>fees.
     case decide_presign (presign_input_of env now offset c (Some (fee_nonce fees))) of
       Sign reason \<Rightarrow>
         then_do (presign_calldata env c cached) (\<lambda>tx.
         case tx of
           None \<Rightarrow> ret ()
         | Some t \<Rightarrow>
             then_do (lift_sum (of_js (big_int (tx_value t)))) (\<lambda>v.
             then_do (lift_sum (of_js (big_int (pc_ceiling c)))) (\<lambda>ceiling.
             if v > ceiling then ret () else presign_funded env rpc now c fees t v)))
     | _ \<Rightarrow> ret ())"

definition presign_one :: "presign_env \<Rightarrow> string \<Rightarrow> int \<Rightarrow> int \<Rightarrow> presign_candidate \<Rightarrow> unit act" where
  "presign_one env rpc now offset c =
     (case decide_presign (presign_input_of env now offset c None) of
        Wait _ \<Rightarrow> ret ()
      | PresignExpired \<Rightarrow> ret ()
      | _ \<Rightarrow>
          then_do (recheck_until (pc_plan c)) (\<lambda>until.
          if until > now then ret ()
          else then_do (cached_calldata c) (\<lambda>cached.
               try_catch (presign_try env rpc now offset c cached) (\<lambda>_. ret ()))))"

definition run_presign_pass :: "presign_env \<Rightarrow> int \<Rightarrow> int \<Rightarrow> unit act" where
  "run_presign_pass env now offset =
     (if \<not> cf_live (pv_cfg env) then ret ()
      else then_do (db_read (\<lambda>d. armed_managed_plans_for_presign d now)) (\<lambda>candidates.
        if candidates = [] then ret ()
        else then_do (db_read (\<lambda>_. resolve_best_rpc_url (x_rpc_table (pv_fire env)) (cf_chain (pv_cfg env))
                                    (cf_rpc_url (pv_cfg env)))) (\<lambda>url.
          case url of
            None \<Rightarrow> ret ()
          | Some rpc \<Rightarrow> if rpc = [] then ret () else for_each (presign_one env rpc now offset) candidates)))"

section \<open>The hot loop\<close>

record hot_summary =
  hs_candidates :: nat
  hs_fired :: bool

definition is_due :: "presign_env \<Rightarrow> int \<Rightarrow> int \<Rightarrow> string \<times> int \<Rightarrow> bool" where
  "is_due env offset now row =
     (case compute_fire_phase \<lparr>fi_stage_start = snd row, fi_offset = offset, fi_now = now,
             fi_hot_window = pv_hot_window env, fi_lead = cf_lead (pv_cfg env), fi_continue = pv_continue env\<rparr> of
        Fire _ \<Rightarrow> True | _ \<Rightarrow> False)"

text \<open>
  The tick with \<open>inFlightPasses\<close>: its summary, how many execution passes it starts, and the arguments of
  the pre-sign pass it starts, if any. The passes run on their own.
\<close>

definition run_mint_hot_loop :: "presign_env \<Rightarrow> int \<Rightarrow> (hot_summary \<times> nat \<times> (int \<times> int) option) act" where
  "run_mint_hot_loop env in_flight_passes =
     then_do clock (\<lambda>now.
     then_do (db_read (\<lambda>d. armed_plans_with_stage_start d now)) (\<lambda>candidates.
     if candidates = [] then ret (\<lparr>hs_candidates = 0, hs_fired = False\<rparr>, 0, None)
     else then_do (db_read (\<lambda>_. case pv_offset env of None \<Rightarrow> 0 | Some o' \<Rightarrow> o')) (\<lambda>offset.
       let presign = (if pv_enabled env then Some (now, offset) else None);
           due = length (filter (is_due env offset now) candidates)
       in if due = 0 then ret (\<lparr>hs_candidates = length candidates, hs_fired = False\<rparr>, 0, presign)
          else let slots = min (int due) (max_parallel_fires - in_flight_passes)
               in ret (\<lparr>hs_candidates = length candidates, hs_fired = slots > 0\<rparr>, nat slots, presign))))"


section \<open>What a pre-sign pass may sign\<close>

text \<open>
  A signature the pass may make: for a candidate inside its pre-sign window, of a value within its
  ceiling that the balance just read covers together with the gas reserve.
\<close>

definition presign_ok :: "presign_env \<Rightarrow> int \<Rightarrow> int \<Rightarrow> presign_candidate \<Rightarrow> key_use \<Rightarrow> bool" where
  "presign_ok env now offset c u \<longleftrightarrow>
     chain_time_to_local_ms (pc_start c) offset - pv_lead env \<le> now
     \<and> now \<le> chain_time_to_local_ms (pc_start c) offset + pv_continue env
     \<and> (\<exists>ceiling. big_int (pc_ceiling c) = Inr ceiling \<and> ku_value u \<le> ceiling)
     \<and> (\<exists>rpc native fees max_fee.
          pv_balance env (pc_plan c) rpc (pc_address c) = Inr native
          \<and> pv_fees env (pc_plan c) rpc (pc_address c) = Inr fees \<and> big_int (fee_max fees) = Inr max_fee
          \<and> ku_value u + cf_presign_gas (pv_cfg env) * max_fee \<le> native)"

definition presign_trace ::
  "presign_env \<Rightarrow> int \<Rightarrow> int \<Rightarrow> presign_candidate list \<Rightarrow> key_use list \<Rightarrow> string list \<Rightarrow> world \<Rightarrow> bool" where
  "presign_trace env now offset cs ks ss w \<longleftrightarrow>
     w_sent w = ss \<and> (\<exists>us. w_signed w = ks @ us \<and> (\<forall>u \<in> set us. \<exists>c \<in> set cs. presign_ok env now offset c u))"

lemma presign_on_trace: "on_trace (presign_trace env now offset cs ks ss)"
  by (simp add: on_trace_def trace_def presign_trace_def)

lemma presign_decision_window:
  "decide_presign (presign_input_of env now offset c n) = Sign reason \<Longrightarrow>
   chain_time_to_local_ms (pc_start c) offset - pv_lead env \<le> now
   \<and> now \<le> chain_time_to_local_ms (pc_start c) offset + pv_continue env"
  by (simp add: decide_presign_def presign_input_of_def Let_def split: if_splits)

lemma funding_ok_covers: "assess_mint_funding i = FundingOk a b \<Longrightarrow> fi_value i + fi_gas_limit i * fi_max_fee i \<le> fi_native i"
  by (simp add: assess_mint_funding_def Let_def split: if_splits option.splits)

lemma assess_presign_yields:
  assumes "big_int (tx_value tx) = Inr v"
  shows "yields (assess_presign_funding env rpc c tx fee)
     (\<lambda>f. \<forall>a b. f = FundingOk a b \<longrightarrow> (\<exists>native max_fee. pv_balance env (pc_plan c) rpc (pc_address c) = Inr native
        \<and> big_int fee = Inr max_fee \<and> v + cf_presign_gas (pv_cfg env) * max_fee \<le> native))"
  unfolding assess_presign_funding_def
  by (intro yields_then_lift yields_then yields_ret) (use assms in \<open>auto dest!: funding_ok_covers\<close>)

lemma keeps_recheck [keep_rules]:
  assumes "on_trace I"
  shows "keeps I (recheck_until p)" "keeps I (set_recheck p t)" "keeps I (clear_recheck p)"
  by (rule keepsI, simp add: recheck_until_def set_recheck_def clear_recheck_def,
      (erule on_traceD[OF assms], simp add: trace_def)?)+


lemma keeps_presign_sign:
  assumes "c \<in> set cs" and "\<And>n. presign_ok env now offset c \<lparr>ku_to = tx_to tx, ku_data = tx_data tx, ku_value = v, ku_nonce = n\<rparr>"
  shows "keeps (presign_trace env now offset cs ks ss) (presign_sign env c fees tx v sealed)"
proof -
  have use: "keeps (presign_trace env now offset cs ks ss)
      (use_key \<lparr>ku_to = tx_to tx, ku_data = tx_data tx, ku_value = v, ku_nonce = n\<rparr> r)" for n and r :: "thrown + string \<times> string"
  proof (rule keepsI)
    fix w assume "presign_trace env now offset cs ks ss w"
    then obtain us where "w_sent w = ss" "w_signed w = ks @ us" "\<forall>u \<in> set us. \<exists>c \<in> set cs. presign_ok env now offset c u"
      by (auto simp: presign_trace_def)
    then show "presign_trace env now offset cs ks ss (snd (use_key \<lparr>ku_to = tx_to tx, ku_data = tx_data tx,
        ku_value = v, ku_nonce = n\<rparr> r w))"
      unfolding presign_trace_def use_key_def
      by (intro conjI exI[of _ "us @ [\<lparr>ku_to = tx_to tx, ku_data = tx_data tx, ku_value = v, ku_nonce = n\<rparr>]"])
         (use assms in auto)
  qed
  show ?thesis unfolding presign_sign_def db_write_def
    by (intro keep_rules use status_rules[OF on_trace_status[OF presign_on_trace]] keeps_db_call_trace[OF presign_on_trace])
qed

lemma keeps_assess:
  assumes "on_trace I"
  shows "keeps I (assess_presign_funding env rpc c tx fee)"
  unfolding assess_presign_funding_def record_wallet_balance_def db_write_def
  by (intro keep_rules status_rules[OF on_trace_status[OF assms]] keeps_db_call_trace[OF assms])

lemma keeps_presign_funded:
  assumes c: "c \<in> set cs" and v: "big_int (tx_value tx) = Inr v"
    and cap: "big_int (pc_ceiling c) = Inr limit" "v \<le> limit"
    and fees: "pv_fees env (pc_plan c) rpc (pc_address c) = Inr fees"
    and win: "chain_time_to_local_ms (pc_start c) offset - pv_lead env \<le> now
        \<and> now \<le> chain_time_to_local_ms (pc_start c) offset + pv_continue env"
  shows "keeps (presign_trace env now offset cs ks ss) (presign_funded env rpc now c fees tx v)"
  unfolding presign_funded_def
proof (rule keeps_then_yields[OF keeps_assess[OF presign_on_trace] assess_presign_yields[OF v]], goal_cases)
  case (1 f)
  note k = keep_rules status_rules[OF on_trace_status[OF presign_on_trace]] keeps_recheck[OF presign_on_trace]
  show ?case
  proof (cases f)
    case (FundingOk a b)
    with 1 obtain native max_fee where "pv_balance env (pc_plan c) rpc (pc_address c) = Inr native"
        "big_int (fee_max fees) = Inr max_fee" "v + cf_presign_gas (pv_cfg env) * max_fee \<le> native" by blast
    then have "presign_ok env now offset c \<lparr>ku_to = tx_to tx, ku_data = tx_data tx, ku_value = v, ku_nonce = n\<rparr>" for n
      unfolding presign_ok_def using cap fees win by auto
    from keeps_presign_sign[OF c this] have "keeps (presign_trace env now offset cs ks ss) (presign_sign env c fees tx v s)" for s .
    then show ?thesis using FundingOk by (simp, intro k)
  next
    case (FundingShort r q m t)
    then show ?thesis by (simp, intro k)
  qed
qed

lemma keeps_presign_one:
  assumes "c \<in> set cs"
  shows "keeps (presign_trace env now offset cs ks ss) (presign_one env rpc now offset c)"
proof -
  let ?I = "presign_trace env now offset cs ks ss"
  note k = keep_rules status_rules[OF on_trace_status[OF presign_on_trace]] keeps_recheck[OF presign_on_trace]
  have calldata: "keeps ?I (presign_calldata env c cached)" for cached
    unfolding presign_calldata_def by (intro k)
  have "keeps ?I (presign_try env rpc now offset c cached)" for cached
    unfolding presign_try_def
  proof (rule keeps_then_lift, goal_cases)
    case (1 fees)
    show ?case
    proof (cases "decide_presign (presign_input_of env now offset c (Some (fee_nonce fees)))")
      case (Sign reason)
      note win = presign_decision_window[OF Sign]
      have send: "keeps ?I (if v > limit then ret () else presign_funded env rpc now c fees t v)"
        if "of_js (big_int (tx_value t)) = Inr v" "of_js (big_int (pc_ceiling c)) = Inr limit" for t v limit
        using that keeps_presign_funded[OF assms, of t v limit env rpc fees offset now ks ss] 1 win
        by (auto intro: k)
      show ?thesis unfolding Sign
        by (simp, rule keeps_then[OF calldata], rule keeps_option[OF keeps_ret],
            rule keeps_then_lift, rule keeps_then_lift, rule send)
    qed (auto intro: k)
  qed
  then have body: "keeps ?I (try_catch (presign_try env rpc now offset c cached) (\<lambda>_. ret ()))" for cached
    by (intro k)
  have "keeps ?I (cached_calldata c)"
    unfolding cached_calldata_def by (intro k)
  then show ?thesis unfolding presign_one_def
    by (cases "decide_presign (presign_input_of env now offset c None)") (auto intro!: k body)
qed

text \<open>
C10 The pre-sign pass sends nothing, and with live execution disabled it signs nothing. Whatever it signs
is for an armed plan of an enabled wallet with a key that it read at its start, inside that plan's
pre-sign window, of a value within the plan's ceiling, and the wallet's balance, read in the same pass,
covers the value and the gas reserve.
\<close>

theorem presign_signs_within_means:
  assumes "run_presign_pass env now offset w = (r, w')"
  shows "w_sent w' = w_sent w \<and> (cf_live (pv_cfg env) \<or> w_signed w' = w_signed w)
    \<and> (\<exists>us. w_signed w' = w_signed w @ us
          \<and> (\<forall>u \<in> set us. \<exists>c \<in> set (armed_managed_plans_for_presign (m_db w) now). presign_ok env now offset c u))"
proof (cases "cf_live (pv_cfg env)")
  case False
  then show ?thesis using assms by (simp add: run_presign_pass_def ret_def)
next
  case True
  let ?cs = "armed_managed_plans_for_presign (m_db w) now"
  let ?I = "presign_trace env now offset ?cs (w_signed w) (w_sent w)"
  note k = keep_rules status_rules[OF on_trace_status[OF presign_on_trace]]
  let ?rest = "\<lambda>candidates. if candidates = [] then ret ()
        else then_do (db_read (\<lambda>_. resolve_best_rpc_url (x_rpc_table (pv_fire env)) (cf_chain (pv_cfg env))
                                    (cf_rpc_url (pv_cfg env)))) (\<lambda>url.
          case url of
            None \<Rightarrow> ret ()
          | Some rpc \<Rightarrow> if rpc = [] then ret () else for_each (presign_one env rpc now offset) candidates)"
  have rest: "keeps ?I (?rest ?cs)"
    by (intro k keeps_for_each keeps_presign_one)
  have run: "run_presign_pass env now offset = then_do (db_read (\<lambda>d. armed_managed_plans_for_presign d now)) ?rest"
    using True by (simp add: run_presign_pass_def)
  have "?I w'"
  proof (cases rule: db_call_cases[of "\<lambda>d. (armed_managed_plans_for_presign d now, d)" w])
    case (fault m fs)
    then show ?thesis using assms unfolding run by (auto simp: then_do_def db_read_def presign_trace_def)
  next
    case (ok fs)
    then have "?rest ?cs (w\<lparr>m_faults := fs\<rparr>) = (r, w')"
      using assms unfolding run by (simp add: then_do_def db_read_def)
    then show ?thesis by (rule keepsD[OF rest, rotated]) (simp add: presign_trace_def)
  qed
  with True show ?thesis by (simp add: presign_trace_def)
qed

section \<open>Signatures and nonces\<close>

text \<open>
  Properties that see the world through the uses of keys, the allocator's maps, and an interval the
  clock readings to come lie in.
\<close>

definition same_keys :: "world \<Rightarrow> world \<Rightarrow> bool" where
  "same_keys w w' \<longleftrightarrow> w_signed w' = w_signed w \<and> w_nonces w' = w_nonces w \<and> set (m_clock w') \<subseteq> set (m_clock w)
     \<and> (m_clock w \<noteq> [] \<longrightarrow> m_clock w' \<noteq> [])"

definition key_blind :: "(world \<Rightarrow> bool) \<Rightarrow> bool" where
  "key_blind I \<longleftrightarrow> (\<forall>w w'. same_keys w w' \<longrightarrow> I w \<longrightarrow> I w')"

definition keyed :: "key_use list \<Rightarrow> nonce_state \<Rightarrow> int set \<Rightarrow> world \<Rightarrow> bool" where
  "keyed ks s T w \<longleftrightarrow> w_signed w = ks \<and> w_nonces w = s \<and> m_clock w \<noteq> [] \<and> set (m_clock w) \<subseteq> T"

text \<open>At most one more signature, with the nonce the allocator gives for what the chain reports.\<close>

definition one_more :: "string \<Rightarrow> int \<Rightarrow> key_use list \<Rightarrow> nonce_state \<Rightarrow> int set \<Rightarrow> world \<Rightarrow> bool" where
  "one_more a n ks s T w \<longleftrightarrow> keyed ks s T w
     \<or> (\<exists>t \<in> T. \<exists>u. (keyed ks (snd (reserve_nonce s a n t)) T w \<or> keyed (ks @ [u]) (snd (reserve_nonce s a n t)) T w)
          \<and> ku_nonce u = fst (reserve_nonce s a n t))"

text \<open>The same without the allocator, which may be given the nonce back.\<close>

definition one_signed :: "string \<Rightarrow> int \<Rightarrow> key_use list \<Rightarrow> nonce_state \<Rightarrow> int set \<Rightarrow> world \<Rightarrow> bool" where
  "one_signed a n ks s T w \<longleftrightarrow> w_signed w = ks
     \<or> (\<exists>t \<in> T. \<exists>u. w_signed w = ks @ [u] \<and> ku_nonce u = fst (reserve_nonce s a n t))"

lemma key_blind_keyed: "key_blind (keyed ks s T)"
  unfolding key_blind_def same_keys_def keyed_def by force

lemma key_blind_one_more: "key_blind (one_more a n ks s T)"
  unfolding key_blind_def one_more_def using key_blind_keyed unfolding key_blind_def by blast

lemma key_blind_one_signed: "key_blind (one_signed a n ks s T)"
  by (simp add: key_blind_def one_signed_def same_keys_def)

lemma key_blindD: "key_blind I \<Longrightarrow> I w \<Longrightarrow> same_keys w w' \<Longrightarrow> I w'"
  unfolding key_blind_def by blast

named_theorems blind_rules

lemma blind_clock [blind_rules]: "key_blind I \<Longrightarrow> keeps I clock"
  by (rule keepsI) (erule key_blindD, auto simp: clock_def same_keys_def split: list.splits)

lemma blind_db_call [blind_rules]: "key_blind I \<Longrightarrow> keeps I (db_call f)"
  by (rule keepsI, rule_tac w = w and f = f in db_call_cases) (erule key_blindD, assumption, simp add: same_keys_def)+

lemma blind_fresh_id [blind_rules]: "key_blind I \<Longrightarrow> keeps I fresh_id"
  by (rule keepsI) (erule key_blindD, assumption, simp add: fresh_id_def same_keys_def)

lemma blind_recheck [blind_rules]:
  assumes "key_blind I"
  shows "keeps I (recheck_until p)" "keeps I (set_recheck p t)" "keeps I (clear_recheck p)"
  by (rule keepsI, erule key_blindD[OF assms], simp add: recheck_until_def set_recheck_def clear_recheck_def same_keys_def)+

lemma blind_race [blind_rules]: "key_blind I \<Longrightarrow> keeps I (race_broadcast send pick urls raw)"
  by (rule keepsI) (erule key_blindD, assumption, simp add: race_broadcast_def same_keys_def Let_def)

lemma blind_give_nonce: "keeps (one_signed a n ks s T) (give_nonce b m)"
  by (rule keepsI) (simp add: give_nonce_def one_signed_def)

lemma blind_bookkeeping [blind_rules]:
  assumes "key_blind I"
  shows "keeps I (record_attempt p sts e pend h)" "keeps I (record_failed p c)" "keeps I (record_broadcast p b)"
    "keeps I (record_sim_revert p c)" "keeps I (mark_executed p)" "keeps I (release_plan p)" "keeps I (db_read f)"
    "keeps I (publish ty q)" "keeps I (fail_plan_and_notify p q)" "keeps I (broadcast_urls env rpc)" "keeps I (complete_plan p q)"
  unfolding record_failed_def record_broadcast_def record_sim_revert_def record_attempt_def mark_executed_def
    release_plan_def db_read_def db_write_def publish_def fail_plan_and_notify_def broadcast_urls_def complete_plan_def
  by (intro keep_rules blind_rules assms)+

text \<open>A nonce was taken and nothing has been signed with it yet.\<close>

definition reserved :: "string \<Rightarrow> int \<Rightarrow> key_use list \<Rightarrow> nonce_state \<Rightarrow> int set \<Rightarrow> int \<Rightarrow> world \<Rightarrow> bool" where
  "reserved a rpc ks s T n w \<longleftrightarrow>
     (\<exists>t \<in> T. n = fst (reserve_nonce s a rpc t) \<and> keyed ks (snd (reserve_nonce s a rpc t)) T w)"

lemma reserved_one_more: "reserved a rpc ks s T n w \<Longrightarrow> one_more a rpc ks s T w"
  unfolding reserved_def one_more_def by (metis key_use.select_convs(4))

lemma key_blind_reserved: "key_blind (reserved a rpc ks s T n)"
  unfolding key_blind_def reserved_def using key_blind_keyed unfolding key_blind_def by blast

lemma keyed_one_more: "keyed ks s T w \<Longrightarrow> one_more a rpc ks s T w"
  by (simp add: one_more_def)

lemma one_more_signed: "one_more a rpc ks s T w \<Longrightarrow> one_signed a rpc ks s T w"
  by (auto simp: one_more_def one_signed_def keyed_def)

lemma clock_result: "m_clock w \<noteq> [] \<Longrightarrow> \<exists>t w1. clock w = (Inr t, w1) \<and> t \<in> set (m_clock w)"
  by (cases "m_clock w"; cases "tl (m_clock w)") (auto simp: clock_def)

lemma acts_take:
  "acts (keyed ks s T) (take_nonce a rpc) (\<lambda>r w. case r of Inl _ \<Rightarrow> one_more a rpc ks s T w | Inr n \<Rightarrow> reserved a rpc ks s T n w)"
proof (rule actsI)
  fix w r w' assume k: "keyed ks s T w" and e: "take_nonce a rpc w = (r, w')"
  obtain t w1 where c: "clock w = (Inr t, w1)" "t \<in> T"
    using k clock_result[of w] unfolding keyed_def by blast
  have "keyed ks s T w1" using keepsD[OF blind_clock[OF key_blind_keyed] k c(1)] .
  moreover have "w_nonces w1 = s" using \<open>keyed ks s T w1\<close> by (simp add: keyed_def)
  ultimately show "case r of Inl _ \<Rightarrow> one_more a rpc ks s T w' | Inr n \<Rightarrow> reserved a rpc ks s T n w'"
    using e c by (auto simp: take_nonce_def then_do_def reserved_def keyed_def intro!: bexI[of _ t] split: prod.splits)
qed

lemma acts_use: "ku_nonce u = n \<Longrightarrow> acts (reserved a rpc ks s T n) (use_key u r) (\<lambda>_. one_more a rpc ks s T)"
  by (rule actsI) (auto simp: use_key_def reserved_def one_more_def keyed_def)

lemma acts_presign_sign:
  assumes "fee_nonce fees = rpc"
  shows "acts (keyed ks s T) (presign_sign env c fees tx v sealed) (\<lambda>_. one_more (pc_address c) rpc ks s T)"
  unfolding presign_sign_def assms
proof (rule acts_then_keep[OF keeps_lift], rule acts_then, rule acts_post[OF acts_take])
  fix key n
  let ?I = "one_more (pc_address c) rpc ks s T"
  have save: "keeps ?I (then_do clock (\<lambda>t. db_write (save_presigned_tx (pc_plan c) raw n h t)))" for raw h
    unfolding db_write_def by (intro keep_rules blind_rules key_blind_one_more)
  show "acts (reserved (pc_address c) rpc ks s T n)
      (then_do (use_key \<lparr>ku_to = tx_to tx, ku_data = tx_data tx, ku_value = v, ku_nonce = n\<rparr>
        (sign_managed_mint_transaction (x_lib (pv_fire env))
           \<lparr>sq_chain = tx_chain tx, sq_to = tx_to tx, sq_data = tx_data tx, sq_value = tx_value tx, sq_nonce = n,
            sq_max_fee = fee_max fees, sq_priority_fee = fee_priority fees, sq_gas = cf_presign_gas (pv_cfg env)\<rparr> key))
       (\<lambda>signed. then_do clock (\<lambda>t. db_write (save_presigned_tx (pc_plan c) (fst signed) n (snd signed) t))))
      (\<lambda>_. ?I)"
    by (rule acts_then[where R = "\<lambda>_. ?I"], rule acts_post[OF acts_use])
       (auto intro: save[unfolded keeps_def] split: sum.splits)
qed (auto intro: keyed_one_more split: sum.splits)

lemma acts_presign_one:
  assumes "\<And>url fees. pv_fees env (pc_plan c) url (pc_address c) = Inr fees \<Longrightarrow> fee_nonce fees = rpc"
  shows "acts (keyed ks s T) (presign_one env url now offset c) (\<lambda>_. one_more (pc_address c) rpc ks s T)"
proof -
  let ?K = "keyed ks s T" and ?Q = "one_more (pc_address c) rpc ks s T"
  note k = keep_rules blind_rules[OF key_blind_keyed]
  have idle: "acts ?K (ret ()) (\<lambda>_. ?Q)" by (rule acts_ret) (rule keyed_one_more)
  have ks: "acts ?K m (\<lambda>_. ?Q)" if "keeps ?K m" for m :: "unit act"
    using that unfolding keeps_def by (rule acts_post) (rule keyed_one_more)
  have assess: "keeps ?K (assess_presign_funding env url c tx fee)" for tx fee
    unfolding assess_presign_funding_def record_wallet_balance_def db_write_def by (intro k)
  have funded: "acts ?K (presign_funded env url now c fees tx v) (\<lambda>_. ?Q)" if "fee_nonce fees = rpc" for fees tx v
    unfolding presign_funded_def
  proof (rule acts_then_keep[OF assess], goal_cases)
    case (1 f)
    show ?case
    proof (cases f)
      case (FundingOk reserve required)
      show ?thesis unfolding FundingOk funding_verdict.case
        by (rule acts_then_keep[OF blind_recheck(3)[OF key_blind_keyed]],
            rule acts_then_keep[OF blind_bookkeeping(7)[OF key_blind_keyed]], rule acts_option[OF idle],
            rule acts_presign_sign[OF that]) (rule keyed_one_more; assumption)+
    next
      case (FundingShort reason required missing message)
      then show ?thesis by (simp, intro ks k)
    qed
  qed (rule keyed_one_more)
  have calldata: "keeps ?K (presign_calldata env c cached)" "keeps ?K (cached_calldata c)" for cached
    unfolding presign_calldata_def cached_calldata_def by (intro k)+
  have tr: "acts ?K (presign_try env url now offset c cached) (\<lambda>_. ?Q)" for cached
    unfolding presign_try_def
  proof (rule acts_then_lift, goal_cases)
    case (1 fees)
    have funded': "acts ?K (if v > limit then ret () else presign_funded env url now c fees t v) (\<lambda>_. ?Q)" for v limit t
      by (intro acts_if idle funded assms[OF 1])
    show ?case
    proof (cases "decide_presign (presign_input_of env now offset c (Some (fee_nonce fees)))")
      case (Sign reason)
      show ?thesis unfolding Sign
        by (simp, rule acts_then_keep[OF calldata(1)], rule acts_option[OF idle],
            rule acts_then_lift, rule acts_then_lift, rule funded') (rule keyed_one_more; assumption)+
    qed (simp_all add: idle)
  qed (rule keyed_one_more)
  have body: "acts ?K (try_catch (presign_try env url now offset c cached) (\<lambda>_. ret ())) (\<lambda>_. ?Q)" for cached
    by (rule acts_try[where R = "\<lambda>_. ?Q"], rule acts_post[OF tr]) (auto intro: acts_ret split: sum.splits)
  have decided: "acts ?K (then_do (recheck_until (pc_plan c)) (\<lambda>until. if until > now then ret ()
      else then_do (cached_calldata c) (\<lambda>cached. try_catch (presign_try env url now offset c cached) (\<lambda>_. ret ()))))
      (\<lambda>_. ?Q)"
    by (rule acts_then_keep[OF blind_recheck(1)[OF key_blind_keyed]], rule acts_if, rule idle,
        rule acts_then_keep[OF calldata(2)], rule body) (rule keyed_one_more; assumption)+
  show ?thesis unfolding presign_one_def
    by (cases "decide_presign (presign_input_of env now offset c None)") (simp_all add: idle decided)
qed

section \<open>A pre-signed plan at its fire instant\<close>

lemma signed_live:
  "keeps (one_signed a n ks s T) (live_catch env p q b mode m sg ac e)"
  "keeps (one_signed a n ks s T) (live_send env p q b rpc mode m' raw h)"
proof -
  note k = keep_rules blind_rules[OF key_blind_one_signed] blind_give_nonce
  show catch: "keeps (one_signed a n ks s T) (live_catch env p q b mode m sg ac e)" for m sg ac e
    unfolding live_catch_def live_not_sent_def by (intro k)
  show "keeps (one_signed a n ks s T) (live_send env p q b rpc mode m' raw h)"
    unfolding live_send_def live_broadcast_def live_after_broadcast_def after_revert_def by (intro k catch)
qed

lemma acts_sealed:
  assumes "sq_nonce q = n"
  shows "acts (reserved a rpc ks s T n) (sign_with_managed_key_sealed env q sealed) (\<lambda>_. one_more a rpc ks s T)"
proof -
  have "acts (reserved a rpc ks s T n) (then_do (lift_sum (x_open_key env sealed)) (\<lambda>key.
        then_do (lift_sum (of_js (big_int (sq_value q)))) (\<lambda>v.
        use_key \<lparr>ku_to = sq_to q, ku_data = sq_data q, ku_value = v, ku_nonce = sq_nonce q\<rparr>
          (sign_managed_mint_transaction (x_lib env) q key)))) (\<lambda>_. one_more a rpc ks s T)"
    by (rule acts_then_lift, rule acts_then_lift, rule acts_use) (use assms in \<open>auto intro: reserved_one_more\<close>)
  then show ?thesis unfolding sign_with_managed_key_sealed_def
    by (intro acts_try[where R = "\<lambda>_. one_more a rpc ks s T"]) (auto elim: acts_post intro: acts_throw split: sum.splits)
qed

lemma acts_live_sign_nonce:
  assumes "fee_nonce fees = n"
  shows "acts (keyed ks s T) (live_sign env p q tx a sealed rpc mode gas fees) (\<lambda>_. one_signed a n ks s T)"
  unfolding live_sign_def assms
proof (rule acts_then, rule acts_post[OF acts_take])
  fix m
  show "acts (reserved a n ks s T m)
      (then_do (attempt (sign_with_managed_key_sealed env (sign_request_of tx m fees gas) sealed)) (\<lambda>s.
       case s of
         Inl e \<Rightarrow> live_catch env p q a mode (Some m) None None e
       | Inr signed \<Rightarrow> live_send env p q a rpc mode m (fst signed) (snd signed))) (\<lambda>_. one_signed a n ks s T)"
    by (rule acts_then[where R = "\<lambda>_. one_signed a n ks s T"], rule acts_attempt, rule acts_post[OF acts_sealed])
       (auto simp: sign_request_of_def intro: one_more_signed acts_sum signed_live[unfolded keeps_def] split: sum.splits)
qed (auto intro: one_more_signed split: sum.splits)

lemma keyed_signed: "keyed ks s T w \<Longrightarrow> one_signed a n ks s T w"
  by (simp add: keyed_def one_signed_def)

lemma failover_result: "with_rpc_failover urls f = Inr x \<Longrightarrow> \<exists>u. f u = Inr x"
proof -
  have "try_each e us f = Inr x \<Longrightarrow> \<exists>u. f u = Inr x" for e us
    by (induction us arbitrary: e) (auto split: sum.splits)
  then show "with_rpc_failover urls f = Inr x \<Longrightarrow> \<exists>u. f u = Inr x" by (auto simp: with_rpc_failover_def split: if_splits)
qed

lemma live_prepare_nonce:
  assumes "\<And>f. md_fees mode = Some (Inr f) \<Longrightarrow> fee_nonce f = n"
    and "\<And>u f. x_fees_live env u (wl_address wl) = Inr f \<Longrightarrow> fee_nonce f = n"
  shows "yields (live_prepare env p tx wl rpc mode) (\<lambda>r. \<forall>gas fees. r = Some (gas, fees) \<longrightarrow> fee_nonce fees = n)"
  unfolding live_prepare_def
proof (intro yields_then_lift, goal_cases)
  case (1 sim fees)
  then have "fee_nonce fees = n"
    by (cases "md_fees mode"; cases "the (md_fees mode)") (auto intro: assms dest!: failover_result)
  then show ?case by (cases sim) (auto intro: yields_ret yields_then)
qed

lemma keeps_simulation [keep_rules]:
  "(\<And>g. keeps I (f g)) \<Longrightarrow> (\<And>m. keeps I (h m)) \<Longrightarrow> keeps I (case sim of SimOk g \<Rightarrow> f g | SimRevert m \<Rightarrow> h m)"
  by (cases sim) simp_all

lemma acts_near_fire:
  assumes "md_near mode"
    and "\<And>f. md_fees mode = Some (Inr f) \<Longrightarrow> fee_nonce f = n"
    and "\<And>u f. x_fees_live env u (wl_address wl) = Inr f \<Longrightarrow> fee_nonce f = n"
  shows "acts (keyed ks s T) (run_managed_fire env p q tx wl rpc mode) (\<lambda>_. one_signed (wl_address wl) n ks s T)"
proof -
  let ?K = "keyed ks s T" and ?Q = "one_signed (wl_address wl) n ks s T"
  note k = keep_rules blind_rules[OF key_blind_keyed]
  have ks: "acts ?K m (\<lambda>_. ?Q)" if "keeps ?K m" for m :: "unit act"
    using that unfolding keeps_def by (rule acts_post) (rule keyed_signed)
  have prep: "keeps ?K (attempt (live_prepare env p tx wl rpc mode))"
    unfolding live_prepare_def by (intro k)
  have y: "yields (attempt (live_prepare env p tx wl rpc mode))
      (\<lambda>r. \<forall>gas fees. r = Inr (Some (gas, fees)) \<longrightarrow> fee_nonce fees = n)"
  proof -
    have "yields (live_prepare env p tx wl rpc mode) (\<lambda>r. \<forall>gas fees. r = Some (gas, fees) \<longrightarrow> fee_nonce fees = n)"
      by (rule live_prepare_nonce) (rule assms(2,3), assumption)+
    then show ?thesis unfolding yields_def attempt_def by (auto split: prod.splits)
  qed
  have catch: "acts ?K (live_catch env p q (wl_address wl) mode None None None e) (\<lambda>_. ?Q)" for e
    by (rule acts_pre[OF signed_live(1)[unfolded keeps_def]]) (rule keyed_signed)
  have live: "acts ?K (live_path env p q tx wl sealed rpc mode) (\<lambda>_. ?Q)" for sealed
    unfolding live_path_def
  proof (rule acts_then_yields[OF prep y], goal_cases)
    case (1 r)
    then show ?case
      by (cases r) (auto intro!: catch ks k acts_live_sign_nonce split: option.splits)
  qed (rule keyed_signed)
  have fast: "keeps ?K (case fresh of None \<Rightarrow> ret False
       | Some f \<Rightarrow> (case mp_raw f of None \<Rightarrow> ret False
            | Some raw \<Rightarrow> if md_near mode \<or> raw = [] then ret False
                 else fast_path env p q wl rpc (md_urls mode) raw (mp_hash f) (mp_nonce f)))" for fresh
    using assms(1) by (auto intro!: k split: option.splits)
  have missing: "acts ?K (then_do (record_failed p c) (\<lambda>_. fail_plan_and_notify p q)) (\<lambda>_. ?Q)" for c
    by (intro ks k)
  have main: "acts ?K (then_do (db_read (get_mint_plan p)) (\<lambda>fresh. then_do (case fresh of None \<Rightarrow> ret False
       | Some f \<Rightarrow> (case mp_raw f of None \<Rightarrow> ret False
            | Some raw \<Rightarrow> if md_near mode \<or> raw = [] then ret False
                 else fast_path env p q wl rpc (md_urls mode) raw (mp_hash f) (mp_nonce f)))
         (\<lambda>ended. if ended then ret () else live_path env p q tx wl sealed rpc mode))) (\<lambda>_. ?Q)" for sealed
    by (rule acts_then_keep[OF blind_bookkeeping(7)[OF key_blind_keyed]], rule acts_then_keep[OF fast], rule acts_if,
        rule ks[OF keeps_ret], rule live) (rule keyed_signed; assumption)+
  show ?thesis unfolding run_managed_fire_def by (cases "wl_key wl") (simp_all add: missing main)
qed

text \<open>
C17 A plan whose transaction was pre-signed at the wallet's next nonce N is not sent with it: its fire at
the stage's open, where the pre-signed transaction is not used and its reservation is not given back,
signs a second one at N+1 while the chain still expects N.
\<close>

theorem presigned_plan_skips_nonce:
  assumes "presign_one env url now offset c w = (r, w1)" and "w_signed w1 = w_signed w @ [u1]"
    and "run_managed_fire fenv (pc_plan c) q tx wl rpc mode w2 = (r', w3)" and "w_signed w3 = w_signed w2 @ [u2]"
    and "w_nonces w2 = w_nonces w1" and "md_near mode" and "wl_address wl = pc_address c"
    and "reservations (w_nonces w) (nonce_key (pc_address c)) = None" and "pool_of (w_nonces w) (nonce_key (pc_address c)) = []"
    and "\<And>x f. pv_fees env (pc_plan c) x (pc_address c) = Inr f \<Longrightarrow> fee_nonce f = n"
    and "\<And>f. md_fees mode = Some (Inr f) \<Longrightarrow> fee_nonce f = n"
    and "\<And>x f. x_fees_live fenv x (pc_address c) = Inr f \<Longrightarrow> fee_nonce f = n"
    and "m_clock w \<noteq> []" and "m_clock w2 \<noteq> []"
    and "\<And>t t2. t \<in> set (m_clock w) \<Longrightarrow> t2 \<in> set (m_clock w2) \<Longrightarrow> t2 - t \<le> reservation_ttl_ms"
  shows "ku_nonce u1 = n \<and> ku_nonce u2 = n + 1"
proof -
  let ?a = "pc_address c" and ?T = "set (m_clock w)" and ?T2 = "set (m_clock w2)"
  have "one_more ?a n (w_signed w) (w_nonces w) ?T w1"
    by (rule actsD[OF acts_presign_one[OF assms(10)] _ assms(1)]) (use assms(13) in \<open>auto simp: keyed_def\<close>)
  then obtain t where t: "t \<in> ?T" "ku_nonce u1 = fst (reserve_nonce (w_nonces w) ?a n t)"
      "w_nonces w1 = snd (reserve_nonce (w_nonces w) ?a n t)"
    using assms(2) by (auto simp: one_more_def keyed_def)
  have n1: "ku_nonce u1 = n" "reservations (w_nonces w1) (nonce_key ?a) = Some (n, t)" "pool_of (w_nonces w1) (nonce_key ?a) = []"
    using t(2,3) assms(8,9) by (simp_all add: reserve_nonce_def Let_def)
  have "one_signed ?a n (w_signed w2) (w_nonces w1) ?T2 w3"
    by (rule actsD[OF acts_near_fire[OF assms(6), where wl = wl, unfolded assms(7)] _ assms(3)])
       (use assms(5,11,12,14) in \<open>auto simp: keyed_def assms(7)\<close>)
  then obtain t2 where t2: "t2 \<in> ?T2" "ku_nonce u2 = fst (reserve_nonce (w_nonces w1) ?a n t2)"
    using assms(4) by (auto simp: one_signed_def)
  have "ku_nonce u2 = n + 1" using t2 n1 assms(15)[OF t(1) t2(1)] by (simp add: reserve_nonce_def Let_def)
  with n1 show ?thesis by simp
qed

definition demo_presign_env :: presign_env where
  "demo_presign_env = \<lparr>pv_fire = (demo_env (\<lambda>_ _. Inr ''0xh'') Mined (Inr None))\<lparr>cfg := demo_config\<lparr>cf_rpc_url := Some ''u''\<rparr>\<rparr>,
     pv_offset = None, pv_enabled = True,
     pv_lead = 45000, pv_ttl = 90000, pv_continue = 4000, pv_hot_window = 2000,
     pv_fees = (\<lambda>_ _ _. Inr \<lparr>fee_nonce = 7, fee_max = ''2'', fee_priority = ''1''\<rparr>),
     pv_build = (\<lambda>_ _ _ _. Inr (''0xsea'', ''0xdata'', ''5'')), pv_balance = (\<lambda>_ _ _. Inr 1000000),
     pv_erc20 = (\<lambda>_ _ _ _ _. Inl (ThrownError ''rpc''))\<rparr>"

definition demo_candidate :: presign_candidate where
  "demo_candidate = \<lparr>pc_plan = ''a'', pc_wallet = ''w'', pc_address = ''0xme'', pc_start = 20, pc_presigned_at = None,
     pc_nonce = None, pc_cached_tx = Some demo_tx, pc_cached_at = Some 9, pc_ceiling = ''1000'', pc_quantity = 1,
     pc_price = None, pc_currency = None\<rparr>"

definition presign_world :: world where
  "presign_world = demo_world\<lparr>m_db := (demo_db [demo_plan ''a'' Armed 5 50])\<lparr>wallets := [demo_wallet], projects := [demo_project]\<rparr>\<rparr>"

lemmas presign_defs = presign_one_def presign_try_def presign_calldata_def cached_calldata_def presign_funded_def
  presign_sign_def assess_presign_funding_def record_wallet_balance_def get_wallet_signing_key_sealed_def
  erc20_funding_of_def recheck_until_def clear_recheck_def presign_input_of_def decide_presign_def
  chain_time_to_local_ms_def cache_ttl_ms_def assess_mint_funding_def is_native_currency_def save_presigned_tx_def

lemmas demo_presign_defs = demo_presign_env_def demo_candidate_def presign_world_def demo_fire_defs

lemma demo_presigned:
  "\<exists>w1. presign_one demo_presign_env ''u'' 10 0 demo_candidate presign_world = (Inr (), w1)
     \<and> w_signed w1 = [\<lparr>ku_to = ''0xsea'', ku_data = ''0xdata'', ku_value = 5, ku_nonce = 7\<rparr>]
     \<and> w_nonces w1 = snd (reserve_nonce reset_nonce_reservations ''0xme'' 7 10)
     \<and> map_option mp_nonce (get_mint_plan ''a'' (m_db w1)) = Some (Some 7)"
  by (simp add: presign_defs demo_presign_defs prim_defs table_defs sign_eval big_int_1000 Let_def)

lemma presigned_plan_skips_nonce_witness:
  "\<exists>w1 w3 u1 u2. presign_one demo_presign_env ''u'' 10 0 demo_candidate presign_world = (Inr (), w1)
     \<and> run_managed_fire (demo_env (\<lambda>_ _. Inr ''0xh'') Unresolved (Inr None)) ''a'' ''p'' demo_tx demo_wallet ''u'' demo_mode
         (demo_world\<lparr>w_nonces := w_nonces w1\<rparr>) = (Inr (), w3)
     \<and> w_signed w1 = [u1] \<and> w_signed w3 = [u2] \<and> ku_nonce u1 = 7 \<and> ku_nonce u2 = 8"
proof -
  let ?fenv = "demo_env (\<lambda>_ _. Inr ''0xh'') Unresolved (Inr None)"
  obtain w1 where w1: "presign_one demo_presign_env ''u'' 10 0 demo_candidate presign_world = (Inr (), w1)"
      "w_signed w1 = [\<lparr>ku_to = ''0xsea'', ku_data = ''0xdata'', ku_value = 5, ku_nonce = 7\<rparr>]"
      "w_nonces w1 = snd (reserve_nonce reset_nonce_reservations ''0xme'' 7 10)"
    using demo_presigned by blast
  have "\<exists>w3 u2. run_managed_fire ?fenv ''a'' ''p'' demo_tx demo_wallet ''u'' demo_mode
      (demo_world\<lparr>w_nonces := w_nonces w1\<rparr>) = (Inr (), w3) \<and> w_signed w3 = [u2]"
    unfolding w1(3)
    by (simp add: fire_defs prim_defs table_defs sign_eval demo_fire_defs max_onchain_reverts_def Let_def)
  then obtain w3 u2 where w3: "run_managed_fire ?fenv ''a'' ''p'' demo_tx demo_wallet ''u'' demo_mode
      (demo_world\<lparr>w_nonces := w_nonces w1\<rparr>) = (Inr (), w3)" "w_signed w3 = [u2]" by blast
  have f: "run_managed_fire ?fenv (pc_plan demo_candidate) ''p'' demo_tx demo_wallet ''u'' demo_mode
      (demo_world\<lparr>w_nonces := w_nonces w1\<rparr>) = (Inr (), w3)"
    using w3(1) by (simp only: demo_candidate_def presign_candidate.select_convs)
  have n: "w_signed w1 = w_signed presign_world @ [\<lparr>ku_to = ''0xsea'', ku_data = ''0xdata'', ku_value = 5, ku_nonce = 7\<rparr>]"
      "w_signed w3 = w_signed (demo_world\<lparr>w_nonces := w_nonces w1\<rparr>) @ [u2]"
    using w1(2) w3(2) by (simp_all add: presign_world_def demo_world_def)
  have "ku_nonce \<lparr>ku_to = ''0xsea'', ku_data = ''0xdata'', ku_value = 5, ku_nonce = 7\<rparr> = 7 \<and> ku_nonce u2 = 7 + 1"
    by (rule presigned_plan_skips_nonce[OF w1(1) n(1) f n(2)])
       (auto simp: demo_presign_env_def demo_candidate_def presign_world_def demo_mode_def demo_wallet_def demo_env_def
          demo_world_def reset_nonce_reservations_def pool_of_def reservation_ttl_ms_def)
  with w1 w3 show ?thesis by auto
qed

lemma presign_signs_within_means_witness:
  "\<exists>w' u. run_presign_pass demo_presign_env 10 0 presign_world = (Inr (), w') \<and> w_signed w' = [u]
     \<and> (\<exists>c \<in> set (armed_managed_plans_for_presign (m_db presign_world) 10). presign_ok demo_presign_env 10 0 c u)"
proof -
  have "\<exists>w' u. run_presign_pass demo_presign_env 10 0 presign_world = (Inr (), w') \<and> w_signed w' = [u]"
    by (simp add: run_presign_pass_def armed_managed_plans_for_presign_def presign_rows_def known_target_def stage_of_def
        resolve_best_rpc_url_def pass_eval claimless_plan_project_def demo_project_def
        presign_defs demo_presign_defs prim_defs table_defs sign_eval Let_def)
  then obtain w' u where w': "run_presign_pass demo_presign_env 10 0 presign_world = (Inr (), w')" "w_signed w' = [u]" by blast
  from presign_signs_within_means[OF w'(1)] w'(2)
  have "\<exists>c \<in> set (armed_managed_plans_for_presign (m_db presign_world) 10). presign_ok demo_presign_env 10 0 c u"
    by (auto simp: presign_world_def demo_world_def)
  with w' show ?thesis by blast
qed

section \<open>The passes in flight\<close>

text \<open>The counter \<open>inFlightPasses\<close> and the passes that really run; ticks and ends of passes interleave.\<close>

record loop_state =
  ls_counter :: int
  ls_running :: nat

datatype loop_event = Tick hot_summary nat | PassEnds

inductive loop_step :: "presign_env \<Rightarrow> loop_state \<Rightarrow> loop_event \<Rightarrow> loop_state \<Rightarrow> bool" where
  loop_tick: "run_mint_hot_loop env (ls_counter s) w = (Inr (summary, started, presign), w') \<Longrightarrow>
     loop_step env s (Tick summary started)
       \<lparr>ls_counter = ls_counter s + int started, ls_running = ls_running s + started\<rparr>"
| loop_end: "0 < ls_running s \<Longrightarrow>
     loop_step env s PassEnds \<lparr>ls_counter = ls_counter s - 1, ls_running = ls_running s - 1\<rparr>"

inductive loop_reachable :: "presign_env \<Rightarrow> loop_state \<Rightarrow> bool" where
  loop_init: "loop_reachable env \<lparr>ls_counter = 0, ls_running = 0\<rparr>"
| loop_next: "loop_reachable env s \<Longrightarrow> loop_step env s e s' \<Longrightarrow> loop_reachable env s'"

definition due_count :: "presign_env \<Rightarrow> world \<Rightarrow> nat" where
  "due_count env w =
     (let now = (case m_clock w of [] \<Rightarrow> 0 | t # _ \<Rightarrow> t);
          offset = (case pv_offset env of None \<Rightarrow> 0 | Some o' \<Rightarrow> o')
      in length (filter (is_due env offset now) (armed_plans_with_stage_start (m_db w) now)))"

lemma hot_loop_started:
  assumes "run_mint_hot_loop env n w = (Inr (summary, started, presign), w')"
  shows "hs_fired summary = (0 < started)" and "started \<le> nat (max_parallel_fires - n)"
    and "m_faults w = [] \<Longrightarrow> started = min (due_count env w) (nat (max_parallel_fires - n))"
proof -
  obtain t w1 where c: "clock w = (Inr t, w1)" "m_db w1 = m_db w" "m_faults w1 = m_faults w"
      "t = (case m_clock w of [] \<Rightarrow> 0 | t # _ \<Rightarrow> t)"
    by (cases "m_clock w"; cases "tl (m_clock w)") (auto simp: clock_def)
  show "hs_fired summary = (0 < started)" "started \<le> nat (max_parallel_fires - n)"
    using assms by (auto simp: run_mint_hot_loop_def then_do_def ret_def Let_def split: prod.splits sum.splits if_splits)
  show "started = min (due_count env w) (nat (max_parallel_fires - n))" if "m_faults w = []"
    using assms that c by (auto simp: run_mint_hot_loop_def then_do_def ret_def Let_def db_read_def db_call_def due_count_def
        split: if_splits)
qed

lemma loop_invariant:
  assumes "loop_reachable env s"
  shows "ls_counter s = int (ls_running s) \<and> ls_running s \<le> nat max_parallel_fires"
  using assms
proof (induction rule: loop_reachable.induct)
  case (loop_next env s e s')
  from loop_next.hyps(2) show ?case
  proof (cases rule: loop_step.cases)
    case (loop_tick w summary started presign w')
    with hot_loop_started(2)[OF loop_tick(3)] loop_next.IH show ?thesis
      by (auto simp: max_parallel_fires_def nat_diff_distrib)
  next
    case loop_end
    with loop_next.IH show ?thesis by auto
  qed
qed simp

text \<open>
However ticks and ends of passes interleave, the counter of the hot loop is the number of passes that
run, never more than eight, and a tick whose reads succeed starts a pass for every due plan while there is
a free slot.
\<close>

theorem hot_loop_bounded:
  assumes "loop_reachable env s"
  shows "ls_counter s = int (ls_running s) \<and> ls_running s \<le> 8
    \<and> (\<forall>w summary started presign w'. run_mint_hot_loop env (ls_counter s) w = (Inr (summary, started, presign), w')
          \<longrightarrow> hs_fired summary = (0 < started)
             \<and> (m_faults w = [] \<longrightarrow> started = min (due_count env w) (8 - ls_running s)))"
proof -
  have c: "ls_counter s = int (ls_running s)" "ls_running s \<le> 8"
    using loop_invariant[OF assms] by (simp_all add: max_parallel_fires_def)
  then have n: "nat (max_parallel_fires - ls_counter s) = 8 - ls_running s"
    by (simp add: max_parallel_fires_def nat_diff_distrib)
  show ?thesis using c hot_loop_started(1) hot_loop_started(3)[where n = "ls_counter s", unfolded n] by blast
qed

lemma hot_loop_bounded_witness:
  "\<exists>started. loop_reachable demo_presign_env \<lparr>ls_counter = int started, ls_running = started\<rparr> \<and> started = 1"
proof -
  have "\<exists>summary started presign w'. run_mint_hot_loop demo_presign_env 0 presign_world = (Inr (summary, started, presign), w')"
    by (simp add: run_mint_hot_loop_def armed_plans_with_stage_start_def known_target_def stage_of_def
        demo_presign_defs prim_defs table_defs Let_def)
  then obtain summary started presign w' where
    t: "run_mint_hot_loop demo_presign_env 0 presign_world = (Inr (summary, started, presign), w')" by blast
  have "started = min (due_count demo_presign_env presign_world) (8 - 0)"
    using hot_loop_bounded[OF loop_init, of demo_presign_env] t by (auto simp: presign_world_def demo_world_def)
  moreover have "due_count demo_presign_env presign_world = 1"
    by (simp add: due_count_def is_due_def compute_fire_phase_def chain_time_to_local_ms_def
        armed_plans_with_stage_start_def known_target_def coalesce_def stage_of_def demo_presign_defs table_defs Let_def)
  moreover have "loop_reachable demo_presign_env \<lparr>ls_counter = 0 + int started, ls_running = 0 + started\<rparr>"
    using loop_next[OF loop_init loop_tick] t by fastforce
  ultimately show ?thesis by auto
qed

end
