(* ===== verification/Secrets.thy ===== *)
theory Secrets
  imports Errors "HOL-Library.Word"
begin

text \<open>
  Secret hygiene (\<open>packages/secrets/src/index.ts\<close>): the symmetric seal and the X25519 envelope with their
  byte layouts, the opening of a stored wallet key whichever scheme sealed it, and the redaction of URLs
  and of log objects. The primitives of \<open>node:crypto\<close> (AES-256-GCM, X25519, HKDF, random bytes) are
  parameters; base64 is modelled, as Node encodes and (leniently) decodes it. Secrets are ASCII, so a
  character is a byte.
\<close>

section \<open>Bytes and base64\<close>

type_synonym bytes = "8 word list"

definition to_bytes :: "string \<Rightarrow> bytes" where
  "to_bytes s = map (\<lambda>c. word_of_nat (code_of c)) s"

definition from_bytes :: "bytes \<Rightarrow> string" where
  "from_bytes b = map (\<lambda>w. char_of (unat w)) b"

lemma byte_char: "char_of (unat (word_of_nat (code_of c) :: 8 word)) = c"
proof -
  have "code_of c < 256" by (simp add: code_of_def of_char_def of_bool_def)
  then have "unat (word_of_nat (code_of c) :: 8 word) = code_of c" by (simp add: unat_of_nat take_bit_eq_mod)
  then show ?thesis by (simp add: code_of_def)
qed

lemma from_to_bytes [simp]: "from_bytes (to_bytes s) = s"
  by (simp add: from_bytes_def to_bytes_def comp_def byte_char)

definition b64_char :: "nat \<Rightarrow> char" where
  "b64_char n = ''ABCDEFGHIJKLMNOPQRSTUVWXYZabcdefghijklmnopqrstuvwxyz0123456789+/'' ! n"

definition b64_val :: "char \<Rightarrow> nat option" where
  "b64_val c = (let n = code_of c in
     if 65 \<le> n \<and> n \<le> 90 then Some (n - 65) else if 97 \<le> n \<and> n \<le> 122 then Some (n - 71)
     else if 48 \<le> n \<and> n \<le> 57 then Some (n + 4) else if c = CHR ''+'' \<or> c = CHR ''-'' then Some 62
     else if c = CHR ''/'' \<or> c = CHR ''_'' then Some 63 else None)"

fun sextets :: "nat list \<Rightarrow> nat list" where
  "sextets [] = []"
| "sextets [a] = [a div 4, (a mod 4) * 16]"
| "sextets [a, b] = [a div 4, (a mod 4) * 16 + b div 16, (b mod 16) * 4]"
| "sextets (a # b # c # r) = a div 4 # ((a mod 4) * 16 + b div 16) # ((b mod 16) * 4 + c div 64) # c mod 64 # sextets r"

fun octets :: "nat list \<Rightarrow> nat list" where
  "octets (p # q # r # s # t) = (p * 4 + q div 16) # ((q mod 16) * 16 + r div 4) # ((r mod 4) * 64 + s) # octets t"
| "octets [p, q, r] = [p * 4 + q div 16, (q mod 16) * 16 + r div 4]"
| "octets [p, q] = [p * 4 + q div 16]"
| "octets _ = []"

definition b64_encode :: "bytes \<Rightarrow> string" where
  "b64_encode b = map b64_char (sextets (map unat b)) @ replicate ((3 - length b mod 3) mod 3) CHR ''=''"

definition b64_decode :: "string \<Rightarrow> bytes" where
  "b64_decode s = map word_of_nat (octets (List.map_filter b64_val (takeWhile (\<lambda>c. c \<noteq> CHR ''='') s)))"

lemma digit_pair: "y < k \<Longrightarrow> (x * k + y) div k = x" "y < k \<Longrightarrow> (x * k + y) mod k = (y :: nat)"
  by simp_all

lemma octet_parts: "n < 256 \<Longrightarrow> n div 4 < 64 \<and> n div 16 < 16 \<and> n div 64 < (4 :: nat)"
  by linarith

lemma octets_sextets: "list_all (\<lambda>n. n < 256) ns \<Longrightarrow> octets (sextets ns) = ns"
  by (induction ns rule: sextets.induct) (simp_all add: digit_pair octet_parts div_mult_mod_eq)

lemma sextets_bound: "list_all (\<lambda>n. n < 256) ns \<Longrightarrow> list_all (\<lambda>n. n < 64) (sextets ns)"
proof (induction ns rule: sextets.induct)
  case (4 a b c r)
  then show ?case using octet_parts[of a] octet_parts[of b] octet_parts[of c]
    by simp (intro conjI; linarith)
qed (auto simp: octet_parts)

lemma b64_alphabet: "map (\<lambda>n. b64_val (b64_char n)) [0..<64] = map Some [0..<64]"
  by (simp add: upt_rec b64_char_def b64_val_def code_of_def)

lemma b64_char: "n < 64 \<Longrightarrow> b64_val (b64_char n) = Some n" "n < 64 \<Longrightarrow> b64_char n \<noteq> CHR ''=''"
proof -
  show v: "b64_val (b64_char n) = Some n" if "n < 64" for n
    using that b64_alphabet by (simp add: map_eq_conv)
  have "b64_val CHR ''='' = None" by (simp add: b64_val_def code_of_def)
  then show "b64_char n \<noteq> CHR ''=''" if "n < 64" using v[OF that] by auto
qed

lemma b64_round_trip [simp]: "b64_decode (b64_encode b) = b"
proof -
  let ?n = "map unat b" and ?pad = "replicate ((3 - length b mod 3) mod 3) CHR ''=''"
  have small: "list_all (\<lambda>n. n < 256) ?n"
    by (auto simp: list_all_iff intro: order_less_le_trans[OF unsigned_less])
  have s: "list_all (\<lambda>n. n < 64) (sextets ?n)" by (rule sextets_bound[OF small])
  have "takeWhile (\<lambda>c. c \<noteq> CHR ''='') (map b64_char (sextets ?n) @ ?pad) = map b64_char (sextets ?n)"
    using s b64_char(2) by (subst takeWhile_append2) (auto simp: list_all_iff takeWhile_eq_Nil_iff)
  moreover have "List.map_filter b64_val (map b64_char ns) = ns" if "list_all (\<lambda>n. n < 64) ns" for ns
    using that by (induction ns) (auto simp: b64_char map_filter_simps)
  ultimately show ?thesis using s octets_sextets[OF small]
    by (simp add: b64_decode_def b64_encode_def comp_def)
qed

section \<open>The symmetric seal\<close>

text \<open>AES-256-GCM: \<open>gcm_seal key nonce text\<close> is the ciphertext and its tag.\<close>

record gcm =
  gcm_seal :: "bytes \<Rightarrow> bytes \<Rightarrow> bytes \<Rightarrow> bytes \<times> bytes"
  gcm_open :: "bytes \<Rightarrow> bytes \<Rightarrow> bytes \<Rightarrow> bytes \<Rightarrow> thrown + bytes"

text \<open>Its documented behaviour: the tag has 16 bytes, and what was sealed opens under the same key and nonce.\<close>

definition gcm_laws :: "gcm \<Rightarrow> bool" where
  "gcm_laws g \<longleftrightarrow> (\<forall>k n t. length (snd (gcm_seal g k n t)) = 16 \<and>
     gcm_open g k n (snd (gcm_seal g k n t)) (fst (gcm_seal g k n t)) = Inr t)"

record sealed =
  se_ciphertext :: string
  se_version :: int
  se_algorithm :: string

definition current_key_version :: int where "current_key_version = 1"
definition gcm_auth_tag_length :: nat where "gcm_auth_tag_length = 16"
definition symmetric_algorithm :: string where "symmetric_algorithm = ''aes-256-gcm''"
definition asymmetric_algorithm :: string where "asymmetric_algorithm = ''x25519-hkdf-sha256-aes-256-gcm''"

definition derive_key :: "string \<Rightarrow> thrown + bytes" where
  "derive_key master = (let raw = b64_decode master in
     if length raw \<noteq> 32 then Inl (ThrownError ''APP_ENCRYPTION_KEY must decode to exactly 32 bytes'') else Inr raw)"

text \<open>\<open>nonce\<close> is what \<open>randomBytes(12)\<close> returned.\<close>

definition seal_secret :: "gcm \<Rightarrow> bytes \<Rightarrow> string \<Rightarrow> string \<Rightarrow> int \<Rightarrow> thrown + sealed" where
  "seal_secret g nonce plaintext master version =
     rbind (derive_key master) (\<lambda>key.
       let (body, tag) = gcm_seal g key nonce (to_bytes plaintext)
       in Inr \<lparr>se_ciphertext = b64_encode (nonce @ tag @ body), se_version = version, se_algorithm = symmetric_algorithm\<rparr>)"

definition open_secret :: "gcm \<Rightarrow> sealed \<Rightarrow> string \<Rightarrow> thrown + string" where
  "open_secret g s master =
     (if se_algorithm s \<noteq> symmetric_algorithm then Inl (ThrownError (''unsupported cipher '' @ se_algorithm s))
      else rbind (derive_key master) (\<lambda>key.
        let blob = b64_decode (se_ciphertext s);
            nonce = take 12 blob;
            tag = take gcm_auth_tag_length (drop 12 blob);
            body = drop (12 + gcm_auth_tag_length) blob
        in rmap from_bytes (gcm_open g key nonce tag body)))"

section \<open>The envelope\<close>

text \<open>
  X25519 and HKDF. A key object is its raw bytes: the DER prefixes the source adds and cuts are fixed.
  \<open>dh priv pub\<close> throws when the other key cannot be imported.
\<close>

record x25519 =
  pub_of :: "bytes \<Rightarrow> bytes"
  dh :: "bytes \<Rightarrow> bytes \<Rightarrow> thrown + bytes"
  hkdf :: "bytes \<Rightarrow> bytes \<Rightarrow> string \<Rightarrow> bytes"

definition x25519_laws :: "x25519 \<Rightarrow> bool" where
  "x25519_laws x \<longleftrightarrow> (\<forall>a b. length a = 32 \<longrightarrow> length b = 32 \<longrightarrow>
     length (pub_of x a) = 32 \<and> (\<exists>s. dh x a (pub_of x b) = Inr s \<and> dh x b (pub_of x a) = Inr s))"

definition hkdf_info :: string where "hkdf_info = ''hoodmint/wallet-key/v1''"

definition raw32 :: "string \<Rightarrow> string \<Rightarrow> thrown + bytes" where
  "raw32 b64 what = (let raw = b64_decode b64 in
     if length raw \<noteq> 32 then Inl (ThrownError (what @ '' must decode to exactly 32 bytes'')) else Inr raw)"

definition wallet_public_key_for :: "x25519 \<Rightarrow> string \<Rightarrow> thrown + string" where
  "wallet_public_key_for x priv = rbind (raw32 priv ''WALLET_KEY_PRIVATE_KEY'') (\<lambda>p. Inr (b64_encode (pub_of x p)))"

text \<open>\<open>eph\<close> is the ephemeral private key that \<open>generateKeyPairSync\<close> made, \<open>nonce\<close> the random bytes.\<close>

definition seal_to_recipient :: "gcm \<Rightarrow> x25519 \<Rightarrow> bytes \<Rightarrow> bytes \<Rightarrow> string \<Rightarrow> string \<Rightarrow> thrown + sealed" where
  "seal_to_recipient g x eph nonce plaintext recipient =
     rbind (raw32 recipient ''WALLET_KEY_PUBLIC_KEY'') (\<lambda>rraw.
       let eraw = pub_of x eph in
       rbind (dh x eph rraw) (\<lambda>shared.
         let key = hkdf x shared (eraw @ rraw) hkdf_info;
             (body, tag) = gcm_seal g key nonce (to_bytes plaintext)
         in Inr \<lparr>se_ciphertext = b64_encode (eraw @ nonce @ tag @ body),
                 se_version = current_key_version, se_algorithm = asymmetric_algorithm\<rparr>))"

definition open_from_recipient :: "gcm \<Rightarrow> x25519 \<Rightarrow> sealed \<Rightarrow> string \<Rightarrow> thrown + string" where
  "open_from_recipient g x s priv =
     (if se_algorithm s \<noteq> asymmetric_algorithm then Inl (ThrownError (''unsupported cipher '' @ se_algorithm s))
      else rbind (raw32 priv ''WALLET_KEY_PRIVATE_KEY'') (\<lambda>p.
        let rraw = pub_of x p;
            blob = b64_decode (se_ciphertext s);
            eraw = take 32 blob;
            nonce = take 12 (drop 32 blob);
            tag = take gcm_auth_tag_length (drop 44 blob);
            body = drop (44 + gcm_auth_tag_length) blob
        in rbind (dh x p eraw) (\<lambda>shared.
             rmap from_bytes (gcm_open g (hkdf x shared (eraw @ rraw) hkdf_info) nonce tag body))))"

section \<open>Opening a stored wallet key\<close>

text \<open>What \<open>JSON.parse\<close> makes of the stored text, as far as the shape test reads it: a non-string member is \<open>None\<close>.\<close>

datatype stored_blob = NotJson | NotAnObject | Stored "string option" "string option" int

record openers =
  op_master :: string
  op_wallet :: "string option"

definition is_sealed_to_recipient :: "sealed \<Rightarrow> bool" where
  "is_sealed_to_recipient s \<longleftrightarrow> se_algorithm s = asymmetric_algorithm"

definition open_wallet_key :: "gcm \<Rightarrow> x25519 \<Rightarrow> stored_blob \<Rightarrow> openers \<Rightarrow> thrown + string" where
  "open_wallet_key g x blob keys =
     (case blob of
        NotJson \<Rightarrow> Inl (ThrownError ''stored wallet key blob is not valid JSON'')
      | Stored (Some c) (Some a) v \<Rightarrow>
          (let s = \<lparr>se_ciphertext = c, se_version = v, se_algorithm = a\<rparr> in
           if is_sealed_to_recipient s
           then (case op_wallet keys of
                   None \<Rightarrow> Inl (ThrownError ''wallet key is sealed to the worker keypair but WALLET_KEY_PRIVATE_KEY is not configured'')
                 | Some priv \<Rightarrow> open_from_recipient g x s priv)
           else open_secret g s (op_master keys))
      | _ \<Rightarrow> Inl (ThrownError ''stored wallet key blob has an unexpected shape''))"

text \<open>\<open>JSON.stringify(sealed)\<close>, as the parse above reads it back.\<close>

definition stored_of :: "sealed \<Rightarrow> stored_blob" where
  "stored_of s = Stored (Some (se_ciphertext s)) (Some (se_algorithm s)) (se_version s)"

definition mask_tail :: "string \<Rightarrow> nat \<Rightarrow> string" where
  "mask_tail value visible = (let t = trim value; dots = replicate 4 (char_of (149 :: nat)) in
     if length t \<le> visible then dots
     else dots @ (if visible = 0 then t else drop (length t - visible) t))"

definition safe_equal :: "string \<Rightarrow> string \<Rightarrow> bool" where
  "safe_equal a b = (let x = to_bytes a; y = to_bytes b in if length x \<noteq> length y then False else x = y)"

section \<open>Redaction\<close>

text \<open>
  A regular expression of the form \<open>(prefix)run+\<close> replaced, all over a text, by \<open>$1[REDACTED]\<close>. \<open>pre s\<close> is
  the length of the prefix at the start of \<open>s\<close>, 0 when there is none.
\<close>

definition redacted :: string where "redacted = ''[REDACTED]''"

function redact_runs :: "(string \<Rightarrow> nat) \<Rightarrow> (char \<Rightarrow> bool) \<Rightarrow> string \<Rightarrow> string" where
  "redact_runs pre run [] = []"
| "redact_runs pre run (c # cs) =
     (let k = pre (c # cs); rest = drop k (c # cs)
      in if 0 < k \<and> rest \<noteq> [] \<and> run (hd rest)
         then take k (c # cs) @ redacted @ redact_runs pre run (dropWhile run rest)
         else c # redact_runs pre run cs)"
  by pat_completeness auto
termination
proof (relation "measure (\<lambda>(_, _, s). length s)", simp, goal_cases)
  case (1 pre run c cs k rest)
  have "length (dropWhile run rest) \<le> length rest" by (rule length_dropWhile_le)
  also have "length rest < length (c # cs)" using 1 by simp
  finally show ?case by simp
next
  case (2 pre run c cs k rest)
  then show ?case by simp
qed

declare redact_runs.simps(2) [simp del]

definition secret_names :: "string list" where
  "secret_names = [''key'', ''token'', ''apikey'', ''api_key'', ''access_token'', ''subjecttoken'', ''secret'', ''sig'',
     ''signature'', ''password'', ''pass'']"

definition param_prefix :: "string \<Rightarrow> nat" where
  "param_prefix s = (case s of
      [] \<Rightarrow> 0
    | c # cs \<Rightarrow> if c = CHR ''?'' \<or> c = CHR ''&''
        then (case List.find (\<lambda>n. starts_with (n @ ''='') (to_lower cs)) secret_names of
                None \<Rightarrow> 0 | Some n \<Rightarrow> length n + 2)
        else 0)"

definition param_run :: "char \<Rightarrow> bool" where
  "param_run c \<longleftrightarrow> c \<noteq> CHR ''&'' \<and> \<not> is_space c"

definition bot_prefix :: "string \<Rightarrow> nat" where
  "bot_prefix s = (if starts_with ''/bot'' (to_lower s) then 4 else 0)"

definition bot_run :: "char \<Rightarrow> bool" where
  "bot_run c \<longleftrightarrow> c \<noteq> CHR ''/'' \<and> c \<noteq> CHR ''?'' \<and> \<not> is_space c"

definition redact_url :: "string \<Rightarrow> string" where
  "redact_url url = redact_runs bot_prefix bot_run (redact_runs param_prefix param_run url)"

datatype json = JNull | JBool bool | JNum rat | JStr string | JArr "json list" | JObj "(string \<times> json) list"

definition sensitive_headers :: "string list" where
  "sensitive_headers = [''authorization'', ''cookie'', ''set-cookie'', ''x-api-key'', ''x-apikey'', ''api-key'', ''apikey'',
     ''x-auth-token'', ''x-wallet-jwt'', ''proxy-authorization'', ''privatekey'', ''sessionkey'', ''session_key'']"

fun redact_deep :: "json \<Rightarrow> json" where
  "redact_deep (JStr s) = JStr (redact_url s)"
| "redact_deep (JArr xs) = JArr (map redact_deep xs)"
| "redact_deep (JObj ms) =
     JObj (map (\<lambda>(k, v). (k, if to_lower k \<in> set sensitive_headers then JStr redacted else redact_deep v)) ms)"
| "redact_deep v = v"

section \<open>Round trips and errors\<close>

text \<open>The symmetric seal opens again under the same master key.\<close>

lemma sealed_secret_opens:
  assumes "gcm_laws g" and "length nonce = 12" and "seal_secret g nonce t master v = Inr s"
  shows "open_secret g s master = Inr t"
proof -
  obtain key where k: "derive_key master = Inr key" using assms(3) by (auto simp: seal_secret_def rbind_Inr_iff)
  obtain body tag where b: "gcm_seal g key nonce (to_bytes t) = (body, tag)" by fastforce
  have law: "length tag = 16" "gcm_open g key nonce tag body = Inr (to_bytes t)"
    using assms(1) b unfolding gcm_laws_def by (metis snd_conv, metis fst_conv snd_conv)
  have "s = \<lparr>se_ciphertext = b64_encode (nonce @ tag @ body), se_version = v, se_algorithm = symmetric_algorithm\<rparr>"
    using assms(3) by (simp add: seal_secret_def k b)
  then show ?thesis using assms(2) law by (simp add: open_secret_def k gcm_auth_tag_length_def)
qed

text \<open>
C28. What the web process seals to the worker's public key, the worker opens from the stored JSON.
\<close>

theorem sealed_wallet_key_opens:
  assumes laws: "gcm_laws g" "x25519_laws x" and len: "length nonce = 12" "length eph = 32"
    and pub: "wallet_public_key_for x priv = Inr recipient"
    and s: "seal_to_recipient g x eph nonce t recipient = Inr s" and keys: "op_wallet keys = Some priv"
  shows "open_wallet_key g x (stored_of s) keys = Inr t"
proof -
  obtain p where p: "raw32 priv ''WALLET_KEY_PRIVATE_KEY'' = Inr p" "recipient = b64_encode (pub_of x p)"
    using pub by (auto simp: wallet_public_key_for_def rbind_Inr_iff)
  then have lp: "length p = 32" by (auto simp: raw32_def Let_def split: if_splits)
  obtain sh where dh: "dh x eph (pub_of x p) = Inr sh" "dh x p (pub_of x eph) = Inr sh"
    and le: "length (pub_of x eph) = 32" and lr: "length (pub_of x p) = 32"
    using laws(2) len(2) lp unfolding x25519_laws_def by metis
  let ?key = "hkdf x sh (pub_of x eph @ pub_of x p) hkdf_info"
  obtain body tag where b: "gcm_seal g ?key nonce (to_bytes t) = (body, tag)" by fastforce
  have law: "length tag = 16" "gcm_open g ?key nonce tag body = Inr (to_bytes t)"
    using laws(1) b unfolding gcm_laws_def by (metis snd_conv, metis fst_conv snd_conv)
  have r: "raw32 recipient ''WALLET_KEY_PUBLIC_KEY'' = Inr (pub_of x p)"
    using p(2) lr by (simp add: raw32_def)
  have "s = \<lparr>se_ciphertext = b64_encode (pub_of x eph @ nonce @ tag @ body),
      se_version = current_key_version, se_algorithm = asymmetric_algorithm\<rparr>"
    using s by (simp add: seal_to_recipient_def r dh b Let_def)
  then show ?thesis using le len(1) law
    by (simp add: open_wallet_key_def stored_of_def is_sealed_to_recipient_def keys open_from_recipient_def p(1) dh
        gcm_auth_tag_length_def Let_def)
qed

definition demo_gcm :: gcm where
  "demo_gcm = \<lparr>gcm_seal = (\<lambda>k n t. (map (\<lambda>b. b + 1) t, replicate 16 7)), gcm_open = (\<lambda>k n tag c. Inr (map (\<lambda>b. b - 1) c))\<rparr>"

definition demo_x25519 :: x25519 where
  "demo_x25519 = \<lparr>pub_of = (\<lambda>p. p), dh = (\<lambda>a b. Inr (if length a = 32 \<and> length b = 32 then [1] else [])), hkdf = (\<lambda>s salt info. s @ salt)\<rparr>"

lemma demo_crypto: "gcm_laws demo_gcm" "x25519_laws demo_x25519"
  by (simp_all add: gcm_laws_def demo_gcm_def comp_def x25519_laws_def demo_x25519_def)

theorem sealed_wallet_key_opens_witness:
  "\<exists>s. seal_to_recipient demo_gcm demo_x25519 (replicate 32 3) (replicate 12 9) ''0xkey'' (b64_encode (replicate 32 5)) = Inr s \<and>
     open_wallet_key demo_gcm demo_x25519 (stored_of s)
       \<lparr>op_master = [], op_wallet = Some (b64_encode (replicate 32 5))\<rparr> = Inr ''0xkey''"
proof -
  let ?priv = "b64_encode (replicate 32 5)"
  have pub: "wallet_public_key_for demo_x25519 ?priv = Inr ?priv"
    by (simp add: wallet_public_key_for_def raw32_def demo_x25519_def)
  obtain s where s: "seal_to_recipient demo_gcm demo_x25519 (replicate 32 3) (replicate 12 9) ''0xkey'' ?priv = Inr s"
    by (simp add: seal_to_recipient_def raw32_def demo_x25519_def demo_gcm_def Let_def)
  from sealed_wallet_key_opens[OF demo_crypto _ _ pub s, of "\<lparr>op_master = [], op_wallet = Some ?priv\<rparr>"] s
  show ?thesis by simp
qed

definition fixed_key_errors :: "string list" where
  "fixed_key_errors = [''stored wallet key blob is not valid JSON'', ''stored wallet key blob has an unexpected shape'',
     ''wallet key is sealed to the worker keypair but WALLET_KEY_PRIVATE_KEY is not configured'',
     ''WALLET_KEY_PRIVATE_KEY must decode to exactly 32 bytes'', ''APP_ENCRYPTION_KEY must decode to exactly 32 bytes'']"

lemma open_secret_errors:
  "open_secret g s m = Inl e \<Longrightarrow> e \<in> ThrownError ` set fixed_key_errors \<or> e = ThrownError (''unsupported cipher '' @ se_algorithm s) \<or>
     (\<exists>k n t b. gcm_open g k n t b = Inl e)"
  by (auto simp: open_secret_def derive_key_def fixed_key_errors_def Let_def rmap_def rbind_def split: if_splits sum.splits)

lemma open_from_recipient_errors:
  "open_from_recipient g x s p = Inl e \<Longrightarrow> is_sealed_to_recipient s \<Longrightarrow> e \<in> ThrownError ` set fixed_key_errors \<or>
     (\<exists>k n t b. gcm_open g k n t b = Inl e) \<or> (\<exists>a b. dh x a b = Inl e)"
  by (auto simp: open_from_recipient_def is_sealed_to_recipient_def raw32_def fixed_key_errors_def Let_def rmap_def rbind_def
      split: if_splits sum.splits)

text \<open>
. An error of opening a stored key never quotes the stored text beyond the name of its algorithm: it
  is a fixed message, or an error of the cryptographic primitives.
\<close>

theorem wallet_key_errors:
  assumes "open_wallet_key g x blob keys = Inl e"
  shows "e \<in> ThrownError ` set fixed_key_errors \<or>
    (\<exists>c a v. blob = Stored (Some c) (Some a) v \<and> e = ThrownError (''unsupported cipher '' @ a)) \<or>
    (\<exists>k n t b. gcm_open g k n t b = Inl e) \<or> (\<exists>a b. dh x a b = Inl e)"
proof -
  note fixed = fixed_key_errors_def
  show ?thesis
  proof (cases blob)
    case (Stored c a v)
    show ?thesis
    proof (cases "\<exists>c' a'. c = Some c' \<and> a = Some a'")
      case True
      then obtain c' a' where ca: "c = Some c'" "a = Some a'" by blast
      let ?s = "\<lparr>se_ciphertext = c', se_version = v, se_algorithm = a'\<rparr>"
      show ?thesis
      proof (cases "is_sealed_to_recipient ?s")
        case True
        then show ?thesis using assms open_from_recipient_errors[of g x ?s _ e]
          by (cases "op_wallet keys") (auto simp: open_wallet_key_def Stored ca fixed)
      next
        case False
        then have "open_secret g ?s (op_master keys) = Inl e" using assms by (simp add: open_wallet_key_def Stored ca Let_def)
        from open_secret_errors[OF this] show ?thesis by (auto simp: Stored ca)
      qed
    next
      case False
      then have "e = ThrownError ''stored wallet key blob has an unexpected shape''"
        using assms by (cases c; cases a) (auto simp: open_wallet_key_def Stored)
      then show ?thesis by (simp add: fixed)
    qed
  qed (use assms in \<open>auto simp: open_wallet_key_def fixed\<close>)
qed

theorem wallet_key_errors_witness:
  "\<exists>e. open_wallet_key demo_gcm demo_x25519 (Stored (Some ''c'') (Some ''rot13'') 1) \<lparr>op_master = [], op_wallet = None\<rparr> = Inl e \<and>
     (e \<in> ThrownError ` set fixed_key_errors \<or>
      (\<exists>c a v. Stored (Some ''c'') (Some ''rot13'') 1 = Stored (Some c) (Some a) v \<and> e = ThrownError (''unsupported cipher '' @ a)) \<or>
      (\<exists>k n t b. gcm_open demo_gcm k n t b = Inl e) \<or> (\<exists>a b. dh demo_x25519 a b = Inl e))"
proof -
  have e: "open_wallet_key demo_gcm demo_x25519 (Stored (Some ''c'') (Some ''rot13'') 1) \<lparr>op_master = [], op_wallet = None\<rparr>
      = Inl (ThrownError ''unsupported cipher rot13'')"
    by (simp add: open_wallet_key_def is_sealed_to_recipient_def asymmetric_algorithm_def open_secret_def symmetric_algorithm_def)
  from wallet_key_errors[OF e] e show ?thesis by blast
qed

section \<open>What redaction hides\<close>

text \<open>
  A marker is a text that the prefix matches whole, and which a match that starts before it can only
  swallow or stop in front of.
\<close>

definition marks :: "(string \<Rightarrow> nat) \<Rightarrow> (char \<Rightarrow> bool) \<Rightarrow> string \<Rightarrow> bool" where
  "marks pre run m \<longleftrightarrow> m \<noteq> [] \<and> list_all run (tl m) \<and> (\<forall>y. pre (m @ y) = length m) \<and>
     (\<forall>u y. u \<noteq> [] \<longrightarrow> pre (u @ m @ y) = pre u \<and> pre u \<le> length u)"

lemma redact_step:
  "redact_runs pre run (c # cs) =
     (if 0 < pre (c # cs) \<and> drop (pre (c # cs)) (c # cs) \<noteq> [] \<and> run (hd (drop (pre (c # cs)) (c # cs)))
      then take (pre (c # cs)) (c # cs) @ redacted @ redact_runs pre run (dropWhile run (drop (pre (c # cs)) (c # cs)))
      else c # redact_runs pre run cs)"
  by (simp add: redact_runs.simps(2) Let_def)

lemma dropWhile_run_end: "list_all run v \<Longrightarrow> rest = [] \<or> \<not> run (hd rest) \<Longrightarrow> dropWhile run (v @ rest) = rest"
  by (induction v) (auto simp: dropWhile_hd_not)

lemma redact_same:
  assumes m: "marks pre run m" and v: "v \<noteq> []" "list_all run v" and w: "w \<noteq> []" "list_all run w"
    and rest: "rest = [] \<or> \<not> run (hd rest)"
  shows "redact_runs pre run (u @ m @ v @ rest) = redact_runs pre run (u @ m @ w @ rest)"
proof (induction u rule: length_induct)
  case (1 u)
  obtain a m' where ma: "m = a # m'" "list_all run m'" using m by (cases m) (auto simp: marks_def)
  have whole: "pre (m @ y) = length m" for y using m by (simp add: marks_def)
  show ?case
  proof (cases u)
    case Nil
    have "redact_runs pre run (m @ x @ rest) = m @ redacted @ redact_runs pre run rest"
      if x: "x \<noteq> []" "list_all run x" for x
    proof -
      have "hd (x @ rest) = hd x" "run (hd x)" using x by (auto simp: list_all_iff)
      then show ?thesis
        using whole[of "x @ rest"] x dropWhile_run_end[OF x(2) rest] by (simp add: ma(1) redact_step)
    qed
    with v w Nil show ?thesis by simp
  next
    case (Cons c u')
    have p: "pre (u @ m @ y) = pre u" "pre u \<le> length u" for y
      using m Cons unfolding marks_def by blast+
    let ?k = "pre u"
    have tail: "drop ?k (u @ m @ y) = drop ?k u @ m @ y" "take ?k (u @ m @ y) = take ?k u" for y using p(2) by simp_all
    have hd_eq: "hd (drop ?k u @ m @ y) = hd (drop ?k u @ m)" for y by (simp add: ma(1) hd_append)
    have step: "redact_runs pre run (u @ m @ y) =
      (if 0 < ?k \<and> run (hd (drop ?k u @ m)) then take ?k u @ redacted @ redact_runs pre run (dropWhile run (drop ?k u @ m @ y))
       else c # redact_runs pre run (u' @ m @ y))" for y
    proof -
      have "redact_runs pre run (u @ m @ y) =
        (if 0 < pre (u @ m @ y) \<and> drop (pre (u @ m @ y)) (u @ m @ y) \<noteq> [] \<and> run (hd (drop (pre (u @ m @ y)) (u @ m @ y)))
         then take (pre (u @ m @ y)) (u @ m @ y) @ redacted @
           redact_runs pre run (dropWhile run (drop (pre (u @ m @ y)) (u @ m @ y)))
         else c # redact_runs pre run (u' @ m @ y))"
        using redact_step[of pre run c "u' @ m @ y"] by (simp only: Cons append_Cons)
      then show ?thesis unfolding p(1) tail hd_eq by (simp add: ma(1))
    qed
    have "redact_runs pre run (dropWhile run (drop ?k u @ m @ v @ rest))
        = redact_runs pre run (dropWhile run (drop ?k u @ m @ w @ rest))" if k: "0 < ?k"
    proof (cases "list_all run (drop ?k u)")
      case False
      then have "dropWhile run (drop ?k u @ y) = dropWhile run (drop ?k u) @ y" for y
        by (auto simp: list_all_iff dropWhile_append1)
      moreover have "length (dropWhile run (drop ?k u)) < length u"
        using length_dropWhile_le[of run "drop ?k u"] k Cons by simp
      ultimately show ?thesis using 1 by simp
    next
      case True
      then have d: "dropWhile run (drop ?k u @ y) = dropWhile run y" for y by (simp add: list_all_iff dropWhile_append2)
      show ?thesis
      proof (cases "run a")
        case True
        then have "dropWhile run (m @ x @ rest) = rest" if "list_all run x" for x
          using dropWhile_run_end[of run "m @ x" rest] that ma rest by simp
        with v w show ?thesis by (simp only: d)
      next
        case False
        have "length ([] :: string) < length u" using Cons by simp
        then have "redact_runs pre run ([] @ m @ v @ rest) = redact_runs pre run ([] @ m @ w @ rest)" using 1 by blast
        then show ?thesis using False by (simp add: d ma(1))
      qed
    qed
    moreover have "redact_runs pre run (u' @ m @ v @ rest) = redact_runs pre run (u' @ m @ w @ rest)"
      using 1 Cons by simp
    ultimately show ?thesis by (simp add: step)
  qed
qed

lemma starts_with_other: "x \<notin> set p \<Longrightarrow> starts_with p (u @ x # y) = starts_with p u"
proof (induction u arbitrary: p)
  case Nil
  then show ?case by (cases p) (auto simp: starts_with_def)
next
  case (Cons c u)
  then show ?case by (cases p) (auto simp: starts_with_def)
qed

lemma starts_with_length: "starts_with p s \<Longrightarrow> length p \<le> length s"
  by (auto simp: starts_with_def) (metis length_take min.absorb_iff2)

lemma secret_name_chars:
  "n \<in> set secret_names \<Longrightarrow> CHR ''?'' \<notin> set (n @ ''='') \<and> CHR ''&'' \<notin> set (n @ ''='') \<and> CHR ''/'' \<notin> set (n @ ''='') \<and>
     (\<forall>c \<in> set n. param_run c)"
  by (auto simp: secret_names_def param_run_def is_space_def code_of_def)

lemma param_prefix_length: "param_prefix s \<le> length s"
  by (auto simp: param_prefix_def to_lower_def split: list.split option.split dest!: find_SomeD starts_with_length)

lemma find_name:
  assumes "n \<in> set secret_names"
  shows "List.find (\<lambda>x. starts_with (x @ ''='') (n @ ''='' @ y)) secret_names = Some n"
proof -
  have eq: "starts_with (x @ ''='') (n @ ''='' @ y) \<longleftrightarrow> x = n" if "x \<in> set secret_names" for x
  proof -
    have "starts_with (x @ [e]) (z @ e # y) \<longleftrightarrow> x = z" if "e \<notin> set x" "e \<notin> set z" for x z :: string and e
      using that
    proof (induction x arbitrary: z)
      case Nil
      then show ?case by (cases z) (auto simp: starts_with_def)
    next
      case (Cons a x)
      then show ?case by (cases z) (auto simp: starts_with_def)
    qed
    moreover have "list_all (\<lambda>x. CHR ''='' \<notin> set x) secret_names" by (simp add: secret_names_def)
    ultimately show ?thesis using that assms by (simp add: list_all_iff)
  qed
  have "List.find (\<lambda>x. x = n) ns = Some n" if "n \<in> set ns" for ns
    using that by (induction ns) auto
  then show ?thesis using assms find_cong_set[of secret_names _ "\<lambda>x. x = n", OF eq] by simp
qed

lemma lower_char_other: "code_of x < 65 \<Longrightarrow> lower_char c = x \<longleftrightarrow> c = x"
proof
  assume x: "code_of x < 65" and l: "lower_char c = x"
  show "c = x"
  proof (cases "65 \<le> code_of c \<and> code_of c \<le> 90")
    case True
    then have "code_of (lower_char c) = code_of c + 32" by (simp add: lower_char_def str_simps)
    with True x l show ?thesis by simp
  next
    case False
    with l show ?thesis by (auto simp: lower_char_def)
  qed
qed (auto simp: lower_char_def)

lemma lower_char_marks: "lower_char c = CHR ''&'' \<longleftrightarrow> c = CHR ''&''" "lower_char c = CHR ''?'' \<longleftrightarrow> c = CHR ''?''"
  "lower_char c = CHR ''/'' \<longleftrightarrow> c = CHR ''/''"
  by (simp_all add: lower_char_other code_of_def)

lemma param_run_lower: "param_run (lower_char c) = param_run c"
  by (simp add: param_run_def lower_char_marks)

lemma marks_param:
  assumes c: "c = CHR ''?'' \<or> c = CHR ''&''" and n: "to_lower n \<in> set secret_names"
  shows "marks param_prefix param_run (c # n @ ''='')"
proof -
  have low: "lower_char c = c" "lower_char CHR ''='' = CHR ''=''" using c by (auto simp: lower_char_def code_of_def)
  have run: "list_all param_run (n @ ''='')"
  proof -
    have "param_run (lower_char x)" if "x \<in> set n" for x
      using secret_name_chars[OF n] that by (simp add: to_lower_def)
    then have "param_run x" if "x \<in> set n" for x using that by (simp add: param_run_lower)
    then show ?thesis by (auto simp: list_all_iff param_run_def is_space_def code_of_def)
  qed
  have whole: "param_prefix (c # n @ ''='' @ y) = length n + 2" for y
    using c find_name[OF n, of "to_lower y"] by (simp add: param_prefix_def to_lower_append) (simp add: to_lower_def low)
  have before: "param_prefix (u @ (c # n @ ''='') @ y) = param_prefix u" if ne: "u \<noteq> []" for u y
  proof -
    obtain a b where u: "u = a # b" using ne by (cases u) auto
    have same: "List.find (\<lambda>x. starts_with (x @ ''='') (to_lower b @ c # z)) secret_names
        = List.find (\<lambda>x. starts_with (x @ ''='') (to_lower b)) secret_names" for z
      using c secret_name_chars by (intro find_cong_set) (auto intro!: starts_with_other)
    have "to_lower (b @ (c # n @ ''='') @ y) = to_lower b @ c # to_lower (n @ ''='' @ y)"
      by (simp add: to_lower_def low)
    then show ?thesis using same by (simp add: u param_prefix_def)
  qed
  show ?thesis using run whole before param_prefix_length by (simp add: marks_def)
qed

lemma redact_url_params:
  assumes "c = CHR ''?'' \<or> c = CHR ''&''" and "to_lower n \<in> set secret_names"
    and "v \<noteq> []" "list_all param_run v" "w \<noteq> []" "list_all param_run w" "rest = [] \<or> \<not> param_run (hd rest)"
  shows "redact_url (u @ (c # n @ ''='') @ v @ rest) = redact_url (u @ (c # n @ ''='') @ w @ rest)"
  unfolding redact_url_def redact_same[OF marks_param[OF assms(1,2)] assms(3-7)] ..

text \<open>A bot token sits in the path, before any query.\<close>

definition in_path :: "char \<Rightarrow> bool" where
  "in_path c \<longleftrightarrow> c \<noteq> CHR ''?'' \<and> c \<noteq> CHR ''&''"

lemma redact_params_path: "list_all in_path u \<Longrightarrow> redact_runs param_prefix param_run (u @ s) = u @ redact_runs param_prefix param_run s"
  by (induction u) (auto simp: redact_step param_prefix_def in_path_def)

lemma redact_hd: "s \<noteq> [] \<Longrightarrow> hd (redact_runs pre run s) = hd s \<and> redact_runs pre run s \<noteq> []"
  by (cases s) (auto simp: redact_step hd_append take_Cons')

lemma marks_bot: "to_lower m = ''/bot'' \<Longrightarrow> marks bot_prefix bot_run m"
proof -
  assume m: "to_lower m = ''/bot''"
  obtain a b c d where abcd: "m = [a, b, c, d]"
    using m by (auto simp: to_lower_def)
  have l: "lower_char a = CHR ''/''" "lower_char b = CHR ''b''" "lower_char c = CHR ''o''" "lower_char d = CHR ''t''"
    using m by (simp_all add: to_lower_def abcd)
  have "bot_run x" if "bot_run (lower_char x)" for x
    using that by (simp add: bot_run_def lower_char_marks)
  moreover have "bot_run CHR ''b''" "bot_run CHR ''o''" "bot_run CHR ''t''" by (simp_all add: bot_run_def is_space_def code_of_def)
  ultimately have run: "bot_run b" "bot_run c" "bot_run d" using l(2-4) by auto
  have len: "bot_prefix u \<le> length u" for u
    using starts_with_length[of "''/bot''" "to_lower u"] by (simp add: bot_prefix_def eval_nat_numeral)
  have whole: "bot_prefix (m @ y) = 4" for y
    by (simp add: bot_prefix_def abcd to_lower_def l starts_with_def)
  have before: "bot_prefix (u @ m @ y) = bot_prefix u" if ne: "u \<noteq> []" for u y
  proof -
    obtain e f where u: "u = e # f" using ne by (cases u) auto
    have "starts_with ''bot'' (to_lower f @ CHR ''/'' # z) = starts_with ''bot'' (to_lower f)" for z
      by (rule starts_with_other) simp
    then have "starts_with ''/bot'' (to_lower u @ CHR ''/'' # z) = starts_with ''/bot'' (to_lower u)" for z
      by (auto simp: u to_lower_def starts_with_def)
    then show ?thesis by (simp add: bot_prefix_def abcd to_lower_append) (simp add: to_lower_def l)
  qed
  show ?thesis using run len whole before by (simp add: marks_def abcd)
qed

lemma redact_url_bot:
  assumes u: "list_all in_path u" and m: "to_lower m = ''/bot''"
    and v: "v \<noteq> []" "list_all bot_run v" "list_all in_path v" and w: "w \<noteq> []" "list_all bot_run w" "list_all in_path w"
    and rest: "rest = [] \<or> \<not> bot_run (hd rest)"
  shows "redact_url (u @ m @ v @ rest) = redact_url (u @ m @ w @ rest)"
proof -
  have mp: "list_all in_path m"
  proof -
    have "in_path x" if "x \<in> set m" for x
    proof -
      have "lower_char x \<in> set ''/bot''" using that m by (metis imageI image_set to_lower_def)
      then show ?thesis using lower_char_marks[of x] by (auto simp: in_path_def)
    qed
    then show ?thesis by (simp add: list_all_iff)
  qed
  let ?r = "redact_runs param_prefix param_run rest"
  have r: "?r = [] \<or> \<not> bot_run (hd ?r)" using rest redact_hd[of rest param_prefix param_run] by (cases "rest = []") auto
  have "redact_runs param_prefix param_run (u @ m @ x @ rest) = u @ m @ x @ ?r" if "list_all in_path x" for x
    using redact_params_path[of "u @ m @ x" rest] u mp that by simp
  then show ?thesis using redact_same[OF marks_bot[OF m] v(1,2) w(1,2) r] v(3) w(3) by (simp add: redact_url_def)
qed

text \<open>
  Two texts that differ in one secret only: the value of a secret parameter, which ends at an ampersand
  or a space, or a bot token of a path, which ends at a slash, a question mark or a space.
\<close>

definition value_char :: "char \<Rightarrow> bool" where
  "value_char c \<longleftrightarrow> \<not> (c = CHR ''&'' \<or> is_space c)"

definition token_char :: "char \<Rightarrow> bool" where
  "token_char c \<longleftrightarrow> \<not> (c = CHR ''/'' \<or> c = CHR ''?'' \<or> is_space c)"

lemma value_char_run: "value_char = param_run" "token_char = bot_run"
  by (auto simp: value_char_def param_run_def token_char_def bot_run_def)

inductive same_but_secret :: "string \<Rightarrow> string \<Rightarrow> bool" where
  sb_param: "c = CHR ''?'' \<or> c = CHR ''&'' \<Longrightarrow> to_lower n \<in> set secret_names \<Longrightarrow> v \<noteq> [] \<Longrightarrow> list_all value_char v \<Longrightarrow>
    w \<noteq> [] \<Longrightarrow> list_all value_char w \<Longrightarrow> rest = [] \<or> \<not> value_char (hd rest) \<Longrightarrow>
    same_but_secret (u @ (c # n @ ''='') @ v @ rest) (u @ (c # n @ ''='') @ w @ rest)"
| sb_bot: "list_all in_path u \<Longrightarrow> to_lower m = ''/bot'' \<Longrightarrow> v \<noteq> [] \<Longrightarrow> list_all token_char v \<Longrightarrow> list_all in_path v \<Longrightarrow>
    w \<noteq> [] \<Longrightarrow> list_all token_char w \<Longrightarrow> list_all in_path w \<Longrightarrow> rest = [] \<or> \<not> token_char (hd rest) \<Longrightarrow>
    same_but_secret (u @ m @ v @ rest) (u @ m @ w @ rest)"

text \<open>Two log objects that differ only in such secrets, or below sensitive names.\<close>

inductive json_same :: "json \<Rightarrow> json \<Rightarrow> bool" where
  js_url: "same_but_secret s t \<Longrightarrow> json_same (JStr s) (JStr t)"
| js_elem: "json_same x y \<Longrightarrow> json_same (JArr (xs @ x # ys)) (JArr (xs @ y # ys))"
| js_member: "json_same x y \<Longrightarrow> json_same (JObj (ms @ (k, x) # ns)) (JObj (ms @ (k, y) # ns))"
| js_header: "to_lower k \<in> set sensitive_headers \<Longrightarrow> json_same (JObj (ms @ (k, x) # ns)) (JObj (ms @ (k, y) # ns))"
| js_refl: "json_same x x"
| js_trans: "json_same x y \<Longrightarrow> json_same y z \<Longrightarrow> json_same x z"

text \<open>
. Redaction hides: log objects that differ only in secret query values, bot tokens and the values of
  sensitive names are redacted to the same object, so the log says nothing of the secrets, not even
  their length.
\<close>

theorem redaction_hides_secrets: "json_same x y \<Longrightarrow> redact_deep x = redact_deep y"
proof (induction rule: json_same.induct)
  case (js_url s t)
  then have "redact_url s = redact_url t"
    unfolding same_but_secret.simps value_char_run by (blast intro: redact_url_params redact_url_bot)
  then show ?case by simp
qed simp_all

theorem redaction_hides_secrets_witness:
  "redact_deep (JObj [(''url'', JStr ''https://x.io/a?key=abc&b=1''), (''Cookie'', JNull)]) =
   redact_deep (JObj [(''url'', JStr ''https://x.io/a?key=zz&b=1''), (''Cookie'', JStr ''sid'')])"
proof (rule redaction_hides_secrets)
  have "same_but_secret (''https://x.io/a'' @ (CHR ''?'' # ''key'' @ ''='') @ ''abc'' @ ''&b=1'')
      (''https://x.io/a'' @ (CHR ''?'' # ''key'' @ ''='') @ ''zz'' @ ''&b=1'')"
    by (rule same_but_secret.sb_param) (simp_all add: secret_names_def to_lower_def lower_char_def code_of_def value_char_def is_space_def)
  then have "json_same (JStr ''https://x.io/a?key=abc&b=1'') (JStr ''https://x.io/a?key=zz&b=1'')" by (auto intro: json_same.js_url)
  then have "json_same (JObj ([] @ (''url'', JStr ''https://x.io/a?key=abc&b=1'') # [(''Cookie'', JNull)]))
      (JObj ([] @ (''url'', JStr ''https://x.io/a?key=zz&b=1'') # [(''Cookie'', JNull)]))" by (rule json_same.js_member)
  moreover have "to_lower ''Cookie'' = ''cookie''" by code_simp
  then have "json_same (JObj ([(''url'', JStr ''https://x.io/a?key=zz&b=1'')] @ (''Cookie'', JNull) # []))
      (JObj ([(''url'', JStr ''https://x.io/a?key=zz&b=1'')] @ (''Cookie'', JStr ''sid'') # []))"
    by (intro json_same.js_header) (simp add: sensitive_headers_def)
  ultimately show "json_same (JObj [(''url'', JStr ''https://x.io/a?key=abc&b=1''), (''Cookie'', JNull)])
      (JObj [(''url'', JStr ''https://x.io/a?key=zz&b=1''), (''Cookie'', JStr ''sid'')])"
    by (simp) (rule json_same.js_trans)
qed

end
