(* ===== verification/Notify.thy ===== *)
theory Notify
  imports Secrets
begin

text \<open>
  What an alert is called and what it says: the deduplication keys and job ids
  (\<open>packages/core/src/dedupe.ts\<close>), the rendering and truncation of messages and Discord embeds
  (\<open>packages/notifications/src/render.ts\<close>), and the guard against internal destinations
  (\<open>ssrf.ts\<close>). A UTF-16 unit outside ASCII that the source writes is one stand-in character (an emoji two).
\<close>

section \<open>Splitting and joining\<close>

fun split_on :: "char \<Rightarrow> string \<Rightarrow> string list" where
  "split_on c [] = [[]]"
| "split_on c (x # xs) =
     (if x = c then [] # split_on c xs
      else (case split_on c xs of [] \<Rightarrow> [[x]] | p # ps \<Rightarrow> (x # p) # ps))"

fun join_with :: "char \<Rightarrow> string list \<Rightarrow> string" where
  "join_with c [] = []"
| "join_with c [p] = p"
| "join_with c (p # q # ps) = p @ c # join_with c (q # ps)"

lemma split_on_ne [simp]: "split_on c s \<noteq> []"
  by (induction s) (auto split: list.split)

lemma split_on_part: "c \<notin> set p \<Longrightarrow> split_on c p = [p]"
  by (induction p) auto

lemma split_on_append: "c \<notin> set p \<Longrightarrow> split_on c (p @ c # s) = p # split_on c s"
  by (induction p) auto

lemma split_join: "ps \<noteq> [] \<Longrightarrow> list_all (\<lambda>p. c \<notin> set p) ps \<Longrightarrow> split_on c (join_with c ps) = ps"
  by (induction c ps rule: join_with.induct) (auto simp: split_on_part split_on_append)

lemma join_split: "join_with c (split_on c s) = s"
proof (induction s)
  case (Cons x xs)
  then show ?case by (cases "split_on c xs"; cases "tl (split_on c xs)") auto
qed simp

lemma split_on_chars: "p \<in> set (split_on c s) \<Longrightarrow> c \<notin> set p"
  by (induction s arbitrary: p) (auto split: if_splits list.splits)

section \<open>Names of alerts and jobs\<close>

datatype alert_type = RestrictedEligible | StageStarting | WatchedLive | WatchedNearingSellout | SourceFailure

fun alert_type_name :: "alert_type \<Rightarrow> string" where
  "alert_type_name RestrictedEligible = ''restricted_eligible''"
| "alert_type_name StageStarting = ''stage_starting''"
| "alert_type_name WatchedLive = ''watched_live''"
| "alert_type_name WatchedNearingSellout = ''watched_nearing_sellout''"
| "alert_type_name SourceFailure = ''source_failure''"

record alert_key_parts =
  kp_deployment :: string
  kp_wallet :: string
  kp_project :: string
  kp_stage :: string
  kp_type :: alert_type
  kp_threshold :: int

definition key_components :: "alert_key_parts \<Rightarrow> string list" where
  "key_components k = [kp_deployment k, kp_wallet k, kp_project k, kp_stage k, alert_type_name (kp_type k), show_int (kp_threshold k)]"

definition key_component :: "string \<Rightarrow> string" where
  "key_component c = show_nat (length c) @ CHR '':'' # c"

definition alert_dedupe_key :: "alert_key_parts \<Rightarrow> string" where
  "alert_dedupe_key k = join_with CHR ''|'' (map key_component (key_components k))"

text \<open>The parser of such a key: a length, a colon, that many characters, and a bar between the parts.\<close>

primrec parse_components :: "nat \<Rightarrow> string \<Rightarrow> string list option" where
  "parse_components 0 s = (if s = [] then Some [] else None)"
| "parse_components (Suc n) s =
     (let digits = takeWhile is_digit s; rest = dropWhile is_digit s; l = dec_val digits; body = tl rest
      in if is_decimal digits \<and> rest \<noteq> [] \<and> hd rest = CHR '':'' \<and> l \<le> length body
         then (let more = drop l body in
               if n = 0 then (if more = [] then Some [take l body] else None)
               else if more \<noteq> [] \<and> hd more = CHR ''|''
               then map_option (Cons (take l body)) (parse_components n (tl more)) else None)
         else None)"

definition parse_type :: "string \<Rightarrow> alert_type option" where
  "parse_type s = List.find (\<lambda>t. alert_type_name t = s)
     [RestrictedEligible, StageStarting, WatchedLive, WatchedNearingSellout, SourceFailure]"

definition parse_int :: "string \<Rightarrow> int option" where
  "parse_int s = (case s of
      [] \<Rightarrow> None
    | c # cs \<Rightarrow> if c = CHR ''-'' then (if is_decimal cs then Some (- int (dec_val cs)) else None)
                else if is_decimal s then Some (int (dec_val s)) else None)"

definition parse_dedupe_key :: "string \<Rightarrow> alert_key_parts option" where
  "parse_dedupe_key s = (case parse_components 6 s of
      Some [d, w, p, st, t, n] \<Rightarrow>
        (case (parse_type t, parse_int n) of
           (Some t', Some n') \<Rightarrow>
             Some \<lparr>kp_deployment = d, kp_wallet = w, kp_project = p, kp_stage = st, kp_type = t', kp_threshold = n'\<rparr>
         | _ \<Rightarrow> None)
    | _ \<Rightarrow> None)"

lemma parse_int_show [simp]: "parse_int (show_int i) = Some i"
proof (cases "i < 0")
  case True
  then show ?thesis by (simp add: show_int_def parse_int_def)
next
  case False
  obtain c cs where s: "show_nat (nat i) = c # cs" by (cases "show_nat (nat i)") auto
  then have "is_digit c" using show_nat_digits[of c "nat i"] by simp
  then have "c \<noteq> CHR ''-''" by (auto simp: is_digit_def code_of_def)
  moreover have "is_decimal (c # cs)" "dec_val (c # cs) = nat i" using s[symmetric] by simp_all
  ultimately show ?thesis using False s by (simp add: show_int_def parse_int_def)
qed

lemma parse_type_name [simp]: "parse_type (alert_type_name t) = Some t"
  by (cases t) (simp_all add: parse_type_def)

lemma parse_first:
  "takeWhile is_digit (key_component c @ s) = show_nat (length c)" "dropWhile is_digit (key_component c @ s) = CHR '':'' # c @ s"
proof -
  have d: "list_all is_digit (show_nat (length c))" using is_decimal_show_nat by (simp add: is_decimal_def)
  have nd: "\<not> is_digit CHR '':''" by (simp add: is_digit_def code_of_def)
  show "takeWhile is_digit (key_component c @ s) = show_nat (length c)"
    using d nd by (simp add: key_component_def takeWhile_append list_all_iff)
  show "dropWhile is_digit (key_component c @ s) = CHR '':'' # c @ s"
    using d nd by (simp add: key_component_def dropWhile_append list_all_iff)
qed

lemma parse_components_round:
  "cs \<noteq> [] \<Longrightarrow> parse_components (length cs) (join_with CHR ''|'' (map key_component cs)) = Some cs"
proof (induction cs)
  case (Cons c cs)
  show ?case
  proof (cases cs)
    case Nil
    then show ?thesis using parse_first[of c "[]"] by (simp add: Let_def)
  next
    case (Cons d ds)
    have "parse_components (length cs) (join_with CHR ''|'' (map key_component cs)) = Some cs"
      by (rule Cons.IH) (simp add: Cons)
    then show ?thesis
      using parse_first[of c "CHR ''|'' # join_with CHR ''|'' (map key_component cs)"] by (simp add: Cons Let_def)
  qed
qed simp

text \<open>
. A deduplication key is read back to the parts it was made of: two alerts share a key only if they
  agree in every part.
\<close>

theorem dedupe_key_round_trip: "parse_dedupe_key (alert_dedupe_key k) = Some k"
proof -
  have "parse_components 6 (alert_dedupe_key k) = Some (key_components k)"
    using parse_components_round[of "key_components k"] by (simp add: alert_dedupe_key_def key_components_def eval_nat_numeral)
  then show ?thesis by (simp add: parse_dedupe_key_def key_components_def)
qed

lemma dedupe_key_inj: "alert_dedupe_key k = alert_dedupe_key l \<Longrightarrow> k = l"
  by (metis dedupe_key_round_trip option.inject)

text \<open>The job ids.\<close>

definition dotted :: "string list \<Rightarrow> string" where
  "dotted = join_with CHR ''.''"

definition discovery_job :: "string \<Rightarrow> string \<Rightarrow> int \<Rightarrow> string" where
  "discovery_job provider drop_type window = dotted [''discover'', provider, drop_type, show_int window]"
definition detail_job :: "string \<Rightarrow> string \<Rightarrow> string \<Rightarrow> string" where
  "detail_job provider external bucket = dotted [''detail'', provider, external, bucket]"
definition chain_job :: "int \<Rightarrow> int \<Rightarrow> int \<Rightarrow> string" where
  "chain_job chain from_block to_block = dotted [''chain'', show_int chain, show_int from_block, show_int to_block]"
definition eligibility_job :: "string \<Rightarrow> string \<Rightarrow> int \<Rightarrow> string" where
  "eligibility_job wallet drop_id version = dotted [''eligibility'', wallet, drop_id, show_int version]"
definition notification_job :: "string \<Rightarrow> string" where
  "notification_job row = dotted [''notify'', row]"
definition rarity_job :: "string \<Rightarrow> int \<Rightarrow> string" where
  "rarity_job project at_ms = dotted [''rarity'', project, show_int (at_ms div 60000)]"

section \<open>IP addresses\<close>

text \<open>\<open>isIP\<close> of \<open>node:net\<close>: four decimal octets without leading zeros, or the groups of RFC 4291.\<close>

definition v4_octet :: "string \<Rightarrow> bool" where
  "v4_octet p \<longleftrightarrow> is_decimal p \<and> length p \<le> 3 \<and> dec_val p \<le> 255 \<and> (length p = 1 \<or> hd p \<noteq> CHR ''0'')"

definition is_ip4 :: "string \<Rightarrow> bool" where
  "is_ip4 s \<longleftrightarrow> (let ps = split_on CHR ''.'' s in length ps = 4 \<and> list_all v4_octet ps)"

definition v6_group :: "string \<Rightarrow> bool" where
  "v6_group p \<longleftrightarrow> 1 \<le> length p \<and> length p \<le> 4 \<and> list_all is_hex p"

text \<open>How many 16-bit groups a part of an address holds; a final dotted quad counts two.\<close>

definition v6_groups :: "bool \<Rightarrow> string \<Rightarrow> nat option" where
  "v6_groups quad s =
     (if s = [] then Some 0
      else let ps = split_on CHR '':'' s in
        if list_all v6_group ps then Some (length ps)
        else if quad \<and> list_all v6_group (butlast ps) \<and> is_ip4 (List.last ps) then Some (length ps + 1) else None)"

fun split_gap :: "string \<Rightarrow> (string \<times> string) option" where
  "split_gap (a # b # r) = (if a = CHR '':'' \<and> b = CHR '':'' then Some ([], r)
     else map_option (\<lambda>(l, t). (a # l, t)) (split_gap (b # r)))"
| "split_gap _ = None"

definition is_ip6 :: "string \<Rightarrow> bool" where
  "is_ip6 s \<longleftrightarrow> (let a = takeWhile (\<lambda>c. c \<noteq> CHR ''%'') s; zone = dropWhile (\<lambda>c. c \<noteq> CHR ''%'') s in
     (zone = [] \<or> tl zone \<noteq> []) \<and>
     (case split_gap a of
        None \<Rightarrow> v6_groups True a = Some 8
      | Some (l, r) \<Rightarrow> (case (v6_groups False l, v6_groups True r) of (Some m, Some n) \<Rightarrow> m + n \<le> 7 | _ \<Rightarrow> False)))"

definition is_ip :: "string \<Rightarrow> nat" where
  "is_ip s = (if is_ip4 s then 4 else if is_ip6 s then 6 else 0)"

section \<open>Private addresses\<close>

text \<open>The shifts and the bitwise or of the source act on 32 bits; \<open>>>> 0\<close> reads them unsigned.\<close>

definition ipv4_to_int :: "string \<Rightarrow> 32 word" where
  "ipv4_to_int ip = (let ps = map dec_val (split_on CHR ''.'' ip);
       part = (\<lambda>i. if i < length ps then word_of_nat (ps ! i) else 0)
     in or (or (or (push_bit 24 (part 0)) (push_bit 16 (part 1))) (push_bit 8 (part 2))) (part 3))"

definition is_private_v4 :: "string \<Rightarrow> bool" where
  "is_private_v4 ip = (let v = ipv4_to_int ip;
       octet1 = drop_bit 24 v;
       octet2 = and (drop_bit 16 v) 255
     in octet1 = 127 \<or> octet1 = 10 \<or> (octet1 = 172 \<and> octet2 \<ge> 16 \<and> octet2 \<le> 31) \<or> (octet1 = 192 \<and> octet2 = 168) \<or>
        (octet1 = 169 \<and> octet2 = 254) \<or> octet1 = 0 \<or> octet1 \<ge> 240)"

definition is_private_v6 :: "string \<Rightarrow> bool" where
  "is_private_v6 ip = (let n = to_lower ip in
     n = ''::'' \<or> n = ''::1'' \<or> starts_with ''fe80'' n \<or> starts_with ''fc'' n \<or> starts_with ''fd'' n \<or> starts_with ''ff'' n \<or>
     starts_with ''::ffff:127.'' n \<or> starts_with ''::ffff:10.'' n \<or> starts_with ''::ffff:192.168.'' n \<or>
     starts_with ''::ffff:172.'' n)"

definition is_private_address :: "string \<Rightarrow> bool" where
  "is_private_address ip = (if is_ip ip = 4 then is_private_v4 ip else if is_ip ip = 6 then is_private_v6 ip else True)"

text \<open>The reference: an address lies in a block when they agree on the block's prefix.\<close>

type_synonym block = "nat \<times> nat"

definition address_value :: "nat list \<Rightarrow> nat" where
  "address_value ds = foldl (\<lambda>a d. 256 * a + d) 0 ds"

definition in_block :: "nat list \<Rightarrow> nat list \<times> nat \<Rightarrow> bool" where
  "in_block ds b = (address_value ds div 2 ^ (32 - snd b) = address_value (fst b) div 2 ^ (32 - snd b))"

text \<open>This network, private, loopback, link-local and reserved, as CIDR blocks.\<close>

definition internal_blocks :: "(nat list \<times> nat) list" where
  "internal_blocks = [([0, 0, 0, 0], 8), ([10, 0, 0, 0], 8), ([127, 0, 0, 0], 8), ([172, 16, 0, 0], 12), ([192, 168, 0, 0], 16),
     ([169, 254, 0, 0], 16), ([240, 0, 0, 0], 4)]"

definition octets_of :: "string \<Rightarrow> nat list" where
  "octets_of ip = map dec_val (split_on CHR ''.'' ip)"

lemma octet_bit: "x < 256 \<Longrightarrow> bit (x::nat) n \<Longrightarrow> n < 8"
proof -
  assume "x < 256" "bit x n"
  then have "bit (take_bit 8 x) n" by (simp add: take_bit_nat_eq_self)
  then show ?thesis by (simp add: bit_simps)
qed

lemma low_mask: "(255 :: 32 word) = mask 8"
  by (simp add: mask_eq_exp_minus_1)

lemma octet_parts32:
  assumes "a < 256" "b < 256" "c < 256" "d < 256"
  shows "drop_bit 24 (or (or (or (push_bit 24 (word_of_nat a :: 32 word)) (push_bit 16 (word_of_nat b))) (push_bit 8 (word_of_nat c))) (word_of_nat d)) = word_of_nat a"
    and "and (drop_bit 16 (or (or (or (push_bit 24 (word_of_nat a :: 32 word)) (push_bit 16 (word_of_nat b))) (push_bit 8 (word_of_nat c))) (word_of_nat d))) 255 = word_of_nat b"
  unfolding low_mask
  by (rule bit_word_eqI; auto simp: bit_simps dest: octet_bit[OF assms(1)] octet_bit[OF assms(2)] octet_bit[OF assms(3)] octet_bit[OF assms(4)])+

lemma octet_unat: "x < 256 \<Longrightarrow> unat (word_of_nat x :: 32 word) = x"
  by (simp add: unat_of_nat)

lemma octet_cmp:
  assumes "x < 256" and "n < 256"
  shows "(word_of_nat x :: 32 word) = word_of_nat n \<longleftrightarrow> x = n" "(word_of_nat n :: 32 word) \<le> word_of_nat x \<longleftrightarrow> n \<le> x"
  using assms by (metis octet_unat) (simp add: word_le_nat_alt octet_unat assms)

lemma quad_div:
  assumes "b < 256" "c < 256" "d < (256::nat)"
  shows "(256 * (256 * (256 * a + b) + c) + d) div 65536 = 256 * a + b"
    "(256 * (256 * (256 * a + b) + c) + d) div 16777216 = a"
    "(256 * (256 * (256 * a + b) + c) + d) div 1048576 = 16 * a + b div 16"
    "(256 * (256 * (256 * a + b) + c) + d) div 268435456 = a div 16"
proof -
  let ?v = "256 * (256 * (256 * a + b) + c) + d"
  have s: "(256 * x + y) div 256 = x" if "y < 256" for x y :: nat using that by simp
  have "?v div (256 * 256) = 256 * a + b" unfolding div_mult2_eq s[OF assms(3)] s[OF assms(2)] ..
  then show v: "?v div 65536 = 256 * a + b" by simp
  have "?v div (65536 * 256) = a" unfolding div_mult2_eq v s[OF assms(1)] ..
  then show w: "?v div 16777216 = a" by simp
  have "?v div (65536 * 16) = (256 * a + b) div 16" unfolding div_mult2_eq v ..
  also have "\<dots> = 16 * a + b div 16" by linarith
  finally show "?v div 1048576 = 16 * a + b div 16" by simp
  have "?v div (16777216 * 16) = a div 16" unfolding div_mult2_eq w ..
  then show "?v div 268435456 = a div 16" by simp
qed

lemma is_ip4_octets:
  assumes "is_ip4 ip"
  obtains a b c d where "octets_of ip = [a, b, c, d]" "a < 256" "b < 256" "c < 256" "d < 256"
proof -
  from assms obtain p q r s where "split_on CHR ''.'' ip = [p, q, r, s]" "list_all v4_octet [p, q, r, s]"
    by (auto simp: is_ip4_def Let_def length_Suc_conv eval_nat_numeral)
  then show ?thesis by (intro that[of "dec_val p" "dec_val q" "dec_val r" "dec_val s"]) (auto simp: octets_of_def v4_octet_def)
qed

lemma private_v4_cidr:
  assumes "is_ip4 ip"
  shows "is_private_v4 ip \<longleftrightarrow> (\<exists>b \<in> set internal_blocks. in_block (octets_of ip) b)"
proof -
  obtain a b c d where o: "octets_of ip = [a, b, c, d]" and l: "a < 256" "b < 256" "c < 256" "d < 256"
    using is_ip4_octets[OF assms] .
  let ?v = "ipv4_to_int ip"
  have v: "?v = or (or (or (push_bit 24 (word_of_nat a)) (push_bit 16 (word_of_nat b))) (push_bit 8 (word_of_nat c))) (word_of_nat d)"
    using o by (simp add: ipv4_to_int_def octets_of_def Let_def eval_nat_numeral)
  have w: "drop_bit 24 ?v = word_of_nat a" "and (drop_bit 16 ?v) 255 = word_of_nat b"
    unfolding v by (rule octet_parts32[OF l])+
  have "is_private_v4 ip \<longleftrightarrow> a = 127 \<or> a = 10 \<or> (a = 172 \<and> 16 \<le> b \<and> b \<le> 31) \<or> (a = 192 \<and> b = 168) \<or>
      (a = 169 \<and> b = 254) \<or> a = 0 \<or> 240 \<le> a"
    unfolding is_private_v4_def Let_def w
    using octet_cmp[OF l(1), of 127] octet_cmp[OF l(1), of 10] octet_cmp[OF l(1), of 172] octet_cmp[OF l(1), of 192]
      octet_cmp[OF l(1), of 169] octet_cmp[OF l(1), of 0] octet_cmp[OF l(1), of 240] octet_cmp[OF l(2), of 16]
      octet_cmp[of 31 b] octet_cmp[OF l(2), of 168] octet_cmp[OF l(2), of 254] l
    by simp
  also have "\<dots> \<longleftrightarrow> a = 0 \<or> a = 10 \<or> a = 127 \<or> 16 * a + b div 16 = 2753 \<or> 256 * a + b = 49320 \<or> 256 * a + b = 43518 \<or> a div 16 = 15"
  proof -
    have "16 * a + x = 2753 \<longleftrightarrow> a = 172 \<and> x = 1" if "x < 16" for x using that by arith
    then have "16 * a + b div 16 = 2753 \<longleftrightarrow> a = 172 \<and> b div 16 = 1" using l(2) by simp
    moreover have "b div 16 = 1 \<longleftrightarrow> 16 \<le> b \<and> b \<le> 31" by arith
    moreover have "256 * a + b = 49320 \<longleftrightarrow> a = 192 \<and> b = 168" using l(2) by arith
    moreover have "256 * a + b = 43518 \<longleftrightarrow> a = 169 \<and> b = 254" using l(2) by arith
    moreover have "a div 16 = 15 \<longleftrightarrow> 240 \<le> a" using l(1) by arith
    ultimately show ?thesis by blast
  qed
  also have "\<dots> \<longleftrightarrow> (\<exists>b \<in> set internal_blocks. in_block (octets_of ip) b)"
    using quad_div[OF l(2-4), of a] unfolding o
    by (simp add: internal_blocks_def in_block_def address_value_def)
  finally show ?thesis .
qed

text \<open>
. For an IPv4 address, the bit operations of the private test decide membership in the internal CIDR
  blocks, compared by prefix.
\<close>

theorem private_v4_is_cidr:
  assumes "is_ip4 ip"
  shows "is_private_v4 ip \<longleftrightarrow> (\<exists>b \<in> set internal_blocks. in_block (octets_of ip) b)"
  by (rule private_v4_cidr[OF assms])

theorem private_v4_is_cidr_witness:
  "is_private_v4 ''172.20.1.2'' \<longleftrightarrow> (\<exists>b \<in> set internal_blocks. in_block (octets_of ''172.20.1.2'') b)"
  by (rule private_v4_is_cidr) code_simp

section \<open>The webhook guard\<close>

text \<open>What the guard and its callers read of a \<open>URL\<close>; \<open>parse\<close> is the constructor, \<open>None\<close> where it throws.\<close>

record url =
  url_protocol :: string
  url_hostname :: string
  url_username :: string
  url_password :: string
  url_text :: string

record webhook_env =
  parse_url :: "string \<Rightarrow> url option"
  dns_lookup :: "string \<Rightarrow> string list option"

definition is_loopback_host :: "url \<Rightarrow> bool" where
  "is_loopback_host u \<longleftrightarrow> url_hostname u \<in> {''localhost'', ''127.0.0.1'', ''[::1]''}"

definition config_error :: "string \<Rightarrow> string option \<Rightarrow> thrown" where
  "config_error m hint = ThrownApp (mk_app_error PermanentConfig m (no_options\<lparr>opt_hint := hint\<rparr>))"

definition assert_safe_webhook_url :: "webhook_env \<Rightarrow> bool \<Rightarrow> string \<Rightarrow> thrown + url" where
  "assert_safe_webhook_url env allow_insecure raw =
     (case parse_url env raw of
        None \<Rightarrow> Inl (config_error ''webhook URL is not a valid URL'' None)
      | Some u \<Rightarrow>
          let dev = (allow_insecure \<and> is_loopback_host u \<and> url_protocol u = ''http:'')
          in if url_protocol u \<noteq> ''https:'' \<and> \<not> (allow_insecure \<and> is_loopback_host u)
             then Inl (config_error ''webhook URL must use https'' None)
             else if url_username u \<noteq> [] \<or> url_password u \<noteq> []
             then Inl (config_error ''webhook URL must not embed credentials'' None)
             else if is_ip (url_hostname u) \<noteq> 0
             then (if is_private_address (url_hostname u) \<and> \<not> dev
                   then Inl (config_error ''webhook URL points at a private address'' None) else Inr u)
             else case dns_lookup env (url_hostname u) of
                    None \<Rightarrow> Inl (config_error ''webhook host does not resolve'' (Some ''check the webhook hostname''))
                  | Some addresses \<Rightarrow>
                      if \<exists>a \<in> set addresses. is_private_address a \<and> \<not> dev
                      then Inl (config_error ''webhook host resolves to a private address''
                        (Some ''SSRF protection blocks internal destinations''))
                      else Inr u)"

text \<open>The addresses a request to the URL may go to, as the guard sees them.\<close>

definition destinations :: "webhook_env \<Rightarrow> url \<Rightarrow> string set" where
  "destinations env u = (if is_ip (url_hostname u) \<noteq> 0 then {url_hostname u}
     else (case dns_lookup env (url_hostname u) of None \<Rightarrow> {} | Some as \<Rightarrow> set as))"

definition guarded :: "webhook_env \<Rightarrow> url \<Rightarrow> bool" where
  "guarded env u \<longleftrightarrow> url_protocol u = ''https:'' \<and> url_username u = [] \<and> url_password u = [] \<and>
     (\<forall>a \<in> destinations env u. (is_ip4 a \<or> is_ip6 a) \<and>
        (is_ip4 a \<longrightarrow> (\<forall>b \<in> set internal_blocks. \<not> in_block (octets_of a) b)))"

lemma is_ip_cases: "is_ip a = 4 \<longleftrightarrow> is_ip4 a" "is_ip a = 0 \<longleftrightarrow> \<not> is_ip4 a \<and> \<not> is_ip6 a"
  by (auto simp: is_ip_def)

lemma public_address:
  assumes "\<not> is_private_address a"
  shows "(is_ip4 a \<or> is_ip6 a) \<and> (is_ip4 a \<longrightarrow> (\<forall>b \<in> set internal_blocks. \<not> in_block (octets_of a) b))"
  using assms private_v4_cidr[of a] by (auto simp: is_private_address_def is_ip_def split: if_splits)

lemma guard_ok: "assert_safe_webhook_url env False raw = Inr u \<Longrightarrow> guarded env u"
  unfolding guarded_def destinations_def assert_safe_webhook_url_def
  using public_address by (auto simp: Let_def split: option.splits if_splits)

text \<open>
. A URL the guard accepts is https without credentials, and no address it resolves to lies in an
  internal IPv4 block.
\<close>

theorem webhook_guard_blocks_internal:
  assumes "assert_safe_webhook_url env False raw = Inr u"
  shows "url_protocol u = ''https:'' \<and> url_username u = [] \<and> url_password u = [] \<and>
    (\<forall>a \<in> destinations env u. is_ip4 a \<longrightarrow> (\<forall>b \<in> set internal_blocks. \<not> in_block (octets_of a) b))"
  using guard_ok[OF assms] by (simp add: guarded_def)

definition demo_env :: webhook_env where
  "demo_env = \<lparr>parse_url = (\<lambda>s. Some \<lparr>url_protocol = ''https:'', url_hostname = drop 8 s, url_username = [], url_password = [], url_text = s\<rparr>),
     dns_lookup = (\<lambda>h. if h = ''hooks.io'' then Some [''93.184.216.34''] else if h = ''meta.io'' then Some [''::ffff:169.254.169.254''] else None)\<rparr>"

lemmas ip_eval = is_ip_def is_ip4_def is_ip6_def v4_octet_def v6_groups_def v6_group_def is_decimal_def is_digit_def is_hex_def
  code_of_def dec_val_def digit_val_def Let_def is_private_address_def

theorem webhook_guard_blocks_internal_witness:
  "\<exists>u. assert_safe_webhook_url demo_env False ''https://hooks.io'' = Inr u \<and> url_protocol u = ''https:'' \<and>
     (\<forall>b \<in> set internal_blocks. \<not> in_block (octets_of ''93.184.216.34'') b)"
proof -
  have a: "\<not> is_private_address ''93.184.216.34''" by code_simp
  have i: "is_ip ''hooks.io'' = 0" by code_simp
  obtain u where u: "assert_safe_webhook_url demo_env False ''https://hooks.io'' = Inr u" "destinations demo_env u = {''93.184.216.34''}"
    using a i by (auto simp: assert_safe_webhook_url_def demo_env_def destinations_def)
  moreover have "is_ip4 ''93.184.216.34''" by code_simp
  ultimately show ?thesis using webhook_guard_blocks_internal[OF u(1)] by auto
qed

text \<open>
. The guard accepts a host that resolves to the IPv4-mapped form of a link-local address, such as the
  metadata service of a cloud, although it refuses the same address in its own form.
\<close>

theorem mapped_link_local_passes:
  assumes "parse_url env raw = Some u" and "url_protocol u = ''https:''" and "url_username u = []" and "url_password u = []"
    and "is_ip (url_hostname u) = 0" and "dns_lookup env (url_hostname u) = Some [''::ffff:169.254.169.254'']"
  shows "assert_safe_webhook_url env False raw = Inr u \<and> is_private_address ''169.254.169.254''"
proof -
  have "\<not> is_private_address ''::ffff:169.254.169.254''" by code_simp
  moreover have "is_private_address ''169.254.169.254''" by code_simp
  ultimately show ?thesis using assms by (simp add: assert_safe_webhook_url_def Let_def)
qed

theorem mapped_link_local_passes_witness:
  "\<exists>u. assert_safe_webhook_url demo_env False ''https://meta.io'' = Inr u \<and> is_private_address ''169.254.169.254''"
proof -
  let ?u = "\<lparr>url_protocol = ''https:'', url_hostname = ''meta.io'', url_username = [], url_password = [], url_text = ''https://meta.io''\<rparr>"
  have i: "is_ip ''meta.io'' = 0" by code_simp
  have "parse_url demo_env ''https://meta.io'' = Some ?u" by (simp add: demo_env_def)
  from mapped_link_local_passes[OF this] i show ?thesis by (auto simp: demo_env_def)
qed

section \<open>Messages\<close>

definition em_dash :: string where "em_dash = [char_of (151 :: nat)]"

definition truncate_discord :: "string \<Rightarrow> nat \<Rightarrow> string" where
  "truncate_discord v n = (if v = [] then [] else if length v \<le> n then v else take (n - 1) v @ [ellipsis])"

definition format_countdown :: "utc option \<Rightarrow> utc \<Rightarrow> string option" where
  "format_countdown start now = (case start of
      None \<Rightarrow> None
    | Some t \<Rightarrow> (case (t, now) of
        (Some a, Some b) \<Rightarrow>
          let delta = a - b; minutes = \<bar>delta\<bar> div 60000; hours = minutes div 60; days = hours div 24;
              suffix = (if delta \<ge> 0 then ''from now'' else ''ago'')
          in Some (if days > 0 then show_int days @ ''d '' @ show_int (hours mod 24) @ ''h '' @ suffix
                   else if hours > 0 then show_int hours @ ''h '' @ show_int (minutes mod 60) @ ''m '' @ suffix
                   else show_int minutes @ ''m '' @ suffix)
      | _ \<Rightarrow> None))"

record alert_render_input =
  ri_type :: alert_type
  ri_threshold :: int
  ri_project_name :: string
  ri_project_slug :: "string option"
  ri_opensea_url :: "string option"
  ri_stage_label :: string
  ri_price :: "string option"
  ri_max_per_wallet :: "int option"
  ri_wallet_label :: "string option"
  ri_wallet_address :: string
  ri_starts :: "utc option"
  ri_ends :: "utc option"

abbreviation (input) unit_of :: "nat \<Rightarrow> char" where "unit_of n \<equiv> char_of n"

definition alert_title :: "alert_render_input \<Rightarrow> string" where
  "alert_title i = (case ri_type i of
      RestrictedEligible \<Rightarrow> [unit_of 128, unit_of 129] @ '' WL HIT: '' @ ri_project_name i
    | StageStarting \<Rightarrow> [unit_of 130] @ '' STARTING IN '' @ show_int (ri_threshold i) @ ''m: '' @ ri_project_name i
        @ '' '' @ em_dash @ '' '' @ ri_stage_label i
    | WatchedLive \<Rightarrow> [unit_of 131, unit_of 132] @ '' WATCHED DROP IS LIVE: '' @ ri_project_name i
    | WatchedNearingSellout \<Rightarrow> [unit_of 134, unit_of 135] @ '' NEARING SELL-OUT: '' @ ri_project_name i
    | SourceFailure \<Rightarrow> [unit_of 136, unit_of 137] @ '' PROVIDER ISSUE: '' @ ri_project_name i)"

definition alert_link :: "alert_render_input \<Rightarrow> string option" where
  "alert_link i = (case ri_opensea_url i of
      Some u \<Rightarrow> Some u
    | None \<Rightarrow> map_option (\<lambda>s. ''https://opensea.io/collection/'' @ s @ ''/overview'') (ri_project_slug i))"

definition or_else :: "string option \<Rightarrow> string \<Rightarrow> string" where
  "or_else v d = (case v of None \<Rightarrow> d | Some s \<Rightarrow> s)"

text \<open>\<open>fmt\<close> is \<open>formatDateTimeGmt7\<close>, which formats with the platform's \<open>Intl\<close>.\<close>

definition render_alert_message :: "(utc option \<Rightarrow> string) \<Rightarrow> alert_render_input \<Rightarrow> utc \<Rightarrow> string" where
  "render_alert_message fmt i now =
     (let head = [alert_title i,
            ''Stage: '' @ ri_stage_label i @ '' | Price: '' @ or_else (ri_price i) ''?'' @ '' | Max/wallet: ''
              @ or_else (map_option show_int (ri_max_per_wallet i)) ''?''];
          wallet = (if ri_wallet_address i \<noteq> [] then [''Wallet: '' @ or_else (ri_wallet_label i) (ri_wallet_address i)] else []);
          starts = (case format_countdown (ri_starts i) now of
              None \<Rightarrow> [] | Some c \<Rightarrow> [''Starts: '' @ fmt (ri_starts i) @ '' ('' @ c @ '')'']);
          ends = (if ri_ends i \<noteq> None then [''Ends: '' @ fmt (ri_ends i)] else []);
          link = (case alert_link i of None \<Rightarrow> [] | Some l \<Rightarrow> [''Mint: '' @ l])
      in join_with (char_of (10 :: nat)) (head @ wallet @ starts @ ends @ link))"

section \<open>Discord embeds\<close>

record embed_field =
  ef_name :: string
  ef_value :: string
  ef_inline :: "bool option"

record embed =
  em_title :: string
  em_url :: "string option"
  em_description :: "string option"
  em_color :: int
  em_fields :: "embed_field list"
  em_footer :: string
  em_timestamp :: string

definition nonempty_or :: "string \<Rightarrow> string \<Rightarrow> string" where
  "nonempty_or s d = (if s = [] then d else s)"

definition safe_field :: "embed_field \<Rightarrow> embed_field" where
  "safe_field f = f\<lparr>ef_name := nonempty_or (truncate_discord (ef_name f) 256) em_dash,
     ef_value := nonempty_or (truncate_discord (ef_value f) 1024) em_dash\<rparr>"

definition field_length :: "embed_field \<Rightarrow> nat" where
  "field_length f = length (ef_name f) + length (ef_value f)"

fun fields_within :: "nat \<Rightarrow> embed_field list \<Rightarrow> embed_field list" where
  "fields_within used [] = []"
| "fields_within used (f # fs) =
     (if used + field_length f > 5500 then [] else f # fields_within (used + field_length f) fs)"

definition opt_length :: "string option \<Rightarrow> nat" where
  "opt_length s = (case s of None \<Rightarrow> 0 | Some t \<Rightarrow> length t)"

definition some_nonempty :: "string option \<Rightarrow> string option" where
  "some_nonempty s = (case s of None \<Rightarrow> None | Some t \<Rightarrow> if t = [] then None else Some t)"

definition sanitize_embed :: "embed \<Rightarrow> embed" where
  "sanitize_embed e =
     (let title = truncate_discord (em_title e) 256;
          description = map_option (\<lambda>d. truncate_discord d 4000) (some_nonempty (em_description e));
          footer = truncate_discord (em_footer e) 2048;
          fields = map safe_field (take 25 (em_fields e));
          used = length title + opt_length description + length footer
      in \<lparr>em_title = title, em_url = some_nonempty (em_url e), em_description = some_nonempty description, em_color = em_color e,
          em_fields = fields_within used fields, em_footer = footer, em_timestamp = em_timestamp e\<rparr>)"

definition alert_color :: "alert_type \<Rightarrow> int" where
  "alert_color t = (case t of
      RestrictedEligible \<Rightarrow> 3800968 | StageStarting \<Rightarrow> 16757504 | WatchedLive \<Rightarrow> 16723622
    | WatchedNearingSellout \<Rightarrow> 16757504 | SourceFailure \<Rightarrow> 9080728)"

definition plain_field :: "string \<Rightarrow> string \<Rightarrow> bool \<Rightarrow> embed_field" where
  "plain_field n v i = \<lparr>ef_name = n, ef_value = truncate_discord v 256, ef_inline = Some i\<rparr>"

definition raw_alert_embed :: "(utc option \<Rightarrow> string) \<Rightarrow> alert_render_input \<Rightarrow> utc \<Rightarrow> string \<Rightarrow> embed" where
  "raw_alert_embed fmt i now now_text =
     (let base = [plain_field ''Stage'' (ri_stage_label i) True, plain_field ''Price'' (or_else (ri_price i) ''?'') True,
            plain_field ''Max/wallet'' (or_else (map_option show_int (ri_max_per_wallet i)) ''?'') True];
          wallet = (if ri_wallet_address i \<noteq> []
            then [plain_field ''Wallet'' (or_else (ri_wallet_label i) (ri_wallet_address i)) True] else []);
          starts = (case format_countdown (ri_starts i) now of
              None \<Rightarrow> [] | Some c \<Rightarrow> [plain_field ''Starts'' (fmt (ri_starts i) @ '' ('' @ c @ '')'') False]);
          ends = (if ri_ends i \<noteq> None then [plain_field ''Ends'' (fmt (ri_ends i)) False] else [])
      in \<lparr>em_title = truncate_discord (alert_title i) 256, em_url = alert_link i, em_description = None,
           em_color = alert_color (ri_type i), em_fields = base @ wallet @ starts @ ends, em_footer = ''HoodMint Radar'',
           em_timestamp = now_text\<rparr>)"

definition render_alert_embed :: "(utc option \<Rightarrow> string) \<Rightarrow> alert_render_input \<Rightarrow> utc \<Rightarrow> string \<Rightarrow> embed" where
  "render_alert_embed fmt i now now_text = sanitize_embed (raw_alert_embed fmt i now now_text)"

text \<open>Discord's documented limits of one embed.\<close>

definition embed_total :: "embed \<Rightarrow> nat" where
  "embed_total e = length (em_title e) + opt_length (em_description e) + length (em_footer e) + sum_list (map field_length (em_fields e))"

definition field_ok :: "embed_field \<Rightarrow> bool" where
  "field_ok f \<longleftrightarrow> 1 \<le> length (ef_name f) \<and> length (ef_name f) \<le> 256 \<and> 1 \<le> length (ef_value f) \<and> length (ef_value f) \<le> 1024"

definition embed_ok :: "embed \<Rightarrow> bool" where
  "embed_ok e \<longleftrightarrow> length (em_title e) \<le> 256 \<and> opt_length (em_description e) \<le> 4096 \<and> length (em_footer e) \<le> 2048 \<and>
     length (em_fields e) \<le> 25 \<and> list_all field_ok (em_fields e) \<and> embed_total e \<le> 6000"

lemma truncate_le: "1 \<le> n \<Longrightarrow> length (truncate_discord v n) \<le> n"
  by (auto simp: truncate_discord_def)

lemma truncate_twice: "1 \<le> n \<Longrightarrow> n \<le> m \<Longrightarrow> truncate_discord (truncate_discord v n) m = truncate_discord v n"
  using truncate_le[of n v] by (simp add: truncate_discord_def)

lemma safe_field_ok: "field_ok (safe_field f)"
  using truncate_le[of 256 "ef_name f"] truncate_le[of 1024 "ef_value f"]
  by (auto simp: field_ok_def safe_field_def nonempty_or_def em_dash_def Suc_le_eq)

lemma fields_within_bounds:
  "sum_list (map field_length (fields_within used fs)) \<le> 5500 - used \<and> length (fields_within used fs) \<le> length fs \<and>
     set (fields_within used fs) \<subseteq> set fs"
proof (induction used fs rule: fields_within.induct)
  case (2 used f fs)
  then show ?case by (cases "used + field_length f > 5500") auto
qed simp

lemma sanitize_parts:
  "length (em_title (sanitize_embed e)) \<le> 256" "opt_length (em_description (sanitize_embed e)) \<le> 4000"
  "length (em_footer (sanitize_embed e)) \<le> 2048" "length (em_fields (sanitize_embed e)) \<le> 25"
  "list_all field_ok (em_fields (sanitize_embed e))"
  "embed_total (sanitize_embed e) \<le>
     max 5500 (length (em_title (sanitize_embed e)) + opt_length (em_description (sanitize_embed e)) + length (em_footer (sanitize_embed e)))"
proof -
  let ?d = "map_option (\<lambda>d. truncate_discord d 4000) (some_nonempty (em_description e))"
  have d: "opt_length ?d \<le> 4000" by (auto simp: opt_length_def truncate_le split: option.split)
  have same: "opt_length (some_nonempty ?d) = opt_length ?d" by (auto simp: opt_length_def some_nonempty_def split: option.split)
  let ?used = "length (truncate_discord (em_title e) 256) + opt_length ?d + length (truncate_discord (em_footer e) 2048)"
  let ?f = "map safe_field (take 25 (em_fields e))"
  note b = fields_within_bounds[of ?used ?f]
  show "length (em_title (sanitize_embed e)) \<le> 256" "length (em_footer (sanitize_embed e)) \<le> 2048"
    by (simp_all add: sanitize_embed_def Let_def truncate_le)
  show "opt_length (em_description (sanitize_embed e)) \<le> 4000" using d same by (simp add: sanitize_embed_def Let_def)
  show "length (em_fields (sanitize_embed e)) \<le> 25" using b by (simp add: sanitize_embed_def Let_def)
  have "set (fields_within ?used ?f) \<subseteq> safe_field ` set (em_fields e)"
    using b by (auto dest: in_set_takeD)
  then show "list_all field_ok (em_fields (sanitize_embed e))"
    using safe_field_ok by (auto simp: sanitize_embed_def Let_def list_all_iff)
  show "embed_total (sanitize_embed e) \<le>
     max 5500 (length (em_title (sanitize_embed e)) + opt_length (em_description (sanitize_embed e)) + length (em_footer (sanitize_embed e)))"
    using b same by (simp add: sanitize_embed_def Let_def embed_total_def) linarith
qed

text \<open>
. Every alert the worker renders is an embed within all of Discord's limits.
\<close>

theorem rendered_embed_fits: "embed_ok (render_alert_embed fmt i now now_text)"
proof -
  let ?e = "raw_alert_embed fmt i now now_text"
  have "em_description (sanitize_embed ?e) = None" "em_footer (sanitize_embed ?e) = ''HoodMint Radar''"
    by (simp_all add: sanitize_embed_def raw_alert_embed_def Let_def some_nonempty_def truncate_discord_def)
  then show ?thesis using sanitize_parts[of ?e] unfolding render_alert_embed_def embed_ok_def by (simp add: opt_length_def)
qed

text \<open>
. The sanitizer alone does not keep the limit of 6000 characters: a long description and a long footer
  pass it together.
\<close>

theorem sanitize_embed_over_budget:
  assumes "length d = 4000" and "length f = 2048" and "em_description e = Some d" and "em_footer e = f"
  shows "6048 \<le> embed_total (sanitize_embed e)"
proof -
  have "d \<noteq> []" "f \<noteq> []" using assms by auto
  then have "truncate_discord d 4000 = d" "truncate_discord f 2048 = f" using assms by (simp_all add: truncate_discord_def)
  then show ?thesis using assms \<open>d \<noteq> []\<close> by (simp add: embed_total_def sanitize_embed_def Let_def some_nonempty_def opt_length_def)
qed

theorem sanitize_embed_over_budget_witness:
  "6048 \<le> embed_total (sanitize_embed \<lparr>em_title = [], em_url = None, em_description = Some (replicate 4000 CHR ''d''), em_color = 0,
     em_fields = [], em_footer = replicate 2048 CHR ''f'', em_timestamp = []\<rparr>)"
  by (rule sanitize_embed_over_budget[where d = "replicate 4000 CHR ''d''" and f = "replicate 2048 CHR ''f''"]) simp_all

section \<open>Long messages\<close>

text \<open>The inner loop never ends when the limit is 0 and a line is not empty: \<open>None\<close>.\<close>

function line_pieces :: "nat \<Rightarrow> string \<Rightarrow> string list option" where
  "line_pieces n s = (if s = [] then Some [] else if n = 0 then None else map_option (Cons (take n s)) (line_pieces n (drop n s)))"
  by pat_completeness auto
termination by (relation "measure (\<lambda>(n, s). length s)") auto

declare line_pieces.simps [simp del]

definition newline :: char where "newline = char_of (10 :: nat)"

fun chunk_lines :: "nat \<Rightarrow> string list \<Rightarrow> string list \<Rightarrow> string \<Rightarrow> string list option" where
  "chunk_lines n [] chunks current = Some (if trim current \<noteq> [] then chunks @ [trim current] else chunks)"
| "chunk_lines n (l # ls) chunks current =
     (if length current + length l + 1 > n
      then let chunks1 = (if current \<noteq> [] then chunks @ [trim current] else chunks);
               current1 = (if current \<noteq> [] then [] else current)
           in if length l > n
              then (case line_pieces n l of None \<Rightarrow> None | Some ps \<Rightarrow> chunk_lines n ls (chunks1 @ ps) current1)
              else chunk_lines n ls chunks1 l
      else chunk_lines n ls chunks (if current \<noteq> [] then current @ newline # l else l))"

definition chunk_discord_message :: "string \<Rightarrow> nat \<Rightarrow> string list option" where
  "chunk_discord_message content n =
     (if length content \<le> n then Some [content] else chunk_lines n (split_on newline content) [] [])"

definition ink :: "string \<Rightarrow> string" where
  "ink s = filter (\<lambda>c. \<not> is_space c) s"

lemma ink_append [simp]: "ink (s @ t) = ink s @ ink t" "ink [] = []"
  by (simp_all add: ink_def)

lemma ink_newline [simp]: "ink (newline # s) = ink s"
  by (simp add: ink_def newline_def is_space_def str_simps)

lemma ink_dropWhile: "ink (dropWhile is_space s) = ink s"
  by (induction s) (auto simp: ink_def)

lemma ink_trim [simp]: "ink (trim s) = ink s"
proof -
  have r: "ink (rev t) = rev (ink t)" for t by (simp add: ink_def rev_filter)
  show ?thesis by (simp add: trim_def r ink_dropWhile)
qed

lemma trim_le: "length (trim s) \<le> length s"
proof -
  have "length (trim s) \<le> length (dropWhile is_space s)"
    unfolding trim_def using length_dropWhile_le[of is_space "rev (dropWhile is_space s)"] by simp
  then show ?thesis using length_dropWhile_le[of is_space s] by linarith
qed

lemma line_pieces_ok: "1 \<le> n \<Longrightarrow> \<exists>ps. line_pieces n s = Some ps \<and> list_all (\<lambda>p. length p \<le> n) ps \<and> concat ps = s"
proof (induction s rule: length_induct)
  case (1 s)
  show ?case
  proof (cases "s = []")
    case False
    then have "length (drop n s) < length s" using 1(2) by simp
    then obtain ps where "line_pieces n (drop n s) = Some ps" "list_all (\<lambda>p. length p \<le> n) ps" "concat ps = drop n s"
      using 1 by blast
    then show ?thesis using False 1(2) by (subst line_pieces.simps) simp
  qed (simp add: line_pieces.simps)
qed

lemma chunk_lines_ok:
  "1 \<le> n \<Longrightarrow> list_all (\<lambda>c. length c \<le> n) chunks \<Longrightarrow> length current \<le> n \<Longrightarrow>
    \<exists>cs. chunk_lines n ls chunks current = Some cs \<and> list_all (\<lambda>c. length c \<le> n) cs \<and>
      ink (concat cs) = ink (concat chunks @ current @ concat ls)"
proof (induction n ls chunks current rule: chunk_lines.induct)
  case (1 n chunks current)
  have "ink current = []" if "trim current = []" using ink_trim[of current] that by simp
  then show ?case using 1 trim_le[of current] by auto
next
  case (2 n l ls chunks current)
  obtain ps where ps: "line_pieces n l = Some ps" "list_all (\<lambda>p. length p \<le> n) ps" "concat ps = l"
    using line_pieces_ok[OF 2(4), of l] by blast
  let ?c = "if current \<noteq> [] then chunks @ [trim current] else chunks"
  have c: "list_all (\<lambda>c. length c \<le> n) ?c" "ink (concat ?c) = ink (concat chunks) @ ink current"
    using 2(5,6) trim_le[of current] by auto
  show ?case
  proof (cases "length current + length l + 1 > n")
    case False
    then show ?thesis using 2(3)[OF False 2(4,5)] by auto
  next
    case True
    show ?thesis
    proof (cases "length l > n")
      case False
      then show ?thesis using True 2(2)[OF True refl refl False 2(4) c(1)] c(2) by (simp add: Let_def)
    next
      case l: True
      have "list_all (\<lambda>c. length c \<le> n) (?c @ ps)" using c(1) ps(2) by simp
      from 2(1)[OF True refl refl l ps(1) 2(4) this] show ?thesis
        using True l ps c(2) by (auto simp: Let_def)
    qed
  qed
qed

lemma ink_concat_split: "ink (concat (split_on newline s)) = ink s"
proof (induction s)
  case (Cons x xs)
  obtain p ps where "split_on newline xs = p # ps" by (cases "split_on newline xs") auto
  with Cons show ?case by (auto simp: ink_def newline_def is_space_def str_simps)
qed simp

text \<open>
. Splitting a message for Discord ends, every chunk is within the limit, and together the chunks carry
  every visible character of the message, in order.
\<close>

theorem chunks_carry_message:
  assumes "1 \<le> n"
  shows "\<exists>cs. chunk_discord_message content n = Some cs \<and> list_all (\<lambda>c. length c \<le> n) cs \<and>
    filter (\<lambda>c. \<not> is_space c) (concat cs) = filter (\<lambda>c. \<not> is_space c) content"
proof (cases "length content \<le> n")
  case False
  then show ?thesis using chunk_lines_ok[OF assms, of "[]" "[]" "split_on newline content"] ink_concat_split[of content]
    by (auto simp: chunk_discord_message_def ink_def)
qed (simp add: chunk_discord_message_def)

theorem chunks_carry_message_witness:
  "\<exists>cs. chunk_discord_message ''mint opened soon'' 5 = Some cs \<and> list_all (\<lambda>c. length c \<le> 5) cs \<and>
    filter (\<lambda>c. \<not> is_space c) (concat cs) = ''mintopenedsoon''"
proof -
  have "filter (\<lambda>c. \<not> is_space c) ''mint opened soon'' = ''mintopenedsoon''" by code_simp
  with chunks_carry_message[of 5 "''mint opened soon''"] show ?thesis by simp
qed

end
