(* ===== verification/Outbox.thy ===== *)
theory Outbox
  imports Notify StateError
begin

text \<open>
  The notification outbox (\<open>packages/db/src/repositories/outbox.ts\<close>), the channel adapters
  (\<open>packages/notifications/src/channels.ts\<close>) and the dispatcher (\<open>dispatch.ts\<close>). The world is a machine
  over the alert tables with the replies of the network still to come, the readings of \<open>Math.random\<close>,
  and a trace of the requests made. Payloads are what the dispatcher reads of them: the text when it is
  a string, the embed when it passes \<open>isDiscordEmbed\<close>, and the JSON of the whole.
\<close>

section \<open>Tables\<close>

datatype alert_status = Pending | Inflight | AlertSent | AlertFailed | Dead
datatype channel_kind = TelegramChannel | WebhookChannel | DiscordChannel | WebPushChannel

record payload =
  pl_text :: "string option"
  pl_embed :: "embed option"
  pl_json :: string

record outbox_row =
  ob_id :: string
  ob_key :: string
  ob_type :: alert_type
  ob_wallet :: "string option"
  ob_project :: "string option"
  ob_stage :: "string option"
  ob_threshold :: int
  ob_payload :: payload
  ob_status :: alert_status
  ob_attempts :: int
  ob_next :: int
  ob_error :: "string option"
  ob_response :: "string option"
  ob_created :: int
  ob_sent :: "int option"

record push_subscription =
  ps_endpoint :: string
  ps_p256dh :: string
  ps_auth :: string

text \<open>The \<open>config\<close> of a channel, as far as it is read: the chat id, and a well-formed push subscription.\<close>

record channel =
  ch_id :: string
  ch_kind :: channel_kind
  ch_enabled :: bool
  ch_credential :: "string option"
  ch_chat :: "string option"
  ch_push :: "push_subscription option"
  ch_updated :: int

record delivery =
  dv_outbox :: string
  dv_kind :: channel_kind
  dv_success :: bool
  dv_at :: int
  dv_latency :: int
  dv_error :: "string option"
  dv_response :: "string option"

record alert_db =
  ad_outbox :: "outbox_row list"
  ad_channels :: "channel list"
  ad_deliveries :: "delivery list"
  ad_credentials :: "string \<rightharpoonup> sealed"

section \<open>Channels\<close>

definition set_alert_channel_enabled :: "string \<Rightarrow> bool \<Rightarrow> int \<Rightarrow> alert_db \<Rightarrow> bool \<times> alert_db" where
  "set_alert_channel_enabled i enabled now d =
     (\<exists>c \<in> set (ad_channels d). ch_id c = i,
      d\<lparr>ad_channels := update_where (\<lambda>c. ch_id c = i) (\<lambda>c. c\<lparr>ch_enabled := enabled, ch_updated := now\<rparr>) (ad_channels d)\<rparr>)"

definition delete_alert_channel :: "string \<Rightarrow> alert_db \<Rightarrow> (channel_kind \<times> string option) option \<times> alert_db" where
  "delete_alert_channel i d =
     (map_option (\<lambda>c. (ch_kind c, ch_credential c)) (List.find (\<lambda>c. ch_id c = i) (ad_channels d)),
      d\<lparr>ad_channels := filter (\<lambda>c. ch_id c \<noteq> i) (ad_channels d)\<rparr>)"

section \<open>The outbox\<close>

record enqueue_input =
  ei_key :: string
  ei_type :: alert_type
  ei_wallet :: "string option"
  ei_project :: "string option"
  ei_stage :: "string option"
  ei_threshold :: int
  ei_payload :: payload

text \<open>\<open>i\<close> is the row's new id; \<open>created\<close> is the database's \<open>now()\<close>.\<close>

definition enqueue_alert :: "enqueue_input \<Rightarrow> string \<Rightarrow> int \<Rightarrow> int \<Rightarrow> alert_db \<Rightarrow> bool \<times> alert_db" where
  "enqueue_alert inp i now created d =
     (if \<exists>r \<in> set (ad_outbox d). ob_key r = ei_key inp then (False, d)
      else (True, d\<lparr>ad_outbox := ad_outbox d @
        [\<lparr>ob_id = i, ob_key = ei_key inp, ob_type = ei_type inp, ob_wallet = ei_wallet inp, ob_project = ei_project inp,
          ob_stage = ei_stage inp, ob_threshold = ei_threshold inp, ob_payload = ei_payload inp, ob_status = Pending,
          ob_attempts = 0, ob_next = now, ob_error = None, ob_response = None, ob_created = created, ob_sent = None\<rparr>]\<rparr>))"

text \<open>\<open>locked\<close>: the rows another claimer holds, which \<open>for update skip locked\<close> passes over.\<close>

definition due_rows :: "(string \<Rightarrow> bool) \<Rightarrow> int \<Rightarrow> int \<Rightarrow> alert_db \<Rightarrow> outbox_row list" where
  "due_rows locked now limit d =
     take (nat (max 1 (min limit 100)))
       (sort_key ob_next (filter (\<lambda>r. ob_status r = Pending \<and> ob_next r \<le> now \<and> \<not> locked (ob_id r)) (ad_outbox d)))"

definition claimed :: "outbox_row \<Rightarrow> outbox_row" where
  "claimed r = r\<lparr>ob_status := Inflight, ob_attempts := ob_attempts r + 1\<rparr>"

definition claim_due_alerts :: "(string \<Rightarrow> bool) \<Rightarrow> int \<Rightarrow> int \<Rightarrow> alert_db \<Rightarrow> (outbox_row \<times> channel list) list \<times> alert_db" where
  "claim_due_alerts locked now limit d =
     (let due = due_rows locked now limit d;
          channels = filter ch_enabled (ad_channels d)
      in (map (\<lambda>r. (claimed r, channels)) due,
          d\<lparr>ad_outbox := update_where (\<lambda>r. ob_id r \<in> ob_id ` set due) claimed (ad_outbox d)\<rparr>))"

definition record_delivery :: "delivery \<Rightarrow> alert_db \<Rightarrow> alert_db" where
  "record_delivery v d = d\<lparr>ad_deliveries := ad_deliveries d @ [v]\<rparr>"

definition next_retry_delay_ms :: "int \<Rightarrow> rat \<Rightarrow> int" where
  "next_retry_delay_ms attempts random =
     (let base = min (60000 * 2 powi (attempts - 1)) 21600000 in \<lfloor>dmul random base\<rfloor>)"

definition mark_alert_sent :: "string \<Rightarrow> string option \<Rightarrow> int \<Rightarrow> alert_db \<Rightarrow> alert_db" where
  "mark_alert_sent i response now d = d\<lparr>ad_outbox := update_where (\<lambda>r. ob_id r = i)
     (\<lambda>r. r\<lparr>ob_status := AlertSent, ob_sent := Some now,
            ob_response := (case response of None \<Rightarrow> ob_response r | Some x \<Rightarrow> Some x), ob_error := None\<rparr>) (ad_outbox d)\<rparr>"

definition attempts_of :: "string \<Rightarrow> alert_db \<Rightarrow> int" where
  "attempts_of i d = (case List.find (\<lambda>r. ob_id r = i) (ad_outbox d) of None \<Rightarrow> 0 | Some r \<Rightarrow> ob_attempts r)"

definition set_alert_failed :: "string \<Rightarrow> bool \<Rightarrow> int \<Rightarrow> string \<Rightarrow> string option \<Rightarrow> alert_db \<Rightarrow> alert_db" where
  "set_alert_failed i dead next_at code response d = d\<lparr>ad_outbox := update_where (\<lambda>r. ob_id r = i)
     (\<lambda>r. r\<lparr>ob_status := (if dead then Dead else Pending), ob_next := next_at, ob_error := Some code,
            ob_response := (case response of None \<Rightarrow> ob_response r | Some x \<Rightarrow> Some x)\<rparr>) (ad_outbox d)\<rparr>"

definition pending_outbox_depth :: "int \<Rightarrow> alert_db \<Rightarrow> nat" where
  "pending_outbox_depth now d =
     length (filter (\<lambda>r. ob_status r \<in> {Pending, Inflight} \<and> ob_next r \<le> now + 3600000) (ad_outbox d))"

definition list_outbox :: "nat \<Rightarrow> alert_db \<Rightarrow> outbox_row list" where
  "list_outbox limit d =
     (let byage = sort_key ob_created (ad_outbox d)
      in take limit (filter (\<lambda>r. ob_status r = Pending) byage @ filter (\<lambda>r. ob_status r \<noteq> Pending) byage))"

section \<open>The world of the dispatcher\<close>

datatype reply = Responds int "string option" | Rejects thrown

datatype request =
    TelegramRequest string string string
  | WebhookRequest url string alert_type int
  | DiscordRequest url embed
  | PushRequest url push_subscription string string "string option"

record alert_world = "alert_db machine" +
  a_random :: "rat list"
  a_replies :: "reply list"
  a_requests :: "request list"

type_synonym 'a alert_act = "(alert_world, 'a) eff"

definition random :: "rat alert_act" where
  "random w = (case a_random w of [] \<Rightarrow> (Inr 0, w) | r # rs \<Rightarrow> (Inr r, w\<lparr>a_random := rs\<rparr>))"

text \<open>One request; without a scripted reply the network is down.\<close>

definition fetch :: "request \<Rightarrow> reply alert_act" where
  "fetch q w = (let w1 = w\<lparr>a_requests := a_requests w @ [q]\<rparr> in
     case a_replies w of [] \<Rightarrow> (Inr (Rejects (ThrownError ''fetch failed'')), w1) | r # rs \<Rightarrow> (Inr r, w1\<lparr>a_replies := rs\<rparr>))"

section \<open>Adapters\<close>

record send_result =
  sr_ok :: bool
  sr_latency :: int
  sr_response :: string
  sr_error :: "string option"

text \<open>The replacement of runs of white space by one space, and the first 300 characters.\<close>

fun collapse_spaces :: "bool \<Rightarrow> string \<Rightarrow> string" where
  "collapse_spaces after [] = []"
| "collapse_spaces after (c # cs) =
     (if is_space c then (if after then collapse_spaces True cs else CHR '' '' # collapse_spaces True cs)
      else c # collapse_spaces False cs)"

definition sanitize_body :: "string \<Rightarrow> string" where
  "sanitize_body s = take 300 (collapse_spaces False s)"

definition error_message_or :: "thrown \<Rightarrow> string \<Rightarrow> string" where
  "error_message_or e d = (case e of ThrownApp a \<Rightarrow> err_message a | ThrownError m \<Rightarrow> m | ThrownOther _ \<Rightarrow> d)"

definition response_ok :: "int \<Rightarrow> bool" where
  "response_ok s \<longleftrightarrow> 200 \<le> s \<and> s \<le> 299"

definition timed_send :: "request \<Rightarrow> send_result alert_act" where
  "timed_send q = then_do clock (\<lambda>started. then_do (fetch q) (\<lambda>r. then_do clock (\<lambda>t.
     ret (case r of
        Responds s body \<Rightarrow>
          \<lparr>sr_ok = response_ok s, sr_latency = t - started, sr_response = sanitize_body (case body of None \<Rightarrow> [] | Some b \<Rightarrow> b),
           sr_error = (if response_ok s then None else Some (''http_'' @ show_int s))\<rparr>
      | Rejects e \<Rightarrow>
          let m = error_message_or e ''network error'' in
          \<lparr>sr_ok = False, sr_latency = t - started, sr_response = sanitize_body (redact_url m),
           sr_error = Some (if matches_ci ''abort'' m \<or> matches_ci ''timeout'' m then ''timeout''
                            else if matches_ci ''redirect'' m then ''redirect_blocked'' else ''network_error'')\<rparr>))))"

definition is_word :: "char \<Rightarrow> bool" where
  "is_word c \<longleftrightarrow> is_digit c \<or> (65 \<le> code_of c \<and> code_of c \<le> 90) \<or> (97 \<le> code_of c \<and> code_of c \<le> 122) \<or> c = CHR ''_''"

text \<open>The length of a bot token at the start of a text, 0 when there is none: six digits or more, a colon, twenty token characters or more up to a word's end.\<close>

definition token_length :: "string \<Rightarrow> nat" where
  "token_length s =
     (let ds = takeWhile is_digit s; rest = drop (length ds) s;
          body = rev (dropWhile (\<lambda>c. c = CHR ''-'') (rev (takeWhile (\<lambda>c. is_word c \<or> c = CHR ''-'') (tl rest))))
      in if 6 \<le> length ds \<and> rest \<noteq> [] \<and> hd rest = CHR '':'' \<and> 20 \<le> length body then length ds + 1 + length body else 0)"

function strip_tokens :: "bool \<Rightarrow> string \<Rightarrow> string" where
  "strip_tokens inside [] = []"
| "strip_tokens inside (c # cs) =
     (let k = (if inside then 0 else token_length (c # cs))
      in if 0 < k then redacted @ strip_tokens True (drop k (c # cs)) else c # strip_tokens (is_word c) cs)"
  by pat_completeness auto
termination by (relation "measure (\<lambda>(_, s). length s)") (auto split: if_splits)

definition telegram_send :: "string \<Rightarrow> string \<Rightarrow> string \<Rightarrow> send_result alert_act" where
  "telegram_send token chat text' =
     then_do (timed_send (TelegramRequest token chat text')) (\<lambda>r. ret (r\<lparr>sr_response := strip_tokens False (sr_response r)\<rparr>))"

definition blocked :: "thrown \<Rightarrow> send_result" where
  "blocked e = \<lparr>sr_ok = False, sr_latency = 0,
     sr_response = (case e of ThrownOther _ \<Rightarrow> [] | _ \<Rightarrow> sanitize_body (error_message_or e [])), sr_error = Some ''ssrf_blocked''\<rparr>"

definition guarded_send :: "webhook_env \<Rightarrow> string \<Rightarrow> (url \<Rightarrow> send_result alert_act) \<Rightarrow> send_result alert_act" where
  "guarded_send env raw deliver =
     try_catch (then_do (lift_sum (assert_safe_webhook_url env False raw)) deliver) (\<lambda>e. ret (blocked e))"

definition webhook_send :: "webhook_env \<Rightarrow> string \<Rightarrow> string \<Rightarrow> alert_type \<Rightarrow> int \<Rightarrow> send_result alert_act" where
  "webhook_send env raw text' typ threshold =
     guarded_send env raw (\<lambda>u. timed_send (WebhookRequest u text' typ threshold))"

definition discord_send :: "webhook_env \<Rightarrow> string \<Rightarrow> embed \<Rightarrow> send_result alert_act" where
  "discord_send env raw e = guarded_send env raw (\<lambda>u. timed_send (DiscordRequest u (sanitize_embed e)))"

text \<open>The push library resolves on a 2xx answer, rejects with the status and the body otherwise.\<close>

definition push_deliver :: "push_subscription \<Rightarrow> string \<Rightarrow> string \<Rightarrow> string option \<Rightarrow> url \<Rightarrow> send_result alert_act" where
  "push_deliver p title body link u =
     then_do clock (\<lambda>started. then_do (fetch (PushRequest u p title body link)) (\<lambda>r. then_do clock (\<lambda>t.
       ret (case r of
          Responds s b \<Rightarrow>
            \<lparr>sr_ok = response_ok s, sr_latency = t - started, sr_response = sanitize_body (case b of None \<Rightarrow> [] | Some x \<Rightarrow> x),
             sr_error = (if response_ok s then None else Some (''http_'' @ show_int s))\<rparr>
        | Rejects e \<Rightarrow>
            let m = error_message_or e ''push send failed'' in
            \<lparr>sr_ok = False, sr_latency = t - started, sr_response = sanitize_body (redact_url m),
             sr_error = Some (if matches_ci ''abort'' m \<or> matches_ci ''timeout'' m then ''timeout'' else ''network_error'')\<rparr>))))"

definition push_send :: "webhook_env \<Rightarrow> push_subscription \<Rightarrow> string \<Rightarrow> string \<Rightarrow> string option \<Rightarrow> send_result alert_act" where
  "push_send env p title body link = guarded_send env (ps_endpoint p) (push_deliver p title body link)"

section \<open>The dispatcher\<close>

record dispatch_env =
  de_web :: webhook_env
  de_gcm :: gcm
  de_master :: string
  de_vapid :: bool
  de_limit :: int
  de_locked :: "string \<Rightarrow> bool"
  de_iso :: "int \<Rightarrow> string"

definition channel_secret :: "dispatch_env \<Rightarrow> channel \<Rightarrow> string option alert_act" where
  "channel_secret env c = (case ch_credential c of
      None \<Rightarrow> ret None
    | Some i \<Rightarrow> then_do (db_read (\<lambda>d. ad_credentials d i)) (\<lambda>row. case row of
        None \<Rightarrow> ret None
      | Some s \<Rightarrow> then_do (lift_sum (open_secret (de_gcm env) s (de_master env))) (\<lambda>x. ret (Some x))))"

definition alert_text :: "outbox_row \<Rightarrow> string" where
  "alert_text a = (case pl_text (ob_payload a) of Some t \<Rightarrow> t | None \<Rightarrow> pl_json (ob_payload a))"

definition embed_of_alert :: "dispatch_env \<Rightarrow> outbox_row \<Rightarrow> embed alert_act" where
  "embed_of_alert env a = (case pl_embed (ob_payload a) of
      Some e \<Rightarrow> ret e
    | None \<Rightarrow> then_do clock (\<lambda>t. ret
        \<lparr>em_title = ''HoodMint Radar alert'', em_url = None, em_description = None, em_color = 9080728,
         em_fields = [\<lparr>ef_name = ''Details'', ef_value = take 1024 (alert_text a), ef_inline = None\<rparr>],
         em_footer = ''HoodMint Radar'', em_timestamp = de_iso env t\<rparr>))"

definition https_url :: "string option \<Rightarrow> string option" where
  "https_url s = (case s of None \<Rightarrow> None | Some x \<Rightarrow> if starts_with ''https://'' x then Some x else None)"

text \<open>One channel: \<open>None\<close> when it is misconfigured.\<close>

definition send_telegram :: "dispatch_env \<Rightarrow> outbox_row \<Rightarrow> channel \<Rightarrow> send_result option alert_act" where
  "send_telegram env a c = then_do (channel_secret env c) (\<lambda>s. case s of
      None \<Rightarrow> ret None
    | Some token \<Rightarrow> (case ch_chat c of
          None \<Rightarrow> ret None
        | Some chat \<Rightarrow> then_do (telegram_send token chat (alert_text a)) (\<lambda>r. ret (Some r))))"

definition send_webhook :: "dispatch_env \<Rightarrow> outbox_row \<Rightarrow> channel \<Rightarrow> send_result option alert_act" where
  "send_webhook env a c = then_do (channel_secret env c) (\<lambda>s. case https_url s of
      None \<Rightarrow> ret None
    | Some u \<Rightarrow> then_do (webhook_send (de_web env) u (alert_text a) (ob_type a) (ob_threshold a)) (\<lambda>r. ret (Some r)))"

definition send_discord :: "dispatch_env \<Rightarrow> outbox_row \<Rightarrow> channel \<Rightarrow> send_result option alert_act" where
  "send_discord env a c = then_do (channel_secret env c) (\<lambda>s. then_do (embed_of_alert env a) (\<lambda>e. case https_url s of
      None \<Rightarrow> ret None
    | Some u \<Rightarrow> then_do (discord_send (de_web env) u e) (\<lambda>r. ret (Some r))))"

definition send_web_push :: "dispatch_env \<Rightarrow> outbox_row \<Rightarrow> channel \<Rightarrow> send_result option alert_act" where
  "send_web_push env a c = (if \<not> de_vapid env then ret None else case ch_push c of
      None \<Rightarrow> ret None
    | Some p \<Rightarrow> (let e = pl_embed (ob_payload a) in
        then_do (push_send (de_web env) p (case e of None \<Rightarrow> ''HoodMint Radar alert'' | Some x \<Rightarrow> em_title x)
          (take 300 (alert_text a)) (case e of None \<Rightarrow> None | Some x \<Rightarrow> em_url x)) (\<lambda>r. ret (Some r))))"

definition send_channel :: "dispatch_env \<Rightarrow> outbox_row \<Rightarrow> channel \<Rightarrow> send_result option alert_act" where
  "send_channel env a c = (case ch_kind c of
      TelegramChannel \<Rightarrow> send_telegram env a c
    | WebhookChannel \<Rightarrow> send_webhook env a c
    | DiscordChannel \<Rightarrow> send_discord env a c
    | WebPushChannel \<Rightarrow> send_web_push env a c)"

definition misconfigured :: send_result where
  "misconfigured = \<lparr>sr_ok = False, sr_latency = 0, sr_response = ''channel secret missing'', sr_error = Some ''PermanentConfig''\<rparr>"

definition record_attempt_for :: "outbox_row \<Rightarrow> channel \<Rightarrow> send_result \<Rightarrow> unit alert_act" where
  "record_attempt_for a c r = then_do clock (\<lambda>t. db_write (record_delivery
     \<lparr>dv_outbox = ob_id a, dv_kind = ch_kind c, dv_success = sr_ok r, dv_at = t, dv_latency = sr_latency r,
      dv_error = sr_error r, dv_response = Some (sr_response r)\<rparr>))"

fun dispatch_channels :: "dispatch_env \<Rightarrow> outbox_row \<Rightarrow> channel list \<Rightarrow> bool \<Rightarrow> string \<Rightarrow> (bool \<times> string) alert_act" where
  "dispatch_channels env a [] any_ok last_error = ret (any_ok, last_error)"
| "dispatch_channels env a (c # cs) any_ok last_error =
     then_do (send_channel env a c) (\<lambda>s.
       let r = (case s of None \<Rightarrow> misconfigured | Some x \<Rightarrow> x) in
       then_do (record_attempt_for a c r) (\<lambda>_.
         if sr_ok r then dispatch_channels env a cs True last_error
         else dispatch_channels env a cs any_ok (case sr_error r of None \<Rightarrow> ''unknown'' | Some e \<Rightarrow> e)))"

definition mark_sent :: "string \<Rightarrow> unit alert_act" where
  "mark_sent i = then_do clock (\<lambda>t. db_write (mark_alert_sent i (Some ''acknowledged'') t))"

definition max_alert_attempts :: int where "max_alert_attempts = 6"

definition mark_alert_failed :: "string \<Rightarrow> string \<Rightarrow> string option \<Rightarrow> unit alert_act" where
  "mark_alert_failed i code response =
     then_do (db_read (attempts_of i)) (\<lambda>n.
       if n \<ge> max_alert_attempts then db_write (set_alert_failed i True 0 code response)
       else then_do clock (\<lambda>t. then_do random (\<lambda>x.
         db_write (set_alert_failed i False (t + next_retry_delay_ms n x) code response))))"

record dispatch_summary =
  ds_claimed :: nat
  ds_sent :: nat
  ds_failed :: nat

fun dispatch_alerts :: "dispatch_env \<Rightarrow> (outbox_row \<times> channel list) list \<Rightarrow> nat \<Rightarrow> nat \<Rightarrow> (nat \<times> nat) alert_act" where
  "dispatch_alerts env [] sent failed = ret (sent, failed)"
| "dispatch_alerts env ((a, cs) # as) sent failed =
     then_do (dispatch_channels env a cs False ''no_channels'') (\<lambda>(ok, last_error).
       if ok then then_do (mark_sent (ob_id a)) (\<lambda>_. dispatch_alerts env as (sent + 1) failed)
       else then_do (mark_alert_failed (ob_id a) last_error None) (\<lambda>_. dispatch_alerts env as sent (failed + 1)))"

definition claim_due :: "dispatch_env \<Rightarrow> (outbox_row \<times> channel list) list alert_act" where
  "claim_due env = then_do clock (\<lambda>t. db_call (claim_due_alerts (de_locked env) t (de_limit env)))"

definition dispatch_due_alerts :: "dispatch_env \<Rightarrow> dispatch_summary alert_act" where
  "dispatch_due_alerts env =
     then_do (claim_due env) (\<lambda>alerts. then_do (dispatch_alerts env alerts 0 0) (\<lambda>(sent, failed).
       ret \<lparr>ds_claimed = length alerts, ds_sent = sent, ds_failed = failed\<rparr>))"

section \<open>What the sends leave alone\<close>

lemma keeps_random_db [db_rules]: "db_only I \<Longrightarrow> keeps I random"
  by (rule keepsI) (auto simp: random_def intro: db_onlyD split: list.splits)

lemma keeps_fetch_db [db_rules]: "db_only I \<Longrightarrow> keeps I (fetch q)"
  by (rule keepsI) (auto simp: fetch_def Let_def intro: db_onlyD split: list.splits)

lemma keeps_send_db:
  assumes "db_only I"
  shows "keeps I (send_channel env a c)"
proof -
  note d = db_rules[OF assms]
  have t: "keeps I (timed_send q)" for q
    unfolding timed_send_def by (intro keep_rules d)
  have g: "keeps I (guarded_send e u f)" if "\<And>x. keeps I (f x)" for e u f
    unfolding guarded_send_def by (intro keep_rules that)
  have p: "keeps I (push_deliver x ti b l u)" for x ti b l u
    unfolding push_deliver_def by (intro keep_rules d)
  have s: "keeps I (channel_secret env c)"
    unfolding channel_secret_def by (intro keep_rules d)
  have e: "keeps I (embed_of_alert env a)"
    unfolding embed_of_alert_def by (intro keep_rules d)
  have "keeps I (send_telegram env a c)" "keeps I (send_webhook env a c)" "keeps I (send_discord env a c)" "keeps I (send_web_push env a c)"
    unfolding send_telegram_def send_webhook_def send_discord_def send_web_push_def telegram_send_def webhook_send_def
      discord_send_def push_send_def Let_def
    by (intro keep_rules s e t g p)+
  then show ?thesis by (simp add: send_channel_def split: channel_kind.split)
qed

section \<open>Rows by id\<close>

definition ids_distinct :: "alert_db \<Rightarrow> bool" where
  "ids_distinct d \<longleftrightarrow> distinct (map ob_id (ad_outbox d))"

lemma same_row: "ids_distinct d \<Longrightarrow> r \<in> set (ad_outbox d) \<Longrightarrow> s \<in> set (ad_outbox d) \<Longrightarrow> ob_id r = ob_id s \<Longrightarrow> r = s"
  by (auto simp: ids_distinct_def distinct_map dest: inj_onD)

lemma find_row: "ids_distinct d \<Longrightarrow> r \<in> set (ad_outbox d) \<Longrightarrow> List.find (\<lambda>x. ob_id x = ob_id r) (ad_outbox d) = Some r"
proof -
  assume a: "ids_distinct d" "r \<in> set (ad_outbox d)"
  then obtain x where x: "List.find (\<lambda>x. ob_id x = ob_id r) (ad_outbox d) = Some x"
    by (cases "List.find (\<lambda>x. ob_id x = ob_id r) (ad_outbox d)") (auto simp: find_None_iff)
  with a find_SomeD[OF x] same_row[of d x r] show ?thesis by simp
qed

text \<open>Every change of the outbox but an insertion rewrites the rows of some ids and keeps their ids.\<close>

definition rewrite :: "string set \<Rightarrow> (outbox_row \<Rightarrow> outbox_row) \<Rightarrow> alert_db \<Rightarrow> alert_db" where
  "rewrite is f d = d\<lparr>ad_outbox := update_where (\<lambda>r. ob_id r \<in> is) f (ad_outbox d)\<rparr>"

lemma row_writes:
  "mark_alert_sent i resp t = rewrite {i} (\<lambda>r. r\<lparr>ob_status := AlertSent, ob_sent := Some t,
     ob_response := (case resp of None \<Rightarrow> ob_response r | Some x \<Rightarrow> Some x), ob_error := None\<rparr>)"
  "set_alert_failed i dead nx code resp = rewrite {i} (\<lambda>r. r\<lparr>ob_status := (if dead then Dead else Pending), ob_next := nx, ob_error := Some code,
     ob_response := (case resp of None \<Rightarrow> ob_response r | Some x \<Rightarrow> Some x)\<rparr>)"
  "snd (claim_due_alerts locked now limit d) = rewrite (ob_id ` set (due_rows locked now limit d)) claimed d"
  by (auto simp: mark_alert_sent_def set_alert_failed_def claim_due_alerts_def rewrite_def Let_def fun_eq_iff)

lemma rewrite_ids: "(\<And>r. ob_id (f r) = ob_id r) \<Longrightarrow> map ob_id (ad_outbox (rewrite is f d)) = map ob_id (ad_outbox d)"
  by (simp add: rewrite_def map_update_where_same)

lemma rewrite_other: "r \<in> set (ad_outbox d) \<Longrightarrow> ob_id r \<notin> is \<Longrightarrow> r \<in> set (ad_outbox (rewrite is f d))"
  by (simp add: rewrite_def update_where_keep)

lemma rewrite_rows: "r \<in> set (ad_outbox (rewrite is f d)) \<Longrightarrow>
    \<exists>s \<in> set (ad_outbox d). r = (if ob_id s \<in> is then f s else s)"
  by (auto simp: rewrite_def set_update_where)

lemma rewrite_fields [simp]: "ad_deliveries (rewrite is f d) = ad_deliveries d"
  by (simp add: rewrite_def)

lemma due_row: "r \<in> set (due_rows locked now limit d) \<Longrightarrow> r \<in> set (ad_outbox d) \<and> ob_status r = Pending"
  by (auto simp: due_rows_def dest: in_set_takeD)

section \<open>A claimed alert whose dispatch was cut short\<close>

definition held :: "outbox_row \<Rightarrow> alert_world \<Rightarrow> bool" where
  "held r w \<longleftrightarrow> ids_distinct (m_db w) \<and> r \<in> set (ad_outbox (m_db w))"

lemma held_db_only: "db_only (held r)"
  by (simp add: db_only_def held_def)

lemma held_rewrite:
  "held r w \<Longrightarrow> (\<And>x. ob_id (f x) = ob_id x) \<Longrightarrow> ob_id r \<notin> is \<Longrightarrow> held r (w\<lparr>m_db := rewrite is f (m_db w), m_faults := fs\<rparr>)"
  by (simp add: held_def ids_distinct_def rewrite_ids rewrite_other)

lemma held_mark_sent: "i \<noteq> ob_id r \<Longrightarrow> keeps (held r) (mark_sent i)"
  unfolding mark_sent_def row_writes
  by (intro keep_rules keeps_clock_db held_db_only keeps_db_write held_rewrite) auto

lemma held_mark_failed: "i \<noteq> ob_id r \<Longrightarrow> keeps (held r) (mark_alert_failed i code resp)"
  unfolding mark_alert_failed_def row_writes
  by (intro keep_rules db_rules held_db_only keeps_db_write held_rewrite) auto

lemma held_record: "keeps (held r) (record_attempt_for a c s)"
  unfolding record_attempt_for_def
  by (intro keep_rules db_rules held_db_only keeps_db_write) (simp add: held_def record_delivery_def ids_distinct_def)

lemma held_channels: "keeps (held r) (dispatch_channels env a cs ok e)"
  by (induction cs arbitrary: ok e)
     (auto simp: Let_def intro!: keep_rules held_record keeps_send_db held_db_only)

lemma held_alerts: "\<forall>x \<in> set as. ob_id (fst x) \<noteq> ob_id r \<Longrightarrow> keeps (held r) (dispatch_alerts env as m n)"
  by (induction env as m n rule: dispatch_alerts.induct)
     (auto intro!: keep_rules held_channels held_mark_sent held_mark_failed)

lemma held_claim:
  assumes "ob_status r = Inflight"
  shows "acts (held r) (claim_due env) (\<lambda>x w. held r w \<and> (\<forall>as. x = Inr as \<longrightarrow> (\<forall>y \<in> set as. ob_id (fst y) \<noteq> ob_id r)))"
  unfolding claim_due_def
proof (rule acts_then_keep[OF keeps_clock_db[OF held_db_only]])
  fix t
  let ?f = "claim_due_alerts (de_locked env) t (de_limit env)"
  show "acts (held r) (db_call ?f) (\<lambda>x w. held r w \<and> (\<forall>as. x = Inr as \<longrightarrow> (\<forall>y \<in> set as. ob_id (fst y) \<noteq> ob_id r)))"
  proof (rule actsI)
    fix w x w' assume h: "held r w" and m: "db_call ?f w = (x, w')"
    let ?due = "due_rows (de_locked env) t (de_limit env) (m_db w)"
    have other: "ob_id y \<noteq> ob_id r" if "y \<in> set ?due" for y
      using same_row[of "m_db w" y r] due_row[OF that] h assms by (auto simp: held_def)
    then have out: "ob_id r \<notin> ob_id ` set ?due" by (metis (no_types, lifting) imageE)
    show "held r w' \<and> (\<forall>as. x = Inr as \<longrightarrow> (\<forall>y \<in> set as. ob_id (fst y) \<noteq> ob_id r))"
    proof (cases rule: db_call_cases[of ?f w])
      case (fault mm fs)
      then show ?thesis using h m by (auto simp: held_def)
    next
      case (ok fs)
      have "held r (w\<lparr>m_db := snd (?f (m_db w)), m_faults := fs\<rparr>)"
        unfolding row_writes by (rule held_rewrite[OF h]) (use out in \<open>simp_all add: claimed_def\<close>)
      then show ?thesis using ok m other by (auto simp: claim_due_alerts_def Let_def claimed_def)
    qed
  qed
qed auto

lemma held_dispatch:
  assumes "ob_status r = Inflight"
  shows "keeps (held r) (dispatch_due_alerts env)"
  unfolding dispatch_due_alerts_def keeps_def
proof (rule acts_then[where R = "\<lambda>as w. held r w \<and> (\<forall>y \<in> set as. ob_id (fst y) \<noteq> ob_id r)"])
  show "acts (held r) (claim_due env) (\<lambda>x w. case x of Inl e \<Rightarrow> held r w | Inr as \<Rightarrow> held r w \<and> (\<forall>y \<in> set as. ob_id (fst y) \<noteq> ob_id r))"
    by (rule acts_post[OF held_claim[OF assms]]) (auto split: sum.splits)
  fix as
  show "acts (\<lambda>w. held r w \<and> (\<forall>y \<in> set as. ob_id (fst y) \<noteq> ob_id r))
      (then_do (dispatch_alerts env as 0 0) (\<lambda>(sent, failed). ret \<lparr>ds_claimed = length as, ds_sent = sent, ds_failed = failed\<rparr>)) (\<lambda>_. held r)"
  proof (cases "\<forall>y \<in> set as. ob_id (fst y) \<noteq> ob_id r")
    case True
    have "keeps (held r) (then_do (dispatch_alerts env as 0 0) (\<lambda>(sent, failed). ret \<lparr>ds_claimed = length as, ds_sent = sent, ds_failed = failed\<rparr>))"
      by (intro keep_rules held_alerts[OF True])
    then show ?thesis unfolding keeps_def by (rule acts_pre) simp
  qed (auto simp: acts_def)
qed

text \<open>
  Everything that happens to the outbox: dispatches, enqueues (a new row has a fresh id), the admin's
  channel changes, and changes of the world outside the tables.
\<close>

inductive outbox_step :: "alert_world \<Rightarrow> alert_world \<Rightarrow> bool" where
  dispatch: "dispatch_due_alerts env w = (x, w') \<Longrightarrow> outbox_step w w'"
| enqueue: "i \<notin> ob_id ` set (ad_outbox (m_db w)) \<Longrightarrow>
    outbox_step w (w\<lparr>m_db := snd (enqueue_alert inp i now created (m_db w))\<rparr>)"
| toggle: "outbox_step w (w\<lparr>m_db := snd (set_alert_channel_enabled i enabled now (m_db w))\<rparr>)"
| remove: "outbox_step w (w\<lparr>m_db := snd (delete_alert_channel i (m_db w))\<rparr>)"
| outside: "m_db w' = m_db w \<Longrightarrow> outbox_step w w'"

inductive outbox_steps :: "alert_world \<Rightarrow> alert_world \<Rightarrow> bool" where
  stay: "outbox_steps w w"
| go: "outbox_steps w w' \<Longrightarrow> outbox_step w' w'' \<Longrightarrow> outbox_steps w w''"

lemma held_step:
  assumes "outbox_step w w'" and "held r w" and "ob_status r = Inflight"
  shows "held r w'"
  using assms(1)
proof cases
  case (dispatch env x)
  show ?thesis using keepsD[OF held_dispatch[OF assms(3)] assms(2) dispatch] .
qed (use assms(2) in \<open>auto simp: held_def ids_distinct_def enqueue_alert_def set_alert_channel_enabled_def delete_alert_channel_def\<close>)

text \<open>
C21. An alert that was claimed and not marked, because its dispatcher threw or died, stays in flight with
  the same row for ever: no later dispatch claims it, and nothing gives it back.
\<close>

theorem inflight_alert_is_lost:
  assumes "outbox_steps w w'" and "ids_distinct (m_db w)" and "r \<in> set (ad_outbox (m_db w))" and "ob_status r = Inflight"
  shows "r \<in> set (ad_outbox (m_db w'))"
proof -
  have "held r w'" using assms(1) assms(2-4)
    by (induction rule: outbox_steps.induct) (auto simp: held_def dest: held_step[unfolded held_def])
  then show ?thesis by (simp add: held_def)
qed

definition demo_payload :: payload where
  "demo_payload = \<lparr>pl_text = Some ''WL HIT'', pl_embed = None, pl_json = ''{}''\<rparr>"

definition demo_row :: outbox_row where
  "demo_row = \<lparr>ob_id = ''a1'', ob_key = ''1:k'', ob_type = WatchedLive, ob_wallet = None, ob_project = None, ob_stage = None,
     ob_threshold = 0, ob_payload = demo_payload, ob_status = Pending, ob_attempts = 0, ob_next = 10, ob_error = None,
     ob_response = None, ob_created = 10, ob_sent = None\<rparr>"

definition demo_alerts :: alert_world where
  "demo_alerts = \<lparr>m_db = \<lparr>ad_outbox = [demo_row], ad_channels = [], ad_deliveries = [], ad_credentials = Map.empty\<rparr>,
     m_clock = [20], m_faults = [None, Some ''connection reset''], a_random = [], a_replies = [], a_requests = []\<rparr>"

definition demo_dispatch :: dispatch_env where
  "demo_dispatch = \<lparr>de_web = demo_env, de_gcm = demo_gcm, de_master = [], de_vapid = False, de_limit = 20,
     de_locked = (\<lambda>_. False), de_iso = (\<lambda>_. [])\<rparr>"

lemmas dispatch_eval = dispatch_due_alerts_def claim_due_def claim_due_alerts_def due_rows_def claimed_def then_do_def clock_def
  db_call_def db_read_def db_write_def ret_def mark_alert_failed_def attempts_of_def Let_def demo_alerts_def demo_dispatch_def demo_row_def

lemma demo_cut_short:
  "dispatch_due_alerts demo_dispatch demo_alerts =
     (Inl (ThrownError ''connection reset''),
      demo_alerts\<lparr>m_db := (m_db demo_alerts)\<lparr>ad_outbox := [claimed demo_row]\<rparr>, m_faults := []\<rparr>)"
  by (simp add: dispatch_eval)

theorem inflight_alert_is_lost_witness:
  "fst (dispatch_due_alerts demo_dispatch demo_alerts) = Inl (ThrownError ''connection reset'') \<and>
   claimed demo_row \<in> set (ad_outbox (m_db (snd (dispatch_due_alerts demo_dispatch (snd (dispatch_due_alerts demo_dispatch demo_alerts))))))"
proof -
  let ?w1 = "snd (dispatch_due_alerts demo_dispatch demo_alerts)"
  have "outbox_steps ?w1 (snd (dispatch_due_alerts demo_dispatch ?w1))"
    by (rule outbox_steps.go[OF outbox_steps.stay], rule outbox_step.dispatch) (rule prod.collapse[symmetric])
  from inflight_alert_is_lost[OF this, of "claimed demo_row"] show ?thesis
    by (simp add: demo_cut_short ids_distinct_def) (simp add: claimed_def)
qed

section \<open>The invariant of the outbox\<close>

definition has_ack :: "string \<Rightarrow> alert_db \<Rightarrow> bool" where
  "has_ack i d \<longleftrightarrow> (\<exists>v \<in> set (ad_deliveries d). dv_outbox v = i \<and> dv_success v)"

definition row_ok :: "alert_db \<Rightarrow> outbox_row \<Rightarrow> bool" where
  "row_ok d r \<longleftrightarrow> (ob_status r = AlertSent \<longrightarrow> has_ack (ob_id r) d) \<and> 0 \<le> ob_attempts r \<and> ob_attempts r \<le> max_alert_attempts \<and>
     (ob_status r = Pending \<longrightarrow> ob_attempts r < max_alert_attempts)"

definition outbox_ok :: "alert_db \<Rightarrow> bool" where
  "outbox_ok d \<longleftrightarrow> ids_distinct d \<and> distinct (map ob_key (ad_outbox d)) \<and> (\<forall>r \<in> set (ad_outbox d). row_ok d r)"

definition world_ok :: "alert_world \<Rightarrow> bool" where
  "world_ok w \<longleftrightarrow> outbox_ok (m_db w)"

lemma world_ok_db: "db_only world_ok"
  by (simp add: db_only_def world_ok_def)

lemma rewrite_ok:
  assumes ok: "outbox_ok d" and same: "\<And>r. ob_id (f r) = ob_id r \<and> ob_key (f r) = ob_key r"
    and step: "\<And>r. r \<in> set (ad_outbox d) \<Longrightarrow> ob_id r \<in> is \<Longrightarrow> row_ok d (f r)"
  shows "outbox_ok (rewrite is f d)"
proof -
  have k: "map ob_key (ad_outbox (rewrite is f d)) = map ob_key (ad_outbox d)"
    using same by (simp add: rewrite_def map_update_where_same)
  have "row_ok (rewrite is f d) r" if "r \<in> set (ad_outbox (rewrite is f d))" for r
  proof -
    from rewrite_rows[OF that] obtain s where "s \<in> set (ad_outbox d)" "r = (if ob_id s \<in> is then f s else s)" by blast
    then have "row_ok d r" using step ok by (auto simp: outbox_ok_def)
    then show ?thesis by (simp add: row_ok_def has_ack_def)
  qed
  then show ?thesis using ok same by (simp add: outbox_ok_def ids_distinct_def rewrite_ids k)
qed

lemma world_ok_record: "keeps world_ok (record_attempt_for a c s)"
  unfolding record_attempt_for_def
  by (intro keep_rules db_rules world_ok_db keeps_db_write)
     (auto simp: world_ok_def outbox_ok_def record_delivery_def ids_distinct_def row_ok_def has_ack_def)

definition ok_acked :: "bool \<Rightarrow> string \<Rightarrow> alert_world \<Rightarrow> bool" where
  "ok_acked ok i w \<longleftrightarrow> world_ok w \<and> (ok \<longrightarrow> has_ack i (m_db w))"

lemma ok_acked_db: "db_only (ok_acked ok i)"
  by (simp add: db_only_def ok_acked_def world_ok_def)

lemma record_acked:
  "acts (ok_acked ok (ob_id a)) (record_attempt_for a c s) (\<lambda>x w. world_ok w \<and> (x = Inr () \<longrightarrow> ok_acked (ok \<or> sr_ok s) (ob_id a) w))"
  unfolding record_attempt_for_def
proof (rule acts_then_keep[OF keeps_clock_db[OF ok_acked_db]])
  fix t
  let ?v = "\<lparr>dv_outbox = ob_id a, dv_kind = ch_kind c, dv_success = sr_ok s, dv_at = t, dv_latency = sr_latency s,
      dv_error = sr_error s, dv_response = Some (sr_response s)\<rparr>"
  show "acts (ok_acked ok (ob_id a)) (db_write (record_delivery ?v))
      (\<lambda>x w. world_ok w \<and> (x = Inr () \<longrightarrow> ok_acked (ok \<or> sr_ok s) (ob_id a) w))"
  proof (rule actsI)
    fix w x w' assume h: "ok_acked ok (ob_id a) w" and m: "db_write (record_delivery ?v) w = (x, w')"
    show "world_ok w' \<and> (x = Inr () \<longrightarrow> ok_acked (ok \<or> sr_ok s) (ob_id a) w')"
      using h m unfolding db_write_def
      by (cases rule: db_call_cases[of "\<lambda>d. ((), record_delivery ?v d)" w])
         (auto simp: ok_acked_def world_ok_def outbox_ok_def record_delivery_def ids_distinct_def row_ok_def has_ack_def)
  qed
qed (simp add: ok_acked_def)

lemma channels_acked:
  "acts (ok_acked ok (ob_id a)) (dispatch_channels env a cs ok e)
     (\<lambda>x w. world_ok w \<and> (\<forall>ok' e'. x = Inr (ok', e') \<longrightarrow> ok_acked ok' (ob_id a) w))"
proof (induction cs arbitrary: ok e)
  case Nil
  then show ?case by (auto simp: ok_acked_def intro!: acts_ret)
next
  case (Cons c cs)
  show ?case unfolding dispatch_channels.simps Let_def
  proof (rule acts_then_keep[OF keeps_send_db[OF ok_acked_db]])
    fix s
    let ?r = "case s of None \<Rightarrow> misconfigured | Some x \<Rightarrow> x"
    let ?Q = "\<lambda>x w. world_ok w \<and> (\<forall>ok' e'. x = Inr (ok', e') \<longrightarrow> ok_acked ok' (ob_id a) w)"
    show "acts (ok_acked ok (ob_id a)) (then_do (record_attempt_for a c ?r) (\<lambda>_.
         if sr_ok ?r then dispatch_channels env a cs True e
         else dispatch_channels env a cs ok (case sr_error ?r of None \<Rightarrow> ''unknown'' | Some e \<Rightarrow> e))) ?Q"
    proof (rule acts_then[where R = "\<lambda>_. ok_acked (ok \<or> sr_ok ?r) (ob_id a)"])
      show "acts (ok_acked ok (ob_id a)) (record_attempt_for a c ?r)
          (\<lambda>x w. case x of Inl e \<Rightarrow> ?Q (Inl e) w | Inr _ \<Rightarrow> ok_acked (ok \<or> sr_ok ?r) (ob_id a) w)"
        by (rule acts_post[OF record_acked]) (auto split: sum.splits)
      show "acts (ok_acked (ok \<or> sr_ok ?r) (ob_id a)) (if sr_ok ?r then dispatch_channels env a cs True e
         else dispatch_channels env a cs ok (case sr_error ?r of None \<Rightarrow> ''unknown'' | Some e \<Rightarrow> e)) ?Q"
        using Cons.IH[of True e] Cons.IH[of ok "case sr_error ?r of None \<Rightarrow> ''unknown'' | Some e \<Rightarrow> e"] by simp
    qed
  qed (simp add: ok_acked_def)
qed

lemma sent_ok: "acts (ok_acked True i) (mark_sent i) (\<lambda>_. world_ok)"
  unfolding mark_sent_def
proof (rule acts_then_keep[OF keeps_clock_db[OF ok_acked_db]])
  fix t
  show "acts (ok_acked True i) (db_write (mark_alert_sent i (Some ''acknowledged'') t)) (\<lambda>_. world_ok)"
    unfolding row_writes
  proof (rule acts_db_write)
    fix w fs assume "ok_acked True i w"
    then have ok: "outbox_ok (m_db w)" "has_ack i (m_db w)" by (auto simp: ok_acked_def world_ok_def)
    have "outbox_ok (rewrite {i} (\<lambda>r. r\<lparr>ob_status := AlertSent, ob_sent := Some t,
        ob_response := (case Some ''acknowledged'' of None \<Rightarrow> ob_response r | Some x \<Rightarrow> Some x), ob_error := None\<rparr>) (m_db w))"
      by (rule rewrite_ok[OF ok(1)]) (use ok in \<open>auto simp: row_ok_def outbox_ok_def\<close>)
    then show "world_ok (w\<lparr>m_db := rewrite {i} (\<lambda>r. r\<lparr>ob_status := AlertSent, ob_sent := Some t,
        ob_response := (case Some ''acknowledged'' of None \<Rightarrow> ob_response r | Some x \<Rightarrow> Some x), ob_error := None\<rparr>) (m_db w),
        m_faults := fs\<rparr>)" by (simp add: world_ok_def)
  qed (simp add: ok_acked_def world_ok_def)
qed (simp add: ok_acked_def)

lemma failed_ok: "keeps world_ok (mark_alert_failed i code resp)"
proof -
  define R where "R n w \<longleftrightarrow> world_ok w \<and> attempts_of i (m_db w) = n" for n w
  have db: "db_only (R n)" for n by (simp add: R_def db_only_def world_ok_def)
  have row: "ob_attempts r = n" if "R n w" "r \<in> set (ad_outbox (m_db w))" "ob_id r = i" for n w r
    using find_row[of "m_db w" r] that by (auto simp: R_def attempts_of_def world_ok_def outbox_ok_def)
  have wr: "acts (R n) (db_write (set_alert_failed i dead nx code resp)) (\<lambda>_. world_ok)"
    if "\<not> dead \<Longrightarrow> n < max_alert_attempts" for n dead nx
    unfolding row_writes
  proof (rule acts_db_write)
    fix w fs assume r: "R n w"
    let ?f = "\<lambda>r. r\<lparr>ob_status := (if dead then Dead else Pending), ob_next := nx, ob_error := Some code,
      ob_response := (case resp of None \<Rightarrow> ob_response r | Some x \<Rightarrow> Some x)\<rparr>"
    have "outbox_ok (rewrite {i} ?f (m_db w))"
    proof (rule rewrite_ok)
      fix x assume x: "x \<in> set (ad_outbox (m_db w))" "ob_id x \<in> {i}"
      then have "row_ok (m_db w) x" using r by (simp add: R_def world_ok_def outbox_ok_def)
      then show "row_ok (m_db w) (?f x)" using row[OF r x(1)] x(2) that by (auto simp: row_ok_def)
    qed (use r in \<open>auto simp: R_def world_ok_def\<close>)
    then show "world_ok (w\<lparr>m_db := rewrite {i} ?f (m_db w), m_faults := fs\<rparr>)" by (simp add: world_ok_def)
  qed (simp add: R_def world_ok_def)
  show ?thesis unfolding keeps_def mark_alert_failed_def
  proof (rule acts_then[where R = R])
    show "acts world_ok (db_read (attempts_of i)) (\<lambda>r w. case r of Inl e \<Rightarrow> world_ok w | Inr n \<Rightarrow> R n w)"
    proof (rule actsI)
      fix w r w' assume "world_ok w" "db_read (attempts_of i) w = (r, w')"
      then show "case r of Inl e \<Rightarrow> world_ok w' | Inr n \<Rightarrow> R n w'"
        unfolding db_read_def by (cases rule: db_call_cases[of "\<lambda>d. (attempts_of i d, d)" w]) (auto simp: R_def world_ok_def)
    qed
    fix n
    show "acts (R n) (if n \<ge> max_alert_attempts then db_write (set_alert_failed i True 0 code resp)
       else then_do clock (\<lambda>t. then_do random (\<lambda>x.
         db_write (set_alert_failed i False (t + next_retry_delay_ms n x) code resp)))) (\<lambda>_. world_ok)"
      by (intro acts_if wr acts_then_keep[OF keeps_clock_db[OF db]] acts_then_keep[OF keeps_random_db[OF db]])
         (auto simp: R_def)
  qed
qed

lemma alerts_ok: "keeps world_ok (dispatch_alerts env as m n)"
proof (induction env as m n rule: dispatch_alerts.induct)
  case (2 env a cs as m n)
  show ?case unfolding dispatch_alerts.simps keeps_def
  proof (rule acts_then[where R = "\<lambda>(ok, _) w. ok_acked ok (ob_id a) w"])
    have "acts (ok_acked False (ob_id a)) (dispatch_channels env a cs False ''no_channels'')
        (\<lambda>r w. case r of Inl e \<Rightarrow> world_ok w | Inr x \<Rightarrow> (case x of (ok, _) \<Rightarrow> ok_acked ok (ob_id a)) w)"
      by (rule acts_post[OF channels_acked]) (auto split: sum.splits prod.splits)
    then show "acts world_ok (dispatch_channels env a cs False ''no_channels'')
        (\<lambda>r w. case r of Inl e \<Rightarrow> world_ok w | Inr x \<Rightarrow> (case x of (ok, _) \<Rightarrow> ok_acked ok (ob_id a)) w)"
      by (rule acts_pre) (simp add: ok_acked_def)
    fix x :: "bool \<times> string"
    obtain ok e where x: "x = (ok, e)" by fastforce
    show "acts ((case x of (ok, _) \<Rightarrow> ok_acked ok (ob_id a)))
       (case x of (ok, last_error) \<Rightarrow>
         if ok then then_do (mark_sent (ob_id a)) (\<lambda>_. dispatch_alerts env as (m + 1) n)
         else then_do (mark_alert_failed (ob_id a) last_error None) (\<lambda>_. dispatch_alerts env as m (n + 1))) (\<lambda>_. world_ok)"
    proof (cases ok)
      case True
      have "acts (ok_acked True (ob_id a)) (then_do (mark_sent (ob_id a)) (\<lambda>_. dispatch_alerts env as (m + 1) n)) (\<lambda>_. world_ok)"
        by (rule acts_then[where R = "\<lambda>_. world_ok"], rule acts_post[OF sent_ok])
           (use 2(1)[OF True] in \<open>auto simp: keeps_def split: sum.splits\<close>)
      then show ?thesis using x True by simp
    next
      case False
      have "keeps world_ok (then_do (mark_alert_failed (ob_id a) e None) (\<lambda>_. dispatch_alerts env as m (n + 1)))"
        by (intro keep_rules failed_ok) (rule 2(2)[OF False])
      then show ?thesis using x False by (auto simp: keeps_def ok_acked_def intro: acts_pre)
    qed
  qed
qed (simp add: keep_rules)

lemma claim_ok: "keeps world_ok (claim_due env)"
  unfolding claim_due_def
proof (intro keep_rules keeps_clock_db world_ok_db keepsI)
  fix t w assume w: "world_ok w"
  let ?f = "claim_due_alerts (de_locked env) t (de_limit env)"
  have "outbox_ok (snd (?f (m_db w)))"
    unfolding row_writes
  proof (rule rewrite_ok)
    show ok: "outbox_ok (m_db w)" using w by (simp add: world_ok_def)
    fix r assume r: "r \<in> set (ad_outbox (m_db w))" "ob_id r \<in> ob_id ` set (due_rows (de_locked env) t (de_limit env) (m_db w))"
    then obtain y where y: "y \<in> set (due_rows (de_locked env) t (de_limit env) (m_db w))" "ob_id y = ob_id r" by auto
    have "r = y" using same_row[of "m_db w" r y] due_row[OF y(1)] y(2) r(1) ok by (simp add: outbox_ok_def)
    then have "ob_status r = Pending" using due_row[OF y(1)] by simp
    moreover have "row_ok (m_db w) r" using ok r(1) by (simp add: outbox_ok_def)
    ultimately show "row_ok (m_db w) (claimed r)" by (simp add: row_ok_def claimed_def)
  qed (simp add: claimed_def)
  then show "world_ok (snd (db_call ?f w))"
    using w by (cases rule: db_call_cases[of ?f w]) (auto simp: world_ok_def)
qed

lemma dispatch_ok: "keeps world_ok (dispatch_due_alerts env)"
  unfolding dispatch_due_alerts_def by (intro keep_rules claim_ok alerts_ok)

lemma enqueue_ok: "outbox_ok d \<Longrightarrow> i \<notin> ob_id ` set (ad_outbox d) \<Longrightarrow> outbox_ok (snd (enqueue_alert inp i now created d))"
  by (auto simp: outbox_ok_def enqueue_alert_def ids_distinct_def row_ok_def has_ack_def max_alert_attempts_def)

lemma world_ok_step: "outbox_step w w' \<Longrightarrow> world_ok w \<Longrightarrow> world_ok w'"
proof (induction rule: outbox_step.induct)
  case (dispatch env w x w')
  then show ?case using keepsD[OF dispatch_ok] by blast
next
  case (enqueue i w inp now created)
  then show ?case using enqueue_ok by (simp add: world_ok_def)
qed (auto simp: world_ok_def outbox_ok_def ids_distinct_def row_ok_def has_ack_def set_alert_channel_enabled_def delete_alert_channel_def)

text \<open>
C18. In everything reachable from an empty outbox, an alert is marked sent only when a delivery of it was
  acknowledged, no alert is tried more than six times, one that may be tried again has been tried at
  most five times, and no two alerts share a deduplication key.
\<close>

theorem outbox_invariant:
  assumes "outbox_steps w w'" and "ad_outbox (m_db w) = []"
  shows "distinct (map ob_key (ad_outbox (m_db w'))) \<and> (\<forall>r \<in> set (ad_outbox (m_db w')).
    (ob_status r = AlertSent \<longrightarrow> (\<exists>v \<in> set (ad_deliveries (m_db w')). dv_outbox v = ob_id r \<and> dv_success v)) \<and>
    ob_attempts r \<le> 6 \<and> (ob_status r = Pending \<longrightarrow> ob_attempts r \<le> 5))"
proof -
  have "world_ok w'" using assms
    by (induction rule: outbox_steps.induct) (auto simp: world_ok_def outbox_ok_def ids_distinct_def dest: world_ok_step[unfolded world_ok_def outbox_ok_def ids_distinct_def])
  then show ?thesis by (auto simp: world_ok_def outbox_ok_def row_ok_def has_ack_def max_alert_attempts_def)
qed

theorem outbox_invariant_witness:
  "distinct (map ob_key (ad_outbox (m_db (snd (dispatch_due_alerts demo_dispatch (demo_alerts\<lparr>m_db := \<lparr>ad_outbox = [],
     ad_channels = [], ad_deliveries = [], ad_credentials = Map.empty\<rparr>\<rparr>))))))"
proof -
  let ?w = "demo_alerts\<lparr>m_db := \<lparr>ad_outbox = [], ad_channels = [], ad_deliveries = [], ad_credentials = Map.empty\<rparr>\<rparr>"
  have "outbox_steps ?w (snd (dispatch_due_alerts demo_dispatch ?w))"
    by (rule outbox_steps.go[OF outbox_steps.stay], rule outbox_step.dispatch) (rule prod.collapse[symmetric])
  from outbox_invariant[OF this] show ?thesis by simp
qed

section \<open>Where requests go\<close>

definition safe_request :: "webhook_env \<Rightarrow> request \<Rightarrow> bool" where
  "safe_request env q = (case q of
      TelegramRequest _ _ _ \<Rightarrow> True
    | WebhookRequest u _ _ _ \<Rightarrow> guarded env u
    | DiscordRequest u _ \<Rightarrow> guarded env u
    | PushRequest u _ _ _ _ \<Rightarrow> guarded env u)"

definition requests_safe :: "webhook_env \<Rightarrow> alert_world \<Rightarrow> bool" where
  "requests_safe env w \<longleftrightarrow> list_all (safe_request env) (a_requests w)"

named_theorems request_rules

lemma safe_clock [request_rules]: "keeps (requests_safe env) clock"
  by (rule keepsI) (auto simp: clock_def requests_safe_def split: list.splits)

lemma safe_random [request_rules]: "keeps (requests_safe env) random"
  by (rule keepsI) (auto simp: random_def requests_safe_def split: list.splits)

lemma safe_db_call [request_rules]: "keeps (requests_safe env) (db_call f)"
proof (rule keepsI)
  fix w assume "requests_safe env w"
  then show "requests_safe env (snd (db_call f w))"
    by (cases rule: db_call_cases[of f w]) (auto simp: requests_safe_def)
qed

lemma safe_db_rw [request_rules]: "keeps (requests_safe env) (db_read g)" "keeps (requests_safe env) (db_write h)"
  by (simp_all add: db_read_def db_write_def safe_db_call)

lemma safe_fetch: "safe_request env q \<Longrightarrow> keeps (requests_safe env) (fetch q)"
  by (rule keepsI) (auto simp: fetch_def Let_def requests_safe_def split: list.splits)

lemma safe_timed: "safe_request env q \<Longrightarrow> keeps (requests_safe env) (timed_send q)"
  unfolding timed_send_def by (intro keep_rules request_rules safe_fetch)

lemma safe_guarded: "(\<And>u. guarded env u \<Longrightarrow> keeps (requests_safe env) (f u)) \<Longrightarrow> keeps (requests_safe env) (guarded_send env raw f)"
  unfolding guarded_send_def by (intro keeps_try keeps_then_lift keeps_ret) (auto dest: guard_ok)

lemma safe_send: "keeps (requests_safe (de_web env)) (send_channel env a c)"
proof -
  let ?I = "requests_safe (de_web env)"
  have s: "keeps ?I (channel_secret env c)"
    unfolding channel_secret_def by (intro keep_rules request_rules)
  have e: "keeps ?I (embed_of_alert env a)"
    unfolding embed_of_alert_def by (intro keep_rules request_rules)
  have t: "keeps ?I (telegram_send x y z)" for x y z
    unfolding telegram_send_def by (intro keep_rules safe_timed) (simp add: safe_request_def)
  have w: "keeps ?I (webhook_send (de_web env) u x y z)" for u x y z
    unfolding webhook_send_def by (intro safe_guarded safe_timed) (simp add: safe_request_def)
  have d: "keeps ?I (discord_send (de_web env) u x)" for u x
    unfolding discord_send_def by (intro safe_guarded safe_timed) (simp add: safe_request_def)
  have p: "keeps ?I (push_send (de_web env) x y z l)" for x y z l
    unfolding push_send_def push_deliver_def
    by (intro safe_guarded keep_rules request_rules safe_fetch) (simp add: safe_request_def)
  have "keeps ?I (send_telegram env a c)" "keeps ?I (send_webhook env a c)" "keeps ?I (send_discord env a c)" "keeps ?I (send_web_push env a c)"
    unfolding send_telegram_def send_webhook_def send_discord_def send_web_push_def Let_def
    by (intro keep_rules s e t w d p)+
  then show ?thesis by (simp add: send_channel_def split: channel_kind.split)
qed

lemma safe_channels: "keeps (requests_safe (de_web env)) (dispatch_channels env a cs ok e)"
  by (induction cs arbitrary: ok e)
     (auto simp: Let_def record_attempt_for_def intro!: keep_rules request_rules safe_send)

lemma safe_alerts: "keeps (requests_safe (de_web env)) (dispatch_alerts env as m n)"
  by (induction env as m n rule: dispatch_alerts.induct)
     (auto simp: mark_sent_def mark_alert_failed_def intro!: keep_rules request_rules safe_channels, blast)

text \<open>
C30. Whatever the channels hold, a dispatch makes webhook, Discord and push requests only to https URLs
  without credentials none of whose addresses lies in an internal IPv4 block.
\<close>

theorem dispatch_requests_guarded:
  assumes "dispatch_due_alerts env w = (x, w')" and "a_requests w = []" and "q \<in> set (a_requests w')"
    and "q = WebhookRequest u m t n \<or> q = DiscordRequest u e \<or> q = PushRequest u p ti b l"
  shows "url_protocol u = ''https:'' \<and> url_username u = [] \<and> url_password u = [] \<and>
    (\<forall>a \<in> destinations (de_web env) u. is_ip4 a \<longrightarrow> (\<forall>b \<in> set internal_blocks. \<not> in_block (octets_of a) b))"
proof -
  have "keeps (requests_safe (de_web env)) (dispatch_due_alerts env)"
    unfolding dispatch_due_alerts_def claim_due_def by (intro keep_rules request_rules safe_alerts)
  from keepsD[OF this _ assms(1)] assms(2) have "requests_safe (de_web env) w'" by (simp add: requests_safe_def)
  with assms(3,4) have "guarded (de_web env) u" by (auto simp: requests_safe_def list_all_iff safe_request_def)
  then show ?thesis by (simp add: guarded_def)
qed

definition demo_channel :: channel where
  "demo_channel = \<lparr>ch_id = ''c1'', ch_kind = WebPushChannel, ch_enabled = True, ch_credential = None, ch_chat = None,
     ch_push = Some \<lparr>ps_endpoint = ''https://hooks.io'', ps_p256dh = ''p'', ps_auth = ''a''\<rparr>, ch_updated = 0\<rparr>"

definition demo_push :: alert_world where
  "demo_push = demo_alerts\<lparr>m_db := (m_db demo_alerts)\<lparr>ad_channels := [demo_channel]\<rparr>, m_faults := [], a_replies := [Responds 201 None]\<rparr>"

definition demo_url :: url where
  "demo_url = \<lparr>url_protocol = ''https:'', url_hostname = ''hooks.io'', url_username = [], url_password = [], url_text = ''https://hooks.io''\<rparr>"

lemma demo_guard: "assert_safe_webhook_url demo_env False ''https://hooks.io'' = Inr demo_url"
proof -
  have a: "\<not> is_private_address ''93.184.216.34''" by code_simp
  have i: "is_ip ''hooks.io'' = 0" by code_simp
  show ?thesis using a i by (simp add: assert_safe_webhook_url_def demo_env_def demo_url_def)
qed

lemma demo_delivered:
  "a_requests (snd (dispatch_due_alerts (demo_dispatch\<lparr>de_vapid := True\<rparr>) demo_push)) =
     [PushRequest demo_url \<lparr>ps_endpoint = ''https://hooks.io'', ps_p256dh = ''p'', ps_auth = ''a''\<rparr> ''HoodMint Radar alert'' ''WL HIT'' None]"
  by (simp add: dispatch_eval demo_push_def demo_channel_def send_channel_def send_web_push_def push_send_def guarded_send_def
      try_catch_def attempt_def lift_sum_def demo_guard push_deliver_def fetch_def response_ok_def demo_payload_def alert_text_def
      record_attempt_for_def mark_sent_def)

theorem dispatch_requests_guarded_witness:
  "url_protocol demo_url = ''https:'' \<and> (\<exists>p ti b l. PushRequest demo_url p ti b l \<in>
     set (a_requests (snd (dispatch_due_alerts (demo_dispatch\<lparr>de_vapid := True\<rparr>) demo_push))))"
proof -
  let ?w = "snd (dispatch_due_alerts (demo_dispatch\<lparr>de_vapid := True\<rparr>) demo_push)"
  obtain p ti b l where q: "PushRequest demo_url p ti b l \<in> set (a_requests ?w)" by (simp add: demo_delivered)
  have n: "a_requests demo_push = []" by (simp add: demo_push_def demo_alerts_def)
  from dispatch_requests_guarded[OF prod.collapse[symmetric] n q, of demo_url] q show ?thesis by blast
qed

section \<open>Retries and duplicates\<close>

text \<open>
. A retry is put off by at most a minute, doubled for every attempt made and capped at six hours, and is
  never put in the past.
\<close>

theorem retry_delay_bounds:
  assumes "1 \<le> n" and "0 \<le> x" and "x \<le> 1"
  shows "0 \<le> next_retry_delay_ms n x \<and> next_retry_delay_ms n x \<le> min (60000 * 2 ^ nat (n - 1)) 21600000"
proof -
  let ?b = "min (60000 * 2 ^ nat (n - 1)) 21600000 :: int"
  obtain k where k: "n - 1 = int k" using assms(1) by (metis zero_le_imp_eq_int diff_ge_0_iff_ge)
  have b: "min (60000 * 2 powi (n - 1)) (21600000 :: rat) = of_int ?b"
    unfolding k by (simp add: of_int_min)
  have p: "0 \<le> ?b" "?b \<le> 21600000" by simp_all
  have "x * of_int ?b \<le> 1 * of_int ?b" by (rule mult_right_mono) (use assms p in simp_all)
  then have "dmul x (of_int ?b) \<le> of_int ?b" unfolding dmul_def by (intro fl_le_int) (use p in auto)
  then have hi: "\<lfloor>dmul x (of_int ?b)\<rfloor> \<le> ?b" by (rule floor_le_of_int)
  have "0 \<le> dmul x (of_int ?b)" unfolding dmul_def by (rule fl_nonneg) (use assms p in simp)
  then have "0 \<le> \<lfloor>dmul x (of_int ?b)\<rfloor>" by simp
  with hi show ?thesis unfolding next_retry_delay_ms_def b Let_def by blast
qed

theorem retry_delay_bounds_witness: "0 \<le> next_retry_delay_ms 3 (1/2) \<and> next_retry_delay_ms 3 (1/2) \<le> 240000"
  using retry_delay_bounds[of 3 "1/2"] by simp

lemma enqueue_twice:
  "fst (enqueue_alert inp j t c (snd (enqueue_alert inp i now created d))) = False \<and>
   snd (enqueue_alert inp j t c (snd (enqueue_alert inp i now created d))) = snd (enqueue_alert inp i now created d)"
  by (auto simp: enqueue_alert_def)

end
