(* ===== verification/ChainRadar.thy ===== *)
theory ChainRadar
  imports Errors
begin

text \<open>
  The on-chain radar (\<open>packages/providers/src/chain/rpc.ts\<close>, \<open>seadrop.ts\<close>): the adaptive
  \<open>eth_getLogs\<close> windows, the pager over them, the reorg test at the checkpoint, and the decoding of mint
  logs. The endpoint is a parameter whose answers may change from call to call (\<open>rp_logs\<close> is given the
  number of the call); the ABI decoder of viem is another. Block numbers are unbounded, as BigInt.
\<close>

section \<open>Logs and their decoding\<close>

record chain_log =
  lg_address :: string
  lg_topics :: "string list"
  lg_data :: string
  lg_tx :: "string option"
  lg_block :: "int option"
  lg_hash :: "string option"
  lg_index :: "int option"

record mint_event =
  me_chain :: int
  me_tx :: string
  me_index :: int
  me_block :: int
  me_hash :: string
  me_contract :: string
  me_recipient :: string
  me_quantity :: int
  me_finalized :: bool
  me_observed :: int

definition seadrop_address :: string where
  "seadrop_address = ''0x00005ea00ac477b1030ce78506496e8c2de24bf5''"
definition erc721_transfer :: string where
  "erc721_transfer = ''0xddf252ad1be2c89b69c2b068fc378daa952ba7f163c4a11628f55a4df523b3ef''"
definition erc1155_single :: string where
  "erc1155_single = ''0xc3d58168c5ae7397731d063d5bbf3d657854427343f4c083240f7aacaa2d0f62''"
definition erc1155_batch :: string where
  "erc1155_batch = ''0x4a39dc06d4c0dbc64b70b58deeb0eb1e6b49e6f3a6f0a3ba54a5eb02d7b630f6''"
definition zero_address :: string where
  "zero_address = ''0x0000000000000000000000000000000000000000''"

definition is_mint_transfer :: "string \<Rightarrow> bool" where
  "is_mint_transfer from \<longleftrightarrow> to_lower from = zero_address \<or> to_lower from = seadrop_address"

text \<open>\<open>decodeAbiParameters\<close>: \<open>None\<close> where it throws.\<close>

record abi =
  abi_pair :: "string \<Rightarrow> (int \<times> int) option"
  abi_lists :: "string \<Rightarrow> (int list \<times> int list) option"

definition address_from_topic :: "string \<Rightarrow> string" where
  "address_from_topic t = ''0x'' @ drop (length t - 40) t"

definition topic :: "nat \<Rightarrow> chain_log \<Rightarrow> string option" where
  "topic i l = (if i < length (lg_topics l) then Some (lg_topics l ! i) else None)"

definition clamp_quantity :: "int \<Rightarrow> int" where
  "clamp_quantity v = (if v > 1000000 then 1000000 else v)"

definition log_quantity :: "abi \<Rightarrow> chain_log \<Rightarrow> int option" where
  "log_quantity abi l = (case map_option to_lower (topic 0 l) of
      None \<Rightarrow> None
    | Some t \<Rightarrow>
        if t = erc721_transfer
        then (case (topic 1 l, topic 2 l) of
                (Some f, Some _) \<Rightarrow> if is_mint_transfer (address_from_topic f) then Some 1 else None | _ \<Rightarrow> None)
        else if t = erc1155_single
        then (case (topic 2 l, topic 3 l) of
                (Some f, Some _) \<Rightarrow> if is_mint_transfer (address_from_topic f)
                  then map_option (\<lambda>p. clamp_quantity (snd p)) (abi_pair abi (lg_data l)) else None
              | _ \<Rightarrow> None)
        else if t = erc1155_batch
        then (case (topic 2 l, topic 3 l) of
                (Some f, Some _) \<Rightarrow> if is_mint_transfer (address_from_topic f)
                  then map_option (\<lambda>p. clamp_quantity (sum_list (snd p))) (abi_lists abi (lg_data l)) else None
              | _ \<Rightarrow> None)
        else None)"

definition log_recipient :: "chain_log \<Rightarrow> string" where
  "log_recipient l = address_from_topic
     (if map_option to_lower (topic 0 l) = Some erc721_transfer then lg_topics l ! 2 else lg_topics l ! 3)"

definition decode_mint_log :: "abi \<Rightarrow> int \<Rightarrow> int \<Rightarrow> chain_log \<Rightarrow> mint_event option" where
  "decode_mint_log abi chain now l =
     (case (log_quantity abi l, lg_tx l, lg_block l, lg_hash l) of
        (Some q, Some tx, Some b, Some h) \<Rightarrow>
          Some \<lparr>me_chain = chain, me_tx = tx, me_index = (case lg_index l of None \<Rightarrow> 0 | Some i \<Rightarrow> i), me_block = b, me_hash = h,
            me_contract = lg_address l, me_recipient = log_recipient l, me_quantity = q, me_finalized = False, me_observed = now\<rparr>
      | _ \<Rightarrow> None)"

section \<open>Adaptive windows\<close>

text \<open>A failed call throws an error with a message and viem's \<open>details\<close>.\<close>

datatype logs_answer = Logs "chain_log list" | LogsError string string

record rpc_node =
  rp_head :: "thrown + int"
  rp_hash :: "int \<Rightarrow> thrown + string"
  rp_logs :: "nat \<Rightarrow> int \<Rightarrow> int \<Rightarrow> logs_answer"

record radar_options =
  ro_max :: int
  ro_min :: int
  ro_safety :: int

definition default_options :: radar_options where
  "default_options = \<lparr>ro_max = 20000, ro_min = 100, ro_safety = 12\<rparr>"

text \<open>The instance's range, and how many log queries it has made.\<close>

record radar =
  ra_range :: int
  ra_calls :: nat

definition hard_floor :: int where "hard_floor = 10"

definition oversized :: "string \<Rightarrow> string \<Rightarrow> bool" where
  "oversized message details =
     (let s = message @ [char_of (10 :: nat)] @ details in
      matches_ci ''block range'' s \<or> matches_ci ''too large'' s \<or> matches_ci ''exceed'' s \<or> matches_ci ''more than'' s \<or>
      matches_ci ''invalid parameters'' s \<or> matches_ci ''took too long'' s \<or>
      matches_ci ''timeout'' s \<or> matches_ci ''time out'' s \<or> matches_ci ''timedout'' s \<or> matches_ci ''timed out'' s)"

definition resized :: "radar_options \<Rightarrow> nat \<Rightarrow> int \<Rightarrow> int" where
  "resized opts n blocks =
     (if n > 4000 \<and> blocks > ro_min opts then max (ro_min opts) (blocks div 2)
      else if n < 500 \<and> blocks < ro_max opts then min (ro_max opts) (blocks * 2) else blocks)"

definition window_to :: "int \<Rightarrow> int \<Rightarrow> radar \<Rightarrow> int" where
  "window_to from to r = (if from + ra_range r - 1 > to then to else from + ra_range r - 1)"

definition retryable_error :: "string \<Rightarrow> thrown" where
  "retryable_error m = ThrownApp (mk_app_error RetryableProvider m no_options)"

primrec fetch_logs_window :: "rpc_node \<Rightarrow> radar_options \<Rightarrow> int \<Rightarrow> int \<Rightarrow> nat \<Rightarrow> nat \<Rightarrow> radar \<Rightarrow> (thrown + chain_log list \<times> int) \<times> radar" where
  "fetch_logs_window rpc opts from to 0 failures r = (Inl (retryable_error ''eth_getLogs exhausted adaptive attempts''), r)"
| "fetch_logs_window rpc opts from to (Suc n) failures r =
     (let w = window_to from to r; r1 = r\<lparr>ra_calls := Suc (ra_calls r)\<rparr> in
      case rp_logs rpc (ra_calls r) from w of
        Logs ls \<Rightarrow> (Inr (ls, w), r1\<lparr>ra_range := resized opts (length ls) (ra_range r)\<rparr>)
      | LogsError m d \<Rightarrow>
          if oversized m d \<and> ra_range r > hard_floor
          then fetch_logs_window rpc opts from to n failures (r1\<lparr>ra_range := max hard_floor (ra_range r div 4)\<rparr>)
          else if Suc failures \<ge> 4 then (Inl (retryable_error (''eth_getLogs failed: '' @ take 120 m)), r1)
          else fetch_logs_window rpc opts from to n (Suc failures) r1)"

definition attempts_per_window :: nat where "attempts_per_window = 12"

text \<open>The pager; \<open>None\<close> when the fuel is used up before the cursor passes the end.\<close>

primrec pager :: "nat \<Rightarrow> rpc_node \<Rightarrow> radar_options \<Rightarrow> abi \<Rightarrow> int \<Rightarrow> int \<Rightarrow> int \<Rightarrow> int \<Rightarrow> radar \<Rightarrow> ((thrown + mint_event list) \<times> radar) option" where
  "pager 0 rpc opts abi chain now cursor to r = (if cursor \<le> to then None else Some (Inr [], r))"
| "pager (Suc k) rpc opts abi chain now cursor to r =
     (if cursor \<le> to
      then (case fetch_logs_window rpc opts cursor to attempts_per_window 0 r of
              (Inl e, r1) \<Rightarrow> Some (Inl e, r1)
            | (Inr (ls, w), r1) \<Rightarrow>
                (case pager k rpc opts abi chain now (w + 1) to r1 of
                   Some (Inr es, r2) \<Rightarrow> Some (Inr (List.map_filter (decode_mint_log abi chain now) ls @ es), r2)
                 | other \<Rightarrow> other))
      else Some (Inr [], r))"

section \<open>One pass from the checkpoint\<close>

record checkpoint =
  cp_block :: int
  cp_hash :: string

record sync_result =
  sy_from :: int
  sy_to :: int
  sy_events :: "mint_event list"
  sy_reorg :: bool
  sy_range :: int
  sy_lag :: int

definition sync_start :: "rpc_node \<Rightarrow> radar_options \<Rightarrow> radar \<Rightarrow> int \<Rightarrow> checkpoint option \<Rightarrow> thrown + int \<times> bool" where
  "sync_start rpc opts r head cp = (case cp of
      None \<Rightarrow> Inr (if head > ra_range r then head - ra_range r + 1 else 1, False)
    | Some c \<Rightarrow>
        if cp_block c = 0 then Inr (if head > ra_range r then head - ra_range r + 1 else 1, False)
        else rbind (rp_hash rpc (cp_block c)) (\<lambda>h.
          if to_lower h \<noteq> to_lower (cp_hash c)
          then Inr (if cp_block c > ro_safety opts then cp_block c - ro_safety opts + 1 else 1, True)
          else Inr (cp_block c + 1, False)))"

definition max_span :: "radar_options \<Rightarrow> int" where
  "max_span opts = min (ro_max opts) 1000"

definition sync_end :: "radar_options \<Rightarrow> int \<Rightarrow> int \<Rightarrow> int" where
  "sync_end opts from head = (if head - from + 1 > max_span opts then from + max_span opts - 1 else head)"

definition sync_from_checkpoint ::
  "rpc_node \<Rightarrow> radar_options \<Rightarrow> abi \<Rightarrow> int \<Rightarrow> int \<Rightarrow> checkpoint option \<Rightarrow> radar \<Rightarrow> (thrown + sync_result) option" where
  "sync_from_checkpoint rpc opts abi chain now cp r =
     (case rbind (rp_head rpc) (\<lambda>head. rbind (sync_start rpc opts r head cp) (\<lambda>s. Inr (head, s))) of
        Inl e \<Rightarrow> Some (Inl e)
      | Inr (head, from, reorg) \<Rightarrow>
          let to = sync_end opts from head in
          if to < from
          then Some (Inr \<lparr>sy_from = from, sy_to = to, sy_events = [], sy_reorg = reorg, sy_range = 0, sy_lag = 0\<rparr>)
          else (case pager (nat (max_span opts)) rpc opts abi chain now from to r of
                  None \<Rightarrow> None
                | Some (Inl e, _) \<Rightarrow> Some (Inl e)
                | Some (Inr es, _) \<Rightarrow> Some (Inr
                    \<lparr>sy_from = from, sy_to = to, sy_events = es, sy_reorg = reorg, sy_range = to - from + 1, sy_lag = head - from\<rparr>)))"

section \<open>The windows cover the span\<close>

text \<open>The reference: the logs of the blocks of a span, in order, each decoded once.\<close>

definition logs_between :: "(int \<Rightarrow> chain_log list) \<Rightarrow> int \<Rightarrow> int \<Rightarrow> chain_log list" where
  "logs_between blocks from to = concat (map blocks [from..to])"

definition honest :: "rpc_node \<Rightarrow> (int \<Rightarrow> chain_log list) \<Rightarrow> bool" where
  "honest rpc blocks \<longleftrightarrow> (\<forall>n f t ls. rp_logs rpc n f t = Logs ls \<longrightarrow> ls = logs_between blocks f t)"

definition sane :: "radar_options \<Rightarrow> bool" where
  "sane opts \<longleftrightarrow> 1 \<le> ro_min opts \<and> 1 \<le> ro_max opts"

lemma resized_pos: "sane opts \<Longrightarrow> 1 \<le> b \<Longrightarrow> 1 \<le> resized opts n b"
  by (auto simp: sane_def resized_def)

lemma fetch_progress:
  assumes "sane opts" and "from \<le> to"
  shows "1 \<le> ra_range r \<Longrightarrow> fetch_logs_window rpc opts from to n failures r = (res, r1) \<Longrightarrow>
    1 \<le> ra_range r1 \<and> (\<forall>ls w. res = Inr (ls, w) \<longrightarrow> from \<le> w \<and> w \<le> to \<and> (\<exists>k. rp_logs rpc k from w = Logs ls))"
proof (induction n arbitrary: failures r)
  case 0
  then show ?case by auto
next
  case (Suc n)
  let ?w = "window_to from to r"
  show ?case
  proof (cases "rp_logs rpc (ra_calls r) from ?w")
    case (Logs ls)
    then have "res = Inr (ls, ?w)" "ra_range r1 = resized opts (length ls) (ra_range r)"
      using Suc.prems by (auto simp: Let_def)
    moreover have "from \<le> ?w" "?w \<le> to" using Suc.prems assms(2) by (auto simp: window_to_def)
    ultimately show ?thesis using resized_pos[OF assms(1) Suc.prems(1)] Logs by auto
  next
    case (LogsError m d)
    let ?r1 = "r\<lparr>ra_calls := Suc (ra_calls r)\<rparr>" and ?r2 = "r\<lparr>ra_calls := Suc (ra_calls r), ra_range := max hard_floor (ra_range r div 4)\<rparr>"
    have p: "1 \<le> ra_range ?r1" "1 \<le> ra_range ?r2" using Suc.prems(1) by (auto simp: hard_floor_def)
    consider (shrink) "oversized m d \<and> ra_range r > hard_floor" | (give_up) "\<not> (oversized m d \<and> ra_range r > hard_floor)" "Suc failures \<ge> 4"
      | (retry) "\<not> (oversized m d \<and> ra_range r > hard_floor)" "\<not> Suc failures \<ge> 4" by blast
    then show ?thesis
    proof cases
      case shrink
      then have "fetch_logs_window rpc opts from to n failures ?r2 = (res, r1)" using Suc.prems(2) LogsError by (simp add: Let_def)
      from Suc.IH[OF p(2) this] show ?thesis .
    next
      case give_up
      then show ?thesis using Suc.prems LogsError by (auto simp: Let_def)
    next
      case retry
      then have "fetch_logs_window rpc opts from to n (Suc failures) ?r1 = (res, r1)" using Suc.prems(2) LogsError by (auto simp: Let_def split: if_splits)
      from Suc.IH[OF p(1) this] show ?thesis .
    qed
  qed
qed

lemma logs_between_split: "from \<le> w + 1 \<Longrightarrow> w \<le> to \<Longrightarrow> logs_between blocks from w @ logs_between blocks (w + 1) to = logs_between blocks from to"
proof -
  assume a: "from \<le> w + 1" "w \<le> to"
  have "[from..w] @ [w + 1..to] = [from..to]"
    by (rule sorted_distinct_set_unique) (use a in \<open>auto simp: sorted_append\<close>)
  then show ?thesis by (simp add: logs_between_def flip: concat_append map_append)
qed

lemma pager_total:
  assumes "sane opts"
  shows "1 \<le> ra_range r \<Longrightarrow> nat (to - cursor + 1) \<le> k \<Longrightarrow> \<exists>x. pager k rpc opts abi chain now cursor to r = Some x"
proof (induction k arbitrary: cursor r)
  case (Suc k)
  show ?case
  proof (cases "cursor \<le> to")
    case True
    obtain res r1 where f: "fetch_logs_window rpc opts cursor to attempts_per_window 0 r = (res, r1)" by fastforce
    note p = fetch_progress[OF assms True Suc.prems(1) f]
    show ?thesis
    proof (cases res)
      case (Inr lw)
      obtain ls w where lw: "lw = (ls, w)" by fastforce
      with p Inr have "cursor \<le> w" "1 \<le> ra_range r1" by auto
      then obtain y where y: "pager k rpc opts abi chain now (w + 1) to r1 = Some y"
        using Suc.IH[of r1 "w + 1"] Suc.prems(2) by (auto simp: nat_le_iff)
      show ?thesis using f Inr lw y True by (cases "fst y"; cases y) auto
    qed (use f True in simp)
  qed simp
qed simp

lemma map_filter_append': "List.map_filter f (xs @ ys) = List.map_filter f xs @ List.map_filter f ys"
  by (induction xs) (auto simp: map_filter_simps split: option.split)

lemma pager_exact:
  assumes "sane opts" and "honest rpc blocks"
  shows "1 \<le> ra_range r \<Longrightarrow> pager k rpc opts abi chain now cursor to r = Some (Inr es, r') \<Longrightarrow>
    es = List.map_filter (decode_mint_log abi chain now) (logs_between blocks cursor to)"
proof (induction k arbitrary: cursor r es r')
  case 0
  then show ?case by (auto simp: logs_between_def map_filter_simps split: if_splits)
next
  case (Suc k)
  show ?case
  proof (cases "cursor \<le> to")
    case True
    obtain res r1 where f: "fetch_logs_window rpc opts cursor to attempts_per_window 0 r = (res, r1)" by fastforce
    note p = fetch_progress[OF assms(1) True Suc.prems(1) f]
    obtain ls w where lw: "res = Inr (ls, w)" using Suc.prems(2) f True by (cases res) auto
    then obtain es1 r2 where y: "pager k rpc opts abi chain now (w + 1) to r1 = Some (Inr es1, r2)"
      "es = List.map_filter (decode_mint_log abi chain now) ls @ es1"
      using Suc.prems(2) f True by (auto split: option.splits prod.splits sum.splits)
    have "es1 = List.map_filter (decode_mint_log abi chain now) (logs_between blocks (w + 1) to)"
      using Suc.IH[OF _ y(1)] p by auto
    moreover have "ls = logs_between blocks cursor w" "cursor \<le> w + 1" "w \<le> to"
      using p lw assms(2) by (auto simp: honest_def)
    ultimately show ?thesis
      using y(2) logs_between_split[of cursor w to blocks] by (metis map_filter_append')
  next
    case False
    then show ?thesis using Suc.prems(2) by (auto simp: logs_between_def map_filter_simps)
  qed
qed

lemma sync_span:
  assumes "sane opts"
  shows "sync_end opts from head \<le> head \<and> sync_end opts from head - from + 1 \<le> max_span opts \<and> max_span opts \<le> 1000"
  using assms by (auto simp: sync_end_def max_span_def sane_def)

lemma sync_start_bound:
  assumes "sync_start rpc opts r head (Some c) = Inr (from, reorg)" and "cp_block c \<noteq> 0" "0 \<le> cp_block c" "1 \<le> ro_safety opts"
  shows "from \<le> cp_block c + 1"
  using assms by (auto simp: sync_start_def rbind_Inr_iff split: if_splits)

text \<open>
C23. A pass always ends. When it succeeds it has read at most 1000 blocks up to the head, starting no
  later than the block after the checkpoint, and, from an endpoint that answers truthfully, its events are
  those of every log of these blocks, each decoded once and in order, however the windows were sized and
  whatever calls failed on the way.
\<close>

theorem sync_pass_exact:
  assumes opts: "sane opts" and rpc: "honest rpc blocks" and r: "1 \<le> ra_range r" and s1: "1 \<le> ro_safety opts"
  shows "\<exists>x. sync_from_checkpoint rpc opts abi chain now cp r = Some x \<and> (\<forall>s. x = Inr s \<longrightarrow>
    sy_events s = List.map_filter (decode_mint_log abi chain now) (logs_between blocks (sy_from s) (sy_to s)) \<and>
    sy_to s - sy_from s < 1000 \<and> (\<forall>head. rp_head rpc = Inr head \<longrightarrow> sy_to s \<le> head) \<and>
    (\<forall>c. cp = Some c \<longrightarrow> 0 < cp_block c \<longrightarrow> sy_from s \<le> cp_block c + 1))"
proof (cases "rbind (rp_head rpc) (\<lambda>head. rbind (sync_start rpc opts r head cp) (\<lambda>s. Inr (head, s)))")
  case (Inl e)
  then show ?thesis by (simp add: sync_from_checkpoint_def)
next
  case (Inr h)
  obtain head fr reorg where h: "h = (head, fr, reorg)" by (cases h) auto
  have hd: "rp_head rpc = Inr head" and st: "sync_start rpc opts r head cp = Inr (fr, reorg)"
    using Inr h by (auto simp: rbind_Inr_iff)
  have b: "fr \<le> cp_block c + 1" if "cp = Some c" "0 < cp_block c" for c
    using sync_start_bound[of rpc opts r head c] st that s1 by auto
  let ?to = "sync_end opts fr head"
  note sp = sync_span[OF opts, of fr head]
  show ?thesis
  proof (cases "?to < fr")
    case True
    then show ?thesis using Inr h hd b sp by (simp add: sync_from_checkpoint_def logs_between_def map_filter_simps)
  next
    case False
    have "nat (?to - fr + 1) \<le> nat (max_span opts)" using sp by (intro nat_mono) linarith
    then obtain y where y: "pager (nat (max_span opts)) rpc opts abi chain now fr ?to r = Some y"
      using pager_total[OF opts r] by blast
    obtain z r' where z: "y = (z, r')" by fastforce
    show ?thesis
    proof (cases z)
      case (Inl e)
      then show ?thesis using Inr h y z False by (simp add: sync_from_checkpoint_def Let_def)
    next
      case es: (Inr es)
      have "es = List.map_filter (decode_mint_log abi chain now) (logs_between blocks fr ?to)"
        by (rule pager_exact[OF opts rpc r]) (use y z es in simp)
      then show ?thesis using Inr h y z es False hd b sp by (simp add: sync_from_checkpoint_def Let_def)
    qed
  qed
qed
definition demo_log :: chain_log where
  "demo_log = \<lparr>lg_address = ''0xc0ffee'', lg_topics = [erc721_transfer, zero_address, ''0x00000000000000000000000000000000000000aa'', ''0x01''],
     lg_data = ''0x'', lg_tx = Some ''0x1'', lg_block = Some 42, lg_hash = Some ''0xb'', lg_index = Some 0\<rparr>"

definition demo_blocks :: "int \<Rightarrow> chain_log list" where
  "demo_blocks b = (if b = 42 then [demo_log] else [])"

definition demo_node :: rpc_node where
  "demo_node = \<lparr>rp_head = Inr 45, rp_hash = (\<lambda>b. Inr ''0xH''),
     rp_logs = (\<lambda>n f t. if n = 0 then LogsError ''logs matched by query exceeds limit of 10000'' [] else Logs (logs_between demo_blocks f t))\<rparr>"

definition demo_abi :: abi where
  "demo_abi = \<lparr>abi_pair = (\<lambda>_. None), abi_lists = (\<lambda>_. None)\<rparr>"

lemma demo_sync:
  "map_option (rmap (\<lambda>s. (sy_from s, sy_to s, map me_block (sy_events s))))
     (sync_from_checkpoint demo_node default_options demo_abi 1 7 (Some \<lparr>cp_block = 40, cp_hash = ''0xh''\<rparr>) \<lparr>ra_range = 40, ra_calls = 0\<rparr>)
   = Some (Inr (41, 45, [42]))"
  by code_simp

theorem sync_pass_exact_witness:
  "\<exists>s. sync_from_checkpoint demo_node default_options demo_abi 1 7 (Some \<lparr>cp_block = 40, cp_hash = ''0xh''\<rparr>) \<lparr>ra_range = 40, ra_calls = 0\<rparr>
       = Some (Inr s) \<and> sy_events s = List.map_filter (decode_mint_log demo_abi 1 7) (logs_between demo_blocks (sy_from s) (sy_to s)) \<and>
     sy_from s = 41 \<and> map me_block (sy_events s) = [42]"
proof -
  have h: "sane default_options" "honest demo_node demo_blocks" "1 \<le> ro_safety default_options"
    by (auto simp: sane_def default_options_def honest_def demo_node_def split: if_splits)
  obtain x where x: "sync_from_checkpoint demo_node default_options demo_abi 1 7 (Some \<lparr>cp_block = 40, cp_hash = ''0xh''\<rparr>) \<lparr>ra_range = 40, ra_calls = 0\<rparr> = Some x"
    "\<forall>s. x = Inr s \<longrightarrow> sy_events s = List.map_filter (decode_mint_log demo_abi 1 7) (logs_between demo_blocks (sy_from s) (sy_to s))"
    using sync_pass_exact[OF h(1,2) _ h(3), of "\<lparr>ra_range = 40, ra_calls = 0\<rparr>" demo_abi 1 7 "Some \<lparr>cp_block = 40, cp_hash = ''0xh''\<rparr>"] by auto
  then show ?thesis using demo_sync by (cases x) (auto simp: rmap_def)
qed

section \<open>What counts as a mint\<close>

text \<open>
. ERC-20 tokens share the signature of the ERC-721 transfer, with three topics in place of four; a
  fungible token minted from the zero address is decoded as the mint of one item of a collection.
\<close>

theorem erc20_mint_counts:
  assumes "lg_topics l = [erc721_transfer, f, t]" and "is_mint_transfer (address_from_topic f)"
    and "lg_tx l = Some tx" and "lg_block l = Some b" and "lg_hash l = Some h"
  shows "\<exists>e. decode_mint_log abi chain now l = Some e \<and> me_contract e = lg_address l \<and> me_quantity e = 1 \<and>
    me_recipient e = address_from_topic t"
proof -
  have "to_lower erc721_transfer = erc721_transfer" by code_simp
  then show ?thesis using assms by (simp add: decode_mint_log_def log_quantity_def topic_def log_recipient_def)
qed

theorem erc20_mint_counts_witness:
  "\<exists>e. decode_mint_log demo_abi 1 7 (demo_log\<lparr>lg_topics := [erc721_transfer, zero_address, ''0x00000000000000000000000000000000000000aa'']\<rparr>) = Some e \<and>
     me_quantity e = 1"
proof -
  have z: "is_mint_transfer (address_from_topic zero_address)" by code_simp
  let ?l = "demo_log\<lparr>lg_topics := [erc721_transfer, zero_address, ''0x00000000000000000000000000000000000000aa'']\<rparr>"
  have "\<exists>e. decode_mint_log demo_abi 1 7 ?l = Some e \<and> me_contract e = lg_address ?l \<and> me_quantity e = 1 \<and>
      me_recipient e = address_from_topic ''0x00000000000000000000000000000000000000aa''"
    by (rule erc20_mint_counts[OF _ z]) (simp_all add: demo_log_def)
  then show ?thesis by blast
qed

end
