(* ===== verification/ChainSync.thy ===== *)
theory ChainSync
  imports ChainRadar StateError FirePolicy "HOL-Library.AList"
begin

text \<open>
  The chain sync worker (\<open>apps/worker/src/workers/chain.ts\<close>) over the event tables
  (\<open>packages/db/src/repositories/onchain.ts\<close>, the checkpoint part of \<open>ops.ts\<close>), with the chain registry
  (\<open>packages/core/src/chains.ts\<close>), the choice of the endpoint (\<open>rpc-health.ts\<close>) and the holder
  concentration (\<open>packages/core/src/holders.ts\<close>). Timestamps are milliseconds; database integers do not
  overflow.
\<close>

section \<open>Chains\<close>

record chain_config =
  cc_id :: int
  cc_short :: string
  cc_slug :: "string option"
  cc_finality :: int
  cc_explorer :: string

definition chains :: "chain_config list" where
  "chains =
     [\<lparr>cc_id = 4663, cc_short = ''robinhood'', cc_slug = Some ''robinhood'', cc_finality = 12, cc_explorer = ''https://robinscan.io''\<rparr>,
      \<lparr>cc_id = 1, cc_short = ''ethereum'', cc_slug = Some ''ethereum'', cc_finality = 12, cc_explorer = ''https://etherscan.io''\<rparr>,
      \<lparr>cc_id = 8453, cc_short = ''base'', cc_slug = Some ''base'', cc_finality = 10, cc_explorer = ''https://basescan.org''\<rparr>,
      \<lparr>cc_id = 42161, cc_short = ''arbitrum'', cc_slug = Some ''arbitrum'', cc_finality = 12, cc_explorer = ''https://arbiscan.io''\<rparr>]"

definition get_chain :: "int \<Rightarrow> chain_config option" where
  "get_chain i = List.find (\<lambda>c. cc_id c = i) chains"

definition finality_depth_for :: "int \<Rightarrow> int" where
  "finality_depth_for i = (case get_chain i of None \<Rightarrow> 12 | Some c \<Rightarrow> cc_finality c)"

definition chain_tx_url :: "int \<Rightarrow> string \<Rightarrow> string option" where
  "chain_tx_url i tx = map_option (\<lambda>c. cc_explorer c @ ''/tx/'' @ tx) (get_chain i)"

definition chain_address_url :: "int \<Rightarrow> string \<Rightarrow> string option" where
  "chain_address_url i a = map_option (\<lambda>c. cc_explorer c @ ''/address/'' @ a) (get_chain i)"

section \<open>Holder concentration\<close>

record recipient_quantity =
  rq_recipient :: string
  rq_quantity :: int

record holder_concentration =
  hc_total :: int
  hc_unique :: int
  hc_top :: "(recipient_quantity \<times> rat) list"
  hc_top5 :: rat
  hc_top10 :: rat

definition top_n :: nat where "top_n = 10"

definition share_pct :: "int \<Rightarrow> int \<Rightarrow> rat" where
  "share_pct quantity total_minted =
     (if total_minted \<le> 0 then 0
      else ddiv (of_int (math_round (dmul (ddiv (of_int quantity) (of_int total_minted)) 1000))) 10)"

definition quantity_sum :: "recipient_quantity list \<Rightarrow> int" where
  "quantity_sum rs = sum_list (map rq_quantity rs)"

definition build_concentration :: "int \<Rightarrow> int \<Rightarrow> recipient_quantity list \<Rightarrow> holder_concentration" where
  "build_concentration total_minted unique ranked =
     \<lparr>hc_total = total_minted, hc_unique = unique,
      hc_top = map (\<lambda>r. (r, share_pct (rq_quantity r) total_minted)) (take top_n ranked),
      hc_top5 = share_pct (quantity_sum (take 5 ranked)) total_minted,
      hc_top10 = share_pct (quantity_sum (take top_n ranked)) total_minted\<rparr>"

definition compute_holder_concentration :: "recipient_quantity list \<Rightarrow> holder_concentration" where
  "compute_holder_concentration rs =
     build_concentration (quantity_sum rs) (int (length rs)) (sort_desc rq_quantity rs)"

record holder_snapshot =
  hs_total :: int
  hs_unique :: int
  hs_top :: "recipient_quantity list"

definition derive_holder_concentration :: "holder_snapshot \<Rightarrow> holder_concentration" where
  "derive_holder_concentration s = build_concentration (hs_total s) (hs_unique s) (hs_top s)"

datatype concentration_severity = NoConcern | Watch | High

definition holder_concentration_severity :: "rat \<Rightarrow> int \<Rightarrow> concentration_severity" where
  "holder_concentration_severity top10 total_minted =
     (if total_minted < 10 then NoConcern else if top10 \<ge> 50 then High else if top10 \<ge> 25 then Watch else NoConcern)"

section \<open>Tables\<close>

record event_row =
  er_chain :: int
  er_tx :: string
  er_index :: int
  er_block :: int
  er_hash :: string
  er_project :: "string option"
  er_recipient :: string
  er_quantity :: int
  er_finalized :: bool
  er_observed :: int

record project_row =
  pj_id :: string
  pj_chain :: int
  pj_contract :: "string option"
  pj_name :: string
  pj_first_seen :: int
  pj_last_seen :: int

record provider_row =
  pv_id :: string
  pv_kind :: string
  pv_enabled :: bool
  pv_health :: health
  pv_success :: "int option"
  pv_error :: "string option"

record rpc_endpoint = rpc_candidate +
  rpc_url :: string

record activity =
  ac_start :: int
  ac_computed :: int
  ac_quantity :: int
  ac_unique :: nat

record chain_db =
  cb_events :: "event_row list"
  cb_projects :: "project_row list"
  cb_points :: "((int \<times> string) \<times> checkpoint) list"
  cb_providers :: "provider_row list"
  cb_endpoints :: "rpc_endpoint list"
  cb_buckets :: "string \<times> string \<times> int \<Rightarrow> (int \<times> nat) option"
  cb_activity :: "string \<Rightarrow> activity option"
  cb_holders :: "string \<Rightarrow> holder_snapshot option"
  cb_next :: nat
  cb_published :: nat

definition get_checkpoint :: "int \<Rightarrow> string \<Rightarrow> chain_db \<Rightarrow> checkpoint option" where
  "get_checkpoint chain prov d = map_of (cb_points d) (chain, prov)"

definition save_checkpoint :: "int \<Rightarrow> string \<Rightarrow> checkpoint \<Rightarrow> chain_db \<Rightarrow> chain_db" where
  "save_checkpoint chain prov c d = d\<lparr>cb_points := AList.update (chain, prov) c (cb_points d)\<rparr>"

definition mark_events_finalized :: "int \<Rightarrow> chain_db \<Rightarrow> nat \<times> chain_db" where
  "mark_events_finalized through d =
     (let p = (\<lambda>r. \<not> er_finalized r \<and> er_block r \<le> through)
      in (length (filter p (cb_events d)), d\<lparr>cb_events := update_where p (\<lambda>r. r\<lparr>er_finalized := True\<rparr>) (cb_events d)\<rparr>))"

definition unfinalize_from_block :: "int \<Rightarrow> chain_db \<Rightarrow> nat \<times> chain_db" where
  "unfinalize_from_block from d =
     (let p = (\<lambda>r. er_block r \<ge> from)
      in (length (filter p (cb_events d)), d\<lparr>cb_events := update_where p (\<lambda>r. r\<lparr>er_finalized := False\<rparr>) (cb_events d)\<rparr>))"

text \<open>A Set made from a list keeps the first occurrences in order.\<close>

definition uniq :: "'a list \<Rightarrow> 'a list" where
  "uniq xs = rev (remdups (rev xs))"

definition projects_of_contracts :: "string list \<Rightarrow> chain_db \<Rightarrow> project_row list" where
  "projects_of_contracts contracts d = filter (\<lambda>p. \<exists>c \<in> set contracts. pj_contract p = Some c) (cb_projects d)"

definition project_ids_for_contracts :: "string list \<Rightarrow> chain_db \<Rightarrow> string list" where
  "project_ids_for_contracts contracts d =
     (if contracts = [] then [] else map pj_id (projects_of_contracts (uniq (map to_lower contracts)) d))"

definition find_contract_project :: "int \<Rightarrow> string \<Rightarrow> chain_db \<Rightarrow> string option" where
  "find_contract_project chain contract d =
     map_option pj_id (List.find (\<lambda>p. pj_chain p = chain \<and> pj_contract p = Some (to_lower contract)) (cb_projects d))"

text \<open>The upsert of a placeholder project; its id is generated by the database.\<close>

definition upsert_contract_project :: "int \<Rightarrow> string \<Rightarrow> string \<Rightarrow> int \<Rightarrow> chain_db \<Rightarrow> string \<times> chain_db" where
  "upsert_contract_project chain contract name now d =
     (case find_contract_project chain contract d of
        Some i \<Rightarrow> (i, d\<lparr>cb_projects := update_where (\<lambda>p. pj_id p = i) (\<lambda>p. p\<lparr>pj_last_seen := now\<rparr>) (cb_projects d)\<rparr>)
      | None \<Rightarrow> let i = show_nat (cb_next d) in
          (i, d\<lparr>cb_projects := cb_projects d @ [\<lparr>pj_id = i, pj_chain = chain, pj_contract = Some (to_lower contract),
                 pj_name = name, pj_first_seen = now, pj_last_seen = now\<rparr>], cb_next := Suc (cb_next d)\<rparr>))"

definition event_key :: "event_row \<Rightarrow> int \<times> string \<times> int" where
  "event_key r = (er_chain r, er_tx r, er_index r)"

definition row_of_event :: "string option \<Rightarrow> mint_event \<Rightarrow> event_row" where
  "row_of_event proj e = \<lparr>er_chain = me_chain e, er_tx = to_lower (me_tx e), er_index = me_index e, er_block = me_block e,
     er_hash = to_lower (me_hash e), er_project = proj, er_recipient = to_lower (me_recipient e), er_quantity = me_quantity e,
     er_finalized = me_finalized e, er_observed = me_observed e\<rparr>"

definition insert_event :: "event_row \<Rightarrow> chain_db \<Rightarrow> nat \<times> chain_db" where
  "insert_event r d =
     (if \<exists>x \<in> set (cb_events d). event_key x = event_key r then (0, d) else (1, d\<lparr>cb_events := cb_events d @ [r]\<rparr>))"

section \<open>Aggregates\<close>

definition ms_48h :: int where "ms_48h = 172800000"

definition bucket_of :: "int \<Rightarrow> int \<Rightarrow> int" where
  "bucket_of width t = t div width * width"

definition sum_events :: "event_row list \<Rightarrow> int \<times> nat" where
  "sum_events rs = (sum_list (map er_quantity rs), length (remdups (map er_recipient rs)))"

definition events_after :: "string \<Rightarrow> int \<Rightarrow> chain_db \<Rightarrow> event_row list" where
  "events_after proj t d = filter (\<lambda>r. er_project r = Some proj \<and> er_observed r > t) (cb_events d)"

definition refresh_buckets :: "string \<Rightarrow> int \<Rightarrow> string \<Rightarrow> int \<Rightarrow> chain_db \<Rightarrow> chain_db" where
  "refresh_buckets label width proj now d =
     (let recent = events_after proj (now - ms_48h) d;
          fresh = (\<lambda>b. filter (\<lambda>r. bucket_of width (er_observed r) = b) recent)
      in d\<lparr>cb_buckets := (\<lambda>(p, s, b). if p = proj \<and> s = label \<and> fresh b \<noteq> [] then Some (sum_events (fresh b)) else cb_buckets d (p, s, b))\<rparr>)"

definition refresh_activity_snapshot :: "string \<Rightarrow> int \<Rightarrow> chain_db \<Rightarrow> chain_db" where
  "refresh_activity_snapshot proj now d =
     (let s = sum_events (events_after proj (now - ms_hour) d)
      in d\<lparr>cb_activity := (cb_activity d)(proj := Some \<lparr>ac_start = now - ms_hour, ac_computed = now, ac_quantity = fst s, ac_unique = snd s\<rparr>)\<rparr>)"

definition recipient_totals :: "string \<Rightarrow> chain_db \<Rightarrow> recipient_quantity list" where
  "recipient_totals proj d =
     (let rs = filter (\<lambda>r. er_project r = Some proj) (cb_events d)
      in map (\<lambda>a. \<lparr>rq_recipient = a, rq_quantity = sum_list (map er_quantity (filter (\<lambda>r. er_recipient r = a) rs))\<rparr>)
           (uniq (map er_recipient rs)))"

definition snapshot_of :: "holder_concentration \<Rightarrow> holder_snapshot" where
  "snapshot_of c = \<lparr>hs_total = hc_total c, hs_unique = hc_unique c, hs_top = map fst (hc_top c)\<rparr>"

definition store_holder_snapshot :: "string \<Rightarrow> holder_concentration \<Rightarrow> chain_db \<Rightarrow> chain_db" where
  "store_holder_snapshot proj c d = d\<lparr>cb_holders := (cb_holders d)(proj := Some (snapshot_of c))\<rparr>"

definition get_holder_concentration :: "string \<Rightarrow> chain_db \<Rightarrow> holder_concentration option" where
  "get_holder_concentration proj d = map_option derive_holder_concentration (cb_holders d proj)"

section \<open>Actions\<close>

type_synonym chain_world = "chain_db machine"
type_synonym 'a chain_act = "(chain_world, 'a) eff"

definition ensure_contract_project :: "int \<Rightarrow> string \<Rightarrow> string \<Rightarrow> int \<Rightarrow> string chain_act" where
  "ensure_contract_project chain contract name now =
     then_do (db_read (find_contract_project chain contract)) (\<lambda>found. case found of
         Some i \<Rightarrow> ret i
       | None \<Rightarrow> db_call (upsert_contract_project chain contract name now))"

text \<open>\<open>new Map(rows)\<close>: a later row of the same contract replaces an earlier one.\<close>

definition project_map :: "project_row list \<Rightarrow> string \<Rightarrow> string option" where
  "project_map rows c = map_option pj_id (List.find (\<lambda>p. map_option to_lower (pj_contract p) = Some c) (rev rows))"

fun ensure_projects :: "int \<Rightarrow> int \<Rightarrow> string list \<Rightarrow> (string \<Rightarrow> string option) \<Rightarrow> (string \<Rightarrow> string option) chain_act" where
  "ensure_projects chain now [] known = ret known"
| "ensure_projects chain now (c # cs) known =
     (case known c of
        Some _ \<Rightarrow> ensure_projects chain now cs known
      | None \<Rightarrow> then_do (ensure_contract_project chain c (''Unknown '' @ take 10 c) now) (\<lambda>i.
          ensure_projects chain now cs (known(c := Some i))))"

fun insert_rows :: "(string \<Rightarrow> string option) \<Rightarrow> mint_event list \<Rightarrow> nat \<Rightarrow> nat chain_act" where
  "insert_rows proj [] n = ret n"
| "insert_rows proj (e # es) n =
     then_do (db_call (insert_event (row_of_event (proj (to_lower (me_contract e))) e))) (\<lambda>k. insert_rows proj es (n + k))"

definition insert_mint_events :: "mint_event list \<Rightarrow> nat chain_act" where
  "insert_mint_events es = (case es of
      [] \<Rightarrow> ret 0
    | e # _ \<Rightarrow>
        let contracts = uniq (map (\<lambda>x. to_lower (me_contract x)) es) in
        then_do (db_read (projects_of_contracts contracts)) (\<lambda>rows.
        then_do (ensure_projects (me_chain e) (me_observed e) contracts (project_map rows)) (\<lambda>proj.
          insert_rows proj es 0)))"

definition refresh_aggregates :: "string \<Rightarrow> unit chain_act" where
  "refresh_aggregates proj =
     then_do clock (\<lambda>t. then_do (db_write (refresh_buckets ''5m'' 300000 proj t)) (\<lambda>_.
     then_do clock (\<lambda>t. then_do (db_write (refresh_buckets ''1h'' 3600000 proj t)) (\<lambda>_.
     then_do clock (\<lambda>t. db_write (refresh_activity_snapshot proj t))))))"

definition refresh_holder_snapshot :: "string \<Rightarrow> unit chain_act" where
  "refresh_holder_snapshot proj =
     then_do (db_read (recipient_totals proj)) (\<lambda>rs. db_write (store_holder_snapshot proj (compute_holder_concentration rs)))"

definition resolve_best_rpc_url :: "rpc_endpoint list \<Rightarrow> int \<Rightarrow> string option \<Rightarrow> string option" where
  "resolve_best_rpc_url endpoints chain fallback =
     (case List.find (\<lambda>e. rpc_health e \<noteq> Down) (rank_rpc_endpoints endpoints chain) of
        Some e \<Rightarrow> Some (rpc_url e) | None \<Rightarrow> fallback)"

definition ensure_provider_row :: "string \<Rightarrow> chain_db \<Rightarrow> provider_row \<times> chain_db" where
  "ensure_provider_row kind d = (case List.find (\<lambda>p. pv_kind p = kind) (cb_providers d) of
      Some p \<Rightarrow> (p, d)
    | None \<Rightarrow> let p = \<lparr>pv_id = show_nat (cb_next d), pv_kind = kind, pv_enabled = True, pv_health = UnknownHealth,
                       pv_success = None, pv_error = None\<rparr>
              in (p, d\<lparr>cb_providers := cb_providers d @ [p], cb_next := Suc (cb_next d)\<rparr>))"

definition mark_provider_health :: "string \<Rightarrow> health \<Rightarrow> int option \<Rightarrow> string option \<Rightarrow> chain_db \<Rightarrow> chain_db" where
  "mark_provider_health kind h success code d = d\<lparr>cb_providers := update_where (\<lambda>p. pv_kind p = kind)
     (\<lambda>p. p\<lparr>pv_health := h, pv_success := (case success of None \<Rightarrow> pv_success p | Some t \<Rightarrow> Some t),
            pv_error := (case code of None \<Rightarrow> pv_error p | Some c \<Rightarrow> Some c)\<rparr>) (cb_providers d)\<rparr>"

section \<open>One chain, and all of them\<close>

record sync_env =
  se_node :: "string \<Rightarrow> rpc_node"
  se_abi :: abi
  se_home :: int
  se_rpc_url :: "string option"
  se_initial :: int

record sync_summary =
  sm_synced :: bool
  sm_from :: "int option"
  sm_to :: "int option"
  sm_events :: nat
  sm_reorg :: bool

definition empty_summary :: sync_summary where
  "empty_summary = \<lparr>sm_synced = False, sm_from = None, sm_to = None, sm_events = 0, sm_reorg = False\<rparr>"

definition provider_kind_of :: "sync_env \<Rightarrow> int \<Rightarrow> string" where
  "provider_kind_of env chain = (if chain = se_home env then ''robinhood_rpc'' else ''rpc_'' @ show_int chain)"

definition above :: "int \<Rightarrow> int \<Rightarrow> int" where
  "above n depth = (if n > depth then n - depth else 0)"

text \<open>The pass itself: it always ends (\<open>sync_total\<close> below), so \<open>the\<close> reads its result.\<close>

definition radar_pass :: "sync_env \<Rightarrow> rpc_node \<Rightarrow> int \<Rightarrow> int \<Rightarrow> checkpoint option \<Rightarrow> thrown + sync_result" where
  "radar_pass env node chain now cp =
     the (sync_from_checkpoint node default_options (se_abi env) chain now cp \<lparr>ra_range = se_initial env, ra_calls = 0\<rparr>)"

definition sync_body :: "sync_env \<Rightarrow> int \<Rightarrow> string \<Rightarrow> provider_row \<Rightarrow> checkpoint option \<Rightarrow> sync_summary chain_act" where
  "sync_body env chain url prov cp =
     (let node = se_node env url; depth = finality_depth_for chain in
      then_do clock (\<lambda>now. then_do (lift_sum (radar_pass env node chain now cp)) (\<lambda>s.
      then_do (if sy_reorg s \<and> cp \<noteq> None
               then db_call (unfinalize_from_block (above (cp_block (the cp)) depth)) else ret 0) (\<lambda>_.
      then_do (insert_mint_events (sy_events s)) (\<lambda>inserted.
      then_do (db_call (mark_events_finalized (above (sy_to s) depth))) (\<lambda>_.
      then_do (db_read (project_ids_for_contracts (uniq (map (\<lambda>e. to_lower (me_contract e)) (sy_events s))))) (\<lambda>ids.
      then_do (for_each (\<lambda>i. then_do (refresh_aggregates i) (\<lambda>_. refresh_holder_snapshot i)) ids) (\<lambda>_.
      then_do (lift_sum (rp_hash node (sy_to s))) (\<lambda>h.
      then_do (db_write (save_checkpoint chain (pv_id prov) \<lparr>cp_block = sy_to s, cp_hash = h\<rparr>)) (\<lambda>_.
      then_do clock (\<lambda>t. then_do (db_write (mark_provider_health (provider_kind_of env chain) Healthy (Some t) None)) (\<lambda>_.
      then_do (db_write (\<lambda>d. d\<lparr>cb_published := Suc (cb_published d)\<rparr>)) (\<lambda>_.
        ret \<lparr>sm_synced = True, sm_from = Some (sy_from s), sm_to = Some (sy_to s), sm_events = inserted, sm_reorg = sy_reorg s\<rparr>)))))))))))))"

definition sync_failed :: "sync_env \<Rightarrow> int \<Rightarrow> thrown \<Rightarrow> sync_summary chain_act" where
  "sync_failed env chain e =
     then_do (db_write (mark_provider_health (provider_kind_of env chain) Down None
       (Some (case e of ThrownOther _ \<Rightarrow> ''unknown'' | _ \<Rightarrow> ''rpc_error'')))) (\<lambda>_. ret empty_summary)"

definition sync_chain :: "sync_env \<Rightarrow> int \<Rightarrow> sync_summary chain_act" where
  "sync_chain env chain =
     then_do (db_read (\<lambda>d. filter (\<lambda>e. rpc_chain e = chain) (cb_endpoints d))) (\<lambda>endpoints.
       case resolve_best_rpc_url endpoints chain (if chain = se_home env then se_rpc_url env else None) of
         None \<Rightarrow> ret empty_summary
       | Some url \<Rightarrow> if url = [] then ret empty_summary else
           then_do (db_call (ensure_provider_row (provider_kind_of env chain))) (\<lambda>prov.
             if \<not> pv_enabled prov then ret empty_summary
             else then_do (db_read (get_checkpoint chain (pv_id prov))) (\<lambda>cp.
               try_catch (sync_body env chain url prov cp) (sync_failed env chain))))"

fun sync_chains :: "sync_env \<Rightarrow> int list \<Rightarrow> sync_summary \<Rightarrow> sync_summary chain_act" where
  "sync_chains env [] acc = ret acc"
| "sync_chains env (c # cs) acc =
     then_do (sync_chain env c) (\<lambda>s. sync_chains env cs
       (let acc1 = acc\<lparr>sm_synced := sm_synced acc \<or> sm_synced s, sm_events := sm_events acc + sm_events s, sm_reorg := sm_reorg acc \<or> sm_reorg s\<rparr>
        in if sm_to s \<noteq> None then acc1\<lparr>sm_from := sm_from s, sm_to := sm_to s\<rparr> else acc1))"

definition run_chain_sync :: "sync_env \<Rightarrow> sync_summary chain_act" where
  "run_chain_sync env =
     then_do (db_read (\<lambda>d. uniq (map rpc_chain (filter rpc_enabled (cb_endpoints d))))) (\<lambda>registry.
       sync_chains env (uniq (se_home env # registry)) empty_summary)"

section \<open>What a sync does to the events\<close>

definition events_of :: "chain_world \<Rightarrow> event_row list" where
  "events_of w = cb_events (m_db w)"

definition on_events :: "(event_row list \<Rightarrow> bool) \<Rightarrow> chain_world \<Rightarrow> bool" where
  "on_events J w \<longleftrightarrow> J (events_of w)"

lemma on_events_db: "db_only (on_events J)"
  by (simp add: db_only_def on_events_def events_of_def)

lemma keeps_call_events: "(\<And>d. cb_events (snd (f d)) = cb_events d) \<Longrightarrow> keeps (on_events J) (db_call f)"
  by (rule keeps_call_db[OF on_events_db]) (simp add: on_events_def events_of_def)

lemma keeps_write_events: "(\<And>d. cb_events (f d) = cb_events d) \<Longrightarrow> keeps (on_events J) (db_write f)"
  unfolding db_write_def by (rule keeps_call_events) simp

lemma upsert_events: "cb_events (snd (upsert_contract_project chain c n t d)) = cb_events d"
  by (simp add: upsert_contract_project_def Let_def split: option.split)

lemma keeps_ensure_projects: "keeps (on_events J) (ensure_projects chain now cs known)"
  by (induction cs arbitrary: known)
     (auto simp: ensure_contract_project_def split: option.split
       intro!: keep_rules keeps_read_db on_events_db keeps_call_events upsert_events)

lemma keeps_refresh: "keeps (on_events J) (then_do (refresh_aggregates i) (\<lambda>_. refresh_holder_snapshot i))"
  unfolding refresh_aggregates_def refresh_holder_snapshot_def
  by (intro keep_rules db_rules on_events_db keeps_write_events)
     (simp_all add: refresh_buckets_def refresh_activity_snapshot_def store_holder_snapshot_def Let_def)

text \<open>Properties of the events that survive a change of the finality marks and an insertion of a new key.\<close>

definition log_property :: "(event_row list \<Rightarrow> bool) \<Rightarrow> bool" where
  "log_property J \<longleftrightarrow> (\<forall>es p b. J es \<longrightarrow> J (update_where p (\<lambda>r. r\<lparr>er_finalized := b\<rparr>) es)) \<and>
     (\<forall>es r. J es \<longrightarrow> (\<forall>x \<in> set es. event_key x \<noteq> event_key r) \<longrightarrow> J (es @ [r]))"

lemma keeps_finality:
  assumes "log_property J"
  shows "keeps (on_events J) (db_call (mark_events_finalized n))" "keeps (on_events J) (db_call (unfinalize_from_block n))"
  using assms by (auto intro!: keeps_call_db on_events_db
      simp: on_events_def events_of_def mark_events_finalized_def unfinalize_from_block_def Let_def log_property_def)

lemma keeps_insert:
  assumes "log_property J"
  shows "keeps (on_events J) (insert_mint_events es)"
proof -
  have row: "keeps (on_events J) (db_call (insert_event r))" for r
    using assms by (auto intro!: keeps_call_db on_events_db
        simp: on_events_def events_of_def insert_event_def log_property_def)
  have "keeps (on_events J) (insert_rows p es n)" for p es n
    by (induction es arbitrary: n) (auto intro!: keep_rules row)
  then show ?thesis
    unfolding insert_mint_events_def Let_def
    by (cases es) (auto intro!: keep_rules keeps_ensure_projects keeps_read_db on_events_db row)
qed

lemma provider_events: "cb_events (snd (ensure_provider_row k d)) = cb_events d"
  by (simp add: ensure_provider_row_def Let_def split: option.split)

lemma keeps_failed: "keeps (on_events J) (sync_failed env chain e)"
  unfolding sync_failed_def by (intro keep_rules keeps_write_events) (simp add: mark_provider_health_def)

lemma keeps_body:
  assumes "log_property J"
  shows "keeps (on_events J) (sync_body env chain url prov cp)"
  unfolding sync_body_def Let_def
  by (intro keep_rules db_rules on_events_db keeps_finality keeps_insert assms keeps_for_each keeps_refresh keeps_write_events)
     (simp_all add: save_checkpoint_def mark_provider_health_def)

lemma keeps_sync:
  assumes "log_property J"
  shows "keeps (on_events J) (sync_chain env chain)"
  unfolding sync_chain_def
  by (intro keep_rules db_rules on_events_db keeps_call_events keeps_body assms keeps_failed provider_events)

lemma keeps_all:
  assumes "log_property J"
  shows "keeps (on_events J) (run_chain_sync env)"
proof -
  have "keeps (on_events J) (sync_chains env cs acc)" for cs acc
    by (induction cs arbitrary: acc) (auto intro!: keep_rules keeps_sync assms)
  then show ?thesis unfolding run_chain_sync_def by (intro keep_rules db_rules on_events_db)
qed

text \<open>An event row but for its finality mark.\<close>

definition core :: "event_row \<Rightarrow> event_row" where
  "core r = r\<lparr>er_finalized := False\<rparr>"

lemma core_same: "core x = core r \<Longrightarrow> event_key x = event_key r \<and> er_block x = er_block r \<and> er_hash x = er_hash r \<and> er_quantity x = er_quantity r"
  by (cases x; cases r) (simp add: core_def event_key_def)

lemma log_keys: "log_property (\<lambda>es. distinct (map event_key es))"
  by (auto simp: log_property_def map_update_where_same event_key_def)

lemma log_rows: "log_property (\<lambda>es. \<exists>x \<in> set es. core x = c)"
  unfolding log_property_def
proof (intro conjI allI impI)
  fix es :: "event_row list" and p b assume "\<exists>x \<in> set es. core x = c"
  then obtain x where x: "x \<in> set es" "core x = c" by blast
  have "core (x\<lparr>er_finalized := b\<rparr>) = core x" by (simp add: core_def)
  then show "\<exists>x \<in> set (update_where p (\<lambda>r. r\<lparr>er_finalized := b\<rparr>) es). core x = c"
    using x by (cases "p x") (force simp: set_update_where)+
qed auto

text \<open>
. Whatever the endpoints answer and whichever database calls fail, a sync of all chains keeps the key
  (chain, transaction, log index) of the events unique and never removes or rewrites an event: only its
  finality mark changes.
\<close>

theorem sync_log_append_only:
  assumes "run_chain_sync env w = (x, w')" and "distinct (map event_key (cb_events (m_db w)))"
  shows "distinct (map event_key (cb_events (m_db w'))) \<and>
    (\<forall>r \<in> set (cb_events (m_db w)). \<exists>s \<in> set (cb_events (m_db w')). s\<lparr>er_finalized := er_finalized r\<rparr> = r)"
proof
  show "distinct (map event_key (cb_events (m_db w')))"
    using keepsD[OF keeps_all[OF log_keys] _ assms(1)] assms(2) by (simp add: on_events_def events_of_def)
  show "\<forall>r \<in> set (cb_events (m_db w)). \<exists>s \<in> set (cb_events (m_db w')). s\<lparr>er_finalized := er_finalized r\<rparr> = r"
  proof
    fix r assume "r \<in> set (cb_events (m_db w))"
    then have "\<exists>s \<in> set (cb_events (m_db w')). core s = core r"
      using keepsD[OF keeps_all[OF log_rows] _ assms(1), of "core r"] by (auto simp: on_events_def events_of_def)
    then obtain s where "s \<in> set (cb_events (m_db w'))" "core s = core r" by blast
    moreover from this(2) have "s\<lparr>er_finalized := er_finalized r\<rparr> = r" by (cases s; cases r) (simp add: core_def)
    ultimately show "\<exists>s \<in> set (cb_events (m_db w')). s\<lparr>er_finalized := er_finalized r\<rparr> = r" by blast
  qed
qed

section \<open>Finality across chains\<close>

definition final_through :: "int \<Rightarrow> event_row list \<Rightarrow> bool" where
  "final_through n es \<longleftrightarrow> (\<forall>r \<in> set es. er_block r \<le> n \<longrightarrow> er_finalized r)"

lemma mark_final: "final_through n (cb_events (snd (mark_events_finalized n d)))"
  by (auto simp: final_through_def mark_events_finalized_def Let_def set_update_where)

definition synced_final :: "int \<Rightarrow> event_row \<Rightarrow> thrown + sync_summary \<Rightarrow> chain_world \<Rightarrow> bool" where
  "synced_final depth c x w \<longleftrightarrow> (\<forall>s. x = Inr s \<longrightarrow> sm_synced s \<longrightarrow>
     (\<exists>t. sm_to s = Some t \<and> final_through (above t depth) (events_of w)) \<and> (\<exists>r \<in> set (events_of w). core r = c))"

lemma body_final:
  "acts (on_events (\<lambda>es. \<exists>x \<in> set es. core x = c)) (sync_body env chain url prov cp) (synced_final (finality_depth_for chain) c)"
proof -
  let ?P = "on_events (\<lambda>es. \<exists>x \<in> set es. core x = c)"
  have tail: "acts (on_events (\<lambda>es. final_through (above (sy_to s) (finality_depth_for chain)) es \<and> (\<exists>x \<in> set es. core x = c)))
      (then_do (db_read f) (\<lambda>ids. then_do (for_each (\<lambda>i. then_do (refresh_aggregates i) (\<lambda>_. refresh_holder_snapshot i)) ids) (\<lambda>_.
       then_do (lift_sum h) (\<lambda>h. then_do (db_write (save_checkpoint chain (pv_id prov) \<lparr>cp_block = sy_to s, cp_hash = h\<rparr>)) (\<lambda>_.
       then_do clock (\<lambda>t. then_do (db_write (mark_provider_health (provider_kind_of env chain) Healthy (Some t) None)) (\<lambda>_.
       then_do (db_write (\<lambda>d. d\<lparr>cb_published := Suc (cb_published d)\<rparr>)) (\<lambda>_.
        ret \<lparr>sm_synced = True, sm_from = Some (sy_from s), sm_to = Some (sy_to s), sm_events = n, sm_reorg = sy_reorg s\<rparr>))))))))
      (synced_final (finality_depth_for chain) c)" for s f h n
    by (rule acts_then_keep[OF keeps_read_db[OF on_events_db]]
          acts_then_keep[OF keeps_for_each[OF keeps_refresh]] acts_then_lift
          acts_then_keep[OF keeps_write_events] acts_then_keep[OF keeps_clock_db[OF on_events_db]] acts_ret
        | (simp add: save_checkpoint_def mark_provider_health_def; fail)
        | (simp add: synced_final_def on_events_def; fail))+
  have mark: "acts ?P (db_call (mark_events_finalized n)) (\<lambda>x w. case x of Inl e \<Rightarrow> synced_final d c (Inl e) w
      | Inr y \<Rightarrow> on_events (\<lambda>es. final_through n es \<and> (\<exists>x \<in> set es. core x = c)) w)" for n d
  proof (rule acts_call_db)
    fix w fs assume "?P w"
    then have "?P (snd (db_call (mark_events_finalized n) (w\<lparr>m_faults := []\<rparr>)))"
      using keepsD[OF keeps_finality(1)[OF log_rows], of c "w\<lparr>m_faults := []\<rparr>"] by (simp add: on_events_def events_of_def prod_eq_iff)
    then have "\<exists>x \<in> set (cb_events (snd (mark_events_finalized n (m_db w)))). core x = c"
      by (simp add: db_call_def on_events_def events_of_def split: prod.splits)
    then show "case Inr (fst (mark_events_finalized n (m_db w))) of Inl e \<Rightarrow> synced_final d c (Inl e) (w\<lparr>m_db := snd (mark_events_finalized n (m_db w)), m_faults := fs\<rparr>)
      | Inr y \<Rightarrow> on_events (\<lambda>es. final_through n es \<and> (\<exists>x \<in> set es. core x = c)) (w\<lparr>m_db := snd (mark_events_finalized n (m_db w)), m_faults := fs\<rparr>)"
      by (simp add: on_events_def events_of_def mark_final)
  qed (simp add: synced_final_def)
  have err: "synced_final d c (Inl e) w" for d e w by (simp add: synced_final_def)
  show ?thesis
    unfolding sync_body_def Let_def
    by (intro acts_then_keep[OF keeps_clock_db[OF on_events_db]] acts_then_lift acts_then_keep[OF keeps_if]
          acts_then_keep[OF keeps_insert[OF log_rows]] keeps_finality[OF log_rows] keeps_ret err acts_then[OF mark tail])
qed

lemma chain_final:
  "acts (on_events (\<lambda>es. \<exists>x \<in> set es. core x = c)) (sync_chain env chain) (synced_final (finality_depth_for chain) c)"
proof -
  have none: "synced_final d c (Inl e) w" "synced_final d c (Inr empty_summary) w" for d e w
    by (simp_all add: synced_final_def empty_summary_def)
  have failed: "acts (\<lambda>_. True) (sync_failed env chain e) (synced_final d c)" for e d
    unfolding sync_failed_def
    by (rule acts_then_keep[where I = "\<lambda>_. True"]) (simp_all add: keeps_def acts_def ret_def none)
  have tried: "acts (on_events (\<lambda>es. \<exists>x \<in> set es. core x = c)) (try_catch (sync_body env chain url prov cp) (sync_failed env chain))
      (synced_final (finality_depth_for chain) c)" for url prov cp
    by (rule acts_try[where R = "\<lambda>_ _. True", OF _ failed], rule acts_post[OF body_final]) (auto split: sum.splits)
  show ?thesis
    unfolding sync_chain_def
    by (intro acts_then_keep[OF keeps_read_db[OF on_events_db]] acts_option acts_if acts_ret none
          acts_then_keep[OF keeps_call_events[OF provider_events]] tried)
qed

text \<open>
C25. A successful sync of one chain marks final every stored event, of any chain, at or below its own final
  block: the blocks of another chain are compared with this chain's height, and an event that a reorg has
  taken off its chain is marked final like the others.
\<close>

theorem sync_finalizes_other_chains:
  assumes "sync_chain env chain w = (Inr s, w')" and "sm_synced s" and "sm_to s = Some t"
    and "r \<in> set (cb_events (m_db w))" and "finality_depth_for chain < t" and "er_block r \<le> t - finality_depth_for chain"
  shows "\<exists>x \<in> set (cb_events (m_db w')). er_finalized x \<and> x\<lparr>er_finalized := er_finalized r\<rparr> = r"
proof -
  have "on_events (\<lambda>es. \<exists>x \<in> set es. core x = core r) w" using assms(4) by (auto simp: on_events_def events_of_def)
  from actsD[OF chain_final this assms(1)] assms(2,3) obtain x where
    f: "final_through (above t (finality_depth_for chain)) (events_of w')" and x: "x \<in> set (events_of w')" "core x = core r"
    by (auto simp: synced_final_def)
  have "er_block x \<le> above t (finality_depth_for chain)" using assms(5,6) core_same[OF x(2)] by (simp add: above_def)
  then have "er_finalized x" using f x(1) by (simp add: final_through_def)
  moreover have "x\<lparr>er_finalized := er_finalized r\<rparr> = r" using x(2) by (cases x; cases r) (simp add: core_def)
  ultimately show ?thesis using x(1) by (auto simp: events_of_def)
qed

definition base_event :: event_row where
  "base_event = \<lparr>er_chain = 8453, er_tx = ''0xaa'', er_index = 0, er_block = 30, er_hash = ''0xorphan'', er_project = None,
     er_recipient = ''0xbb'', er_quantity = 1, er_finalized = False, er_observed = 5\<rparr>"

definition demo_chain :: chain_world where
  "demo_chain = \<lparr>m_db = \<lparr>cb_events = [base_event], cb_projects = [], cb_points = [], cb_providers = [], cb_endpoints = [],
     cb_buckets = (\<lambda>_. None), cb_activity = (\<lambda>_. None), cb_holders = (\<lambda>_. None), cb_next = 0, cb_published = 0\<rparr>,
     m_clock = [7], m_faults = []\<rparr>"

definition demo_sync_env :: sync_env where
  "demo_sync_env = \<lparr>se_node = (\<lambda>_. demo_node\<lparr>rp_logs := (\<lambda>_ _ _. Logs [])\<rparr>), se_abi = demo_abi, se_home = 4663,
     se_rpc_url = Some ''http://rpc'', se_initial = 20\<rparr>"

lemma demo_radar_pass:
  "radar_pass demo_sync_env (demo_node\<lparr>rp_logs := (\<lambda>_ _ _. Logs [])\<rparr>) 4663 7 None =
     Inr \<lparr>sy_from = 26, sy_to = 45, sy_events = [], sy_reorg = False, sy_range = 20, sy_lag = 19\<rparr>"
  by code_simp

lemmas sync_eval = sync_chain_def sync_body_def demo_chain_def then_do_def db_read_def db_call_def db_write_def ret_def
  resolve_best_rpc_url_def rank_rpc_endpoints_def ensure_provider_row_def provider_kind_of_def get_checkpoint_def try_catch_def
  attempt_def clock_def lift_sum_def insert_mint_events_def mark_events_finalized_def project_ids_for_contracts_def uniq_def Let_def

lemma demo_chain_synced:
  "\<exists>s w'. sync_chain demo_sync_env 4663 demo_chain = (Inr s, w') \<and> sm_synced s \<and> sm_to s = Some 45"
  by (simp add: sync_eval demo_sync_env_def[THEN arg_cong, of se_node] demo_sync_env_def[THEN arg_cong, of se_home]
      demo_sync_env_def[THEN arg_cong, of se_rpc_url] demo_radar_pass)
     (simp add: sync_eval demo_node_def)

theorem sync_finalizes_other_chains_witness:
  "\<exists>w' s. sync_chain demo_sync_env 4663 demo_chain = (Inr s, w') \<and>
     (\<exists>x \<in> set (cb_events (m_db w')). er_finalized x \<and> er_chain x = 8453 \<and> er_hash x = ''0xorphan'')"
proof -
  obtain s w' where run: "sync_chain demo_sync_env 4663 demo_chain = (Inr s, w')" "sm_synced s" "sm_to s = Some 45"
    using demo_chain_synced by blast
  have d: "finality_depth_for 4663 = 12" by (simp add: finality_depth_for_def get_chain_def chains_def)
  obtain x where x: "x \<in> set (cb_events (m_db w'))" "er_finalized x" "x\<lparr>er_finalized := er_finalized base_event\<rparr> = base_event"
    using sync_finalizes_other_chains[OF run, of base_event] by (auto simp: d demo_chain_def base_event_def)
  have "er_chain x = 8453" "er_hash x = ''0xorphan''"
    using arg_cong[OF x(3), of er_chain] arg_cong[OF x(3), of er_hash] by (simp_all add: base_event_def)
  then show ?thesis using run(1) x by blast
qed

lemma run_sync_pair: "run_chain_sync env w = (fst (run_chain_sync env w), snd (run_chain_sync env w))"
  by simp

theorem sync_log_append_only_witness:
  "distinct (map event_key (cb_events (m_db (snd (run_chain_sync demo_sync_env demo_chain)))))"
  using sync_log_append_only[OF run_sync_pair, of demo_chain] by (simp add: demo_chain_def)

section \<open>Contracts across chains\<close>

text \<open>
. The lookup of a contract's project ignores the chain: an event of a contract that is only known on
  another chain is stored with that chain's project.
\<close>

theorem event_linked_to_foreign_project:
  assumes "projects_of_contracts [to_lower (me_contract e)] (m_db w) = [p]" and "pj_contract p = Some (to_lower (me_contract e))"
    and "pj_chain p \<noteq> me_chain e" and "m_faults w = []"
    and "\<forall>x \<in> set (cb_events (m_db w)). event_key x \<noteq> event_key (row_of_event (Some (pj_id p)) e)"
  shows "\<exists>w'. insert_mint_events [e] w = (Inr 1, w') \<and>
    (\<exists>x \<in> set (cb_events (m_db w')). er_chain x = me_chain e \<and> er_project x = Some (pj_id p))"
proof -
  have m: "project_map [p] (to_lower (me_contract e)) = Some (pj_id p)"
    using assms(2) by (simp add: project_map_def)
  have k: "\<not> (\<exists>x \<in> set (cb_events (m_db w)). event_key x = event_key (row_of_event (Some (pj_id p)) e))" using assms(5) by blast
  show ?thesis
    using assms(1,4) m k
    by (simp add: insert_mint_events_def uniq_def then_do_def db_read_def db_call_def ret_def insert_event_def Let_def)
      (simp add: row_of_event_def)
qed

definition base_project :: project_row where
  "base_project = \<lparr>pj_id = ''p-base'', pj_chain = 8453, pj_contract = Some ''0xc0ffee'', pj_name = ''Base drop'', pj_first_seen = 0, pj_last_seen = 0\<rparr>"

definition home_event :: mint_event where
  "home_event = \<lparr>me_chain = 4663, me_tx = ''0x1'', me_index = 0, me_block = 42, me_hash = ''0xb'', me_contract = ''0xc0ffee'',
     me_recipient = ''0xaa'', me_quantity = 1, me_finalized = False, me_observed = 7\<rparr>"

theorem event_linked_to_foreign_project_witness:
  "\<exists>w'. insert_mint_events [home_event] (demo_chain\<lparr>m_db := (m_db demo_chain)\<lparr>cb_projects := [base_project]\<rparr>\<rparr>) = (Inr 1, w') \<and>
     (\<exists>x \<in> set (cb_events (m_db w')). er_chain x = 4663 \<and> er_project x = Some ''p-base'')"
proof -
  let ?w = "demo_chain\<lparr>m_db := (m_db demo_chain)\<lparr>cb_projects := [base_project]\<rparr>\<rparr>"
  have l: "to_lower (me_contract home_event) = ''0xc0ffee''" "to_lower ''0x1'' = ''0x1''" unfolding home_event_def by code_simp+
  have "\<exists>w'. insert_mint_events [home_event] ?w = (Inr 1, w') \<and>
    (\<exists>x \<in> set (cb_events (m_db w')). er_chain x = me_chain home_event \<and> er_project x = Some (pj_id base_project))"
    by (rule event_linked_to_foreign_project)
       (simp_all add: l projects_of_contracts_def demo_chain_def base_project_def event_key_def row_of_event_def base_event_def,
        simp_all add: home_event_def)
  then show ?thesis by (simp add: home_event_def base_project_def)
qed

section \<open>Buckets at the edge of the window\<close>

text \<open>
  A refresh recomputes a bucket from the events of the last 48 hours alone: a bucket that the edge of the
  window cuts is overwritten with the sum of its newer part.
\<close>

lemma bucket_at_edge:
  assumes "r \<in> set (cb_events d)" "er_project r = Some proj" "er_observed r > now - ms_48h" "bucket_of width (er_observed r) = b"
  shows "cb_buckets (refresh_buckets label width proj now d) (proj, label, b) =
    Some (sum_events (filter (\<lambda>x. bucket_of width (er_observed x) = b) (events_after proj (now - ms_48h) d)))"
proof -
  have "r \<in> set (filter (\<lambda>x. bucket_of width (er_observed x) = b) (events_after proj (now - ms_48h) d))"
    using assms by (simp add: events_after_def)
  then have "filter (\<lambda>x. bucket_of width (er_observed x) = b) (events_after proj (now - ms_48h) d) \<noteq> []"
    by (metis empty_iff list.set(1))
  then show ?thesis by (simp add: refresh_buckets_def Let_def)
qed

section \<open>Holder shares\<close>

lemma share_mono: "q \<le> q' \<Longrightarrow> share_pct q n \<le> share_pct q' n"
proof (cases "n \<le> 0")
  case False
  assume q: "q \<le> q'"
  have "(of_int q / of_int n :: rat) \<le> of_int q' / of_int n" using False q by (simp add: divide_right_mono)
  then have "ddiv (of_int q) (of_int n) \<le> ddiv (of_int q') (of_int n)" unfolding ddiv_def by (rule fl_mono)
  then have "dmul (ddiv (of_int q) (of_int n)) 1000 \<le> dmul (ddiv (of_int q') (of_int n)) 1000"
    unfolding dmul_def by (intro fl_mono mult_right_mono) simp_all
  then have "math_round (dmul (ddiv (of_int q) (of_int n)) 1000) \<le> math_round (dmul (ddiv (of_int q') (of_int n)) 1000)"
    by (rule math_round_mono)
  then show ?thesis using False by (simp add: share_pct_def ddiv_def fl_mono divide_right_mono)
qed (simp add: share_pct_def)

lemma share_full: "share_pct n n \<le> 100"
proof (cases "n \<le> 0")
  case False
  have "fl (1 :: rat) = 1" using fl_of_int[of 1] by simp
  moreover have "fl (1000 :: rat) = 1000" using fl_of_int[of 1000] by simp
  moreover have "fl (100 :: rat) = 100" using fl_of_int[of 100] by simp
  moreover have "math_round (1000 :: rat) = 1000" using math_round_of_int[of 1000] by simp
  ultimately show ?thesis using False by (simp add: share_pct_def ddiv_def dmul_def)
qed (simp add: share_pct_def)

lemma share_nonneg: "0 \<le> q \<Longrightarrow> 0 \<le> share_pct q n"
proof -
  assume q: "0 \<le> q"
  have "share_pct 0 n = 0" by (simp add: share_pct_def ddiv_def dmul_def math_round_of_int[of 0, simplified])
  then show ?thesis using share_mono[OF q, of n] by simp
qed

lemma quantity_sum_take:
  assumes "list_all (\<lambda>r. 0 \<le> rq_quantity r) rs"
  shows "0 \<le> quantity_sum (take m rs)" "m \<le> n \<Longrightarrow> quantity_sum (take m rs) \<le> quantity_sum (take n rs)"
    "quantity_sum (take m rs) \<le> quantity_sum rs"
proof -
  show "0 \<le> quantity_sum (take m rs)"
    using assms unfolding quantity_sum_def by (intro sum_list_nonneg) (auto simp: list_all_iff dest: in_set_takeD)
  show "quantity_sum (take m rs) \<le> quantity_sum rs"
    unfolding quantity_sum_def by (rule sum_list_take_le) (use assms in \<open>auto simp: list_all_iff\<close>)
  show "quantity_sum (take m rs) \<le> quantity_sum (take n rs)" if "m \<le> n"
    using sum_list_take_le[of "take n rs" rq_quantity m] assms that
    by (auto simp: quantity_sum_def min_absorb1 list_all_iff dest: in_set_takeD)
qed

lemma sum_sort_desc: "quantity_sum (sort_desc rq_quantity rs) = quantity_sum rs"
  unfolding quantity_sum_def by (metis mset_map mset_sort_desc sum_mset_sum_list)

text \<open>
. The concentration read back from the stored top ten is the one computed from all recipients, and its
  shares are ordered percentages: the top five hold at most what the top ten hold, at most 100.
\<close>

theorem holder_concentration_stored:
  assumes "list_all (\<lambda>r. 0 \<le> rq_quantity r) rs"
  shows "derive_holder_concentration (snapshot_of (compute_holder_concentration rs)) = compute_holder_concentration rs \<and>
    0 \<le> hc_top5 (compute_holder_concentration rs) \<and>
    hc_top5 (compute_holder_concentration rs) \<le> hc_top10 (compute_holder_concentration rs) \<and>
    hc_top10 (compute_holder_concentration rs) \<le> 100"
proof -
  let ?s = "sort_desc rq_quantity rs"
  have nn: "list_all (\<lambda>r. 0 \<le> rq_quantity r) ?s" using assms by (simp add: list_all_iff)
  note q = quantity_sum_take[OF nn]
  have t: "take 5 (take top_n ?s) = take 5 ?s" "take top_n (take top_n ?s) = take top_n ?s" "min 5 top_n = 5" by (simp_all add: top_n_def)
  have "derive_holder_concentration (snapshot_of (compute_holder_concentration rs)) = compute_holder_concentration rs"
    by (simp add: derive_holder_concentration_def snapshot_of_def compute_holder_concentration_def build_concentration_def comp_def t)
  moreover have "share_pct (quantity_sum (take top_n ?s)) (quantity_sum rs) \<le> 100"
    using share_mono[OF q(3)[of top_n], of "quantity_sum rs"] share_full[of "quantity_sum rs"] by (simp add: sum_sort_desc)
  ultimately show ?thesis using share_nonneg[OF q(1)[of 5]] share_mono[OF q(2)[of 5 top_n]]
    by (simp add: compute_holder_concentration_def build_concentration_def top_n_def)
qed

theorem holder_concentration_stored_witness:
  "0 \<le> hc_top5 (compute_holder_concentration [\<lparr>rq_recipient = ''0xa'', rq_quantity = 3\<rparr>, \<lparr>rq_recipient = ''0xb'', rq_quantity = 1\<rparr>])"
  using holder_concentration_stored[of "[\<lparr>rq_recipient = ''0xa'', rq_quantity = 3\<rparr>, \<lparr>rq_recipient = ''0xb'', rq_quantity = 1\<rparr>]"] by simp

end
