(* ===== verification/Auth.thy ===== *)
theory Auth
  imports Errors "HOL-Library.AList"
begin

text \<open>
  Sign-in protection and authorization (\<open>packages/auth/src\<close> and the session guards of
  \<open>apps/web/src/lib/session.ts\<close>): the lockout state machine of \<open>lockout.ts\<close> and the store the
  sign-in hooks of \<open>auth.ts\<close> keep it in, the role matrix of \<open>rbac.ts\<close>, the guards with the
  passkey step-up, and the one-time token that creates the first administrator (\<open>bootstrap.ts\<close>
  with the token table of \<open>packages/db/src/repositories/ops.ts\<close>). Better Auth itself, the HTTP
  layer and the hashing of tokens are not modelled: a token is its hash, a sign-in is its outcome.
\<close>

section \<open>Lockout\<close>

definition lockout_threshold :: int where "lockout_threshold = 5"

definition lockout_durations :: "int list" where
  "lockout_durations = [60000, 5 * 60000, 15 * 60000, 60 * 60000]"

definition lockout_decay_ms :: int where "lockout_decay_ms = 60 * 60000"

record lockout_state =
  failures :: int
  level :: int
  locked_until :: int
  last_failure_at :: int

definition initial_lockout :: lockout_state where
  "initial_lockout = \<lparr>failures = 0, level = 0, locked_until = 0, last_failure_at = 0\<rparr>"

definition is_locked :: "lockout_state \<Rightarrow> int \<Rightarrow> bool" where
  "is_locked s now \<longleftrightarrow> now < locked_until s"

definition lock_duration_for_level :: "int \<Rightarrow> int" where
  "lock_duration_for_level lv =
     (let index = min (max lv 1) (int (length lockout_durations)) - 1
      in if 0 \<le> index \<and> index < int (length lockout_durations) then lockout_durations ! nat index
         else if lockout_durations \<noteq> [] then last lockout_durations else 0)"

definition record_failure :: "lockout_state \<Rightarrow> int \<Rightarrow> lockout_state" where
  "record_failure s now =
     (if is_locked s now then s
      else let (f0, l0) = (if last_failure_at s \<noteq> 0 \<and> now - last_failure_at s > lockout_decay_ms
                           then (0, 0) else (failures s, level s));
               fs = f0 + 1
           in if fs \<ge> lockout_threshold
              then let lv = l0 + 1
                   in \<lparr>failures = 0, level = lv, locked_until = now + lock_duration_for_level lv, last_failure_at = now\<rparr>
              else \<lparr>failures = fs, level = l0, locked_until = 0, last_failure_at = now\<rparr>)"

definition record_success :: lockout_state where
  "record_success = initial_lockout"

section \<open>The lockout store and the sign-in hooks\<close>

text \<open>A JavaScript \<open>Map\<close> keeps its entries in insertion order: an association list.\<close>

type_synonym lockout_store = "(string \<times> lockout_state) list"

definition prune_lockouts :: "int \<Rightarrow> lockout_store \<Rightarrow> lockout_store" where
  "prune_lockouts now st =
     (if length st < 1000 then st
      else filter (\<lambda>(k, s). \<not> (\<not> is_locked s now \<and> now - last_failure_at s > 60 * 60000)) st)"

definition state_of :: "lockout_store \<Rightarrow> string \<Rightarrow> lockout_state" where
  "state_of st k = (case map_of st k of None \<Rightarrow> initial_lockout | Some s \<Rightarrow> s)"

text \<open>The headers and body the key is made of: a missing header is \<open>None\<close>.\<close>

record sign_in_request =
  req_email :: "string option"
  x_forwarded_for :: "string option"
  x_real_ip :: "string option"

definition client_ip :: "sign_in_request \<Rightarrow> string" where
  "client_ip r =
     (let fallback = (let ip = (case x_real_ip r of None \<Rightarrow> [] | Some v \<Rightarrow> trim v)
                      in if ip = [] then ''unknown'' else ip)
      in case x_forwarded_for r of
           None \<Rightarrow> fallback
         | Some v \<Rightarrow> if v = [] then fallback
                    else let first = trim (takeWhile (\<lambda>c. c \<noteq> CHR '','') v)
                         in if first \<noteq> [] then first else fallback)"

definition lockout_key :: "sign_in_request \<Rightarrow> string option" where
  "lockout_key r =
     (let email = (case req_email r of None \<Rightarrow> [] | Some e \<Rightarrow> to_lower (trim e))
      in if email = [] then None else Some (email @ ''|'' @ client_ip r))"

definition unauthorized :: app_error where
  "unauthorized = mk_app_error AuthRequired ''Invalid credentials or too many attempts - try again later.'' no_options"

definition sign_in_before :: "lockout_store \<Rightarrow> sign_in_request \<Rightarrow> int \<Rightarrow> app_error + unit" where
  "sign_in_before st r now =
     (case lockout_key r of
        None \<Rightarrow> Inr ()
      | Some k \<Rightarrow> if is_locked (state_of st k) now then Inl unauthorized else Inr ())"

definition sign_in_after :: "lockout_store \<Rightarrow> sign_in_request \<Rightarrow> int \<Rightarrow> bool \<Rightarrow> lockout_store" where
  "sign_in_after st r now new_session =
     (case lockout_key r of
        None \<Rightarrow> st
      | Some k \<Rightarrow>
          prune_lockouts now
            (if new_session then AList.delete k st
             else AList.update k (record_failure (state_of st k) now) st))"

section \<open>Roles and actions\<close>

datatype role = Admin | Operator | Viewer

datatype action =
  FeedsRead | ProjectsRead | WatchlistManage | ScansRun | WalletsManage | CredentialsManage
| ProvidersConfigure | AlertsConfigure | UsersManage | AuditRead | SystemOperate | ExportsRead
| ExecutionConfigure | ExecutionOperate

definition all_actions :: "action list" where
  "all_actions = [FeedsRead, ProjectsRead, WatchlistManage, ScansRun, WalletsManage, CredentialsManage,
     ProvidersConfigure, AlertsConfigure, UsersManage, AuditRead, SystemOperate, ExportsRead,
     ExecutionConfigure, ExecutionOperate]"

fun role_matrix :: "role \<Rightarrow> action list" where
  "role_matrix Viewer = [FeedsRead, ProjectsRead]"
| "role_matrix Operator = [FeedsRead, ProjectsRead, WatchlistManage, ScansRun, WalletsManage, ExportsRead]"
| "role_matrix Admin = all_actions"

definition role_of :: "string option \<Rightarrow> role option" where
  "role_of r =
     (if r = Some ''admin'' then Some Admin
      else if r = Some ''operator'' then Some Operator
      else if r = Some ''viewer'' then Some Viewer else None)"

definition can :: "string option \<Rightarrow> action \<Rightarrow> bool" where
  "can r a = (case role_of r of None \<Rightarrow> False | Some ro \<Rightarrow> a \<in> set (role_matrix ro))"

fun action_name :: "action \<Rightarrow> string" where
  "action_name FeedsRead = ''feeds:read''"
| "action_name ProjectsRead = ''projects:read''"
| "action_name WatchlistManage = ''watchlist:manage''"
| "action_name ScansRun = ''scans:run''"
| "action_name WalletsManage = ''wallets:manage''"
| "action_name CredentialsManage = ''credentials:manage''"
| "action_name ProvidersConfigure = ''providers:configure''"
| "action_name AlertsConfigure = ''alerts:configure''"
| "action_name UsersManage = ''users:manage''"
| "action_name AuditRead = ''audit:read''"
| "action_name SystemOperate = ''system:operate''"
| "action_name ExportsRead = ''exports:read''"
| "action_name ExecutionConfigure = ''execution:configure''"
| "action_name ExecutionOperate = ''execution:operate''"

definition assert_can :: "string option \<Rightarrow> action \<Rightarrow> app_error + unit" where
  "assert_can r a =
     (if can r a then Inr ()
      else Inl (mk_app_error Forbidden
        (''role \"'' @ (case r of None \<Rightarrow> ''anonymous'' | Some s \<Rightarrow> s) @ ''\" may not perform '' @ action_name a)
        (no_options\<lparr>opt_status := Some 403\<rparr>)))"

section \<open>Session guards\<close>

record session_user =
  user_id :: string
  user_role :: role

fun role_name :: "role \<Rightarrow> string" where
  "role_name Admin = ''admin''"
| "role_name Operator = ''operator''"
| "role_name Viewer = ''viewer''"

text \<open>The session Better Auth reports: the user with the role as stored, and how the session began.\<close>

record session =
  ses_user_id :: string
  ses_role :: "string option"
  ses_created_at :: js_date
  ses_last_auth_method :: "string option"

definition get_session_user :: "session option \<Rightarrow> session_user option" where
  "get_session_user s = map_option (\<lambda>s. \<lparr>user_id = ses_user_id s,
     user_role = (case role_of (ses_role s) of None \<Rightarrow> Viewer | Some r \<Rightarrow> r)\<rparr>) s"

datatype page_result = Redirect string | Page session_user

definition require_page :: "session option \<Rightarrow> action \<Rightarrow> page_result" where
  "require_page s a =
     (case get_session_user s of
        None \<Rightarrow> Redirect ''/login''
      | Some u \<Rightarrow> if \<not> can (Some (role_name (user_role u))) a then Redirect ''/?denied=1'' else Page u)"

definition require_api :: "session option \<Rightarrow> action \<Rightarrow> app_error + session_user" where
  "require_api s a =
     (case get_session_user s of
        None \<Rightarrow> rbind (assert_can None a) (\<lambda>_. Inl (mk_app_error Forbidden ''unreachable'' no_options))
      | Some u \<Rightarrow> rbind (assert_can (Some (role_name (user_role u))) a) (\<lambda>_. Inr u))"

definition step_up_max_age_ms :: int where "step_up_max_age_ms = 2 * 60 * 1000"

text \<open>\<open>ageMs > MAX\<close> is false when the creation date is invalid (NaN).\<close>

definition require_fresh_step_up :: "session option \<Rightarrow> action \<Rightarrow> int \<Rightarrow> app_error + session_user" where
  "require_fresh_step_up s a now =
     rbind (require_api s a) (\<lambda>u.
       case s of
         None \<Rightarrow> Inl (mk_app_error AuthRequired ''no active session'' no_options)
       | Some ses \<Rightarrow>
           if ses_last_auth_method ses \<noteq> Some ''passkey''
              \<or> (case ses_created_at ses of None \<Rightarrow> False | Some t \<Rightarrow> now - t > step_up_max_age_ms)
           then Inl (mk_app_error AuthRequired ''step-up re-authentication required'' no_options)
           else Inr u)"

section \<open>Bootstrap tokens\<close>

record bootstrap_token =
  token_hash :: string
  expires_at :: int
  used_at :: "int option"

record setup_db =
  tokens :: "bootstrap_token list"
  users :: "(string \<times> string \<times> role) list"

definition bootstrap_ttl_ms :: int where "bootstrap_ttl_ms = 30 * 60 * 1000"

definition issue_bootstrap_token :: "setup_db \<Rightarrow> string \<Rightarrow> int \<Rightarrow> setup_db" where
  "issue_bootstrap_token db h now =
     db\<lparr>tokens := tokens db @ [\<lparr>token_hash = h, expires_at = now + bootstrap_ttl_ms, used_at = None\<rparr>]\<rparr>"

definition token_usable :: "string \<Rightarrow> int \<Rightarrow> bootstrap_token \<Rightarrow> bool" where
  "token_usable h now t \<longleftrightarrow> token_hash t = h \<and> used_at t = None \<and> expires_at t > now"

definition consume_bootstrap_token :: "setup_db \<Rightarrow> string \<Rightarrow> int \<Rightarrow> bool \<times> setup_db" where
  "consume_bootstrap_token db h now =
     (list_ex (token_usable h now) (tokens db),
      db\<lparr>tokens := update_where (token_usable h now) (\<lambda>t. t\<lparr>used_at := Some now\<rparr>) (tokens db)\<rparr>)"

text \<open>The transaction: a thrown error rolls every write back.\<close>

definition create_first_admin :: "setup_db \<Rightarrow> string \<Rightarrow> string \<Rightarrow> string \<Rightarrow> int \<Rightarrow> (app_error + string) \<times> setup_db" where
  "create_first_admin db h new_id email now =
     (if users db \<noteq> [] then
        (Inl (mk_app_error Forbidden ''setup already completed'' (no_options\<lparr>opt_status := Some 403\<rparr>)), db)
      else let (ok, db1) = consume_bootstrap_token db h now in
        if \<not> ok then
          (Inl (mk_app_error AuthRequired ''bootstrap token invalid, expired, or used'' no_options), db)
        else (Inr new_id, db1\<lparr>users := users db1 @ [(new_id, to_lower email, Admin)]\<rparr>))"

section \<open>Properties of the lockout\<close>

lemma lock_duration_cases:
  "lock_duration_for_level lv =
     (if lv \<le> 1 then 60000 else if lv = 2 then 300000 else if lv = 3 then 900000 else 3600000)"
proof -
  consider "lv \<le> 1" | "lv = 2" | "lv = 3" | "4 \<le> lv" by linarith
  then show ?thesis
    by cases (auto simp: lock_duration_for_level_def lockout_durations_def nth_Cons' Let_def)
qed

lemma lock_duration_ge: "60000 \<le> lock_duration_for_level lv"
  by (simp add: lock_duration_cases)

text \<open>An attacker who fails at the instants \<open>ts\<close>; only attempts made while not locked reach the
  password check, and those are counted.\<close>

fun attack :: "lockout_state \<times> nat \<Rightarrow> int list \<Rightarrow> lockout_state \<times> nat" where
  "attack (s, c) [] = (s, c)"
| "attack (s, c) (t # ts) = (if is_locked s t then attack (s, c) ts else attack (record_failure s t, c + 1) ts)"

definition counted_inv :: "int \<Rightarrow> lockout_state \<Rightarrow> nat \<Rightarrow> bool" where
  "counted_inv t0 s c \<longleftrightarrow>
     (c = 0 \<and> s = initial_lockout) \<or>
     (t0 \<le> last_failure_at s \<and> 0 \<le> failures s \<and> failures s \<le> 4 \<and>
      (\<exists>n \<ge> 0. int c \<le> 5 * n + failures s \<and>
         (locked_until s = 0 \<and> 60000 * n \<le> last_failure_at s - t0 \<or>
          failures s = 0 \<and> last_failure_at s + 60000 \<le> locked_until s \<and> 60000 * n \<le> last_failure_at s - t0 + 60000)))"

lemma record_failure_last: "\<not> is_locked s t \<Longrightarrow> last_failure_at (record_failure s t) = t"
  by (auto simp: record_failure_def Let_def split: prod.split)

lemma record_failure_first: "0 < t \<Longrightarrow>
  record_failure initial_lockout t = \<lparr>failures = 1, level = 0, locked_until = 0, last_failure_at = t\<rparr>"
  by (simp add: record_failure_def initial_lockout_def is_locked_def lockout_threshold_def)

lemma counted_inv_step:
  assumes inv: "counted_inv t0 s c" and t: "0 < t0" "t0 \<le> t" "last_failure_at s \<le> t" and nl: "\<not> is_locked s t"
  shows "counted_inv t0 (record_failure s t) (c + 1)"
proof (cases "c = 0 \<and> s = initial_lockout")
  case True
  with t show ?thesis by (auto simp: counted_inv_def record_failure_first intro: exI[of _ 0])
next
  case False
  with inv obtain n where n: "t0 \<le> last_failure_at s" "0 \<le> failures s" "failures s \<le> 4" "0 \<le> n"
    "int c \<le> 5 * n + failures s" and
    d: "locked_until s = 0 \<and> 60000 * n \<le> last_failure_at s - t0 \<or>
        failures s = 0 \<and> last_failure_at s + 60000 \<le> locked_until s \<and> 60000 * n \<le> last_failure_at s - t0 + 60000"
    by (auto simp: counted_inv_def)
  have lt: "locked_until s \<le> t" using nl by (simp add: is_locked_def)
  have n': "60000 * n \<le> t - t0" using d lt t(3) by linarith
  show ?thesis
  proof (cases "last_failure_at s \<noteq> 0 \<and> t - last_failure_at s > lockout_decay_ms")
    case True
    then have r: "record_failure s t = \<lparr>failures = 1, level = 0, locked_until = 0, last_failure_at = t\<rparr>"
      using nl by (simp add: record_failure_def lockout_threshold_def)
    show ?thesis
    proof (cases "failures s = 0")
      case f0: True
      then show ?thesis using n n' t unfolding counted_inv_def r by - (rule disjI2, intro conjI exI[of _ n], simp_all)
    next
      case False
      then have "60000 * n \<le> last_failure_at s - t0" using d by simp
      then have "60000 * (n + 1) \<le> t - t0" using True by (simp add: lockout_decay_ms_def)
      then show ?thesis using n t unfolding counted_inv_def r by - (rule disjI2, intro conjI exI[of _ "n + 1"], simp_all)
    qed
  next
    case nodecay: False
    show ?thesis
    proof (cases "failures s + 1 \<ge> 5")
      case True
      let ?s' = "\<lparr>failures = 0, level = level s + 1, locked_until = t + lock_duration_for_level (level s + 1), last_failure_at = t\<rparr>"
      have r: "record_failure s t = ?s'"
        using True nodecay nl by (auto simp: record_failure_def lockout_threshold_def Let_def)
      show ?thesis using True n n' t lock_duration_ge[of "level s + 1"]
        unfolding counted_inv_def r by - (rule disjI2, intro conjI exI[of _ "n + 1"], simp_all)
    next
      case False
      have r: "record_failure s t = \<lparr>failures = failures s + 1, level = level s, locked_until = 0, last_failure_at = t\<rparr>"
        using False nodecay nl by (auto simp: record_failure_def lockout_threshold_def Let_def)
      show ?thesis using False n n' t unfolding counted_inv_def r by - (rule disjI2, intro conjI exI[of _ n], simp_all)
    qed
  qed
qed

lemma attack_inv:
  assumes "counted_inv t0 s c" and "0 < t0" and "sorted ts" and "\<forall>t \<in> set ts. t0 \<le> t \<and> t \<le> hi"
    and "\<forall>t \<in> set ts. last_failure_at s \<le> t" and "s = initial_lockout \<or> last_failure_at s \<le> hi"
  shows "counted_inv t0 (fst (attack (s, c) ts)) (snd (attack (s, c) ts))
    \<and> (fst (attack (s, c) ts) = initial_lockout \<or> last_failure_at (fst (attack (s, c) ts)) \<le> hi)"
  using assms
proof (induction ts arbitrary: s c)
  case Nil
  then show ?case by simp
next
  case (Cons t ts)
  show ?case
  proof (cases "is_locked s t")
    case True
    with Cons show ?thesis by simp
  next
    case False
    have "counted_inv t0 (record_failure s t) (c + 1)"
      using Cons.prems False by (intro counted_inv_step) simp_all
    then show ?thesis using Cons.prems False
      by (simp del: One_nat_def add: Cons.IH record_failure_last)
  qed
qed



fun fail_times :: "lockout_state \<Rightarrow> int \<Rightarrow> nat \<Rightarrow> lockout_state" where
  "fail_times s t 0 = s"
| "fail_times s t (Suc n) = fail_times (record_failure s t) t n"

text \<open>
Locks escalate and are exact: five failures without decay lock the identifier for 1 minute, then
5, 15 and 60 minutes, and 60 from then on; while locked, attempts neither extend the lock nor count;
the lock ends at its instant.
\<close>

theorem lock_escalation:
  assumes "\<not> is_locked s now" and "failures s = 0" and "0 \<le> level s" and "0 < now"
    and "now - last_failure_at s \<le> lockout_decay_ms"
  shows "let s' = fail_times s now 5 in
      level s' = level s + 1 \<and>
      locked_until s' = now + (if level s = 0 then 60000 else if level s = 1 then 300000 else if level s = 2 then 900000 else 3600000)
      \<and> (\<forall>t. now \<le> t \<and> t < locked_until s' \<longrightarrow> is_locked s' t \<and> record_failure s' t = s')
      \<and> \<not> is_locked s' (locked_until s')"
  using assms
  by (simp add: eval_nat_numeral record_failure_def is_locked_def lockout_threshold_def Let_def lock_duration_cases
      lockout_decay_ms_def)

lemma lock_escalation_witness:
  "locked_until (fail_times initial_lockout 1000 5) = 61000"
  using lock_escalation[of initial_lockout 1000]
  by (simp add: initial_lockout_def is_locked_def lockout_decay_ms_def Let_def)

text \<open>
Pruning the store loses nothing: for an identifier whose entry is dropped, the next failure, now
or later, leads to exactly the state it would have led to with the entry kept, and it is locked in
neither case.
\<close>

theorem prune_transparent:
  assumes "map_of st k = Some s" and "map_of (prune_lockouts now st) k = None" and "distinct (map fst st)"
    and "last_failure_at s \<noteq> 0" and "0 \<le> now" and "now \<le> t"
  shows "record_failure s t = record_failure (state_of (prune_lockouts now st) k) t
    \<and> \<not> is_locked s t \<and> \<not> is_locked (state_of (prune_lockouts now st) k) t"
proof -
  have mem: "(k, s) \<in> set st" using assms(1) by (rule map_of_SomeD)
  have "\<not> is_locked s now \<and> now - last_failure_at s > 60 * 60000"
  proof (rule ccontr)
    assume keep: "\<not> ?thesis"
    then have "(k, s) \<in> set (prune_lockouts now st)" using mem by (auto simp: prune_lockouts_def)
    then have "map_of (prune_lockouts now st) k \<noteq> None" by (auto dest: weak_map_of_SomeI)
    with assms(2) show False by simp
  qed
  with assms(2,4,5,6) show ?thesis
    by (auto simp: state_of_def record_failure_def initial_lockout_def is_locked_def lockout_decay_ms_def Let_def
        split: prod.split)
qed

definition idle_entry :: lockout_state where
  "idle_entry = \<lparr>failures = 3, level = 2, locked_until = 0, last_failure_at = 1\<rparr>"

lemma prune_transparent_witness:
  "record_failure idle_entry 4000000 = record_failure initial_lockout 4000000"
proof -
  let ?st = "map (\<lambda>i. (show_nat i, idle_entry)) [0..<1000]"
  have "?st = (show_nat 0, idle_entry) # map (\<lambda>i. (show_nat i, idle_entry)) [1..<1000]"
    by (simp only: upt_conv_Cons zero_less_numeral list.map One_nat_def)
  then have m: "map_of ?st (show_nat 0) = Some idle_entry" by (simp only: map_of.simps) simp
  have p: "prune_lockouts 4000000 ?st = []"
    by (simp add: prune_lockouts_def idle_entry_def is_locked_def)
  have d: "distinct (map fst ?st)" by (simp add: o_def distinct_map inj_on_def)
  show ?thesis
    using prune_transparent[OF m _ d, of 4000000 4000000] p by (simp add: idle_entry_def state_of_def)
qed

section \<open>Properties of roles, guards and bootstrap\<close>

text \<open>
Authorization is a ladder, and execution is the administrator's alone: whatever a viewer may do
an operator may, and whatever an operator may do an administrator may, who may do everything; the
two execution actions, credentials and users are denied to every other role, and an unknown or
missing role may do nothing; each denial is a 403.
\<close>

theorem rbac_ladder:
  "set (role_matrix Viewer) \<subseteq> set (role_matrix Operator) \<and> set (role_matrix Operator) \<subseteq> set (role_matrix Admin)
   \<and> can (Some ''admin'') a
   \<and> (a \<in> {ExecutionConfigure, ExecutionOperate, CredentialsManage, UsersManage} \<longrightarrow> (can r a \<longleftrightarrow> r = Some ''admin''))
   \<and> (role_of r = None \<longrightarrow> \<not> can r a)
   \<and> (\<forall>e. assert_can r a = Inl e \<longrightarrow> status_code e = 403 \<and> category e = Forbidden \<and> \<not> retryable e)
   \<and> (assert_can r a = Inr () \<longleftrightarrow> can r a)"
  by (cases a) (auto simp: can_def role_of_def all_actions_def assert_can_def mk_app_error_def no_options_def)

lemma rbac_ladder_witness:
  "\<not> can (Some ''operator'') ExecutionOperate"
  using rbac_ladder[of ExecutionOperate "Some ''operator''"] by simp

text \<open>
C24 The step-up gate is sound: it lets a caller through only with a live session whose role may do
the action and whose last sign-in was a passkey ceremony; with a valid creation date, that ceremony
is at most two minutes old. The stricter gate never accepts what the API guard rejects.
\<close>

theorem step_up_sound:
  assumes "require_fresh_step_up s a now = Inr u"
  shows "\<exists>ses. s = Some ses \<and> ses_last_auth_method ses = Some ''passkey''
    \<and> (\<forall>t. ses_created_at ses = Some t \<longrightarrow> now - t \<le> 120000)
    \<and> can (Some (role_name (user_role u))) a \<and> require_api s a = Inr u
    \<and> (a = ExecutionOperate \<longrightarrow> user_role u = Admin)"
proof -
  from assms obtain ses where s: "s = Some ses" "require_api s a = Inr u"
    "ses_last_auth_method ses = Some ''passkey''"
    "\<not> (case ses_created_at ses of None \<Rightarrow> False | Some t \<Rightarrow> now - t > step_up_max_age_ms)"
    by (cases s) (auto simp: require_fresh_step_up_def rbind_Inr_iff split: if_splits)
  then have "can (Some (role_name (user_role u))) a"
    by (auto simp: require_api_def rbind_Inr_iff assert_can_def split: option.splits if_splits)
  moreover from this have "a = ExecutionOperate \<longrightarrow> user_role u = Admin"
    by (cases "user_role u") (auto simp: can_def role_of_def)
  ultimately show ?thesis using s by (auto simp: step_up_max_age_ms_def)
qed

definition demo_session :: session where
  "demo_session = \<lparr>ses_user_id = ''u1'', ses_role = Some ''admin'', ses_created_at = Some 1000,
     ses_last_auth_method = Some ''passkey''\<rparr>"

lemma step_up_sound_witness:
  "\<exists>u. require_fresh_step_up (Some demo_session) ExecutionOperate 61000 = Inr u \<and> user_role u = Admin"
proof -
  have r: "require_fresh_step_up (Some demo_session) ExecutionOperate 61000 = Inr \<lparr>user_id = ''u1'', user_role = Admin\<rparr>"
    by (simp add: require_fresh_step_up_def require_api_def get_session_user_def demo_session_def role_of_def
        assert_can_def can_def all_actions_def step_up_max_age_ms_def)
  from step_up_sound[OF r] r show ?thesis by auto
qed

text \<open>Attempts to complete the setup, one after another, each with a token, an id, an email and an instant.\<close>

fun setup_run :: "setup_db \<Rightarrow> (string \<times> string \<times> string \<times> int) list \<Rightarrow> setup_db \<times> string list" where
  "setup_run db [] = (db, [])"
| "setup_run db ((h, i, e, t) # rest) =
     (case create_first_admin db h i e t of
        (Inr x, db') \<Rightarrow> (let (db2, xs) = setup_run db' rest in (db2, x # xs))
      | (Inl _, db') \<Rightarrow> setup_run db' rest)"

lemma create_first_admin_closed: "users db \<noteq> [] \<Longrightarrow> \<exists>e. create_first_admin db h i m t = (Inl e, db)"
  by (simp add: create_first_admin_def)

lemma setup_run_closed: "users db \<noteq> [] \<Longrightarrow> setup_run db rs = (db, [])"
proof (induction rs)
  case (Cons r rs)
  obtain h i e t where "r = (h, i, e, t)" by (cases r) auto
  with Cons create_first_admin_closed[of db h i e t] show ?case by auto
qed simp

lemma create_first_admin_Inr:
  assumes "create_first_admin db h i m t = (Inr x, db')"
  shows "users db = [] \<and> users db' = [(i, to_lower m, Admin)] \<and> x = i
    \<and> (\<exists>tok \<in> set (tokens db). token_usable h t tok) \<and> (\<forall>tok \<in> set (tokens db'). \<not> token_usable h t tok)"
  using assms
  by (auto simp: create_first_admin_def consume_bootstrap_token_def Let_def list_ex_iff set_update_where token_usable_def
      split: if_splits)

text \<open>
At most one administrator is ever created through the setup page: over any sequence of attempts
with any tokens, the runs that succeed number at most one; a success used a stored, unexpired, unused
token, after which that token is unusable; and a failed attempt changes nothing, so a refused token
is not burnt.
\<close>

theorem setup_creates_one_admin:
  "length (snd (setup_run db rs)) \<le> 1
   \<and> (\<forall>e db'. create_first_admin db h i m t = (Inl e, db') \<longrightarrow> db' = db)
   \<and> (\<forall>x db'. create_first_admin db h i m t = (Inr x, db') \<longrightarrow>
        users db = [] \<and> (\<exists>tok \<in> set (tokens db). token_hash tok = h \<and> used_at tok = None \<and> t < expires_at tok)
        \<and> (\<forall>tok \<in> set (tokens db'). \<not> token_usable h t tok) \<and> (\<forall>rs. setup_run db' rs = (db', [])))"
proof -
  have "length (snd (setup_run db rs)) \<le> 1"
  proof (induction rs arbitrary: db)
    case Nil
    then show ?case by simp
  next
    case (Cons r rs)
    obtain h i e t where r: "r = (h, i, e, t)" by (cases r) auto
    obtain res db' where c: "create_first_admin db h i e t = (res, db')" by fastforce
    show ?case
    proof (cases res)
      case (Inl e)
      with Cons.IH[of db'] show ?thesis by (simp add: r c)
    next
      case (Inr x)
      with create_first_admin_Inr[of db h i e t x db'] c setup_run_closed[of db' rs] show ?thesis by (simp add: r)
    qed
  qed
  moreover have "db' = db" if "create_first_admin db h i m t = (Inl e, db')" for e db'
    using that by (auto simp: create_first_admin_def Let_def split: if_splits prod.splits)
  moreover have "users db = [] \<and> (\<exists>tok \<in> set (tokens db). token_hash tok = h \<and> used_at tok = None \<and> t < expires_at tok)
        \<and> (\<forall>tok \<in> set (tokens db'). \<not> token_usable h t tok) \<and> (\<forall>rs. setup_run db' rs = (db', []))"
    if "create_first_admin db h i m t = (Inr x, db')" for x db'
    using create_first_admin_Inr[OF that] setup_run_closed[of db'] by (auto simp: token_usable_def)
  ultimately show ?thesis by blast
qed

lemma setup_creates_one_admin_witness:
  "length (snd (setup_run (issue_bootstrap_token \<lparr>tokens = [], users = []\<rparr> ''h1'' 0)
     [(''h1'', ''u1'', ''A@x'', 5), (''h1'', ''u2'', ''B@x'', 6)])) \<le> 1"
  using setup_creates_one_admin by blast

end
