(* ===== verification/JsValues.thy ===== *)
theory JsValues
  imports Prelude
begin

text \<open>
  Values of unknown shape (JSON, \<open>undefined\<close>, numbers that are not finite) and the readings of numbers
  out of strings that several components share: \<open>parseInt\<close>, \<open>parseFloat\<close>, \<open>Math.trunc\<close> and \<open>Math.ceil\<close>.
  A number that is finite is its exact rational.
\<close>

section \<open>JSON values\<close>

text \<open>What \<open>unknown\<close> may hold: JSON, \<open>undefined\<close>, and the numbers that are not finite.\<close>

datatype js =
  Undef | Null | JBool bool | JNum rat | NotFinite | JStr string | JArr "js list" | JObj "(string \<times> js) list"

definition js_prop :: "js \<Rightarrow> string \<Rightarrow> js" where
  "js_prop v k = (case v of JObj kvs \<Rightarrow> (case map_of kvs k of Some x \<Rightarrow> x | None \<Rightarrow> Undef) | _ \<Rightarrow> Undef)"

text \<open>\<open>Number.parseInt(s, 10)\<close>: leading white space, a sign, the digits up to the first other character.\<close>

definition parse_int_prefix :: "string \<Rightarrow> rat option" where
  "parse_int_prefix s =
     (let t = dropWhile is_space s;
          neg = (t \<noteq> [] \<and> hd t = CHR ''-'');
          u = (if t \<noteq> [] \<and> (hd t = CHR ''-'' \<or> hd t = CHR ''+'') then tl t else t);
          digits = takeWhile is_digit u;
          n = fl (of_nat (dec_val digits))
      in if digits = [] \<or> n \<ge> 2 ^ 1024 then None else Some (if neg then - n else n))"

definition math_trunc :: "rat \<Rightarrow> int" where
  "math_trunc x = (if x < 0 then \<lceil>x\<rceil> else \<lfloor>x\<rfloor>)"

text \<open>\<open>Number.parseFloat\<close> of a string that begins with a digit: digits, and a fraction when a point follows.\<close>

definition parse_decimal_prefix :: "string \<Rightarrow> rat" where
  "parse_decimal_prefix s =
     (let whole = takeWhile is_digit s;
          rest = dropWhile is_digit s;
          frac = (if rest \<noteq> [] \<and> hd rest = CHR ''.'' then takeWhile is_digit (tl rest) else [])
      in fl (of_nat (dec_val (whole @ frac)) / 10 ^ length frac))"

text \<open>\<open>Math.ceil\<close> of a quotient of integers.\<close>

definition ceil_div :: "int \<Rightarrow> int \<Rightarrow> int" where
  "ceil_div a b = - ((- a) div b)"

lemma ceil_div_upper: "0 < b \<Longrightarrow> a \<le> ceil_div a b * b"
proof -
  assume "0 < b"
  then have "b * ((- a) div b) \<le> - a" using mult_div_mod_eq[of b "- a"] pos_mod_sign[of b "- a"] by linarith
  then show ?thesis by (simp add: ceil_div_def mult.commute)
qed

end
