(* ===== verification/AutoMint.thy ===== *)
theory AutoMint
  imports Pipeline Auth StateError JsValues
begin

text \<open>
  The auto-mint planner: the policy parser, the decision and the ceiling (\<open>packages/core/src/auto-mint.ts\<close>,
  \<open>stage-id.ts\<close>), its queries (\<open>packages/db/src/repositories/auto-mint.ts\<close>), the worker that creates and
  arms plans (\<open>apps/worker/src/workers/auto-mint.ts\<close>) and the server action that saves the policy. The
  tables are those of \<open>MintPlans\<close> with the columns and tables only the planner reads beside them.
  Proved: what the parser returns is well formed and survives storage; the decision arms a window that
  reaches the opening exactly when the stage opens within a day; a pass stays within its caps,
  whatever database call fails, and the daily cap does not hold from one pass to the next.
\<close>

section \<open>The policy\<close>

record auto_mint_policy =
  am_enabled :: bool
  am_wallets :: "string list"
  am_max_price :: string
  am_public_only :: bool
  am_max_risk :: int
  am_require_risk :: bool
  am_lookahead :: int
  am_per_day :: int
  am_quantity :: int
  am_curated :: bool
  am_min_hype :: int
  am_min_minters :: int
  am_owner :: "string option"

definition default_policy :: auto_mint_policy where
  "default_policy = \<lparr>am_enabled = False, am_wallets = [], am_max_price = ''0'', am_public_only = True,
     am_max_risk = 40, am_require_risk = False, am_lookahead = 24, am_per_day = 20, am_quantity = 1,
     am_curated = True, am_min_hype = 0, am_min_minters = 0, am_owner = None\<rparr>"

fun uuid_shape :: "nat list \<Rightarrow> string \<Rightarrow> bool" where
  "uuid_shape [] s \<longleftrightarrow> s = []"
| "uuid_shape [n] s \<longleftrightarrow> length s = n \<and> list_all is_hex s"
| "uuid_shape (n # m # ns) s \<longleftrightarrow>
     n < length s \<and> list_all is_hex (take n s) \<and> s ! n = CHR ''-'' \<and> uuid_shape (m # ns) (drop (Suc n) s)"

definition is_uuid :: "string \<Rightarrow> bool" where
  "is_uuid = uuid_shape [8, 4, 4, 4, 12]"

definition bool_or :: "js \<Rightarrow> bool \<Rightarrow> bool" where
  "bool_or v d = (case v of JBool b \<Rightarrow> b | _ \<Rightarrow> d)"

definition int_within :: "js \<Rightarrow> int \<Rightarrow> int \<Rightarrow> int \<Rightarrow> int" where
  "int_within v d lo hi =
     (case (case v of JNum x \<Rightarrow> Some x | JStr s \<Rightarrow> parse_int_prefix s | _ \<Rightarrow> None) of
        None \<Rightarrow> d
      | Some n \<Rightarrow> min hi (max lo (math_trunc n)))"

definition uuids_of :: "js \<Rightarrow> string list" where
  "uuids_of v = (case v of
      JArr vs \<Rightarrow> concat (map (\<lambda>w. case w of JStr s \<Rightarrow> if is_uuid s then [s] else [] | _ \<Rightarrow> []) vs)
    | _ \<Rightarrow> [])"

definition parse_auto_mint_policy :: "js \<Rightarrow> auto_mint_policy" where
  "parse_auto_mint_policy input =
     (let d = default_policy in
      \<lparr>am_enabled = bool_or (js_prop input ''enabled'') (am_enabled d),
       am_wallets = uuids_of (js_prop input ''walletIds''),
       am_max_price = (case js_prop input ''maxPriceWei'' of JStr s \<Rightarrow> if is_decimal s then s else ''0'' | _ \<Rightarrow> ''0''),
       am_public_only = bool_or (js_prop input ''publicOnly'') (am_public_only d),
       am_max_risk = int_within (js_prop input ''maxRiskScore'') (am_max_risk d) 0 100,
       am_require_risk = bool_or (js_prop input ''requireRiskSignal'') (am_require_risk d),
       am_lookahead = int_within (js_prop input ''lookaheadHours'') (am_lookahead d) 1 168,
       am_per_day = int_within (js_prop input ''maxPerWalletPerDay'') (am_per_day d) 1 500,
       am_quantity = int_within (js_prop input ''quantity'') (am_quantity d) 1 10,
       am_curated = bool_or (js_prop input ''requireCuratedListing'') (am_curated d),
       am_min_hype = int_within (js_prop input ''minHypeScore'') (am_min_hype d) 0 100,
       am_min_minters = int_within (js_prop input ''minUniqueMintersLive'') (am_min_minters d) 0 10000,
       am_owner = (case js_prop input ''ownerUserId'' of JStr s \<Rightarrow> if s \<noteq> [] then Some s else None | _ \<Rightarrow> None)\<rparr>)"

text \<open>The value of the policy as it is stored.\<close>

definition policy_json :: "auto_mint_policy \<Rightarrow> js" where
  "policy_json p = JObj [
     (''enabled'', JBool (am_enabled p)), (''walletIds'', JArr (map JStr (am_wallets p))),
     (''maxPriceWei'', JStr (am_max_price p)), (''publicOnly'', JBool (am_public_only p)),
     (''maxRiskScore'', JNum (of_int (am_max_risk p))), (''requireRiskSignal'', JBool (am_require_risk p)),
     (''lookaheadHours'', JNum (of_int (am_lookahead p))),
     (''maxPerWalletPerDay'', JNum (of_int (am_per_day p))), (''quantity'', JNum (of_int (am_quantity p))),
     (''requireCuratedListing'', JBool (am_curated p)), (''minHypeScore'', JNum (of_int (am_min_hype p))),
     (''minUniqueMintersLive'', JNum (of_int (am_min_minters p))),
     (''ownerUserId'', case am_owner p of None \<Rightarrow> Null | Some s \<Rightarrow> JStr s)]"

definition policy_ok :: "auto_mint_policy \<Rightarrow> bool" where
  "policy_ok p \<longleftrightarrow>
     list_all is_uuid (am_wallets p) \<and> is_decimal (am_max_price p)
     \<and> 0 \<le> am_max_risk p \<and> am_max_risk p \<le> 100 \<and> 1 \<le> am_lookahead p \<and> am_lookahead p \<le> 168
     \<and> 1 \<le> am_per_day p \<and> am_per_day p \<le> 500 \<and> 1 \<le> am_quantity p \<and> am_quantity p \<le> 10
     \<and> 0 \<le> am_min_hype p \<and> am_min_hype p \<le> 100 \<and> 0 \<le> am_min_minters p \<and> am_min_minters p \<le> 10000
     \<and> am_owner p \<noteq> Some []"

lemma int_within_bounds: "lo \<le> d \<Longrightarrow> d \<le> hi \<Longrightarrow> lo \<le> int_within v d lo hi \<and> int_within v d lo hi \<le> hi"
  by (auto simp: int_within_def split: option.split)

lemma int_within_num: "lo \<le> n \<Longrightarrow> n \<le> hi \<Longrightarrow> int_within (JNum (of_int n)) d lo hi = n"
  by (simp add: int_within_def math_trunc_def)

lemma uuids_ok: "list_all is_uuid (uuids_of v)"
  by (cases v) (auto simp: uuids_of_def list_all_iff split: js.splits if_splits)

lemma uuids_round: "list_all is_uuid ws \<Longrightarrow> uuids_of (JArr (map JStr ws)) = ws"
  by (induction ws) (simp_all add: uuids_of_def)

lemma parsed_policy_ok: "policy_ok (parse_auto_mint_policy v)"
proof -
  have "is_decimal ''0''" by (simp add: is_decimal_def is_digit_def code_of_def)
  then show ?thesis
    unfolding policy_ok_def parse_auto_mint_policy_def Let_def
    by (intro conjI; simp add: default_policy_def uuids_ok int_within_bounds split: js.split)
qed

lemma policy_round: "policy_ok p \<Longrightarrow> parse_auto_mint_policy (policy_json p) = p"
  unfolding parse_auto_mint_policy_def policy_json_def js_prop_def policy_ok_def Let_def
  by (cases p; cases "am_owner p") (simp_all add: bool_or_def int_within_num uuids_round)

text \<open>
C26. Whatever value is stored or submitted as the auto-mint policy (no object, wrong types, fractions, text
with trailing junk, numbers out of range), the parser returns a policy with every field in its range, wallet ids
that are UUIDs and a decimal price; and storing that policy and parsing it again gives the same policy.
\<close>

theorem parsed_policy_well_formed:
  "policy_ok (parse_auto_mint_policy v)
   \<and> parse_auto_mint_policy (policy_json (parse_auto_mint_policy v)) = parse_auto_mint_policy v"
  by (simp add: parsed_policy_ok policy_round)

section \<open>The decision\<close>

definition mint_fee_allowance :: int where "mint_fee_allowance = 100000000000000"

definition mint_spend_ceiling_wei :: "string option \<Rightarrow> int \<Rightarrow> string" where
  "mint_spend_ceiling_wei price_wei quantity =
     (let qty = max 1 quantity;
          price = (case price_wei of None \<Rightarrow> 0 | Some s \<Rightarrow> if is_decimal s then int (dec_val s) else 0)
      in show_int ((price + mint_fee_allowance) * qty))"

definition normalize_stage_id :: "string \<Rightarrow> string" where
  "normalize_stage_id raw = filter (\<lambda>c. c \<noteq> CHR ''-'') (to_lower (trim raw))"

record candidate =
  ac_project :: string
  ac_name :: string
  ac_stage :: string
  ac_kind :: stage_kind
  ac_price :: "string option"
  ac_starts :: int
  ac_ends :: "int option"
  ac_paused :: bool
  ac_risk :: "int option"
  ac_hype :: "int option"
  ac_curated :: bool
  ac_minters :: int

datatype auto_mint_decision = PlanIt string int | NoPlan string

definition live_demand_grace_ms :: int where "live_demand_grace_ms = 15 * 60000"

fun kind_name :: "stage_kind \<Rightarrow> string" where
  "kind_name Public = ''public''"
| "kind_name Allowlist = ''allowlist''"
| "kind_name Presale = ''presale''"
| "kind_name Gtd = ''gtd''"
| "kind_name Community = ''community''"
| "kind_name UnknownKind = ''unknown''"

definition format_open_for :: "int \<Rightarrow> string" where
  "format_open_for ms =
     (let minutes = ms div 60000; hours = minutes div 60 in
      if minutes < 120 then show_int minutes @ ''m''
      else if hours < 48 then show_int hours @ ''h'' else show_int (hours div 24) @ ''d'')"

definition demand_refusal :: "auto_mint_policy \<Rightarrow> candidate \<Rightarrow> int \<Rightarrow> string option" where
  "demand_refusal p c now =
     (if ac_starts c \<le> now \<and> now - ac_starts c > live_demand_grace_ms
      then (let open_for = format_open_for (now - ac_starts c) in
            if ac_minters c = 0 then Some (''open '' @ open_for @ '' with 0 minters in the last hour (dead drop)'')
            else if am_min_minters p > 0 \<and> ac_minters c < am_min_minters p
            then Some (''open '' @ open_for @ '', only '' @ show_int (ac_minters c) @ '' unique minters/1h < min ''
                       @ show_int (am_min_minters p))
            else None)
      else None)"

definition arm_minutes :: "candidate \<Rightarrow> int \<Rightarrow> int" where
  "arm_minutes c now =
     (let end_ms = (case ac_ends c of None \<Rightarrow> now + 24 * 3600000 | Some t \<Rightarrow> t)
      in max 1 (min (24 * 60) (ceil_div (end_ms - now) 60000)))"

text \<open>\<open>BigInt\<close> throws on a price that is not a number.\<close>

definition decide_auto_mint :: "auto_mint_policy \<Rightarrow> candidate \<Rightarrow> int \<Rightarrow> js_error + auto_mint_decision" where
  "decide_auto_mint p c now =
     (if \<not> am_enabled p then Inr (NoPlan ''policy disabled'')
      else if ac_paused c then Inr (NoPlan ''stage paused'')
      else if (case ac_ends c of None \<Rightarrow> False | Some t \<Rightarrow> t \<le> now) then Inr (NoPlan ''stage ended'')
      else if ac_starts c > now + am_lookahead p * 3600000 then Inr (NoPlan ''beyond lookahead'')
      else if am_public_only p \<and> ac_kind c \<noteq> Public
      then Inr (NoPlan (''stage is '' @ kind_name (ac_kind c) @ '', not public''))
      else rbind (big_int (case ac_price c of None \<Rightarrow> ''0'' | Some s \<Rightarrow> s)) (\<lambda>price.
           rbind (big_int (am_max_price p)) (\<lambda>max_price.
             if price > max_price
             then Inr (NoPlan (''price '' @ show_int price @ '' > max '' @ am_max_price p))
             else if ac_risk c = None \<and> am_require_risk p
             then Inr (NoPlan ''no risk signal yet (strict mode)'')
             else if (case ac_risk c of None \<Rightarrow> False | Some r \<Rightarrow> r > am_max_risk p)
             then Inr (NoPlan (''risk '' @ show_int (the (ac_risk c)) @ '' > max '' @ show_int (am_max_risk p)))
             else if am_curated p \<and> \<not> ac_curated c
             then Inr (NoPlan ''not in an OpenSea curated drops feed'')
             else if am_min_hype p > 0 \<and> (case ac_hype c of None \<Rightarrow> False | Some h \<Rightarrow> h < am_min_hype p)
             then Inr (NoPlan (''hype '' @ show_int (the (ac_hype c)) @ '' < min '' @ show_int (am_min_hype p)))
             else (case demand_refusal p c now of
                     Some reason \<Rightarrow> Inr (NoPlan reason)
                   | None \<Rightarrow> Inr (PlanIt (mint_spend_ceiling_wei (Some (show_int price)) (am_quantity p))
                                        (arm_minutes c now))))))"

text \<open>What lets a stage through.\<close>

definition passes_gates :: "auto_mint_policy \<Rightarrow> candidate \<Rightarrow> int \<Rightarrow> int \<Rightarrow> int \<Rightarrow> bool" where
  "passes_gates p c now price max_price \<longleftrightarrow>
     am_enabled p \<and> \<not> ac_paused c \<and> (\<forall>t. ac_ends c = Some t \<longrightarrow> now < t)
     \<and> ac_starts c \<le> now + am_lookahead p * 3600000 \<and> (am_public_only p \<longrightarrow> ac_kind c = Public)
     \<and> price \<le> max_price \<and> (am_require_risk p \<longrightarrow> ac_risk c \<noteq> None)
     \<and> (\<forall>r. ac_risk c = Some r \<longrightarrow> r \<le> am_max_risk p) \<and> (am_curated p \<longrightarrow> ac_curated c)
     \<and> (\<forall>h. ac_hype c = Some h \<longrightarrow> am_min_hype p > 0 \<longrightarrow> am_min_hype p \<le> h)
     \<and> (ac_starts c + live_demand_grace_ms < now \<longrightarrow>
          ac_minters c \<noteq> 0 \<and> (am_min_minters p > 0 \<longrightarrow> am_min_minters p \<le> ac_minters c))"

lemma demand_None:
  "demand_refusal p c now = None \<longleftrightarrow>
     (ac_starts c + live_demand_grace_ms < now \<longrightarrow>
        ac_minters c \<noteq> 0 \<and> (am_min_minters p > 0 \<longrightarrow> am_min_minters p \<le> ac_minters c))"
  by (auto simp: demand_refusal_def live_demand_grace_ms_def Let_def)

lemma decide_plan_iff:
  "decide_auto_mint p c now = Inr (PlanIt ceil mins) \<longleftrightarrow>
     (\<exists>price max_price. big_int (case ac_price c of None \<Rightarrow> ''0'' | Some s \<Rightarrow> s) = Inr price
        \<and> big_int (am_max_price p) = Inr max_price \<and> passes_gates p c now price max_price
        \<and> ceil = mint_spend_ceiling_wei (Some (show_int price)) (am_quantity p) \<and> mins = arm_minutes c now)"
proof (cases "big_int (case ac_price c of None \<Rightarrow> ''0'' | Some s \<Rightarrow> s)")
  case (Inl e)
  then show ?thesis by (simp add: decide_auto_mint_def rbind_def)
next
  case (Inr price)
  note pr = this
  show ?thesis
  proof (cases "big_int (am_max_price p)")
    case (Inl e)
    then show ?thesis using pr by (simp add: decide_auto_mint_def rbind_def)
  next
    case (Inr max_price)
    show ?thesis
      unfolding decide_auto_mint_def rbind_def passes_gates_def demand_None[symmetric]
      using pr Inr by (cases "ac_ends c"; cases "ac_risk c"; cases "ac_hype c"; cases "demand_refusal p c now")
                      (auto simp: not_less not_le)
  qed
qed

lemma arm_minutes_bounds: "1 \<le> arm_minutes c now \<and> arm_minutes c now \<le> 1440"
  by (simp add: arm_minutes_def Let_def)

lemma arm_window_reaches:
  assumes "ac_starts c \<le> now + 24 * 3600000" and "\<And>t. ac_ends c = Some t \<Longrightarrow> ac_starts c \<le> t"
  shows "ac_starts c \<le> now + arm_minutes c now * 60000"
proof (cases "ac_ends c")
  case None
  then have "arm_minutes c now = 1440" by (simp add: arm_minutes_def ceil_div_def)
  then show ?thesis using assms(1) by simp
next
  case (Some t)
  have "t - now \<le> ceil_div (t - now) 60000 * 60000" by (rule ceil_div_upper) simp
  then show ?thesis using assms Some by (auto simp: arm_minutes_def max_def min_def)
qed

text \<open>
. A plan the decision makes is armed for at most 24 hours. Its window reaches the opening of the stage exactly
when the stage opens within 24 hours, although the policy may look up to 168 hours ahead: a plan made
earlier than that expires before its stage opens.
\<close>

theorem arm_window_reaches_open_iff:
  assumes "decide_auto_mint p c now = Inr (PlanIt ceil mins)"
    and "\<forall>t. ac_ends c = Some t \<longrightarrow> ac_starts c \<le> t"
  shows "ac_starts c \<le> now + mins * 60000 \<longleftrightarrow> ac_starts c \<le> now + 24 * 3600000"
proof -
  have m: "mins = arm_minutes c now" using assms(1) by (auto simp: decide_plan_iff)
  have "arm_minutes c now * 60000 \<le> 24 * 3600000" using arm_minutes_bounds[of c now] by simp
  then show ?thesis using arm_window_reaches[of c now] assms(2) unfolding m by (auto intro: order_trans)
qed

section \<open>The tables of the planner\<close>

record signal_row =
  sr_project :: string
  sr_kind :: string
  sr_score :: int
  sr_at :: int

record audit_row =
  au_actor :: string
  au_action :: string
  au_target :: "string option"
  au_success :: bool

text \<open>
  \<open>ap_ends\<close> and \<open>ap_life\<close> are the columns \<open>ends_at\<close> (by stage id) and \<open>lifecycle_status\<close> (by project id);
  evidence rows are (project, kind), mint events (project, recipient, time); \<open>gen_random_uuid()\<close> draws
  \<open>ap_uuid 0\<close>, \<open>ap_uuid 1\<close>, ...
\<close>

record planner_db =
  ap_db :: db
  ap_policy :: "js option"
  ap_ends :: "string \<Rightarrow> int option"
  ap_life :: "string \<Rightarrow> lifecycle_status"
  ap_signals :: "signal_row list"
  ap_evidence :: "(string \<times> string) list"
  ap_mints :: "(string \<times> string \<times> int) list"
  ap_audit :: "audit_row list"
  ap_uuid :: "nat \<Rightarrow> string"
  ap_drawn :: nat

definition latest_score :: "string \<Rightarrow> string \<Rightarrow> planner_db \<Rightarrow> int option" where
  "latest_score k project d =
     map_option sr_score (first_row (sort_desc sr_at
       (filter (\<lambda>r. sr_project r = project \<and> sr_kind r = k) (ap_signals d))))"

definition latest_risk_score :: "string \<Rightarrow> planner_db \<Rightarrow> int option" where
  "latest_risk_score = latest_score ''risk''"

definition unique_minters_1h :: "string \<Rightarrow> int \<Rightarrow> planner_db \<Rightarrow> int" where
  "unique_minters_1h project now d =
     int (length (remdups (map (\<lambda>(_, r, _). r)
       (filter (\<lambda>(p, _, t). p = project \<and> t > now - 3600000) (ap_mints d)))))"

definition candidate_of :: "planner_db \<Rightarrow> int \<Rightarrow> drop_stage \<Rightarrow> project \<Rightarrow> candidate" where
  "candidate_of d now s r = \<lparr>ac_project = pr_id r, ac_name = pr_name r, ac_stage = ds_id s, ac_kind = ds_type s,
     ac_price = ds_price s, ac_starts = ds_starts s, ac_ends = ap_ends d (ds_id s), ac_paused = ds_paused s,
     ac_risk = latest_score ''risk'' (pr_id r) d, ac_hype = latest_score ''hype'' (pr_id r) d,
     ac_curated = (\<exists>e \<in> set (ap_evidence d). fst e = pr_id r \<and> starts_with ''drops:'' (snd e)),
     ac_minters = unique_minters_1h (pr_id r) now d\<rparr>"

definition auto_mint_candidate_stages :: "planner_db \<Rightarrow> int \<Rightarrow> nat \<Rightarrow> int \<Rightarrow> candidate list" where
  "auto_mint_candidate_stages d lookahead_hours limit now =
     take limit (sort_key ac_starts (concat (map (\<lambda>s.
       case List.find (\<lambda>r. pr_id r = ds_project s) (projects (ap_db d)) of
         None \<Rightarrow> []
       | Some r \<Rightarrow>
           if ap_life d (pr_id r) \<in> {LIVE, NEXT} \<and> pr_slug r \<noteq> None \<and> \<not> ds_paused s
              \<and> (case ap_ends d (ds_id s) of None \<Rightarrow> True | Some t \<Rightarrow> t > now)
              \<and> ds_starts s < now + lookahead_hours * 3600000
           then [candidate_of d now s r] else [])
       (stages (ap_db d)))))"

definition managed_wallets_among :: "string list \<Rightarrow> planner_db \<Rightarrow> wallet list" where
  "managed_wallets_among ids d =
     (if ids = [] then []
      else filter (\<lambda>w. wl_id w \<in> set ids \<and> wl_enabled w \<and> wl_key w \<noteq> None) (wallets (ap_db d)))"

definition for_stage :: "string \<Rightarrow> string \<Rightarrow> mint_plan \<Rightarrow> bool" where
  "for_stage wallet stage r \<longleftrightarrow> mp_wallet r = wallet \<and> mp_stage r = Some stage"

definition blocking_plan_exists :: "string \<Rightarrow> string \<Rightarrow> planner_db \<Rightarrow> bool" where
  "blocking_plan_exists wallet stage d \<longleftrightarrow>
     (\<exists>r \<in> set (plans (ap_db d)). for_stage wallet stage r \<and> mp_status r \<in> {Draft, Armed, Executing, Executed})"

definition attempts_for_stage :: "string \<Rightarrow> string \<Rightarrow> planner_db \<Rightarrow> nat" where
  "attempts_for_stage wallet stage d = length (filter (for_stage wallet stage) (plans (ap_db d)))"

definition executed_last_24h :: "string \<Rightarrow> int \<Rightarrow> planner_db \<Rightarrow> nat" where
  "executed_last_24h wallet now d =
     length (filter (\<lambda>r. mp_wallet r = wallet \<and> mp_status r = Executed \<and> mp_updated r > now - 24 * 3600000)
               (plans (ap_db d)))"

definition create_plan_row :: "plan_input \<Rightarrow> int \<Rightarrow> planner_db \<Rightarrow> mint_plan \<times> planner_db" where
  "create_plan_row i now d =
     (let (r, d') = create_mint_plan i (ap_uuid d (ap_drawn d)) now (ap_db d)
      in (r, d\<lparr>ap_db := d', ap_drawn := Suc (ap_drawn d)\<rparr>))"

definition arm_plan_row :: "string \<Rightarrow> string \<Rightarrow> int \<Rightarrow> int \<Rightarrow> planner_db \<Rightarrow> mint_plan option \<times> planner_db" where
  "arm_plan_row i user minutes now d =
     (let (r, d') = arm_mint_plan i user minutes now (ap_db d) in (r, d\<lparr>ap_db := d'\<rparr>))"

definition record_audit :: "audit_row \<Rightarrow> planner_db \<Rightarrow> planner_db" where
  "record_audit a d = d\<lparr>ap_audit := ap_audit d @ [a]\<rparr>"

section \<open>The planner\<close>

type_synonym 'a planner = "(planner_db machine, 'a) eff"

definition max_attempts_per_stage :: nat where "max_attempts_per_stage = 2"

record planner_summary =
  ps_enabled :: bool
  ps_candidates :: nat
  ps_planned :: nat
  ps_skipped :: nat

definition load_auto_mint_policy :: "auto_mint_policy option planner" where
  "load_auto_mint_policy = db_read (\<lambda>d. map_option parse_auto_mint_policy (ap_policy d))"

definition plan_for_wallet :: "auto_mint_policy \<Rightarrow> string \<Rightarrow> string \<Rightarrow> candidate \<Rightarrow> string \<Rightarrow> int \<Rightarrow> unit planner" where
  "plan_for_wallet p owner wallet s ceil mins =
     then_do clock (\<lambda>t1. then_do (db_call (create_plan_row
         \<lparr>pi_project = ac_project s, pi_wallet = wallet, pi_stage = Some (ac_stage s), pi_signer = None,
          pi_quantity = Some (am_quantity p), pi_ceiling = ceil, pi_fire_at = None\<rparr> t1)) (\<lambda>plan.
     then_do clock (\<lambda>t2. then_do (db_call (arm_plan_row (mp_id plan) owner mins t2)) (\<lambda>armed.
     db_write (record_audit \<lparr>au_actor = owner, au_action = ''automint.plan_armed'',
       au_target = Some (mp_id plan), au_success = (armed \<noteq> None)\<rparr>)))))"

text \<open>The inner loop over the stages: the budget left, and the counts so far.\<close>

fun plan_stages ::
  "auto_mint_policy \<Rightarrow> string \<Rightarrow> string \<Rightarrow> int \<Rightarrow> int \<Rightarrow> nat \<Rightarrow> nat \<Rightarrow> candidate list \<Rightarrow> (nat \<times> nat) planner" where
  "plan_stages p owner wallet now budget planned skipped [] = ret (planned, skipped)"
| "plan_stages p owner wallet now budget planned skipped (s # ss) =
     (if budget \<le> 0 then ret (planned, skipped)
      else then_do (lift_sum (of_js (decide_auto_mint p s now))) (\<lambda>decision. case decision of
             NoPlan _ \<Rightarrow> plan_stages p owner wallet now budget planned (Suc skipped) ss
           | PlanIt ceil mins \<Rightarrow>
               then_do (db_read (blocking_plan_exists wallet (ac_stage s))) (\<lambda>blocked.
                 if blocked then plan_stages p owner wallet now budget planned skipped ss
                 else then_do (db_read (attempts_for_stage wallet (ac_stage s))) (\<lambda>attempts.
                   if attempts \<ge> max_attempts_per_stage
                   then plan_stages p owner wallet now budget planned (Suc skipped) ss
                   else then_do (plan_for_wallet p owner wallet s ceil mins) (\<lambda>_.
                     plan_stages p owner wallet now (budget - 1) (Suc planned) skipped ss)))))"

definition wallet_pass ::
  "auto_mint_policy \<Rightarrow> string \<Rightarrow> int \<Rightarrow> candidate list \<Rightarrow> wallet \<Rightarrow> nat \<times> nat \<Rightarrow> (nat \<times> nat) planner" where
  "wallet_pass p owner now ss w counts =
     then_do clock (\<lambda>t. then_do (db_read (executed_last_24h (wl_id w) t)) (\<lambda>executed_today.
       plan_stages p owner (wl_id w) now (am_per_day p - int executed_today) (fst counts) (snd counts) ss))"

fun plan_wallets ::
  "auto_mint_policy \<Rightarrow> string \<Rightarrow> int \<Rightarrow> candidate list \<Rightarrow> wallet list \<Rightarrow> nat \<times> nat \<Rightarrow> (nat \<times> nat) planner" where
  "plan_wallets p owner now ss [] counts = ret counts"
| "plan_wallets p owner now ss (w # ws) counts =
     then_do (wallet_pass p owner now ss w counts) (\<lambda>counts'. plan_wallets p owner now ss ws counts')"

definition planner_off :: "bool \<Rightarrow> planner_summary" where
  "planner_off e = \<lparr>ps_enabled = e, ps_candidates = 0, ps_planned = 0, ps_skipped = 0\<rparr>"

definition run_auto_mint_planner :: "planner_summary planner" where
  "run_auto_mint_planner =
     then_do load_auto_mint_policy (\<lambda>policy. case policy of
         None \<Rightarrow> ret (planner_off False)
       | Some p \<Rightarrow> (case am_owner p of
             None \<Rightarrow> ret (planner_off False)
           | Some owner \<Rightarrow>
               if \<not> am_enabled p then ret (planner_off False)
               else then_do (db_read (managed_wallets_among (am_wallets p))) (\<lambda>ws.
                 if ws = [] then ret (planner_off True)
                 else then_do clock (\<lambda>now. then_do clock (\<lambda>t.
                   then_do (db_read (\<lambda>d. auto_mint_candidate_stages d (am_lookahead p) 300 t)) (\<lambda>ss.
                     then_do (plan_wallets p owner now ss ws (0, 0)) (\<lambda>counts.
                       ret \<lparr>ps_enabled = True, ps_candidates = length ss, ps_planned = fst counts,
                            ps_skipped = snd counts\<rparr>)))))))"

section \<open>Saving the policy\<close>

text \<open>The answer of the server action: whether it saved, and whether the guard refused.\<close>

datatype save_result = GuardRefused | NoWallets | Saved

definition save_auto_mint_policy_action :: "session option \<Rightarrow> js \<Rightarrow> save_result planner" where
  "save_auto_mint_policy_action ses input =
     then_do clock (\<lambda>now. case require_fresh_step_up ses ExecutionConfigure now of
         Inl _ \<Rightarrow> ret GuardRefused
       | Inr u \<Rightarrow>
           let fields = (case input of JObj kvs \<Rightarrow> kvs | _ \<Rightarrow> []);
               p = parse_auto_mint_policy (JObj ((''ownerUserId'', JStr (user_id u)) # fields))
           in if am_enabled p \<and> am_wallets p = [] then ret NoWallets
              else then_do (db_write (\<lambda>d. d\<lparr>ap_policy := Some (policy_json p)\<rparr>)) (\<lambda>_.
                   then_do (db_write (record_audit \<lparr>au_actor = user_id u, au_action = ''automint.policy_saved'',
                       au_target = None, au_success = True\<rparr>)) (\<lambda>_. ret Saved)))"

section \<open>What a pass may add\<close>

text \<open>The part of a plan that no query of the planner changes once the row is there.\<close>

type_synonym plan_terms = "string \<times> string option \<times> int \<times> string"

definition plan_terms :: "mint_plan \<Rightarrow> plan_terms" where
  "plan_terms r = (mp_wallet r, mp_stage r, mp_quantity r, mp_ceiling r)"

definition terms_of :: "planner_db \<Rightarrow> plan_terms list" where
  "terms_of d = map plan_terms (plans (ap_db d))"

text \<open>Between two states: the rows added, at most \<open>b\<close>, all \<open>good\<close>; never a third attempt; nothing executed.\<close>

definition grows :: "(plan_terms \<Rightarrow> bool) \<Rightarrow> nat \<Rightarrow> planner_db \<Rightarrow> planner_db \<Rightarrow> bool" where
  "grows good b d d' \<longleftrightarrow>
     (\<exists>new. terms_of d' = terms_of d @ new \<and> length new \<le> b \<and> list_all good new)
     \<and> (\<forall>x s. attempts_for_stage x s d' \<le> max max_attempts_per_stage (attempts_for_stage x s d))
     \<and> (\<forall>x t. executed_last_24h x t d' = executed_last_24h x t d)
     \<and> ap_policy d' = ap_policy d \<and> wallets (ap_db d') = wallets (ap_db d)"

lemma grows_refl [simp]: "grows good b d d"
  by (auto simp: grows_def)

lemma grows_trans:
  assumes "grows good b d d1" and "grows good c d1 d2"
  shows "grows good (b + c) d d2"
proof -
  obtain n1 where n1: "terms_of d1 = terms_of d @ n1" "length n1 \<le> b" "list_all good n1"
    using assms(1) by (auto simp: grows_def)
  obtain n2 where n2: "terms_of d2 = terms_of d1 @ n2" "length n2 \<le> c" "list_all good n2"
    using assms(2) by (auto simp: grows_def)
  have a: "attempts_for_stage x s d2 \<le> max max_attempts_per_stage (attempts_for_stage x s d)" for x s
  proof -
    have "attempts_for_stage x s d2 \<le> max max_attempts_per_stage (attempts_for_stage x s d1)"
      and "attempts_for_stage x s d1 \<le> max max_attempts_per_stage (attempts_for_stage x s d)"
      using assms by (simp_all add: grows_def)
    then show ?thesis by simp
  qed
  have "terms_of d2 = terms_of d @ (n1 @ n2) \<and> length (n1 @ n2) \<le> b + c \<and> list_all good (n1 @ n2)"
    using n1 n2 by simp
  then show ?thesis using a assms by (auto simp: grows_def)
qed

lemma grows_weaken: "grows good b d d' \<Longrightarrow> b \<le> c \<Longrightarrow> (\<And>t. good t \<Longrightarrow> good' t) \<Longrightarrow> grows good' c d d'"
  unfolding grows_def list_all_iff by (meson le_trans)

lemma arm_plan_grows: "grows good 0 d (snd (arm_plan_row i user mins t d))"
proof -
  let ?d = "snd (arm_plan_row i user mins t d)"
  let ?p = "\<lambda>r. mp_id r = i \<and> mp_status r = Draft"
  let ?f = "\<lambda>r. r\<lparr>mp_status := Armed, mp_armed_at := Some t, mp_armed_until := Some (t + mins * 60000),
                  mp_armed_by := Some user, mp_updated := t\<rparr>"
  have pl: "plans (ap_db ?d) = map (\<lambda>r. if ?p r then ?f r else r) (plans (ap_db d))"
    by (simp add: arm_plan_row_def arm_mint_plan_def update_plans_def update_where_def Let_def)
  have "terms_of ?d = terms_of d"
    unfolding terms_of_def pl by (simp add: plan_terms_def)
  moreover have "attempts_for_stage x s ?d = attempts_for_stage x s d" for x s
    unfolding attempts_for_stage_def pl filter_map length_map
    by (rule arg_cong[where f = length], rule filter_cong) (auto simp: for_stage_def)
  moreover have "executed_last_24h x s ?d = executed_last_24h x s d" for x s
    unfolding executed_last_24h_def pl filter_map length_map
    by (rule arg_cong[where f = length], rule filter_cong) auto
  moreover have "ap_policy ?d = ap_policy d" and "wallets (ap_db ?d) = wallets (ap_db d)"
    by (simp_all add: arm_plan_row_def arm_mint_plan_def update_plans_def Let_def)
  ultimately show ?thesis by (simp add: grows_def)
qed

lemma create_plan_grows:
  assumes "attempts_for_stage wallet stage d < max_attempts_per_stage"
    and "pi_wallet i = wallet" and "pi_stage i = Some stage"
    and "good (wallet, Some stage, case pi_quantity i of None \<Rightarrow> 1 | Some q \<Rightarrow> q, pi_ceiling i)"
  shows "grows good 1 d (snd (create_plan_row i t d))"
proof -
  let ?d = "snd (create_plan_row i t d)"
  obtain r where pl: "plans (ap_db ?d) = plans (ap_db d) @ [r]" and st: "mp_status r = Draft"
    and tm: "plan_terms r = (wallet, Some stage, case pi_quantity i of None \<Rightarrow> 1 | Some q \<Rightarrow> q, pi_ceiling i)"
    using assms(2,3) by (simp add: create_plan_row_def create_mint_plan_def plan_terms_def Let_def)
  have "terms_of ?d = terms_of d @ [plan_terms r] \<and> length [plan_terms r] \<le> 1 \<and> list_all good [plan_terms r]"
    using pl tm assms(4) by (simp add: terms_of_def)
  moreover have "attempts_for_stage x s ?d \<le> max max_attempts_per_stage (attempts_for_stage x s d)" for x s
    using pl tm assms(1) by (auto simp: attempts_for_stage_def for_stage_def plan_terms_def)
  moreover have "executed_last_24h x s ?d = executed_last_24h x s d" for x s
    using pl st by (simp add: executed_last_24h_def)
  moreover have "ap_policy ?d = ap_policy d" and "wallets (ap_db ?d) = wallets (ap_db d)"
    by (simp_all add: create_plan_row_def create_mint_plan_def Let_def)
  ultimately show ?thesis unfolding grows_def by blast
qed

text \<open>A world with given tables whose clock still shows readings from \<open>T\<close>.\<close>

definition reads :: "planner_db \<Rightarrow> int set \<Rightarrow> planner_db machine \<Rightarrow> bool" where
  "reads d T w \<longleftrightarrow> m_db w = d \<and> m_clock w \<noteq> [] \<and> set (m_clock w) \<subseteq> T"

lemma acts_at_clock: "acts (reads d T) clock (\<lambda>r w. reads d T w \<and> (\<exists>t \<in> T. r = Inr t))"
  by (rule actsI) (auto simp: reads_def clock_def split: list.splits)

lemma acts_at_call:
  "acts (reads d T) (db_call f) (\<lambda>r w. (\<exists>e. r = Inl e \<and> reads d T w) \<or> (r = Inr (fst (f d)) \<and> reads (snd (f d)) T w))"
proof (rule actsI)
  fix w r w' assume w: "reads d T w" and e: "db_call f w = (r, w')"
  show "(\<exists>e. r = Inl e \<and> reads d T w') \<or> (r = Inr (fst (f d)) \<and> reads (snd (f d)) T w')"
    using w e by (cases rule: db_call_cases[of f w]) (auto simp: reads_def)
qed

lemma acts_at_read: "acts (reads d T) (db_read f) (\<lambda>r w. reads d T w \<and> (\<forall>x. r = Inr x \<longrightarrow> x = f d))"
  unfolding db_read_def by (rule acts_post[OF acts_at_call]) auto

definition grown :: "(plan_terms \<Rightarrow> bool) \<Rightarrow> nat \<Rightarrow> planner_db \<Rightarrow> int set \<Rightarrow> planner_db machine \<Rightarrow> bool" where
  "grown good b d T w \<longleftrightarrow> (\<exists>d'. grows good b d d' \<and> reads d' T w)"

lemma grown_same: "reads d T w \<Longrightarrow> grown good b d T w"
  unfolding grown_def using grows_refl by blast

lemma acts_grown:
  "(\<And>d'. grows good b d d' \<Longrightarrow> acts (reads d' T) m Q) \<Longrightarrow> acts (grown good b d T) m Q"
  unfolding acts_def grown_def by blast

lemma grown_trans: "grows good b d d1 \<Longrightarrow> grown good c d1 T w \<Longrightarrow> b + c \<le> e \<Longrightarrow> grown good e d T w"
  unfolding grown_def by (meson grows_trans grows_weaken)

lemma acts_at_clock_then:
  "(\<And>t. t \<in> T \<Longrightarrow> acts (reads d T) (f t) Q) \<Longrightarrow> acts (reads d T) (then_do clock f) Q"
  by (rule acts_then[where R = "\<lambda>t w. reads d T w \<and> t \<in> T"], rule acts_post[OF acts_at_clock])
     (auto simp: acts_def)

lemma acts_at_read_then:
  assumes "acts (reads d T) (g (f d)) Q" and "\<And>e w. reads d T w \<Longrightarrow> Q (Inl e) w"
  shows "acts (reads d T) (then_do (db_read f) g) Q"
  by (rule acts_then[where R = "\<lambda>x w. reads d T w \<and> x = f d"], rule acts_post[OF acts_at_read])
     (use assms in \<open>auto simp: acts_def split: sum.splits\<close>)

lemma acts_at_call_then:
  assumes "acts (reads (snd (f d)) T) (g (fst (f d))) Q" and "\<And>e w. reads d T w \<Longrightarrow> Q (Inl e) w"
  shows "acts (reads d T) (then_do (db_call f) g) Q"
  by (rule acts_then[where R = "\<lambda>x w. reads (snd (f d)) T w \<and> x = fst (f d)"], rule acts_post[OF acts_at_call])
     (use assms in \<open>auto simp: acts_def split: sum.splits\<close>)

lemma audit_grows: "grows good 0 d (record_audit a d)"
  by (simp add: grows_def record_audit_def terms_of_def attempts_for_stage_def executed_last_24h_def)

lemma plan_for_wallet_grows:
  assumes "attempts_for_stage wallet (ac_stage s) d < max_attempts_per_stage"
    and "good (wallet, Some (ac_stage s), am_quantity p, ceil)"
  shows "acts (reads d T) (plan_for_wallet p owner wallet s ceil mins) (\<lambda>r. grown good 1 d T)"
proof -
  let ?i = "\<lparr>pi_project = ac_project s, pi_wallet = wallet, pi_stage = Some (ac_stage s), pi_signer = None,
             pi_quantity = Some (am_quantity p), pi_ceiling = ceil, pi_fire_at = None\<rparr>"
  have c: "grows good 1 d (snd (create_plan_row ?i t d))" for t
    by (rule create_plan_grows[OF assms(1)]) (use assms(2) in simp_all)
  have a: "grows good 1 d (snd (arm_plan_row i owner mins u (snd (create_plan_row ?i t d))))" for t u i
    using grows_trans[OF c arm_plan_grows[where good = good]] by simp
  have l: "grows good 1 d (record_audit x (snd (arm_plan_row i owner mins u (snd (create_plan_row ?i t d)))))" for t u i x
    using grows_trans[OF a audit_grows[where good = good]] by simp
  show ?thesis
    unfolding plan_for_wallet_def
  proof (rule acts_at_clock_then, rule acts_at_call_then, rule acts_at_clock_then, rule acts_at_call_then)
    fix t u
    let ?d = "snd (arm_plan_row (mp_id (fst (create_plan_row ?i t d))) owner mins u (snd (create_plan_row ?i t d)))"
    let ?x = "\<lparr>au_actor = owner, au_action = ''automint.plan_armed'',
       au_target = Some (mp_id (fst (create_plan_row ?i t d))),
       au_success = (fst (arm_plan_row (mp_id (fst (create_plan_row ?i t d))) owner mins u (snd (create_plan_row ?i t d))) \<noteq> None)\<rparr>"
    show "acts (reads ?d T) (db_write (record_audit ?x)) (\<lambda>r. grown good 1 d T)"
      unfolding db_write_def
    proof (rule acts_post[OF acts_at_call])
      fix r :: "thrown + unit" and w
      assume "(\<exists>e. r = Inl e \<and> reads ?d T w)
              \<or> (r = Inr (fst ((), record_audit ?x ?d)) \<and> reads (snd ((), record_audit ?x ?d)) T w)"
      then have "reads ?d T w \<or> reads (record_audit ?x ?d) T w" by (metis snd_conv)
      then show "grown good 1 d T w" unfolding grown_def using a l by blast
    qed
  qed (use c grown_same in \<open>auto simp: grown_def\<close>)
qed

text \<open>A plan made for wallet \<open>x\<close> out of a candidate that the decision lets through.\<close>

definition from_candidate :: "auto_mint_policy \<Rightarrow> int \<Rightarrow> candidate list \<Rightarrow> string \<Rightarrow> plan_terms \<Rightarrow> bool" where
  "from_candidate p now ss x t \<longleftrightarrow>
     (\<exists>c \<in> set ss. \<exists>ceil mins. decide_auto_mint p c now = Inr (PlanIt ceil mins)
        \<and> t = (x, Some (ac_stage c), am_quantity p, ceil))"

lemma of_js_Inr: "of_js r = Inr x \<longleftrightarrow> r = Inr x"
  by (auto simp: of_js_def split: sum.splits js_error.splits)

lemma plan_stages_grows:
  assumes "set ss \<subseteq> set all"
  shows "acts (reads d T) (plan_stages p owner x now budget planned skipped ss)
           (\<lambda>r. grown (from_candidate p now all x) (nat budget) d T)"
  using assms
proof (induction ss arbitrary: d budget planned skipped)
  case Nil
  show ?case by (simp add: acts_ret grown_same)
next
  case (Cons s ss)
  let ?good = "from_candidate p now all x"
  let ?Q = "\<lambda>r::thrown + nat \<times> nat. grown ?good (nat budget) d T"
  have IH: "acts (reads d T) (plan_stages p owner x now budget pl sk ss) ?Q" for pl sk
    by (rule Cons.IH) (use Cons.prems in simp)
  show ?case
  proof (cases "budget \<le> 0")
    case True
    then show ?thesis by (simp add: acts_ret grown_same)
  next
    case False
    have step: "acts (reads d T) (then_do (plan_for_wallet p owner x s ceil mins) (\<lambda>_.
                  plan_stages p owner x now (budget - 1) (Suc planned) skipped ss)) ?Q"
      if dec: "decide_auto_mint p s now = Inr (PlanIt ceil mins)"
        and att: "attempts_for_stage x (ac_stage s) d < max_attempts_per_stage" for ceil mins
    proof (rule acts_then[where R = "\<lambda>_. grown ?good 1 d T"])
      have g: "?good (x, Some (ac_stage s), am_quantity p, ceil)"
        using dec Cons.prems unfolding from_candidate_def by (intro bexI[of _ s]) auto
      show "acts (reads d T) (plan_for_wallet p owner x s ceil mins)
              (\<lambda>r w. case r of Inl e \<Rightarrow> ?Q (Inl e) w | Inr _ \<Rightarrow> grown ?good 1 d T w)"
      proof (rule acts_post[OF plan_for_wallet_grows[where good = ?good, OF att g]])
        fix r w assume w: "grown ?good 1 d T w"
        have "1 \<le> nat budget" using False by simp
        with w have "grown ?good (nat budget) d T w" unfolding grown_def by (meson grows_weaken)
        then show "case r of Inl e \<Rightarrow> ?Q (Inl e) w | Inr _ \<Rightarrow> grown ?good 1 d T w"
          using w by (cases r) simp_all
      qed
    next
      fix u
      show "acts (grown ?good 1 d T) (plan_stages p owner x now (budget - 1) (Suc planned) skipped ss) ?Q"
      proof (rule acts_grown)
        fix d1 assume d1: "grows ?good 1 d d1"
        have "1 + nat (budget - 1) \<le> nat budget" using False by simp
        moreover have "acts (reads d1 T) (plan_stages p owner x now (budget - 1) (Suc planned) skipped ss)
                         (\<lambda>r. grown ?good (nat (budget - 1)) d1 T)"
          by (rule Cons.IH) (use Cons.prems in simp)
        ultimately show "acts (reads d1 T) (plan_stages p owner x now (budget - 1) (Suc planned) skipped ss) ?Q"
          using grown_trans[OF d1] by (auto elim: acts_post)
      qed
    qed
    show ?thesis
      unfolding plan_stages.simps if_not_P[OF False]
    proof (rule acts_then_lift)
      fix decision assume dec: "of_js (decide_auto_mint p s now) = Inr decision"
      show "acts (reads d T) (case decision of
              NoPlan _ \<Rightarrow> plan_stages p owner x now budget planned (Suc skipped) ss
            | PlanIt ceil mins \<Rightarrow>
                then_do (db_read (blocking_plan_exists x (ac_stage s))) (\<lambda>blocked.
                  if blocked then plan_stages p owner x now budget planned skipped ss
                  else then_do (db_read (attempts_for_stage x (ac_stage s))) (\<lambda>attempts.
                    if attempts \<ge> max_attempts_per_stage
                    then plan_stages p owner x now budget planned (Suc skipped) ss
                    else then_do (plan_for_wallet p owner x s ceil mins) (\<lambda>_.
                      plan_stages p owner x now (budget - 1) (Suc planned) skipped ss)))) ?Q"
      proof (cases decision)
        case (NoPlan m)
        then show ?thesis by (simp add: IH)
      next
        case (PlanIt ceil mins)
        have "decide_auto_mint p s now = Inr (PlanIt ceil mins)" using dec PlanIt by (simp add: of_js_Inr)
        note stp = step[OF this]
        show ?thesis
          unfolding PlanIt auto_mint_decision.case
          by (rule acts_at_read_then, rule acts_if, rule IH, rule acts_at_read_then, rule acts_if, rule IH,
              rule stp) (simp_all add: grown_same)
      qed
    qed (simp add: grown_same)
  qed
qed

lemma wallet_pass_grows:
  "acts (reads d T) (wallet_pass p owner now ss w counts)
     (\<lambda>r v. \<exists>t \<in> T. grown (from_candidate p now ss (wl_id w)) (nat (am_per_day p - int (executed_last_24h (wl_id w) t d))) d T v)"
  unfolding wallet_pass_def
proof (rule acts_at_clock_then, rule acts_at_read_then)
  fix t assume t: "t \<in> T"
  show "acts (reads d T) (plan_stages p owner (wl_id w) now (am_per_day p - int (executed_last_24h (wl_id w) t d))
            (fst counts) (snd counts) ss)
          (\<lambda>r v. \<exists>t \<in> T. grown (from_candidate p now ss (wl_id w))
                             (nat (am_per_day p - int (executed_last_24h (wl_id w) t d))) d T v)"
    by (rule acts_post[OF plan_stages_grows[OF subset_refl]]) (use t in blast)
next
  fix t e v assume "t \<in> T" and "reads d T v"
  then show "\<exists>t \<in> T. grown (from_candidate p now ss (wl_id w))
                   (nat (am_per_day p - int (executed_last_24h (wl_id w) t d))) d T v"
    using grown_same by blast
qed

lemma acts_option_eq:
  "(x = None \<Longrightarrow> acts P n Q) \<Longrightarrow> (\<And>y. x = Some y \<Longrightarrow> acts P (f y) Q)
     \<Longrightarrow> acts P (case x of None \<Rightarrow> n | Some y \<Rightarrow> f y) Q"
  by (cases x) simp_all

definition made_for :: "string \<Rightarrow> plan_terms list \<Rightarrow> nat" where
  "made_for x new = length (filter (\<lambda>t. fst t = x) new)"

definition caps_kept ::
  "auto_mint_policy \<Rightarrow> int \<Rightarrow> candidate list \<Rightarrow> string set \<Rightarrow> int set \<Rightarrow> planner_db \<Rightarrow> planner_db \<Rightarrow> bool" where
  "caps_kept p now ss xs T d d' \<longleftrightarrow>
     (\<exists>new. terms_of d' = terms_of d @ new
        \<and> (\<forall>t \<in> set new. fst t \<in> xs \<and> from_candidate p now ss (fst t) t)
        \<and> (\<forall>x. \<exists>t \<in> T. int (made_for x new) \<le> max 0 (am_per_day p - int (executed_last_24h x t d))))
     \<and> (\<forall>x s. attempts_for_stage x s d' \<le> max max_attempts_per_stage (attempts_for_stage x s d))"

lemma caps_refl: "T \<noteq> {} \<Longrightarrow> caps_kept p now ss xs T d d"
  by (auto simp: caps_kept_def made_for_def)

lemma caps_mono: "caps_kept p now ss xs T d d' \<Longrightarrow> xs \<subseteq> ys \<Longrightarrow> caps_kept p now ss ys T d d'"
  unfolding caps_kept_def by blast

lemma caps_grows:
  assumes g: "grows (from_candidate p now ss x) (nat (am_per_day p - int (executed_last_24h x t d))) d d1"
    and t: "t \<in> T" and c: "caps_kept p now ss xs T d1 d2" and x: "x \<notin> xs"
  shows "caps_kept p now ss (insert x xs) T d d2"
proof -
  let ?b = "nat (am_per_day p - int (executed_last_24h x t d))"
  obtain n1 where n1: "terms_of d1 = terms_of d @ n1" "length n1 \<le> ?b" "list_all (from_candidate p now ss x) n1"
    using g by (auto simp: grows_def)
  obtain n2 where n2: "terms_of d2 = terms_of d1 @ n2"
      "\<And>t. t \<in> set n2 \<Longrightarrow> fst t \<in> xs \<and> from_candidate p now ss (fst t) t"
      "\<And>y. \<exists>u \<in> T. int (made_for y n2) \<le> max 0 (am_per_day p - int (executed_last_24h y u d1))"
    using c unfolding caps_kept_def by blast
  have ex: "executed_last_24h y u d1 = executed_last_24h y u d" for y u using g by (simp add: grows_def)
  have f1: "fst t = x" if "t \<in> set n1" for t
    using n1(3) that by (auto simp: list_all_iff from_candidate_def)
  have m1: "made_for y n1 = (if y = x then length n1 else 0)" for y
  proof (cases "y = x")
    case True
    then show ?thesis using f1 by (simp add: made_for_def)
  next
    case False
    then have "filter (\<lambda>t. fst t = y) n1 = []" using f1 by (auto simp: filter_empty_conv)
    then show ?thesis using False by (simp add: made_for_def)
  qed
  have "filter (\<lambda>t. fst t = x) n2 = []" using n2(2) x by (auto simp: filter_empty_conv)
  then have m2: "made_for x n2 = 0" by (simp add: made_for_def)
  have "\<exists>u \<in> T. int (made_for y (n1 @ n2)) \<le> max 0 (am_per_day p - int (executed_last_24h y u d))" for y
  proof (cases "y = x")
    case True
    have s: "made_for x (n1 @ n2) = length n1" using m1[of x] m2 by (simp add: made_for_def)
    have "int (made_for x (n1 @ n2)) \<le> max 0 (am_per_day p - int (executed_last_24h x t d))"
      unfolding s using n1(2) by linarith
    then show ?thesis using t True by (intro bexI[of _ t]) auto
  next
    case False
    then have "made_for y (n1 @ n2) = made_for y n2" using m1[of y] by (simp add: made_for_def)
    then show ?thesis using n2(3)[of y] by (simp add: ex)
  qed
  moreover have "fst u \<in> insert x xs \<and> from_candidate p now ss (fst u) u" if "u \<in> set (n1 @ n2)" for u
    using that n2(2)[of u] n1(3) f1[of u] by (auto simp: list_all_iff)
  moreover have "terms_of d2 = terms_of d @ (n1 @ n2)" using n1 n2 by simp
  ultimately have "\<exists>new. terms_of d2 = terms_of d @ new
        \<and> (\<forall>u \<in> set new. fst u \<in> insert x xs \<and> from_candidate p now ss (fst u) u)
        \<and> (\<forall>y. \<exists>u \<in> T. int (made_for y new) \<le> max 0 (am_per_day p - int (executed_last_24h y u d)))"
    by blast
  moreover have "attempts_for_stage y s d2 \<le> max max_attempts_per_stage (attempts_for_stage y s d)" for y s
  proof -
    have "attempts_for_stage y s d2 \<le> max max_attempts_per_stage (attempts_for_stage y s d1)"
      using c by (simp add: caps_kept_def)
    moreover have "attempts_for_stage y s d1 \<le> max max_attempts_per_stage (attempts_for_stage y s d)"
      using g by (simp add: grows_def)
    ultimately show ?thesis by simp
  qed
  ultimately show ?thesis unfolding caps_kept_def by blast
qed

lemma plan_wallets_caps:
  assumes "distinct (map wl_id ws)" and "T \<noteq> {}"
  shows "acts (reads d T) (plan_wallets p owner now ss ws counts)
           (\<lambda>r v. \<exists>d'. reads d' T v \<and> caps_kept p now ss (set (map wl_id ws)) T d d')"
  using assms(1)
proof (induction ws arbitrary: d counts)
  case Nil
  show ?case unfolding plan_wallets.simps by (rule acts_ret) (use caps_refl[OF assms(2)] in auto)
next
  case (Cons w ws)
  let ?Q = "\<lambda>(r::thrown + nat \<times> nat) v. \<exists>d'. reads d' T v \<and> caps_kept p now ss (set (map wl_id (w # ws))) T d d'"
  let ?G = "\<lambda>v. \<exists>t \<in> T. grown (from_candidate p now ss (wl_id w))
                    (nat (am_per_day p - int (executed_last_24h (wl_id w) t d))) d T v"
  have nw: "wl_id w \<notin> set (map wl_id ws)" using Cons.prems by simp
  show ?case
    unfolding plan_wallets.simps
  proof (rule acts_then[where R = "\<lambda>_. ?G"])
    show "acts (reads d T) (wallet_pass p owner now ss w counts)
            (\<lambda>r v. case r of Inl e \<Rightarrow> ?Q (Inl e) v | Inr _ \<Rightarrow> ?G v)"
    proof (rule acts_post[OF wallet_pass_grows])
      fix r :: "thrown + nat \<times> nat" and v assume g: "?G v"
      then obtain t d' where "t \<in> T" "reads d' T v"
          and "grows (from_candidate p now ss (wl_id w)) (nat (am_per_day p - int (executed_last_24h (wl_id w) t d))) d d'"
        unfolding grown_def by blast
      then have "?Q r v" using caps_grows[OF _ _ caps_refl[OF assms(2)] nw] by auto
      with g show "case r of Inl e \<Rightarrow> ?Q (Inl e) v | Inr _ \<Rightarrow> ?G v" by (cases r) simp_all
    qed
  next
    fix counts'
    show "acts ?G (plan_wallets p owner now ss ws counts') ?Q"
    proof (rule actsI)
      fix v r v' assume "?G v" and e: "plan_wallets p owner now ss ws counts' v = (r, v')"
      then obtain t d1 where t: "t \<in> T" and v: "reads d1 T v"
          and g: "grows (from_candidate p now ss (wl_id w)) (nat (am_per_day p - int (executed_last_24h (wl_id w) t d))) d d1"
        unfolding grown_def by blast
      have "acts (reads d1 T) (plan_wallets p owner now ss ws counts')
              (\<lambda>r v. \<exists>d'. reads d' T v \<and> caps_kept p now ss (set (map wl_id ws)) T d1 d')"
        by (rule Cons.IH) (use Cons.prems in simp)
      from actsD[OF this v e] obtain d' where "reads d' T v'" "caps_kept p now ss (set (map wl_id ws)) T d1 d'"
        by blast
      then show "?Q r v'" using caps_grows[OF g t _ nw] by auto
    qed
  qed
qed

text \<open>
C11. A pass of the planner, whatever database call fails in it and however its clock advances, either leaves the
plans alone or acts for an enabled policy with an owner, and then: every plan it adds is for a wallet
the policy lists that is enabled and has a sealed key, for a candidate stage the decision let through, with
the decided ceiling and the policy's quantity; each wallet gets at most its daily cap less what it executed in
the last 24 hours; and no wallet gets a third plan for one stage.
\<close>

theorem planner_keeps_caps:
  assumes "run_auto_mint_planner w = (r, w')" and "m_clock w \<noteq> []"
    and "distinct (map wl_id (wallets (ap_db (m_db w))))"
  shows "m_db w' = m_db w
         \<or> (\<exists>v. ap_policy (m_db w) = Some v \<and>
              (let p = parse_auto_mint_policy v; T = set (m_clock w) in
               am_enabled p \<and> am_owner p \<noteq> None \<and>
               (\<exists>now \<in> T. \<exists>t \<in> T.
                  caps_kept p now (auto_mint_candidate_stages (m_db w) (am_lookahead p) 300 t)
                    (set (map wl_id (managed_wallets_among (am_wallets p) (m_db w)))) T (m_db w) (m_db w'))))"
proof -
  let ?d = "m_db w" and ?T = "set (m_clock w)"
  let ?Q = "\<lambda>(r::thrown + planner_summary) v. m_db v = ?d
         \<or> (\<exists>x. ap_policy ?d = Some x \<and>
              (let p = parse_auto_mint_policy x in
               am_enabled p \<and> am_owner p \<noteq> None \<and>
               (\<exists>now \<in> ?T. \<exists>t \<in> ?T.
                  caps_kept p now (auto_mint_candidate_stages ?d (am_lookahead p) 300 t)
                    (set (map wl_id (managed_wallets_among (am_wallets p) ?d))) ?T ?d (m_db v))))"
  have T: "?T \<noteq> {}" using assms(2) by simp
  have same: "?Q r v" if "reads ?d ?T v" for r v using that by (simp add: reads_def)
  have off: "acts (reads ?d ?T) (ret (planner_off b)) ?Q" for b by (rule acts_ret) (rule same)
  have body: "acts (reads ?d ?T)
      (then_do clock (\<lambda>now. then_do clock (\<lambda>t.
         then_do (db_read (\<lambda>d. auto_mint_candidate_stages d (am_lookahead p) 300 t)) (\<lambda>ss.
           then_do (plan_wallets p owner now ss (managed_wallets_among (am_wallets p) ?d) (0, 0)) (\<lambda>counts.
             ret \<lparr>ps_enabled = True, ps_candidates = length ss, ps_planned = fst counts, ps_skipped = snd counts\<rparr>))))) ?Q"
    if p: "p = parse_auto_mint_policy x" and x: "ap_policy ?d = Some x" and on: "am_enabled p" "am_owner p = Some owner"
    for p x owner
  proof (rule acts_at_clock_then, rule acts_at_clock_then, rule acts_at_read_then)
    fix now t assume nt: "now \<in> ?T" "t \<in> ?T"
    let ?ss = "auto_mint_candidate_stages ?d (am_lookahead p) 300 t"
    let ?ws = "managed_wallets_among (am_wallets p) ?d"
    have "distinct (map wl_id ?ws)"
      using assms(3) by (simp add: managed_wallets_among_def distinct_map_filter)
    note pw = plan_wallets_caps[OF this T, of ?d p owner now ?ss "(0, 0)"]
    have q: "?Q r v" if "\<exists>d'. reads d' ?T v \<and> caps_kept p now ?ss (set (map wl_id ?ws)) ?T ?d d'" for r v
      using that nt p x on by (auto simp: reads_def Let_def)
    show "acts (reads ?d ?T) (then_do (plan_wallets p owner now ?ss ?ws (0, 0)) (\<lambda>counts.
            ret \<lparr>ps_enabled = True, ps_candidates = length ?ss, ps_planned = fst counts, ps_skipped = snd counts\<rparr>)) ?Q"
      by (rule acts_then[where R = "\<lambda>_ v. \<exists>d'. reads d' ?T v \<and> caps_kept p now ?ss (set (map wl_id ?ws)) ?T ?d d'"],
          rule acts_post[OF pw]) (use q in \<open>auto intro!: acts_ret split: sum.splits\<close>)
  qed (rule same)
  have "acts (reads ?d ?T) run_auto_mint_planner ?Q"
    unfolding run_auto_mint_planner_def load_auto_mint_policy_def
  proof (rule acts_at_read_then, rule acts_option_eq, rule off, rule acts_option_eq, rule off, rule acts_if, rule off,
         rule acts_at_read_then, rule acts_if, rule off)
    fix p owner
    assume e: "map_option parse_auto_mint_policy (ap_policy ?d) = Some p" and o: "am_owner p = Some owner"
       and on: "\<not> \<not> am_enabled p"
    then obtain x where x: "ap_policy ?d = Some x" "p = parse_auto_mint_policy x" by auto
    show "acts (reads ?d ?T)
      (then_do clock (\<lambda>now. then_do clock (\<lambda>t.
         then_do (db_read (\<lambda>d. auto_mint_candidate_stages d (am_lookahead p) 300 t)) (\<lambda>ss.
           then_do (plan_wallets p owner now ss (managed_wallets_among (am_wallets p) ?d) (0, 0)) (\<lambda>counts.
             ret \<lparr>ps_enabled = True, ps_candidates = length ss, ps_planned = fst counts, ps_skipped = snd counts\<rparr>))))) ?Q"
      by (rule body[OF x(2,1) _ o]) (use on in simp)
  qed (rule same, assumption)+
  moreover have "reads ?d ?T w" using assms(2) by (simp add: reads_def)
  ultimately have "?Q r w'" using assms(1) by (rule actsD)
  then show ?thesis by (simp add: Let_def)
qed

definition demo_policy :: auto_mint_policy where
  "demo_policy = default_policy\<lparr>am_enabled := True, am_wallets := [''00000000-0000-0000-0000-000000000001''],
     am_per_day := 1, am_owner := Some ''owner''\<rparr>"

definition demo_drop :: "string \<Rightarrow> int \<Rightarrow> drop_stage" where
  "demo_drop i starts = \<lparr>ds_id = i, ds_project = ''p'', ds_label = ''Public'', ds_type = Public, ds_price = None,
     ds_currency = None, ds_max_per_wallet = None, ds_starts = starts, ds_paused = False\<rparr>"

definition demo_tables :: "drop_stage list \<Rightarrow> planner_db" where
  "demo_tables ss = \<lparr>ap_db = \<lparr>plans = [], attempts = [], signers = [], stages = ss,
       wallets = [\<lparr>wl_id = ''00000000-0000-0000-0000-000000000001'', wl_address = ''0xa'', wl_label = None,
                   wl_enabled = True, wl_key = Some ''sealed'', wl_balance = None\<rparr>],
       projects = [\<lparr>pr_id = ''p'', pr_name = ''P'', pr_slug = Some ''p'', pr_contract = None, pr_chain = 1\<rparr>],
       events = []\<rparr>,
     ap_policy = Some (policy_json demo_policy), ap_ends = (\<lambda>_. None), ap_life = (\<lambda>_. NEXT), ap_signals = [],
     ap_evidence = [(''p'', ''drops:upcoming'')], ap_mints = [], ap_audit = [], ap_uuid = show_nat, ap_drawn = 0\<rparr>"

definition demo_world :: "drop_stage list \<Rightarrow> planner_db machine" where
  "demo_world ss = \<lparr>m_db = demo_tables ss, m_clock = [0], m_faults = []\<rparr>"

lemma demo_policy_ok: "policy_ok demo_policy"
  by code_simp

lemma demo_parse: "parse_auto_mint_policy (policy_json demo_policy) = demo_policy"
  by (rule policy_round[OF demo_policy_ok])

definition demo_candidate :: "string \<Rightarrow> int \<Rightarrow> candidate" where
  "demo_candidate i starts = \<lparr>ac_project = ''p'', ac_name = ''P'', ac_stage = i, ac_kind = Public, ac_price = None,
     ac_starts = starts, ac_ends = None, ac_paused = False, ac_risk = None, ac_hype = None, ac_curated = True,
     ac_minters = 0\<rparr>"

lemma digit_chars: "char_of (48::nat) = CHR ''0''" "char_of (49::nat) = CHR ''1''"
  by code_simp+

lemma demo_ceiling: "mint_spend_ceiling_wei (Some (show_int 0)) 1 = ''100000000000000''"
  by (simp add: mint_spend_ceiling_wei_def mint_fee_allowance_def is_decimal_def is_digit_def code_of_def dec_val_def
      digit_val_def show_int_def show_nat.simps digit_char_def digit_chars)

lemma big_int_zero: "big_int ''0'' = Inr 0"
  by code_simp

lemma demo_decides:
  assumes "0 < t" and "t \<le> 86400000"
  shows "decide_auto_mint demo_policy (demo_candidate i t) 0 = Inr (PlanIt ''100000000000000'' 1440)"
  using assms
  by (simp add: decide_auto_mint_def demo_policy_def default_policy_def demo_candidate_def big_int_zero rbind_def
      demand_refusal_def demo_ceiling arm_minutes_def ceil_div_def)

text \<open>Two drops, \<open>s\<close> and \<open>t\<close>, both free and public.\<close>

abbreviation (input) demo_drops :: "drop_stage list" where
  "demo_drops \<equiv> [demo_drop ''s'' 1000, demo_drop ''t'' 2000]"

abbreviation (input) burner :: string where
  "burner \<equiv> ''00000000-0000-0000-0000-000000000001''"

lemma demo_fields:
  "ap_policy (demo_tables ss) = Some (policy_json demo_policy)"
  "plans (ap_db (demo_tables ss)) = []" "ap_uuid (demo_tables ss) = show_nat" "ap_drawn (demo_tables ss) = 0"
  "m_db (demo_world ss) = demo_tables ss" "m_clock (demo_world ss) = [0]" "m_faults (demo_world ss) = []"
  by (simp_all add: demo_tables_def demo_world_def)

lemma demo_candidates:
  assumes "stages (ap_db d) = demo_drops" and "projects (ap_db d) = projects (ap_db (demo_tables []))"
    and "ap_ends d = (\<lambda>_. None)" and "ap_life d = (\<lambda>_. NEXT)" and "ap_signals d = []" and "ap_mints d = []"
    and "ap_evidence d = ap_evidence (demo_tables [])"
  shows "auto_mint_candidate_stages d 24 300 0 = [demo_candidate ''s'' 1000, demo_candidate ''t'' 2000]"
  using assms
  by (simp add: auto_mint_candidate_stages_def candidate_of_def demo_tables_def demo_drop_def demo_candidate_def
      latest_score_def first_row_def unique_minters_1h_def starts_with_def sort_desc_def)

lemmas demo_eval = run_auto_mint_planner_def load_auto_mint_policy_def db_read_def db_write_def db_call_def
  clock_def then_do_def wallet_pass_def plan_for_wallet_def lift_sum_def of_js_def ret_def

lemma demo_policy_fields:
  "am_enabled demo_policy" "am_owner demo_policy = Some ''owner''" "am_lookahead demo_policy = 24"
  "am_wallets demo_policy = [burner]" "am_per_day demo_policy = 1" "am_quantity demo_policy = 1"
  by (simp_all add: demo_policy_def default_policy_def)

lemma demo_candidate_stage: "ac_stage (demo_candidate i t) = i" "ac_project (demo_candidate i t) = ''p''"
  by (simp_all add: demo_candidate_def)

definition demo_armed :: "string \<Rightarrow> string \<Rightarrow> mint_plan" where
  "demo_armed i stage = \<lparr>mp_id = i, mp_project = ''p'', mp_stage = Some stage, mp_fire_at = None, mp_signer = None,
     mp_wallet = burner, mp_quantity = 1, mp_ceiling = ''100000000000000'', mp_status = Armed, mp_armed_at = Some 0,
     mp_armed_until = Some 86400000, mp_armed_by = Some ''owner'', mp_cached_tx = None, mp_cached_at = None,
     mp_raw = None, mp_nonce = None, mp_hash = None, mp_presigned_at = None, mp_created = 0, mp_updated = 0\<rparr>"

definition demo_audit :: "string \<Rightarrow> audit_row" where
  "demo_audit i = \<lparr>au_actor = ''owner'', au_action = ''automint.plan_armed'', au_target = Some i, au_success = True\<rparr>"

definition demo_wallet :: wallet where
  "demo_wallet = \<lparr>wl_id = burner, wl_address = ''0xa'', wl_label = None, wl_enabled = True, wl_key = Some ''sealed'',
     wl_balance = None\<rparr>"

text \<open>The tables with the plans the planner has made so far.\<close>

definition demo_with :: "mint_plan list \<Rightarrow> planner_db" where
  "demo_with ps = (demo_tables demo_drops)\<lparr>ap_db := (ap_db (demo_tables demo_drops))\<lparr>plans := ps\<rparr>,
     ap_drawn := length ps, ap_audit := map (\<lambda>r. demo_audit (mp_id r)) ps\<rparr>"

lemma demo_with_start: "demo_tables demo_drops = demo_with []"
  by (simp add: demo_with_def demo_tables_def)

lemma demo_with_fields:
  "ap_policy (demo_with ps) = Some (policy_json demo_policy)" "plans (ap_db (demo_with ps)) = ps"
  "ap_uuid (demo_with ps) = show_nat" "ap_drawn (demo_with ps) = length ps"
  "managed_wallets_among [burner] (demo_with ps) = [demo_wallet]" "wl_id demo_wallet = burner"
  by (simp_all add: demo_with_def demo_tables_def managed_wallets_among_def demo_wallet_def)

lemma demo_with_candidates:
  "auto_mint_candidate_stages (demo_with ps) 24 300 0 = [demo_candidate ''s'' 1000, demo_candidate ''t'' 2000]"
  by (rule demo_candidates) (simp_all add: demo_with_def demo_tables_def)

lemmas demo_facts = demo_eval demo_fields demo_with_start demo_parse demo_policy_fields demo_candidate_stage
  demo_with_fields demo_with_candidates demo_decides

definition demo_machine :: "mint_plan list \<Rightarrow> planner_db machine" where
  "demo_machine ps = \<lparr>m_db = demo_with ps, m_clock = [0], m_faults = []\<rparr>"

lemmas demo_queries = create_plan_row_def create_mint_plan_def arm_plan_row_def arm_mint_plan_def update_plans_def
  record_audit_def Let_def executed_last_24h_def blocking_plan_exists_def attempts_for_stage_def for_stage_def
  max_attempts_per_stage_def returned_def first_row_def

lemma demo_ids: "show_nat 0 = ''0''" "show_nat (Suc 0) = ''1''"
  by (simp_all add: show_nat.simps digit_char_def digit_chars)

lemma first_pass: "run_auto_mint_planner (demo_machine []) =
    (Inr \<lparr>ps_enabled = True, ps_candidates = 2, ps_planned = 1, ps_skipped = 0\<rparr>, demo_machine [demo_armed ''0'' ''s''])"
  by (simp add: demo_facts demo_queries demo_machine_def demo_ids)
     (simp add: demo_with_def demo_tables_def demo_armed_def demo_audit_def)

lemma second_pass: "run_auto_mint_planner (demo_machine [demo_armed ''0'' ''s'']) =
    (Inr \<lparr>ps_enabled = True, ps_candidates = 2, ps_planned = 1, ps_skipped = 0\<rparr>,
     demo_machine [demo_armed ''0'' ''s'', demo_armed ''1'' ''t''])"
  by (simp add: demo_facts demo_queries demo_machine_def demo_ids demo_armed_def)
     (simp add: demo_with_def demo_tables_def demo_armed_def demo_audit_def)

lemma planner_keeps_caps_witness:
  "terms_of (m_db (snd (run_auto_mint_planner (demo_machine [])))) = [(burner, Some ''s'', 1, ''100000000000000'')]
   \<and> caps_kept demo_policy 0 [demo_candidate ''s'' 1000, demo_candidate ''t'' 2000] {burner} {0}
       (demo_with []) (m_db (snd (run_auto_mint_planner (demo_machine []))))"
proof -
  have w: "m_db (demo_machine []) = demo_with []" "m_clock (demo_machine []) = [0]"
    and m: "m_db (demo_machine [demo_armed ''0'' ''s'']) = demo_with [demo_armed ''0'' ''s'']"
    by (simp_all add: demo_machine_def)
  have n: "demo_with [demo_armed ''0'' ''s''] \<noteq> demo_with []"
    using demo_with_fields(2) by (metis not_Cons_self2)
  have d: "distinct (map wl_id (wallets (ap_db (demo_with []))))"
    by (simp add: demo_with_def demo_tables_def)
  have "caps_kept demo_policy 0 [demo_candidate ''s'' 1000, demo_candidate ''t'' 2000] {burner} {0}
       (demo_with []) (demo_with [demo_armed ''0'' ''s''])"
    using planner_keeps_caps[OF first_pass] n d
    by (simp add: w m demo_with_fields demo_parse demo_policy_fields demo_with_candidates Let_def)
  moreover have "terms_of (demo_with [demo_armed ''0'' ''s'']) = [(burner, Some ''s'', 1, ''100000000000000'')]"
    by (simp add: terms_of_def demo_with_fields plan_terms_def demo_armed_def)
  ultimately show ?thesis by (simp add: first_pass m)
qed

lemma arm_window_reaches_open_iff_witness:
  "decide_auto_mint demo_policy (demo_candidate ''s'' 1000) 0 = Inr (PlanIt ''100000000000000'' 1440)
   \<and> ac_starts (demo_candidate ''s'' 1000) \<le> 0 + 1440 * 60000"
proof -
  have e: "\<forall>t. ac_ends (demo_candidate ''s'' 1000) = Some t \<longrightarrow> ac_starts (demo_candidate ''s'' 1000) \<le> t"
    and st: "ac_starts (demo_candidate ''s'' 1000) = 1000"
    by (simp_all add: demo_candidate_def)
  have d: "decide_auto_mint demo_policy (demo_candidate ''s'' 1000) 0 = Inr (PlanIt ''100000000000000'' 1440)"
    by (rule demo_decides) simp_all
  have "ac_starts (demo_candidate ''s'' 1000) \<le> 0 + 1440 * 60000" using arm_window_reaches_open_iff[OF d e] st by simp
  with d show ?thesis by blast
qed

text \<open>
. The daily cap holds within one pass only. The policy allows one mint per wallet and day; while the first
pass's plan is armed and not yet executed, the next pass counts no executed plan and arms a second one on the same
wallet, for the next drop.
\<close>

theorem daily_cap_spent_twice:
  "am_per_day (parse_auto_mint_policy (policy_json demo_policy)) = 1
   \<and> (let w1 = snd (run_auto_mint_planner (demo_machine [])); w2 = snd (run_auto_mint_planner w1) in
      map (\<lambda>r. (mp_wallet r, mp_status r, mp_stage r)) (plans (ap_db (m_db w2)))
        = [(burner, Armed, Some ''s''), (burner, Armed, Some ''t'')])"
  by (simp add: demo_parse demo_policy_fields first_pass second_pass Let_def)
     (simp add: demo_machine_def demo_with_fields demo_armed_def)

end
