(* ===== verification/Pacing.thy ===== *)
theory Pacing
  imports JsValues Errors "HOL-Library.Word"
begin

text \<open>
  How the program rations itself: the hourly read quota (\<open>packages/core/src/quota.ts\<close>), the write window of
  the speculative builds (\<open>write-quota.ts\<close>), the per-minute token buckets that every OpenSea client of
  the process shares (\<open>packages/providers/src/opensea/rate-limiter.ts\<close>), and the scheduler of the periodic
  tasks (\<open>apps/worker/src/scheduler.ts\<close>). Fractions are doubles, so the bound on the requests a bucket grants
  carries the rounding error. \<open>metered\<close> is the interface of a component that pays for what it grants out of a
  potential; the bucket and the write window are instances of it.
\<close>

section \<open>The hourly quota\<close>

record quota_state =
  qt_limit :: int
  qt_remaining :: "int option"
  qt_reset :: "int option"
  qt_reserve :: int

datatype quota_reason = QuotaOk | UnknownRemaining | ReserveReached | Exhausted | ResetInPast

record quota_decision =
  qd_allowed :: int
  qd_blocked :: bool
  qd_reason :: quota_reason

definition allowed_requests :: "quota_state \<Rightarrow> int \<Rightarrow> quota_decision" where
  "allowed_requests q window_seconds =
     (let reserve_fraction = ddiv (of_int (qt_reserve q)) 100;
          effective = \<lfloor>dmul (of_int (qt_limit q)) (dsub 1 reserve_fraction)\<rfloor>;
          per_window = max 1 \<lfloor>ddiv (dmul (of_int effective) (of_int window_seconds)) 3600\<rfloor>
      in case qt_remaining q of
           None \<Rightarrow> \<lparr>qd_allowed = per_window, qd_blocked = False, qd_reason = UnknownRemaining\<rparr>
         | Some r \<Rightarrow>
             if r \<le> 0 then \<lparr>qd_allowed = 0, qd_blocked = True, qd_reason = Exhausted\<rparr>
             else if r \<le> \<lfloor>dmul (of_int (qt_limit q)) reserve_fraction\<rfloor>
             then \<lparr>qd_allowed = 0, qd_blocked = True, qd_reason = ReserveReached\<rparr>
             else \<lparr>qd_allowed = min r per_window, qd_blocked = False, qd_reason = QuotaOk\<rparr>)"

definition discovery_base_reads :: "string list \<Rightarrow> nat" where
  "discovery_base_reads feeds = length feeds"

definition estimated_hourly_reads :: "int \<Rightarrow> int \<Rightarrow> int option \<Rightarrow> int" where
  "estimated_hourly_reads interval_seconds candidates base_calls =
     (let base = (case base_calls of None \<Rightarrow> 3 | Some b \<Rightarrow> b)
      in math_round (dmul (of_int (base + candidates)) (ddiv 3600 (of_int interval_seconds))))"

type_synonym headers = "string \<Rightarrow> string option"

fun pick_header :: "headers \<Rightarrow> string list \<Rightarrow> string option" where
  "pick_header h [] = None"
| "pick_header h (n # ns) =
     (case h n of Some v \<Rightarrow> if trim v \<noteq> [] then Some (trim v) else pick_header h ns | None \<Rightarrow> pick_header h ns)"

definition header_int :: "string option \<Rightarrow> int option" where
  "header_int raw = (case raw of None \<Rightarrow> None | Some s \<Rightarrow> map_option math_trunc (parse_int_prefix s))"

text \<open>\<open>/^[0-9.]+s$/\<close>.\<close>

definition is_duration :: "string \<Rightarrow> bool" where
  "is_duration s \<longleftrightarrow> length s \<ge> 2 \<and> last s = CHR ''s'' \<and> list_all (\<lambda>c. is_digit c \<or> c = CHR ''.'') (butlast s)"

record rate_headers =
  rh_remaining :: "int option"
  rh_limit :: "int option"
  rh_reset :: "int option"

definition parse_rate_limit_headers :: "headers \<Rightarrow> int \<Rightarrow> rate_headers" where
  "parse_rate_limit_headers h now =
     (let reset_raw = pick_header h [''x-ratelimit-reset'', ''x-ratelimit-reset-requests'', ''x-ratelimit-reset-after'']
      in \<lparr>rh_remaining = header_int (pick_header h [''x-ratelimit-remaining'', ''x-ratelimit-remaining-requests'']),
          rh_limit = header_int (pick_header h [''x-ratelimit-limit'', ''x-ratelimit-limit-requests'']),
          rh_reset = (case (header_int reset_raw, reset_raw) of
              (Some n, Some raw) \<Rightarrow>
                Some (if is_duration (trim raw) then now div 1000 + \<lceil>parse_decimal_prefix raw\<rceil> else n)
            | _ \<Rightarrow> None)\<rparr>)"

lemma blocked_iff:
  "qd_blocked (allowed_requests q s) \<longleftrightarrow>
     (\<exists>r. qt_remaining q = Some r \<and> (r \<le> 0 \<or> r \<le> \<lfloor>dmul (of_int (qt_limit q)) (ddiv (of_int (qt_reserve q)) 100)\<rfloor>))"
  by (auto simp: allowed_requests_def Let_def split: option.split)

lemma allowed_within: "qt_remaining q = Some r \<Longrightarrow> qd_allowed (allowed_requests q s) \<le> max 0 r"
  by (simp add: allowed_requests_def Let_def)

lemma allowed_positive: "\<not> qd_blocked (allowed_requests q s) \<Longrightarrow> 1 \<le> qd_allowed (allowed_requests q s)"
  by (auto simp: allowed_requests_def Let_def split: option.splits if_splits)

section \<open>Metered components\<close>

text \<open>Steps that grant some number of requests, and the total over a run.\<close>

fun run_total :: "('e \<Rightarrow> 's \<Rightarrow> nat \<times> 's) \<Rightarrow> 'e list \<Rightarrow> 's \<Rightarrow> nat \<times> 's" where
  "run_total step [] s = (0, s)"
| "run_total step (e # es) s = (let (n, s') = step e s; (m, s'') = run_total step es s' in (n + m, s''))"

text \<open>A step pays for its grants out of the potential of the state and what the event supplies.\<close>

locale metered =
  fixes step :: "'e \<Rightarrow> 's \<Rightarrow> nat \<times> 's" and fine :: "'e \<Rightarrow> 's \<Rightarrow> bool"
    and pot :: "'s \<Rightarrow> rat" and income :: "'e \<Rightarrow> rat"
  assumes pays: "fine e s \<Longrightarrow> of_nat (fst (step e s)) + pot (snd (step e s)) \<le> pot s + income e"
begin

fun all_fine :: "'e list \<Rightarrow> 's \<Rightarrow> bool" where
  "all_fine [] s \<longleftrightarrow> True"
| "all_fine (e # es) s \<longleftrightarrow> fine e s \<and> all_fine es (snd (step e s))"

lemma total_paid:
  "all_fine es s \<Longrightarrow>
     of_nat (fst (run_total step es s)) + pot (snd (run_total step es s)) \<le> pot s + sum_list (map income es)"
proof (induction es arbitrary: s)
  case (Cons e es)
  have "of_nat (fst (step e s)) + pot (snd (step e s)) \<le> pot s + income e"
    using Cons.prems by (intro pays) simp
  moreover have "of_nat (fst (run_total step es (snd (step e s)))) + pot (snd (run_total step es (snd (step e s))))
      \<le> pot (snd (step e s)) + sum_list (map income es)"
    using Cons.prems by (intro Cons.IH) simp
  ultimately show ?case by (simp add: split_beta Let_def)
qed simp

lemma total_bound:
  assumes "all_fine es s" and "0 \<le> pot (snd (run_total step es s))"
  shows "of_nat (fst (run_total step es s)) \<le> pot s + sum_list (map income es)"
  using total_paid[OF assms(1)] assms(2) by linarith

end

section \<open>The write window\<close>

record write_window =
  ww_start :: int
  ww_count :: int

definition hour_ms :: int where "hour_ms = 60 * 60 * 1000"

definition current_write_quota_window :: "write_window option \<Rightarrow> int \<Rightarrow> write_window" where
  "current_write_quota_window stored now =
     (case stored of
        None \<Rightarrow> \<lparr>ww_start = now, ww_count = 0\<rparr>
      | Some w \<Rightarrow> if now - ww_start w \<ge> hour_ms then \<lparr>ww_start = now, ww_count = 0\<rparr> else w)"

definition default_cap_fraction :: rat where "default_cap_fraction = fl (8 / 10)"

definition should_attempt_speculative_write :: "write_window \<Rightarrow> int \<Rightarrow> rat \<Rightarrow> bool" where
  "should_attempt_speculative_write w max_per_hour cap_fraction \<longleftrightarrow>
     ww_count w < \<lfloor>dmul (of_int max_per_hour) cap_fraction\<rfloor>"

definition record_write_quota_call :: "write_window \<Rightarrow> write_window" where
  "record_write_quota_call w = w\<lparr>ww_count := ww_count w + 1\<rparr>"

text \<open>A guarded call at a time: the window is rolled, the guard asked, the call recorded.\<close>

definition write_call :: "int \<Rightarrow> rat \<Rightarrow> int \<Rightarrow> write_window \<Rightarrow> nat \<times> write_window" where
  "write_call max_per_hour cap now w =
     (let w1 = current_write_quota_window (Some w) now
      in if should_attempt_speculative_write w1 max_per_hour cap then (1, record_write_quota_call w1) else (0, w1))"

definition write_cap :: "int \<Rightarrow> rat \<Rightarrow> int" where
  "write_cap max_per_hour cap = \<lfloor>dmul (of_int max_per_hour) cap\<rfloor>"

lemma attempt_iff: "should_attempt_speculative_write w m c \<longleftrightarrow> ww_count w < write_cap m c"
  by (simp add: should_attempt_speculative_write_def write_cap_def)

text \<open>The calls left in the window, and the windows still to come until \<open>T\<close>.\<close>

definition write_pot :: "int \<Rightarrow> int \<Rightarrow> write_window \<Rightarrow> rat" where
  "write_pot cap T w = of_int (cap - ww_count w) + of_int cap * (of_int (T - ww_start w) / of_int hour_ms)"

definition write_fine :: "int \<Rightarrow> int \<Rightarrow> int \<Rightarrow> write_window \<Rightarrow> bool" where
  "write_fine cap T now w \<longleftrightarrow> 0 \<le> ww_count w \<and> ww_count w \<le> cap \<and> now \<le> T"

lemma write_pays:
  assumes "write_fine (write_cap m c) T now w"
  shows "of_nat (fst (write_call m c now w)) + write_pot (write_cap m c) T (snd (write_call m c now w))
           \<le> write_pot (write_cap m c) T w + 0"
proof -
  let ?cap = "write_cap m c" and ?w = "current_write_quota_window (Some w) now"
  have roll: "write_pot ?cap T ?w \<le> write_pot ?cap T w"
  proof (cases "now - ww_start w \<ge> hour_ms")
    case True
    have "(1::rat) \<le> of_int (now - ww_start w) / of_int hour_ms"
      using True by (simp add: hour_ms_def)
    then have "(of_int ?cap :: rat) \<le> of_int ?cap * (of_int (now - ww_start w) / of_int hour_ms)"
      using assms mult_left_mono[of 1 "of_int (now - ww_start w) / of_int hour_ms" "of_int ?cap :: rat"]
      by (simp add: write_fine_def)
    moreover have "(of_int (T - ww_start w) :: rat) / of_int hour_ms
        = of_int (T - now) / of_int hour_ms + of_int (now - ww_start w) / of_int hour_ms"
      by (simp add: add_divide_distrib[symmetric])
    moreover have "(of_int (ww_count w) :: rat) \<le> of_int ?cap" using assms by (simp add: write_fine_def)
    ultimately have "(of_int (ww_count w) :: rat) \<le> of_int ?cap * (of_int (now - ww_start w) / of_int hour_ms)"
      and e: "(of_int (T - ww_start w) :: rat) / of_int hour_ms
        = of_int (T - now) / of_int hour_ms + of_int (now - ww_start w) / of_int hour_ms"
      by (simp_all only: order_trans)
    then show ?thesis
      using True unfolding write_pot_def e
      by (simp add: current_write_quota_window_def distrib_left del: of_int_diff)
  next
    case False
    then show ?thesis by (simp add: current_write_quota_window_def)
  qed
  show ?thesis
  proof (cases "should_attempt_speculative_write ?w m c")
    case True
    have "write_pot ?cap T (record_write_quota_call ?w) = write_pot ?cap T ?w - 1"
      by (simp add: write_pot_def record_write_quota_call_def)
    then show ?thesis using roll True by (simp add: write_call_def Let_def)
  next
    case False
    then show ?thesis using roll by (simp add: write_call_def Let_def)
  qed
qed

interpretation write_window: metered "write_call m c" "write_fine (write_cap m c) T" "write_pot (write_cap m c) T" "\<lambda>_. 0"
  by unfold_locales (rule write_pays)

lemma write_call_count:
  assumes "0 \<le> ww_count w" and "ww_count w \<le> write_cap m c"
  shows "0 \<le> ww_count (snd (write_call m c now w)) \<and> ww_count (snd (write_call m c now w)) \<le> write_cap m c"
  using assms
  by (auto simp: write_call_def current_write_quota_window_def attempt_iff record_write_quota_call_def Let_def)

lemma write_run_count:
  assumes "0 \<le> ww_count w" and "ww_count w \<le> write_cap m c"
  shows "0 \<le> ww_count (snd (run_total (write_call m c) ts w)) \<and> ww_count (snd (run_total (write_call m c) ts w)) \<le> write_cap m c"
  using assms
proof (induction ts arbitrary: w)
  case (Cons t ts)
  have "0 \<le> ww_count (snd (run_total (write_call m c) ts (snd (write_call m c t w))))
      \<and> ww_count (snd (run_total (write_call m c) ts (snd (write_call m c t w)))) \<le> write_cap m c"
    using write_call_count[OF Cons.prems, of t] by (intro Cons.IH) simp_all
  then show ?case by (simp add: split_beta Let_def)
qed simp

lemma write_all_fine:
  assumes "0 \<le> ww_count w" and "ww_count w \<le> write_cap m c" and "\<forall>t \<in> set ts. t \<le> T"
  shows "write_window.all_fine m c T ts w"
  using assms
proof (induction ts arbitrary: w)
  case (Cons t ts)
  have "write_window.all_fine m c T ts (snd (write_call m c t w))"
    using write_call_count[OF Cons.prems(1,2), of t] Cons.prems(3) by (intro Cons.IH) simp_all
  moreover have "write_fine (write_cap m c) T t w" using Cons.prems by (simp add: write_fine_def)
  ultimately show ?case by simp
qed simp

lemma write_cap_default: "write_cap 30 default_cap_fraction = 24"
  by code_simp

text \<open>
. However the speculative calls are timed, those the guard lets through between the start of a window and a time
\<open>T\<close> are at most 24 per hour of that period plus 24: 30 an hour at the default fraction 0.8 (whose double
product with 30 is not below 24).
\<close>

theorem speculative_writes_bounded:
  assumes "0 \<le> ww_count w" and "ww_count w \<le> 24" and "\<forall>t \<in> set ts. t \<le> T" and "ww_start w \<le> T"
  shows "rat_of_nat (fst (run_total (write_call 30 default_cap_fraction) ts w))
           \<le> 24 * (of_int (T - ww_start w) / of_int hour_ms) + 24 - of_int (ww_count w)"
proof -
  let ?w = "snd (run_total (write_call 30 default_cap_fraction) ts w)"
  have c: "ww_count w \<le> write_cap 30 default_cap_fraction" using assms(2) by (simp add: write_cap_default)
  have f: "write_window.all_fine 30 default_cap_fraction T ts w"
    by (rule write_all_fine[OF assms(1) c assms(3)])
  have st: "ww_start (snd (run_total (write_call 30 default_cap_fraction) us v)) \<le> T"
    if "\<forall>t \<in> set us. t \<le> T" and "ww_start v \<le> T" for us v
    using that
  proof (induction us arbitrary: v)
    case (Cons u us)
    have "ww_start (snd (write_call 30 default_cap_fraction u v)) \<le> T"
      using Cons.prems by (auto simp: write_call_def current_write_quota_window_def record_write_quota_call_def Let_def)
    then show ?case using Cons.prems Cons.IH by (simp add: split_beta Let_def)
  qed simp
  have "0 \<le> write_pot 24 T ?w"
    using write_run_count[OF assms(1) c, of ts] st[OF assms(3,4)]
    by (simp add: write_pot_def write_cap_default hour_ms_def)
  then have "rat_of_nat (fst (run_total (write_call 30 default_cap_fraction) ts w)) \<le> write_pot 24 T w + 0"
    using write_window.total_bound[OF f] by (simp add: write_cap_default)
  then show ?thesis by (simp add: write_pot_def)
qed

definition demo_window :: write_window where "demo_window = \<lparr>ww_start = 0, ww_count = 23\<rparr>"

lemma speculative_writes_bounded_witness:
  "rat_of_nat (fst (run_total (write_call 30 default_cap_fraction) [0, 1000, 3600000] demo_window))
     \<le> 24 * (of_int (3600000 - ww_start demo_window) / of_int hour_ms) + 24 - of_int (ww_count demo_window)
   \<and> fst (run_total (write_call 30 default_cap_fraction) [0, 1000, 3600000] demo_window) = 2"
proof
  have "0 \<le> ww_count demo_window" and "ww_count demo_window \<le> 24" and "ww_start demo_window \<le> 3600000"
    by (simp_all add: demo_window_def)
  moreover have "\<forall>t \<in> set [0, 1000, 3600000]. t \<le> (3600000::int)" by simp
  ultimately show "rat_of_nat (fst (run_total (write_call 30 default_cap_fraction) [0, 1000, 3600000] demo_window))
     \<le> 24 * (of_int (3600000 - ww_start demo_window) / of_int hour_ms) + 24 - of_int (ww_count demo_window)"
    by (intro speculative_writes_bounded)
  show "fst (run_total (write_call 30 default_cap_fraction) [0, 1000, 3600000] demo_window) = 2"
    by code_simp
qed

section \<open>The rounding error of a double\<close>

lemma half_even_upper: "(of_int (half_even x) :: rat) \<le> x + 1"
proof -
  have "half_even x \<le> \<lfloor>x\<rfloor> + 1" using half_even_bounds by blast
  then have "(of_int (half_even x) :: rat) \<le> of_int (\<lfloor>x\<rfloor> + 1)" by (simp only: of_int_le_iff)
  also have "\<dots> \<le> x + 1" by simp
  finally show ?thesis .
qed

definition min_double :: rat where "min_double = 2 powi (- 1074)"

lemma min_double_tiny: "min_double \<le> 1 / 2 ^ 52" and min_double_pos: "0 < min_double"
proof -
  have "(2::rat) powi (- 1074) \<le> 2 powi (- 52)" by (rule powi2_le_iff[THEN iffD2]) simp
  moreover have "(2::rat) powi (- 52) = 1 / 2 ^ 52" by (simp add: power_int_def power_one_over)
  ultimately show "min_double \<le> 1 / 2 ^ 52" unfolding min_double_def by (rule ord_le_eq_trans)
  show "0 < min_double" unfolding min_double_def by (rule powi2_pos)
qed

lemma fl_upper:
  assumes "0 \<le> x"
  shows "fl x \<le> x + x / 2 ^ 52 + min_double"
proof (cases "x = 0")
  case True
  then show ?thesis using min_double_pos by simp
next
  case False
  with assms have x: "0 < x" by simp
  let ?u = "(2::rat) powi dbl_exp x"
  have "fl x = of_int (half_even (x / ?u)) * ?u" using x by (simp add: fl_def fl_pos_def)
  also have "\<dots> \<le> (x / ?u + 1) * ?u" by (intro mult_right_mono half_even_upper) simp
  also have "\<dots> = x + ?u" by (simp add: distrib_right)
  also have "?u \<le> x / 2 ^ 52 + min_double"
  proof (cases "bin_exp x \<le> - 1074")
    case True
    then have "dbl_exp x = - 1074" by (simp add: dbl_exp_def)
    then show ?thesis using x by (simp add: min_double_def)
  next
    case False
    then have "dbl_exp x = bin_exp x" by (simp add: dbl_exp_def)
    then have "?u \<le> x / 2 ^ 52" using bin_exp_spec(1)[OF x] by (simp add: field_simps)
    with min_double_pos show ?thesis by linarith
  qed
  finally show ?thesis by simp
qed

section \<open>The token buckets\<close>

text \<open>
  The buckets are objects that \<open>acquire\<close> keeps a reference to; the map \<open>buckets\<close> gives a key's current object. A
  new object is made when a key is new or is asked for with another rate.
\<close>

record bucket =
  bk_tokens :: rat
  bk_capacity :: int
  bk_refill :: rat
  bk_last :: int
  bk_waiters :: int

record pacer =
  px_table :: "string \<Rightarrow> nat option"
  px_objs :: "bucket list"

definition default_per_minute :: int where "default_per_minute = 100"

definition new_bucket :: "int \<Rightarrow> int \<Rightarrow> bucket" where
  "new_bucket per_minute now = \<lparr>bk_tokens = of_int per_minute, bk_capacity = per_minute,
     bk_refill = ddiv (of_int per_minute) 60000, bk_last = now, bk_waiters = 0\<rparr>"

definition bucket_for :: "string \<Rightarrow> int \<Rightarrow> int \<Rightarrow> pacer \<Rightarrow> nat \<times> pacer" where
  "bucket_for key per_minute now st =
     (case px_table st key of
        Some i \<Rightarrow>
          if i < length (px_objs st) \<and> bk_capacity (px_objs st ! i) = per_minute then (i, st)
          else (length (px_objs st), st\<lparr>px_table := (px_table st)(key \<mapsto> length (px_objs st)),
                                        px_objs := px_objs st @ [new_bucket per_minute now]\<rparr>)
      | None \<Rightarrow> (length (px_objs st), st\<lparr>px_table := (px_table st)(key \<mapsto> length (px_objs st)),
                                         px_objs := px_objs st @ [new_bucket per_minute now]\<rparr>))"

definition refill :: "int \<Rightarrow> bucket \<Rightarrow> bucket" where
  "refill now b =
     (let elapsed = max 0 (now - bk_last b)
      in b\<lparr>bk_tokens := min (of_int (bk_capacity b)) (dadd (bk_tokens b) (dmul (of_int elapsed) (bk_refill b))),
           bk_last := now\<rparr>)"

definition wait_ms_for_token :: "int \<Rightarrow> bucket \<Rightarrow> int \<times> bucket" where
  "wait_ms_for_token now b =
     (let b' = refill now b
      in (if bk_tokens b' \<ge> 1 then 0 else \<lceil>ddiv (dsub 1 (bk_tokens b')) (bk_refill b')\<rceil>, b'))"

definition put_bucket :: "nat \<Rightarrow> bucket \<Rightarrow> pacer \<Rightarrow> pacer" where
  "put_bucket i b st = st\<lparr>px_objs := (px_objs st)[i := b]\<rparr>"

text \<open>The choice of a key: the first with the most tokens, less the callers queued on it.\<close>

fun pick_from :: "int \<Rightarrow> int \<Rightarrow> string list \<Rightarrow> string \<times> rat option \<Rightarrow> pacer \<Rightarrow> string \<times> pacer" where
  "pick_from per_minute now [] best st = (fst best, st)"
| "pick_from per_minute now (k # ks) best st =
     (let (i, st1) = bucket_for k per_minute now st;
          b = refill now (px_objs st1 ! i);
          st2 = put_bucket i b st1;
          effective = dsub (bk_tokens b) (of_int (bk_waiters b))
      in pick_from per_minute now ks
           (if (case snd best of None \<Rightarrow> True | Some m \<Rightarrow> effective > m) then (k, Some effective) else best) st2)"

definition pick_key :: "string list \<Rightarrow> int \<Rightarrow> int \<Rightarrow> pacer \<Rightarrow> string \<times> pacer" where
  "pick_key keys per_minute now st = pick_from per_minute now keys (hd keys, None) st"

text \<open>\<open>acquire\<close>: the entry, one round of its loop (granted or not), and \<open>penalize\<close>.\<close>

definition acquire_enter :: "string \<Rightarrow> int \<Rightarrow> int \<Rightarrow> pacer \<Rightarrow> nat \<times> pacer" where
  "acquire_enter key per_minute now st =
     (let (i, st') = bucket_for key per_minute now st; b = px_objs st' ! i
      in (i, put_bucket i (b\<lparr>bk_waiters := bk_waiters b + 1\<rparr>) st'))"

definition acquire_round :: "nat \<Rightarrow> int \<Rightarrow> pacer \<Rightarrow> int \<times> pacer" where
  "acquire_round i now st =
     (let (w, b) = wait_ms_for_token now (px_objs st ! i)
      in if w = 0
         then (0, put_bucket i (b\<lparr>bk_tokens := dsub (bk_tokens b) 1, bk_waiters := bk_waiters b - 1\<rparr>) st)
         else (w, put_bucket i b st))"

definition penalize :: "string \<Rightarrow> int \<Rightarrow> int \<Rightarrow> int \<Rightarrow> pacer \<Rightarrow> pacer" where
  "penalize key retry_secs per_minute now st =
     (let (i, st') = bucket_for key per_minute now st; b = px_objs st' ! i
      in put_bucket i (b\<lparr>bk_tokens := min (bk_tokens b) (dmul (of_int (- retry_secs * 1000)) (bk_refill b)),
                         bk_last := now\<rparr>) st')"

datatype pace_event =
    Enter string int int
  | Round nat int
  | Penalty string int int int
  | Pick "string list" int int

text \<open>What an event grants on the object \<open>i\<close>.\<close>

fun pace_step :: "nat \<Rightarrow> pace_event \<Rightarrow> pacer \<Rightarrow> nat \<times> pacer" where
  "pace_step i (Enter k pm now) st = (0, snd (acquire_enter k pm now st))"
| "pace_step i (Round j now) st =
     (let (w, st') = acquire_round j now st in (if i = j \<and> w = 0 then 1 else 0, st'))"
| "pace_step i (Penalty k s pm now) st = (0, penalize k s pm now st)"
| "pace_step i (Pick ks pm now) st = (0, snd (pick_key ks pm now st))"

fun pace_time :: "pace_event \<Rightarrow> int" where
  "pace_time (Enter k pm now) = now"
| "pace_time (Round j now) = now"
| "pace_time (Penalty k s pm now) = now"
| "pace_time (Pick ks pm now) = now"

section \<open>A bucket pays for its grants\<close>

definition bucket_fine :: "int \<Rightarrow> rat \<Rightarrow> bucket \<Rightarrow> bool" where
  "bucket_fine c r b \<longleftrightarrow> bk_capacity b = c \<and> bk_refill b = r \<and> 1 \<le> c \<and> c \<le> 2 ^ 20 \<and> 0 < r \<and> r \<le> 2 ^ 20
     \<and> bk_tokens b \<le> of_int c"

text \<open>The tokens in hand, and those still to flow in until \<open>T\<close>; the slack covers the rounding of one operation.\<close>

definition bucket_pot :: "int \<Rightarrow> rat \<Rightarrow> bucket \<Rightarrow> rat" where
  "bucket_pot T r b = max 0 (bk_tokens b) + r * (1 + 1 / 2 ^ 50) * of_int (T - bk_last b)"

definition slack :: "int \<Rightarrow> rat" where "slack c = of_int c / 2 ^ 49"

lemma fl_upper_cap:
  assumes "0 \<le> x" and "x \<le> of_int c" and "1 \<le> c"
  shows "fl x \<le> x + 2 * of_int c / 2 ^ 52"
proof -
  have "x / 2 ^ 52 \<le> of_int c / 2 ^ 52" using assms(2) by (rule divide_right_mono) simp
  moreover have "(1::rat) / 2 ^ 52 \<le> of_int c / 2 ^ 52" using assms(3) by (intro divide_right_mono) simp_all
  ultimately show ?thesis using fl_upper[OF assms(1)] min_double_tiny by (simp add: add_divide_distrib)
qed

lemma refilled_upper:
  assumes t: "t \<le> of_int c" and c: "1 \<le> c" and p: "0 \<le> p"
  shows "max 0 (dadd t (fl p)) \<le> max 0 t + p * (1 + 1 / 2 ^ 50) + slack c"
proof (cases "t + fl p \<le> 0")
  case True
  then have "dadd t (fl p) \<le> 0" using fl_mono[of "t + fl p" 0] by (simp add: dadd_def)
  moreover have "0 \<le> max 0 t + p * (1 + 1 / 2 ^ 50) + slack c"
    using p c by (simp add: slack_def)
  ultimately show ?thesis by simp
next
  case False
  note d = min_double_tiny
  have m: "fl p \<le> p + p / 2 ^ 52 + min_double" by (rule fl_upper[OF p])
  have s: "dadd t (fl p) \<le> (t + fl p) + (t + fl p) / 2 ^ 52 + min_double"
    unfolding dadd_def by (rule fl_upper) (use False in simp)
  have c1: "(1::rat) \<le> of_int c" using c by simp
  have mt: "t \<le> max 0 t" by simp
  have "dadd t (fl p) \<le> max 0 t + p * (1 + 1 / 2 ^ 50) + slack c"
    using m s t c1 d p mt unfolding slack_def by (simp add: field_simps)
  moreover have "0 \<le> max 0 t + p * (1 + 1 / 2 ^ 50) + slack c" using p c by (simp add: slack_def)
  ultimately show ?thesis by simp
qed

lemma shift_le: "a = b + c \<Longrightarrow> x' \<le> x + b + s \<Longrightarrow> x' + c \<le> x + a + (s::rat)"
  by linarith

lemma refill_pays:
  assumes b: "bucket_fine c r b" and now: "bk_last b \<le> now"
  shows "bucket_fine c r (refill now b) \<and> bk_last (refill now b) = now
         \<and> bucket_pot T r (refill now b) \<le> bucket_pot T r b + slack c"
proof -
  let ?e = "now - bk_last b"
  have r: "0 < r" and c: "1 \<le> c" and t: "bk_tokens b \<le> of_int c" using b by (simp_all add: bucket_fine_def)
  have p: "0 \<le> of_int ?e * r" using r now by simp
  have tk: "bk_tokens (refill now b) = min (of_int c) (dadd (bk_tokens b) (fl (of_int ?e * r)))"
    using b now by (simp add: refill_def bucket_fine_def dmul_def Let_def)
  have "max 0 (bk_tokens (refill now b)) \<le> max 0 (dadd (bk_tokens b) (fl (of_int ?e * r)))" unfolding tk by simp
  also have "\<dots> \<le> max 0 (bk_tokens b) + of_int ?e * r * (1 + 1 / 2 ^ 50) + slack c"
    by (rule refilled_upper[OF t c p])
  finally have u: "max 0 (bk_tokens (refill now b)) \<le> max 0 (bk_tokens b) + of_int ?e * r * (1 + 1 / 2 ^ 50) + slack c" .
  have l: "bk_last (refill now b) = now" by (simp add: refill_def Let_def)
  have "r * k * of_int (T - bk_last b) = of_int ?e * r * k + r * k * of_int (T - now)" for k
    by (simp add: algebra_simps)
  from shift_le[OF this u] have "bucket_pot T r (refill now b) \<le> bucket_pot T r b + slack c"
    unfolding bucket_pot_def l .
  moreover have "bucket_fine c r (refill now b)"
    using b tk by (simp add: bucket_fine_def refill_def Let_def)
  ultimately show ?thesis using l by simp
qed

lemma fl_small: "fl (1 / 2 ^ 50) = 1 / 2 ^ 50" "fl (1 / 2 ^ 70) = 1 / 2 ^ 70"
  by code_simp+

text \<open>A round that need not wait has a whole token, up to rounding.\<close>

lemma no_wait:
  assumes b: "bucket_fine c r b" and w: "fst (wait_ms_for_token now b) = 0"
  shows "1 - 1 / 2 ^ 50 \<le> bk_tokens (refill now b)"
proof (rule ccontr)
  assume "\<not> ?thesis"
  then have t: "1 / 2 ^ 50 \<le> 1 - bk_tokens (refill now b)" and lt: "bk_tokens (refill now b) < 1"
    by (simp_all add: not_le)
  have r: "0 < r" "r \<le> 2 ^ 20" "bk_refill (refill now b) = r" using b by (simp_all add: bucket_fine_def refill_def Let_def)
  have "1 / 2 ^ 50 \<le> dsub 1 (bk_tokens (refill now b))" using fl_mono[OF t] unfolding dsub_def fl_small(1) .
  then have "(1 / 2 ^ 50) / r \<le> dsub 1 (bk_tokens (refill now b)) / r" using r by (intro divide_right_mono) simp_all
  moreover have "(1::rat) / 2 ^ 70 \<le> (1 / 2 ^ 50) / r" using r by (simp add: field_simps)
  ultimately have "1 / 2 ^ 70 \<le> dsub 1 (bk_tokens (refill now b)) / r" by (rule order_trans[rotated])
  then have "fl (1 / 2 ^ 70) \<le> ddiv (dsub 1 (bk_tokens (refill now b))) r" unfolding ddiv_def by (rule fl_mono)
  moreover have "(0::rat) < fl (1 / 2 ^ 70)" unfolding fl_small(2) by simp
  ultimately have "0 < ddiv (dsub 1 (bk_tokens (refill now b))) r" by linarith
  then have "0 < \<lceil>ddiv (dsub 1 (bk_tokens (refill now b))) r\<rceil>" by simp
  with w lt r(3) show False by (simp add: wait_ms_for_token_def Let_def)
qed

text \<open>A grant takes one token.\<close>

lemma grant_pays:
  assumes b: "bucket_fine c r b" and t: "1 - 1 / 2 ^ 50 \<le> bk_tokens b"
  shows "bucket_fine c r (b\<lparr>bk_tokens := dsub (bk_tokens b) 1, bk_waiters := n\<rparr>)
         \<and> 1 + bucket_pot T r (b\<lparr>bk_tokens := dsub (bk_tokens b) 1, bk_waiters := n\<rparr>) \<le> bucket_pot T r b + slack c"
proof -
  let ?t = "bk_tokens b"
  have c: "1 \<le> c" "c \<le> 2 ^ 20" "?t \<le> of_int c" using b by (simp_all add: bucket_fine_def)
  have k: "(1::rat) / 2 ^ 50 \<le> slack c" "2 * of_int c / 2 ^ 52 \<le> slack c" using c(1) by (simp_all add: slack_def field_simps)
  have "1 + max 0 (dsub ?t 1) \<le> max 0 ?t + slack c"
  proof (cases "?t \<le> 1")
    case True
    then have "dsub ?t 1 \<le> 0" using fl_mono[of "?t - 1" 0] by (simp add: dsub_def)
    moreover have "1 \<le> max 0 ?t + slack c" using t k(1) by (simp add: max_def)
    ultimately show ?thesis by simp
  next
    case False
    then have "dsub ?t 1 \<le> (?t - 1) + 2 * of_int c / 2 ^ 52"
      unfolding dsub_def using c by (intro fl_upper_cap) simp_all
    with k(2) have "dsub ?t 1 \<le> ?t - 1 + slack c" by linarith
    moreover have "0 \<le> slack c" using c(1) by (simp add: slack_def)
    ultimately show ?thesis using False by (simp add: max_def)
  qed
  then have "1 + bucket_pot T r (b\<lparr>bk_tokens := dsub ?t 1, bk_waiters := n\<rparr>) \<le> bucket_pot T r b + slack c"
    by (simp add: bucket_pot_def)
  moreover have "dsub ?t 1 \<le> of_int c"
    unfolding dsub_def by (rule fl_le_int) (use c in simp_all)
  ultimately show ?thesis using b by (simp add: bucket_fine_def)
qed

lemma penalty_pays:
  assumes b: "bucket_fine c r b" and now: "bk_last b \<le> now"
  shows "bucket_fine c r (b\<lparr>bk_tokens := min (bk_tokens b) x, bk_last := now\<rparr>)
         \<and> bucket_pot T r (b\<lparr>bk_tokens := min (bk_tokens b) x, bk_last := now\<rparr>) \<le> bucket_pot T r b"
proof -
  have "0 \<le> r * (1 + 1 / 2 ^ 50)" using b by (simp add: bucket_fine_def)
  then have "r * (1 + 1 / 2 ^ 50) * of_int (T - now) \<le> r * (1 + 1 / 2 ^ 50) * of_int (T - bk_last b)"
    using now by (intro mult_left_mono) simp_all
  moreover have "max 0 (min (bk_tokens b) x) \<le> max 0 (bk_tokens b)" by simp
  ultimately have "max 0 (min (bk_tokens b) x) + r * (1 + 1 / 2 ^ 50) * of_int (T - now) \<le> bucket_pot T r b"
    unfolding bucket_pot_def by (intro add_mono)
  moreover have "bucket_pot T r (b\<lparr>bk_tokens := min (bk_tokens b) x, bk_last := now\<rparr>)
      = max 0 (min (bk_tokens b) x) + r * (1 + 1 / 2 ^ 50) * of_int (T - now)"
    by (simp add: bucket_pot_def)
  ultimately have "bucket_pot T r (b\<lparr>bk_tokens := min (bk_tokens b) x, bk_last := now\<rparr>) \<le> bucket_pot T r b" by simp
  moreover have "min (bk_tokens b) x \<le> of_int c" using b by (simp add: bucket_fine_def min.coboundedI1)
  ultimately show ?thesis using b by (simp add: bucket_fine_def)
qed

text \<open>What an event may do to the object \<open>i\<close>: \<open>n\<close> grants, paid out of the potential and \<open>s\<close>.\<close>

definition obj_step :: "nat \<Rightarrow> int \<Rightarrow> rat \<Rightarrow> int \<Rightarrow> int \<Rightarrow> nat \<Rightarrow> rat \<Rightarrow> pacer \<Rightarrow> pacer \<Rightarrow> bool" where
  "obj_step i c r T now n s st st' \<longleftrightarrow>
     i < length (px_objs st') \<and> bucket_fine c r (px_objs st' ! i) \<and> bk_last (px_objs st' ! i) \<le> now
     \<and> of_nat n + bucket_pot T r (px_objs st' ! i) \<le> bucket_pot T r (px_objs st ! i) + s"

definition obj_fine :: "nat \<Rightarrow> int \<Rightarrow> rat \<Rightarrow> int \<Rightarrow> pacer \<Rightarrow> bool" where
  "obj_fine i c r now st \<longleftrightarrow>
     i < length (px_objs st) \<and> bucket_fine c r (px_objs st ! i) \<and> bk_last (px_objs st ! i) \<le> now"

lemma slack_nonneg: "1 \<le> c \<Longrightarrow> 0 \<le> slack c"
  by (simp add: slack_def)

lemma bucket_for_keeps:
  assumes "i < length (px_objs st)"
  shows "i < length (px_objs (snd (bucket_for k pm now st))) \<and> px_objs (snd (bucket_for k pm now st)) ! i = px_objs st ! i"
  using assms by (auto simp: bucket_for_def nth_append split: option.split)

lemma pot_waiters [simp]:
  "bucket_pot T r (b\<lparr>bk_waiters := n\<rparr>) = bucket_pot T r b" "bucket_fine c r (b\<lparr>bk_waiters := n\<rparr>) = bucket_fine c r b"
  by (simp_all add: bucket_pot_def bucket_fine_def)

lemma enter_step:
  assumes "obj_fine i c r now st"
  shows "obj_step i c r T now 0 0 st (snd (acquire_enter k pm now st))"
proof -
  obtain j st1 where b: "bucket_for k pm now st = (j, st1)" by fastforce
  have "i < length (px_objs st1)" "px_objs st1 ! i = px_objs st ! i"
    using bucket_for_keeps[of i st k pm now] assms by (simp_all add: b obj_fine_def)
  then show ?thesis
    using assms by (cases "i = j") (simp_all add: acquire_enter_def b put_bucket_def obj_step_def obj_fine_def Let_def)
qed

lemma penalty_step:
  assumes "obj_fine i c r now st"
  shows "obj_step i c r T now 0 0 st (penalize k s pm now st)"
proof -
  obtain j st1 where b: "bucket_for k pm now st = (j, st1)" by fastforce
  have o: "i < length (px_objs st1)" "px_objs st1 ! i = px_objs st ! i"
    using bucket_for_keeps[of i st k pm now] assms by (simp_all add: b obj_fine_def)
  have f: "bucket_fine c r (px_objs st ! i)" "bk_last (px_objs st ! i) \<le> now" using assms by (simp_all add: obj_fine_def)
  show ?thesis
    using assms o penalty_pays[OF f]
    by (cases "i = j") (simp_all add: penalize_def b put_bucket_def obj_step_def obj_fine_def Let_def)
qed

lemma round_step:
  assumes f: "obj_fine i c r now st" and e: "acquire_round j now st = (w, st')"
  shows "obj_step i c r T now (if i = j \<and> w = 0 then 1 else 0) (2 * slack c) st st'"
proof -
  let ?b = "px_objs st ! i"
  have b: "bucket_fine c r ?b" "bk_last ?b \<le> now" and i: "i < length (px_objs st)"
    using f by (simp_all add: obj_fine_def)
  have c: "0 \<le> slack c" using b(1) by (intro slack_nonneg) (simp add: bucket_fine_def)
  note rp = refill_pays[OF b, of T]
  show ?thesis
  proof (cases "i = j")
    case False
    then show ?thesis
      using e i b c by (auto simp: acquire_round_def put_bucket_def obj_step_def split: prod.splits if_splits)
  next
    case True
    have s: "snd (wait_ms_for_token now ?b) = refill now ?b" by (simp add: wait_ms_for_token_def Let_def)
    show ?thesis
    proof (cases "fst (wait_ms_for_token now ?b) = 0")
      case False
      then have st': "st' = put_bucket i (refill now ?b) st" and w: "w \<noteq> 0"
        using e True s by (auto simp: acquire_round_def split_beta Let_def split: if_splits)
      show ?thesis using rp i c w by (simp add: st' put_bucket_def obj_step_def)
    next
      case w: True
      let ?g = "(refill now ?b)\<lparr>bk_tokens := dsub (bk_tokens (refill now ?b)) 1, bk_waiters := bk_waiters (refill now ?b) - 1\<rparr>"
      have st': "st' = put_bucket i ?g st" and w0: "w = 0"
        using e True s w by (auto simp: acquire_round_def split_beta Let_def split: if_splits)
      have g: "bucket_fine c r ?g \<and> 1 + bucket_pot T r ?g \<le> bucket_pot T r (refill now ?b) + slack c"
        by (rule grant_pays) (use rp no_wait[OF b(1) w] in simp_all)
      then show ?thesis using rp i c w0 True by (simp add: st' put_bucket_def obj_step_def)
    qed
  qed
qed

lemma obj_step_trans:
  "obj_step i c r T now n s st st1 \<Longrightarrow> obj_step i c r T now m u st1 st2 \<Longrightarrow> obj_step i c r T now (n + m) (s + u) st st2"
  by (simp add: obj_step_def)

lemma pick_step:
  assumes "obj_fine i c r now st"
  shows "obj_step i c r T now 0 (of_nat (length ks) * slack c) st (snd (pick_from pm now ks best st))"
  using assms
proof (induction ks arbitrary: best st)
  case Nil
  then show ?case by (simp add: obj_step_def obj_fine_def)
next
  case (Cons k ks)
  let ?b = "px_objs st ! i"
  obtain j st1 where b: "bucket_for k pm now st = (j, st1)" by fastforce
  let ?st2 = "put_bucket j (refill now (px_objs st1 ! j)) st1"
  have o: "i < length (px_objs st1)" "px_objs st1 ! i = ?b"
    using bucket_for_keeps[of i st k pm now] Cons.prems by (simp_all add: b obj_fine_def)
  have f: "bucket_fine c r ?b" "bk_last ?b \<le> now" using Cons.prems by (simp_all add: obj_fine_def)
  have c: "0 \<le> slack c" using f(1) by (intro slack_nonneg) (simp add: bucket_fine_def)
  have one: "obj_step i c r T now 0 (slack c) st ?st2"
    using o f c refill_pays[OF f, of T] by (cases "i = j") (simp_all add: put_bucket_def obj_step_def)
  then have "obj_fine i c r now ?st2" by (simp add: obj_step_def obj_fine_def)
  note IH = Cons.IH[OF this]
  have "of_nat (length (k # ks)) * slack c = slack c + of_nat (length ks) * slack c" by (simp add: distrib_right)
  then show ?case using obj_step_trans[OF one IH] by (simp add: b Let_def)
qed

fun pace_ops :: "pace_event \<Rightarrow> nat" where
  "pace_ops (Enter k pm now) = 0"
| "pace_ops (Round j now) = 2"
| "pace_ops (Penalty k s pm now) = 0"
| "pace_ops (Pick ks pm now) = length ks"

definition pace_fine :: "nat \<Rightarrow> int \<Rightarrow> rat \<Rightarrow> pace_event \<Rightarrow> pacer \<Rightarrow> bool" where
  "pace_fine i c r e st = obj_fine i c r (pace_time e) st"

definition pace_pot :: "nat \<Rightarrow> rat \<Rightarrow> int \<Rightarrow> pacer \<Rightarrow> rat" where
  "pace_pot i r T st = bucket_pot T r (px_objs st ! i)"

definition pace_income :: "int \<Rightarrow> pace_event \<Rightarrow> rat" where
  "pace_income c e = of_nat (pace_ops e) * slack c"

lemma pace_obj_step:
  assumes "obj_fine i c r (pace_time e) st"
  shows "obj_step i c r T (pace_time e) (fst (pace_step i e st)) (pace_income c e) st (snd (pace_step i e st))"
proof (cases e)
  case (Enter k pm now)
  then show ?thesis using assms enter_step[of i c r now st T k pm] by (simp add: pace_income_def)
next
  case (Round j now)
  obtain w st' where a: "acquire_round j now st = (w, st')" by fastforce
  show ?thesis using round_step[OF _ a, of i c r T] assms Round by (simp add: pace_income_def a)
next
  case (Penalty k s pm now)
  then show ?thesis using assms penalty_step[of i c r now st T k s pm] by (simp add: pace_income_def)
next
  case (Pick ks pm now)
  then show ?thesis using assms pick_step[of i c r now st T ks pm "(hd ks, None)"] by (simp add: pace_income_def pick_key_def)
qed

interpretation token_bucket: metered "pace_step i" "pace_fine i c r" "pace_pot i r T" "pace_income c"
  by unfold_locales
     (use pace_obj_step in \<open>simp add: pace_fine_def pace_pot_def obj_step_def\<close>)

text \<open>Along events in time order the object stays fine.\<close>

lemma pace_run_fine:
  assumes "obj_fine i c r t st" and "sorted (t # map pace_time es)"
  shows "token_bucket.all_fine i c r es st \<and> obj_fine i c r (last (t # map pace_time es)) (snd (run_total (pace_step i) es st))"
  using assms
proof (induction es arbitrary: st t)
  case Nil
  then show ?case by simp
next
  case (Cons e es)
  have f: "obj_fine i c r (pace_time e) st" using Cons.prems by (auto simp: obj_fine_def)
  have f': "obj_fine i c r (pace_time e) (snd (pace_step i e st))"
    using pace_obj_step[OF f] by (simp add: obj_step_def obj_fine_def)
  have "sorted (pace_time e # map pace_time es)" using Cons.prems(2) by simp
  moreover have "pace_fine i c r e st" using f by (simp add: pace_fine_def)
  ultimately show ?case using Cons.IH[OF f'] by (simp add: split_beta Let_def)
qed

text \<open>
. Whatever loops share the buckets, and however they enter, wait, choose keys and are penalised by the provider: a
bucket that starts with \<open>t0\<close> tokens lets through, over events in time order up to \<open>T\<close>, at most \<open>t0\<close> plus its
rate times the elapsed time (both up to the rounding of the double operations, \<open>capacity / 2^49\<close> for each).
\<close>

theorem bucket_grants_bounded:
  assumes "obj_fine i c r t st" and "sorted (t # map pace_time es)" and "0 \<le> bk_tokens (px_objs st ! i)"
    and "T = last (t # map pace_time es)"
  shows "rat_of_nat (fst (run_total (pace_step i) es st))
           \<le> bk_tokens (px_objs st ! i) + r * (1 + 1 / 2 ^ 50) * of_int (T - bk_last (px_objs st ! i))
             + of_nat (sum_list (map pace_ops es)) * (of_int c / 2 ^ 49)"
proof -
  let ?st = "snd (run_total (pace_step i) es st)"
  note f = pace_run_fine[OF assms(1,2)]
  have l: "bk_last (px_objs ?st ! i) \<le> T" and r: "0 < r"
    using f assms(4) by (simp_all add: obj_fine_def bucket_fine_def)
  have "0 \<le> r * (1 + 1 / 2 ^ 50) * of_int (T - bk_last (px_objs ?st ! i))"
    using l r by (intro mult_nonneg_nonneg) simp_all
  then have "0 \<le> pace_pot i r T ?st" unfolding pace_pot_def bucket_pot_def by simp
  then have "rat_of_nat (fst (run_total (pace_step i) es st)) \<le> pace_pot i r T st + sum_list (map (pace_income c) es)"
    using f by (intro token_bucket.total_bound) simp_all
  moreover have "sum_list (map (pace_income c) es) = of_nat (sum_list (map pace_ops es)) * (of_int c / 2 ^ 49)"
    by (induction es) (simp_all add: pace_income_def slack_def distrib_right add_divide_distrib)
  moreover have "pace_pot i r T st = bk_tokens (px_objs st ! i) + r * (1 + 1 / 2 ^ 50) * of_int (T - bk_last (px_objs st ! i))"
    using assms(3) unfolding pace_pot_def bucket_pot_def by simp
  ultimately show ?thesis by simp
qed

text \<open>The default bucket, 100 a minute: a burst of 102 rounds within six seconds.\<close>

definition demo_pacer :: pacer where
  "demo_pacer = \<lparr>px_table = [''key'' \<mapsto> 0], px_objs = [new_bucket default_per_minute 0]\<rparr>"

lemma demo_refill: "0 < ddiv 100 60000" "ddiv 100 60000 \<le> 1"
  by code_simp+

lemma demo_pacer_fine: "obj_fine 0 100 (ddiv 100 60000) 0 demo_pacer"
  using demo_refill by (simp add: obj_fine_def demo_pacer_def new_bucket_def default_per_minute_def bucket_fine_def)

lemma bucket_grants_bounded_witness:
  "rat_of_nat (fst (run_total (pace_step 0) (Penalty ''other'' 5 100 10 # replicate 102 (Round 0 6000)) demo_pacer))
     \<le> 100 + ddiv 100 60000 * (1 + 1 / 2 ^ 50) * 6000 + 204 * (100 / 2 ^ 49)"
proof -
  have l: "last (0 # map pace_time (Penalty ''other'' 5 100 10 # replicate 102 (Round 0 6000))) = 6000"
    by (simp add: last_map)
  have s: "sorted (0 # map pace_time (Penalty ''other'' 5 100 10 # replicate 102 (Round 0 6000)))"
    by (simp add: map_replicate)
  have n: "sum_list (map pace_ops (Penalty ''other'' 5 100 10 # replicate 102 (Round 0 6000))) = 204"
    by (simp add: map_replicate sum_list_replicate)
  have b: "px_objs demo_pacer ! 0 = new_bucket 100 0" by (simp add: demo_pacer_def default_per_minute_def)
  show ?thesis
    using bucket_grants_bounded[OF demo_pacer_fine s _ l[symmetric]] unfolding n b by (simp add: new_bucket_def del: run_total.simps)
qed

section \<open>The scheduler\<close>

definition parked :: "thrown \<Rightarrow> app_error option" where
  "parked e = (case e of ThrownApp a \<Rightarrow> if category a = RateLimited \<or> category a = AuthRequired then Some a else None
                       | _ \<Rightarrow> None)"

text \<open>\<open>rnd\<close> is what \<open>random()\<close> returns, a double in [0, 1).\<close>

definition provider_delay_ms :: "app_error \<Rightarrow> int" where
  "provider_delay_ms a = (case retry_after a of None \<Rightarrow> 5 * 60 | Some s \<Rightarrow> s) * 1000"

definition delay_after_failure :: "int \<Rightarrow> thrown \<Rightarrow> rat \<Rightarrow> int" where
  "delay_after_failure interval_ms e rnd =
     (case parked e of
        None \<Rightarrow> interval_ms
      | Some a \<Rightarrow>
          let base = max interval_ms (provider_delay_ms a)
          in base + \<lfloor>dmul (dmul (of_int base) (fl (1 / 10))) rnd\<rfloor>)"

text \<open>A queue job: parked errors complete it, with the delay reported; the others are thrown on.\<close>

definition run_provider_job :: "thrown + 'a \<Rightarrow> rat \<Rightarrow> (thrown \<times> int) option \<times> (thrown + 'a option)" where
  "run_provider_job task rnd =
     (case task of
        Inr x \<Rightarrow> (None, Inr (Some x))
      | Inl e \<Rightarrow> (case parked e of
                    None \<Rightarrow> (None, Inl e)
                  | Some a \<Rightarrow> (Some (e, delay_after_failure 0 e rnd), Inr None)))"

definition startup_delay :: "string \<Rightarrow> int \<Rightarrow> int" where
  "startup_delay name interval_ms =
     (let window = min interval_ms 5000;
          hash = foldl (\<lambda>h c. h * 31 + word_of_nat (code_of c)) (0 :: 32 word) name
      in if window = 0 then 0 else uint hash mod window)"

record task_state =
  tk_stopped :: bool
  tk_timer :: "int option"
  tk_running :: nat
  tk_runs :: nat

text \<open>
  \<open>setTimeout\<close> arms the timer with a delay, its expiry starts a run, the run's promise settles (with the
  random number drawn on failure), and \<open>stop\<close> clears the timer.
\<close>

definition schedule :: "int \<Rightarrow> task_state \<Rightarrow> task_state" where
  "schedule delay s = (if tk_stopped s then s else s\<lparr>tk_timer := Some delay\<rparr>)"

inductive task_step :: "int \<Rightarrow> task_state \<Rightarrow> task_state \<Rightarrow> bool" for interval :: int where
  task_fires: "tk_timer s = Some d \<Longrightarrow>
     task_step interval s (s\<lparr>tk_timer := None, tk_running := tk_running s + 1, tk_runs := tk_runs s + 1\<rparr>)"
| task_succeeds: "0 < tk_running s \<Longrightarrow>
     task_step interval s (schedule interval (s\<lparr>tk_running := tk_running s - 1\<rparr>))"
| task_throws: "0 < tk_running s \<Longrightarrow> 0 \<le> rnd \<Longrightarrow> rnd < 1 \<Longrightarrow>
     task_step interval s (schedule (delay_after_failure interval e rnd) (s\<lparr>tk_running := tk_running s - 1\<rparr>))"
| task_stops: "task_step interval s (s\<lparr>tk_stopped := True, tk_timer := None\<rparr>)"

definition schedule_non_overlapping_task :: "string \<Rightarrow> int \<Rightarrow> int option \<Rightarrow> task_state" where
  "schedule_non_overlapping_task name interval_ms initial_delay =
     schedule (case initial_delay of None \<Rightarrow> startup_delay name interval_ms | Some d \<Rightarrow> d)
       \<lparr>tk_stopped = False, tk_timer = None, tk_running = 0, tk_runs = 0\<rparr>"

inductive_simps task_step_simps: "task_step interval s s'"

lemma startup_delay_bounds: "0 < interval \<Longrightarrow> 0 \<le> startup_delay name interval \<and> startup_delay name interval < min interval 5000"
proof -
  assume "0 < interval"
  then have w: "0 < min interval 5000" by simp
  have "0 \<le> x mod min interval 5000 \<and> x mod min interval 5000 < min interval 5000" for x :: int
    using w pos_mod_bound[OF w] by (simp only: pos_mod_sign)
  then show ?thesis using w unfolding startup_delay_def Let_def by (simp only: if_not_P[of "min interval 5000 = 0"])
qed

lemma delay_bounds:
  assumes i: "0 \<le> interval" and r: "0 \<le> rnd" "rnd < 1"
    and b: "\<And>a. parked e = Some a \<Longrightarrow> max interval (provider_delay_ms a) \<le> 2 ^ 50"
  shows "interval \<le> delay_after_failure interval e rnd"
    and "delay_after_failure interval e rnd \<le>
           (case parked e of None \<Rightarrow> interval
            | Some a \<Rightarrow> 2 * max interval (provider_delay_ms a))"
proof -
  have tenth: "0 \<le> fl (1 / 10)" "fl (1 / 10) \<le> 1" by code_simp+
  have m: "0 \<le> \<lfloor>dmul (dmul (of_int base) (fl (1 / 10))) rnd\<rfloor> \<and> \<lfloor>dmul (dmul (of_int base) (fl (1 / 10))) rnd\<rfloor> \<le> base"
    if "0 \<le> base" "base \<le> 2 ^ 50" for base
  proof -
    have p: "0 \<le> of_int base * fl (1 / 10)" using that tenth by simp
    have "of_int base * fl (1 / 10) \<le> of_int base" using that tenth by (simp add: mult_left_le)
    then have q: "dmul (of_int base) (fl (1 / 10)) \<le> of_int base" unfolding dmul_def by (rule fl_le_int) (use that in simp)
    have "0 \<le> dmul (of_int base) (fl (1 / 10))" unfolding dmul_def using p by (rule fl_nonneg)
    then have "0 \<le> dmul (of_int base) (fl (1 / 10)) * rnd"
        and "dmul (of_int base) (fl (1 / 10)) * rnd \<le> dmul (of_int base) (fl (1 / 10))"
      using r by (simp_all add: mult_left_le)
    with q have "0 \<le> dmul (of_int base) (fl (1 / 10)) * rnd" and "dmul (of_int base) (fl (1 / 10)) * rnd \<le> of_int base"
      by simp_all
    then have "0 \<le> dmul (dmul (of_int base) (fl (1 / 10))) rnd" and "dmul (dmul (of_int base) (fl (1 / 10))) rnd \<le> of_int base"
      unfolding dmul_def[of _ rnd] using that by (auto intro: fl_nonneg fl_le_int)
    then show ?thesis by (simp add: floor_le_of_int)
  qed
  show "interval \<le> delay_after_failure interval e rnd"
  proof (cases "parked e")
    case (Some a)
    define base where "base = max interval (provider_delay_ms a)"
    have d: "delay_after_failure interval e rnd = base + \<lfloor>dmul (dmul (of_int base) (fl (1 / 10))) rnd\<rfloor>"
      by (simp add: delay_after_failure_def Some base_def Let_def)
    have "interval \<le> base" by (simp add: base_def)
    moreover have "0 \<le> \<lfloor>dmul (dmul (of_int base) (fl (1 / 10))) rnd\<rfloor>"
        and "\<lfloor>dmul (dmul (of_int base) (fl (1 / 10))) rnd\<rfloor> \<le> base"
      using m[of base] b[OF Some] i \<open>interval \<le> base\<close> by (auto simp flip: base_def)
    ultimately show ?thesis unfolding d Some option.case base_def[symmetric] by linarith
  qed (simp add: delay_after_failure_def)
  show "delay_after_failure interval e rnd \<le>
           (case parked e of None \<Rightarrow> interval
            | Some a \<Rightarrow> 2 * max interval (provider_delay_ms a))"
  proof (cases "parked e")
    case (Some a)
    define base where "base = max interval (provider_delay_ms a)"
    have d: "delay_after_failure interval e rnd = base + \<lfloor>dmul (dmul (of_int base) (fl (1 / 10))) rnd\<rfloor>"
      by (simp add: delay_after_failure_def Some base_def Let_def)
    have "interval \<le> base" by (simp add: base_def)
    moreover have "0 \<le> \<lfloor>dmul (dmul (of_int base) (fl (1 / 10))) rnd\<rfloor>"
        and "\<lfloor>dmul (dmul (of_int base) (fl (1 / 10))) rnd\<rfloor> \<le> base"
      using m[of base] b[OF Some] i \<open>interval \<le> base\<close> by (auto simp flip: base_def)
    ultimately show ?thesis unfolding d Some option.case base_def[symmetric] by linarith
  qed (simp add: delay_after_failure_def)
qed

text \<open>The loop of a task: one timer or one run until it is stopped, and never both.\<close>

definition task_inv :: "task_state \<Rightarrow> bool" where
  "task_inv s \<longleftrightarrow>
     tk_running s + (if tk_timer s = None then 0 else 1) \<le> 1
     \<and> (\<not> tk_stopped s \<longrightarrow> tk_running s + (if tk_timer s = None then 0 else 1) = 1)
     \<and> (tk_stopped s \<longrightarrow> tk_timer s = None)"

lemma task_inv_step: "task_step interval s s' \<Longrightarrow> task_inv s \<Longrightarrow> task_inv s'"
  by (induction rule: task_step.induct) (auto simp: task_inv_def schedule_def split: if_splits)

lemma task_inv_steps: "(task_step interval)\<^sup>*\<^sup>* s s' \<Longrightarrow> task_inv s \<Longrightarrow> task_inv s'"
  by (induction rule: rtranclp_induct) (auto intro: task_inv_step)

lemma stopped_stays: "(task_step interval)\<^sup>*\<^sup>* s s' \<Longrightarrow> tk_stopped s \<Longrightarrow> tk_timer s = None \<Longrightarrow>
    tk_stopped s' \<and> tk_timer s' = None \<and> tk_runs s' = tk_runs s"
  by (induction rule: rtranclp_induct) (auto simp: task_step_simps schedule_def)

text \<open>
. However a periodic task's runs end, succeed or throw, and whenever it is stopped: its runs never overlap; while it
is not stopped exactly one of timer and run is there, so a throwing task never ends its loop; and once it is
stopped no further run starts.
\<close>

theorem scheduler_single_flight:
  assumes "(task_step interval)\<^sup>*\<^sup>* (schedule_non_overlapping_task name interval first_delay) s"
  shows "tk_running s \<le> 1 \<and> (\<not> tk_stopped s \<longrightarrow> (tk_timer s = None) = (tk_running s = 1))
         \<and> (\<forall>s'. tk_stopped s \<longrightarrow> (task_step interval)\<^sup>*\<^sup>* s s' \<longrightarrow> tk_runs s' = tk_runs s)"
proof -
  have "task_inv (schedule_non_overlapping_task name interval first_delay)"
    by (simp add: schedule_non_overlapping_task_def schedule_def task_inv_def)
  then have i: "task_inv s" using task_inv_steps[OF assms] by blast
  then have t: "tk_stopped s \<Longrightarrow> tk_timer s = None" by (simp add: task_inv_def)
  have "tk_running s \<le> 1 \<and> (\<not> tk_stopped s \<longrightarrow> (tk_timer s = None) = (tk_running s = 1))"
    using i by (cases "tk_timer s") (simp_all add: task_inv_def)
  moreover have "tk_runs s' = tk_runs s" if "tk_stopped s" "(task_step interval)\<^sup>*\<^sup>* s s'" for s'
    using stopped_stays[OF that(2,1) t[OF that(1)]] by simp
  ultimately show ?thesis by blast
qed

lemma scheduler_single_flight_witness:
  "(let s = schedule_non_overlapping_task ''supply-sweep'' 120000 None;
        t = s\<lparr>tk_timer := None, tk_running := 1, tk_runs := 1\<rparr>
    in tk_running t \<le> 1 \<and> (\<not> tk_stopped t \<longrightarrow> (tk_timer t = None) = (tk_running t = 1)))"
proof -
  let ?s = "schedule_non_overlapping_task ''supply-sweep'' 120000 None"
  let ?t = "?s\<lparr>tk_timer := None, tk_running := tk_running ?s + 1, tk_runs := tk_runs ?s + 1\<rparr>"
  have "task_step 120000 ?s ?t"
    by (rule task_fires) (simp add: schedule_non_overlapping_task_def schedule_def)
  from scheduler_single_flight[OF r_into_rtranclp[of "task_step 120000", OF this]]
  have "tk_running ?t \<le> 1 \<and> (\<not> tk_stopped ?t \<longrightarrow> (tk_timer ?t = None) = (tk_running ?t = 1))" by blast
  moreover have "tk_running ?s = 0" "tk_runs ?s = 0"
    by (simp_all add: schedule_non_overlapping_task_def schedule_def)
  ultimately show ?thesis unfolding Let_def by simp
qed

end
