(* ===== verification/Projects.thy ===== *)
theory Projects
  imports ChainSync AutoMint
begin

text \<open>
  The projects and their schedules (\<open>packages/db/src/repositories/projects.ts\<close>, \<open>delist.ts\<close>, with
  \<open>core/confidence.ts\<close> and \<open>core/not-a-drop.ts\<close>): the transaction that merges what a provider says about a
  project into the tables (identity, alias, evidence, stages, supply, lifecycle), the recomputation of the lifecycles
  once a minute, delisting, and the reads of the workers. A transaction that throws leaves the tables as they were.
  The unique indexes of the schema are the errors of the inserts and updates that would break them.
\<close>

section \<open>Confidence and identity\<close>

datatype confidence = Verified | Corroborated | SingleSource | Unverified

definition combine_confidence :: "confidence list \<Rightarrow> confidence" where
  "combine_confidence levels =
     (if levels = [] then Unverified
      else let verified' = Verified \<in> set levels; sources = length (filter (\<lambda>l. l \<noteq> Unverified) levels)
      in if verified' \<and> sources \<ge> 2 then Verified
         else if sources \<ge> 2 then Corroborated
         else if sources = 1 then (if verified' then Verified else SingleSource)
         else Unverified)"

datatype project_identity = ByContract string | ByExternal string

definition project_identity :: "int \<Rightarrow> string option \<Rightarrow> string \<Rightarrow> string \<Rightarrow> project_identity" where
  "project_identity chain contract provider_id external_id =
     (case contract of
        Some c \<Rightarrow> ByContract (show_int chain @ '':'' @ to_lower c)
      | None \<Rightarrow> ByExternal (provider_id @ '':'' @ external_id))"

definition not_a_drop_setting_key :: "string \<Rightarrow> string" where
  "not_a_drop_setting_key slug = ''opensea_not_a_drop:'' @ to_lower (trim slug)"

definition not_a_drop_ttl_ms :: int where "not_a_drop_ttl_ms = 30 * 60 * 1000"

text \<open>\<open>date\<close> is the engine's reading of a date.\<close>

definition is_not_a_drop_marker_fresh :: "(string \<Rightarrow> int option) \<Rightarrow> js \<Rightarrow> int \<Rightarrow> bool" where
  "is_not_a_drop_marker_fresh date marker now =
     (case js_prop marker ''at'' of
        JStr s \<Rightarrow> (case date s of Some t \<Rightarrow> now - t < not_a_drop_ttl_ms | None \<Rightarrow> False)
      | _ \<Rightarrow> False)"

section \<open>Tables and inputs\<close>

record stage_upsert =
  su_psid :: string
  su_label :: string
  su_kind :: stage_kind
  su_price :: "string option"
  su_currency :: "string option"
  su_max :: "int option"
  su_starts :: int
  su_ends :: "int option"
  su_paused :: bool

record supply_upsert =
  sp_minted :: "int option"
  sp_max :: "int option"
  sp_verified :: bool
  sp_source :: string

record evidence_input =
  ei_kind :: string
  ei_fetched :: int
  ei_hash :: string
  ei_payload :: js

record project_upsert =
  pu_provider :: string
  pu_external :: string
  pu_chain :: int
  pu_contract :: "string option"
  pu_name :: string
  pu_slug :: "string option"
  pu_image :: "string option"
  pu_confidence :: confidence
  pu_stages :: "stage_upsert list"
  pu_supply :: "supply_upsert option"
  pu_evidence :: "evidence_input option"
  pu_now :: int

record project_socials =
  ps_twitter :: "string option"
  ps_url :: "string option"
  ps_discord :: "string option"
  ps_safelist :: "string option"

record project_entry =
  pe_id :: nat
  pe_chain :: int
  pe_contract :: "string option"
  pe_name :: string
  pe_slug :: "string option"
  pe_image :: "string option"
  pe_socials :: project_socials
  pe_socials_at :: "int option"
  pe_drop_checked :: "int option"
  pe_confidence :: confidence
  pe_lifecycle :: lifecycle_status
  pe_next_start :: "int option"
  pe_first_seen :: int
  pe_last_seen :: int

record stage_entry =
  se_id :: nat
  se_project :: nat
  se_psid :: string
  se_version :: nat
  se_label :: string
  se_kind :: stage_kind
  se_price :: "string option"
  se_currency :: "string option"
  se_max :: "int option"
  se_starts :: int
  se_ends :: "int option"
  se_paused :: bool
  se_evidence :: "nat option"
  se_updated :: int

record alias_entry =
  al_project :: nat
  al_first_seen :: int
  al_last_seen :: int

record field_conflict =
  fc_project :: nat
  fc_value :: string
  fc_provider :: string
  fc_observed :: int

record evidence_entry =
  ev_id :: nat
  ev_provider :: string
  ev_kind :: string
  ev_fetched :: int
  ev_hash :: string
  ev_payload :: js

record supply_entry =
  sn_project :: nat
  sn_minted :: int
  sn_max :: "int option"
  sn_observed :: int
  sn_source :: string
  sn_verified :: bool
  sn_block :: "int option"

record project_db =
  pd_projects :: "project_entry list"
  pd_aliases :: "string \<times> string \<Rightarrow> alias_entry option"
  pd_fields :: "field_conflict list"
  pd_evidence :: "evidence_entry list"
  pd_stages :: "stage_entry list"
  pd_supplies :: "supply_entry list"
  pd_providers :: "provider_row list"
  pd_next :: nat

type_synonym 'a tx = "project_db \<Rightarrow> thrown + 'a \<times> project_db"

definition tbind :: "'a tx \<Rightarrow> ('a \<Rightarrow> 'b tx) \<Rightarrow> 'b tx" where
  "tbind m f d = (case m d of Inl e \<Rightarrow> Inl e | Inr (x, d') \<Rightarrow> f x d')"

definition treturn :: "'a \<Rightarrow> 'a tx" where
  "treturn x d = Inr (x, d)"

definition unique_violation :: "string \<Rightarrow> thrown" where
  "unique_violation index = ThrownError (''duplicate key value violates unique constraint '' @ index)"

section \<open>Identity\<close>

definition ensure_provider :: "string \<Rightarrow> string tx" where
  "ensure_provider pkind d =
     (case List.find (\<lambda>p. pv_kind p = pkind) (pd_providers d) of
        Some p \<Rightarrow> Inr (pv_id p, d)
      | None \<Rightarrow> let p = \<lparr>pv_id = show_nat (pd_next d), pv_kind = pkind, pv_enabled = True, pv_health = UnknownHealth,
                         pv_success = None, pv_error = None\<rparr>
                in Inr (pv_id p, d\<lparr>pd_providers := pd_providers d @ [p], pd_next := Suc (pd_next d)\<rparr>))"

definition by_contract :: "int \<Rightarrow> string \<Rightarrow> project_db \<Rightarrow> project_entry option" where
  "by_contract chain address d = List.find (\<lambda>p. pe_chain p = chain \<and> pe_contract p = Some (to_lower address)) (pd_projects d)"

definition by_alias :: "string \<Rightarrow> string \<Rightarrow> project_db \<Rightarrow> project_entry option" where
  "by_alias prov external d =
     (case pd_aliases d (prov, external) of
        None \<Rightarrow> None
      | Some a \<Rightarrow> List.find (\<lambda>p. pe_id p = al_project a) (pd_projects d))"

definition resolve_identity :: "string \<Rightarrow> project_upsert \<Rightarrow> project_db \<Rightarrow> project_entry option" where
  "resolve_identity prov input d =
     (case (case pu_contract input of None \<Rightarrow> None | Some c \<Rightarrow> by_contract (pu_chain input) c d) of
        Some p \<Rightarrow> Some p
      | None \<Rightarrow> by_alias prov (pu_external input) d)"

definition no_socials :: project_socials where
  "no_socials = \<lparr>ps_twitter = None, ps_url = None, ps_discord = None, ps_safelist = None\<rparr>"

text \<open>A row breaks an index when another row has its key; a null breaks none.\<close>

definition contract_taken :: "nat \<Rightarrow> int \<Rightarrow> string \<Rightarrow> project_db \<Rightarrow> bool" where
  "contract_taken i chain address d \<longleftrightarrow>
     list_ex (\<lambda>p. pe_id p \<noteq> i \<and> pe_chain p = chain \<and> pe_contract p = Some address) (pd_projects d)"

definition slug_taken :: "nat \<Rightarrow> string \<Rightarrow> project_db \<Rightarrow> bool" where
  "slug_taken i slug d \<longleftrightarrow> list_ex (\<lambda>p. pe_id p \<noteq> i \<and> pe_slug p = Some slug) (pd_projects d)"

definition new_project :: "project_upsert \<Rightarrow> nat \<Rightarrow> project_entry" where
  "new_project input i =
     \<lparr>pe_id = i, pe_chain = pu_chain input, pe_contract = map_option to_lower (pu_contract input),
      pe_name = pu_name input, pe_slug = pu_slug input, pe_image = pu_image input, pe_socials = no_socials,
      pe_socials_at = None, pe_drop_checked = None, pe_confidence = pu_confidence input, pe_lifecycle = UNKNOWN,
      pe_next_start = None, pe_first_seen = pu_now input, pe_last_seen = pu_now input\<rparr>"

definition insert_project :: "project_upsert \<Rightarrow> nat tx" where
  "insert_project input d =
     (let i = pd_next d; p = new_project input i
      in if (case pe_contract p of None \<Rightarrow> False | Some c \<Rightarrow> contract_taken i (pe_chain p) c d)
         then Inl (unique_violation ''projects_contract_idx'')
         else if (case pe_slug p of None \<Rightarrow> False | Some s \<Rightarrow> slug_taken i s d)
         then Inl (unique_violation ''projects_slug_idx'')
         else Inr (i, d\<lparr>pd_projects := pd_projects d @ [p], pd_next := Suc i\<rparr>))"

definition set_project :: "nat \<Rightarrow> (project_entry \<Rightarrow> project_entry) \<Rightarrow> project_db \<Rightarrow> project_db" where
  "set_project i f d = d\<lparr>pd_projects := update_where (\<lambda>p. pe_id p = i) f (pd_projects d)\<rparr>"

definition is_conflict :: "project_upsert \<Rightarrow> project_entry \<Rightarrow> bool" where
  "is_conflict input p \<longleftrightarrow>
     (case (pu_contract input, pe_contract p) of (Some c, Some c') \<Rightarrow> c' \<noteq> to_lower c | _ \<Rightarrow> False)"

definition settle_contract :: "string \<Rightarrow> project_upsert \<Rightarrow> project_entry \<Rightarrow> unit tx" where
  "settle_contract prov input p d =
     (case (pu_contract input, pe_contract p) of
        (Some c, Some c') \<Rightarrow>
          Inr ((), if c' \<noteq> to_lower c
                   then d\<lparr>pd_fields := pd_fields d @ [\<lparr>fc_project = pe_id p, fc_value = to_lower c, fc_provider = prov, fc_observed = pu_now input\<rparr>]\<rparr>
                   else d)
      | (Some c, None) \<Rightarrow>
          if contract_taken (pe_id p) (pe_chain p) (to_lower c) d then Inl (unique_violation ''projects_contract_idx'')
          else Inr ((), set_project (pe_id p) (\<lambda>q. q\<lparr>pe_contract := Some (to_lower c)\<rparr>) d)
      | _ \<Rightarrow> Inr ((), d))"

definition refresh_project :: "project_upsert \<Rightarrow> nat \<Rightarrow> project_db \<Rightarrow> project_db" where
  "refresh_project input i d = set_project i (\<lambda>q. q\<lparr>pe_name := pu_name input,
       pe_slug := (case pu_slug input of None \<Rightarrow> pe_slug q | Some s \<Rightarrow> if slug_taken i s d then pe_slug q else Some s),
       pe_image := (case pu_image input of None \<Rightarrow> pe_image q | Some u \<Rightarrow> Some u),
       pe_confidence := pu_confidence input, pe_last_seen := pu_now input\<rparr>) d"

definition settle_identity :: "string \<Rightarrow> project_upsert \<Rightarrow> nat tx" where
  "settle_identity prov input d =
     (case resolve_identity prov input d of
        None \<Rightarrow> insert_project input d
      | Some p \<Rightarrow> tbind (settle_contract prov input p) (\<lambda>_ d. Inr (pe_id p, refresh_project input (pe_id p) d)) d)"

definition upsert_alias :: "string \<Rightarrow> project_upsert \<Rightarrow> nat \<Rightarrow> project_db \<Rightarrow> project_db" where
  "upsert_alias prov input i d =
     (let key = (prov, pu_external input);
          a = (case pd_aliases d key of
                 None \<Rightarrow> \<lparr>al_project = i, al_first_seen = pu_now input, al_last_seen = pu_now input\<rparr>
               | Some a \<Rightarrow> a\<lparr>al_project := i, al_last_seen := pu_now input\<rparr>)
      in d\<lparr>pd_aliases := (pd_aliases d)(key \<mapsto> a)\<rparr>)"

definition insert_evidence :: "string \<Rightarrow> evidence_input option \<Rightarrow> project_db \<Rightarrow> nat option \<times> project_db" where
  "insert_evidence prov ev d =
     (case ev of
        None \<Rightarrow> (None, d)
      | Some e \<Rightarrow> (Some (pd_next d), d\<lparr>pd_evidence := pd_evidence d @ [\<lparr>ev_id = pd_next d, ev_provider = prov, ev_kind = ei_kind e,
                     ev_fetched = ei_fetched e, ev_hash = ei_hash e, ev_payload = ei_payload e\<rparr>], pd_next := Suc (pd_next d)\<rparr>))"

section \<open>Stages\<close>

definition canonical_id :: "string \<Rightarrow> string" where
  "canonical_id s = to_lower (filter (\<lambda>c. c \<noteq> CHR ''-'') s)"

text \<open>The first of the rows with the largest key: \<open>ORDER BY key DESC LIMIT 1\<close>.\<close>

fun latest_by :: "('r \<Rightarrow> int) \<Rightarrow> 'r list \<Rightarrow> 'r option" where
  "latest_by k [] = None"
| "latest_by k (r # rs) = (case latest_by k rs of None \<Rightarrow> Some r | Some r' \<Rightarrow> if k r' > k r then Some r' else Some r)"

definition current_row :: "nat \<Rightarrow> stage_upsert \<Rightarrow> project_db \<Rightarrow> stage_entry option" where
  "current_row i s d =
     (let rows = filter (\<lambda>r. se_project r = i \<and> canonical_id (se_psid r) = su_psid s) (pd_stages d)
      in case List.find (\<lambda>r. se_psid r = su_psid s) rows of
           Some r \<Rightarrow> Some r
         | None \<Rightarrow> latest_by se_updated rows)"

definition material_change :: "stage_entry \<Rightarrow> stage_upsert \<Rightarrow> bool" where
  "material_change r s \<longleftrightarrow> se_label r \<noteq> su_label s \<or> se_kind r \<noteq> su_kind s \<or> se_price r \<noteq> su_price s \<or> se_max r \<noteq> su_max s
     \<or> se_starts r \<noteq> su_starts s \<or> se_ends r \<noteq> su_ends s \<or> se_paused r \<noteq> su_paused s"

definition set_stage :: "nat \<Rightarrow> (stage_entry \<Rightarrow> stage_entry) \<Rightarrow> project_db \<Rightarrow> project_db" where
  "set_stage i f d = d\<lparr>pd_stages := update_where (\<lambda>r. se_id r = i) f (pd_stages d)\<rparr>"

definition write_stage :: "nat option \<Rightarrow> int \<Rightarrow> stage_upsert \<Rightarrow> stage_entry \<Rightarrow> stage_entry" where
  "write_stage ev now s r = r\<lparr>se_version := Suc (se_version r), se_psid := su_psid s, se_label := su_label s,
     se_kind := su_kind s, se_price := su_price s, se_currency := su_currency s, se_max := su_max s,
     se_starts := su_starts s, se_ends := su_ends s, se_paused := su_paused s, se_evidence := ev, se_updated := now\<rparr>"

text \<open>The column \<open>max_per_wallet\<close> is a 32-bit integer: a write of a larger number throws.\<close>

definition fits_int4 :: "int option \<Rightarrow> bool" where
  "fits_int4 m = (case m of None \<Rightarrow> True | Some n \<Rightarrow> - (2 ^ 31) \<le> n \<and> n < 2 ^ 31)"

definition out_of_range :: thrown where
  "out_of_range = ThrownError ''integer out of range''"

definition new_stage :: "nat option \<Rightarrow> int \<Rightarrow> nat \<Rightarrow> nat \<Rightarrow> stage_upsert \<Rightarrow> stage_entry" where
  "new_stage ev db_now i n s = \<lparr>se_id = n, se_project = i, se_psid = su_psid s, se_version = 1,
     se_label = su_label s, se_kind = su_kind s, se_price = su_price s, se_currency = su_currency s,
     se_max = su_max s, se_starts = su_starts s, se_ends = su_ends s, se_paused = su_paused s,
     se_evidence = ev, se_updated = db_now\<rparr>"

text \<open>\<open>db_now\<close> is the clock of the database, in the default of \<open>updated_at\<close> for a new row.\<close>

definition upsert_stage :: "nat option \<Rightarrow> int \<Rightarrow> int \<Rightarrow> nat \<Rightarrow> stage_upsert \<Rightarrow> unit tx" where
  "upsert_stage ev db_now now i s d =
     (case current_row i s d of
        None \<Rightarrow>
          if list_ex (\<lambda>r. se_project r = i \<and> se_psid r = su_psid s) (pd_stages d)
          then Inl (unique_violation ''drop_stages_project_stage_idx'')
          else if fits_int4 (su_max s)
          then Inr ((), d\<lparr>pd_stages := pd_stages d @ [new_stage ev db_now i (pd_next d) s], pd_next := Suc (pd_next d)\<rparr>)
          else Inl out_of_range
      | Some r \<Rightarrow>
          let d1 = (if se_psid r \<noteq> su_psid s then set_stage (se_id r) (\<lambda>q. q\<lparr>se_psid := su_psid s\<rparr>) d else d)
          in if \<not> material_change r s then Inr ((), d1)
             else if fits_int4 (su_max s) then Inr ((), set_stage (se_id r) (write_stage ev now s) d1)
             else Inl out_of_range)"

fun upsert_stages :: "nat option \<Rightarrow> int \<Rightarrow> int \<Rightarrow> nat \<Rightarrow> stage_upsert list \<Rightarrow> unit tx" where
  "upsert_stages ev db_now now i [] d = Inr ((), d)"
| "upsert_stages ev db_now now i (s # ss) d =
     tbind (upsert_stage ev db_now now i s) (\<lambda>_. upsert_stages ev db_now now i ss) d"

definition is_detail :: "project_upsert \<Rightarrow> bool" where
  "is_detail input \<longleftrightarrow> (case pu_evidence input of None \<Rightarrow> False | Some e \<Rightarrow> ei_kind e = ''drops:detail'')"

definition retired_by :: "nat \<Rightarrow> string list \<Rightarrow> stage_entry \<Rightarrow> bool" where
  "retired_by i keep r \<longleftrightarrow> se_project r = i \<and> \<not> se_paused r \<and> (se_psid r \<notin> set keep \<or> se_psid r \<noteq> canonical_id (se_psid r))"

definition retire_stages :: "project_upsert \<Rightarrow> nat \<Rightarrow> project_db \<Rightarrow> project_db" where
  "retire_stages input i d =
     (if is_detail input \<and> pu_stages input \<noteq> []
      then d\<lparr>pd_stages := update_where (retired_by i (map su_psid (pu_stages input)))
                (\<lambda>r. r\<lparr>se_paused := True, se_updated := pu_now input\<rparr>) (pd_stages d)\<rparr>
      else d)"

definition new_supply :: "project_upsert \<Rightarrow> nat \<Rightarrow> supply_upsert \<Rightarrow> int \<Rightarrow> supply_entry" where
  "new_supply input i s m = \<lparr>sn_project = i, sn_minted = m, sn_max = sp_max s, sn_observed = pu_now input,
     sn_source = sp_source s, sn_verified = sp_verified s, sn_block = None\<rparr>"

definition insert_supply :: "project_upsert \<Rightarrow> nat \<Rightarrow> project_db \<Rightarrow> project_db" where
  "insert_supply input i d =
     (case pu_supply input of
        None \<Rightarrow> d
      | Some s \<Rightarrow> (case sp_minted s of None \<Rightarrow> d | Some m \<Rightarrow> d\<lparr>pd_supplies := pd_supplies d @ [new_supply input i s m]\<rparr>))"

section \<open>Lifecycle\<close>

definition stages_of :: "nat \<Rightarrow> project_db \<Rightarrow> stage_entry list" where
  "stages_of i d = sort_key se_starts (filter (\<lambda>r. se_project r = i) (pd_stages d))"

definition stage_view_of :: "stage_entry \<Rightarrow> stage_view" where
  "stage_view_of r = \<lparr>label = se_label r, kind = se_kind r, starts_at = Some (se_starts r),
     ends_at = map_option Some (se_ends r), stage_paused = se_paused r\<rparr>"

definition latest_supply_for :: "nat \<Rightarrow> project_db \<Rightarrow> supply_entry option" where
  "latest_supply_for i d = latest_by sn_observed (filter (\<lambda>s. sn_project s = i) (pd_supplies d))"

definition status_of :: "int \<Rightarrow> nat \<Rightarrow> project_db \<Rightarrow> status_input" where
  "status_of now i d =
     (let all = stages_of i d; open_rows = filter (\<lambda>r. \<not> se_paused r) all; s = latest_supply_for i d
      in \<lparr>si_stages = map stage_view_of open_rows, si_now = Some now,
          si_paused = (if all \<noteq> [] \<and> open_rows = [] then Some True else None),
          si_supply = \<lparr>minted = map_option sn_minted s, max_supply = (case s of None \<Rightarrow> None | Some x \<Rightarrow> sn_max x),
                       verified = (case s of None \<Rightarrow> False | Some x \<Rightarrow> sn_verified x)\<rparr>\<rparr>)"

definition next_start_of :: "int \<Rightarrow> nat \<Rightarrow> project_db \<Rightarrow> int option" where
  "next_start_of now i d =
     (case sort (filter (\<lambda>t. t > now) (map se_starts (filter (\<lambda>r. \<not> se_paused r) (stages_of i d)))) of
        [] \<Rightarrow> None | t # _ \<Rightarrow> Some t)"

definition thrown_js :: "js_error \<Rightarrow> thrown" where
  "thrown_js e = (case e of RangeError m \<Rightarrow> ThrownError m | SyntaxError m \<Rightarrow> ThrownError m | PlainError m \<Rightarrow> ThrownError m)"

definition settle_lifecycle :: "int \<Rightarrow> nat \<Rightarrow> unit tx" where
  "settle_lifecycle now i d =
     (case compute_lifecycle (status_of now i d) of
        Inl e \<Rightarrow> Inl (thrown_js e)
      | Inr l \<Rightarrow> Inr ((), set_project i (\<lambda>q. q\<lparr>pe_lifecycle := l, pe_next_start := next_start_of now i d\<rparr>) d))"

section \<open>The transaction\<close>

record upsert_result =
  ur_project :: nat
  ur_created :: bool
  ur_conflict :: bool

definition store_schedule :: "int \<Rightarrow> string \<Rightarrow> project_upsert \<Rightarrow> nat \<Rightarrow> unit tx" where
  "store_schedule db_now prov input i d =
     (let (ev, d1) = insert_evidence prov (pu_evidence input) (upsert_alias prov input i d)
      in tbind (upsert_stages ev db_now (pu_now input) i (pu_stages input))
           (\<lambda>_ d2. Inr ((), insert_supply input i (retire_stages input i d2))) d1)"

definition upsert_result_of :: "project_upsert \<Rightarrow> project_entry option \<Rightarrow> nat \<Rightarrow> upsert_result" where
  "upsert_result_of input existing i =
     \<lparr>ur_project = i, ur_created = (existing = None),
      ur_conflict = (case existing of None \<Rightarrow> False | Some p \<Rightarrow> is_conflict input p)\<rparr>"

definition upsert_project_from_source :: "int \<Rightarrow> project_upsert \<Rightarrow> upsert_result tx" where
  "upsert_project_from_source db_now input =
     tbind (ensure_provider (pu_provider input)) (\<lambda>prov d.
     tbind (settle_identity prov input) (\<lambda>i.
     tbind (store_schedule db_now prov input i) (\<lambda>_.
     tbind (settle_lifecycle (pu_now input) i) (\<lambda>_.
     treturn (upsert_result_of input (resolve_identity prov input d) i)))) d)"

section \<open>The minute's recomputation, delisting, and the supply readings\<close>

definition stage_open :: "int \<Rightarrow> stage_entry \<Rightarrow> bool" where
  "stage_open now r \<longleftrightarrow> \<not> se_paused r \<and> se_starts r \<le> now \<and> (case se_ends r of None \<Rightarrow> True | Some e \<Rightarrow> e > now)"

definition sql_min :: "int list \<Rightarrow> int option" where
  "sql_min ts = (case ts of [] \<Rightarrow> None | t # us \<Rightarrow> Some (fold min us t))"

definition sold_out :: "nat \<Rightarrow> project_db \<Rightarrow> bool" where
  "sold_out i d = (case latest_supply_for i d of
      None \<Rightarrow> False
    | Some s \<Rightarrow> sn_verified s \<and> (case sn_max s of None \<Rightarrow> False | Some m \<Rightarrow> sn_minted s \<ge> m))"

definition upcoming_start :: "int \<Rightarrow> nat \<Rightarrow> project_db \<Rightarrow> int option" where
  "upcoming_start now i d =
     sql_min (map se_starts (filter (\<lambda>r. se_project r = i \<and> \<not> se_paused r \<and> se_starts r > now) (pd_stages d)))"

definition sql_lifecycle :: "int \<Rightarrow> project_db \<Rightarrow> project_entry \<Rightarrow> lifecycle_status" where
  "sql_lifecycle now d p =
     (let i = pe_id p in
      if sold_out i d then SOLD_OUT
      else if list_ex (\<lambda>r. se_project r = i \<and> stage_open now r) (pd_stages d) then LIVE
      else if upcoming_start now i d \<noteq> None then NEXT
      else if list_ex (\<lambda>r. se_project r = i) (pd_stages d) then ENDED
      else pe_lifecycle p)"

definition recomputed :: "int \<Rightarrow> project_db \<Rightarrow> project_entry \<Rightarrow> bool" where
  "recomputed now d p \<longleftrightarrow> pe_lifecycle p \<in> {LIVE, NEXT, SOLD_OUT, PAUSED} \<and>
     (pe_lifecycle p \<noteq> sql_lifecycle now d p \<or> pe_next_start p \<noteq> upcoming_start now (pe_id p) d)"

definition recompute_lifecycles :: "int \<Rightarrow> project_db \<Rightarrow> nat \<times> project_db" where
  "recompute_lifecycles now d =
     (length (filter (recomputed now d) (pd_projects d)),
      d\<lparr>pd_projects := update_where (recomputed now d)
          (\<lambda>p. p\<lparr>pe_lifecycle := sql_lifecycle now d p, pe_next_start := upcoming_start now (pe_id p) d,
                 pe_last_seen := now\<rparr>) (pd_projects d)\<rparr>)"

definition mark_project_delisted :: "int \<Rightarrow> nat \<Rightarrow> project_db \<Rightarrow> project_db" where
  "mark_project_delisted now i d =
     set_project i (\<lambda>p. p\<lparr>pe_lifecycle := ENDED, pe_next_start := None, pe_last_seen := now\<rparr>)
       (d\<lparr>pd_stages := update_where (\<lambda>r. se_project r = i \<and> se_starts r > now) (\<lambda>r. r\<lparr>se_paused := True\<rparr>) (pd_stages d)\<rparr>)"

definition mark_project_drop_checked :: "string \<Rightarrow> int \<Rightarrow> project_db \<Rightarrow> project_db" where
  "mark_project_drop_checked slug at_ms d = d\<lparr>pd_projects := update_where (\<lambda>p. pe_slug p = Some slug)
     (\<lambda>p. p\<lparr>pe_drop_checked := Some at_ms\<rparr>) (pd_projects d)\<rparr>"

definition project_by_slug_with_stage_count :: "string \<Rightarrow> project_db \<Rightarrow> (nat \<times> nat \<times> lifecycle_status) option" where
  "project_by_slug_with_stage_count slug d =
     map_option (\<lambda>p. (pe_id p, length (filter (\<lambda>r. se_project r = pe_id p) (pd_stages d)), pe_lifecycle p))
       (List.find (\<lambda>p. pe_slug p = Some slug) (pd_projects d))"

definition record_chain_supply :: "nat \<Rightarrow> int \<Rightarrow> int option \<Rightarrow> int option \<Rightarrow> int \<Rightarrow> project_db \<Rightarrow> project_db" where
  "record_chain_supply i mint cap block now d =
     d\<lparr>pd_supplies := pd_supplies d @ [\<lparr>sn_project = i, sn_minted = mint, sn_max = cap, sn_observed = now,
         sn_source = ''chain:erc721'', sn_verified = (cap \<noteq> None), sn_block = block\<rparr>]\<rparr>"

definition project_socials_fetched_at :: "string \<Rightarrow> project_db \<Rightarrow> (nat \<times> int option) option" where
  "project_socials_fetched_at slug d =
     map_option (\<lambda>p. (pe_id p, pe_socials_at p)) (List.find (\<lambda>p. pe_slug p = Some slug) (pd_projects d))"

definition update_project_socials :: "nat \<Rightarrow> project_socials \<Rightarrow> int \<Rightarrow> project_db \<Rightarrow> project_db" where
  "update_project_socials i s now = set_project i (\<lambda>p. p\<lparr>pe_socials := s, pe_socials_at := Some now\<rparr>)"

section \<open>Reads\<close>

text \<open>Nulls sort last, as after the coalesce to infinity.\<close>

definition nulls_last :: "int option \<Rightarrow> bool \<times> int" where
  "nulls_last t = (case t of None \<Rightarrow> (True, 0) | Some x \<Rightarrow> (False, x))"

definition supply_sweep_targets :: "nat \<Rightarrow> project_db \<Rightarrow> (nat \<times> string option \<times> string) list" where
  "supply_sweep_targets limit d =
     List.map_filter (\<lambda>p. map_option (\<lambda>c. (pe_id p, pe_slug p, c)) (pe_contract p))
       (take limit (sort_key (nulls_last \<circ> pe_next_start)
          (filter (\<lambda>p. pe_lifecycle p \<in> {LIVE, NEXT} \<and> pe_contract p \<noteq> None) (pd_projects d))))"

definition due_eligibility_candidates :: "int \<Rightarrow> nat \<Rightarrow> project_db \<Rightarrow> (nat \<times> string option) list" where
  "due_eligibility_candidates now limit d =
     map (\<lambda>p. (pe_id p, pe_slug p)) (take limit (sort_key (nulls_last \<circ> pe_next_start)
       (filter (\<lambda>p. pe_lifecycle p \<in> {LIVE, NEXT, UNKNOWN} \<and> pe_last_seen p > now - 7 * 24 * 3600 * 1000) (pd_projects d))))"

definition project_of :: "nat \<Rightarrow> project_db \<Rightarrow> project_entry option" where
  "project_of i d = List.find (\<lambda>p. pe_id p = i) (pd_projects d)"

definition upcoming_drop_stages :: "int \<Rightarrow> int \<Rightarrow> project_db \<Rightarrow> (stage_entry \<times> project_entry) list" where
  "upcoming_drop_stages now max_window_minutes d =
     sort_key (se_starts \<circ> fst) (List.map_filter (\<lambda>r. map_option (Pair r) (project_of (se_project r) d))
       (filter (\<lambda>r. se_starts r > now \<and> se_starts r \<le> now + max_window_minutes * 60000 \<and> \<not> se_paused r) (pd_stages d)))"

definition find_project_by_contract_address :: "string \<Rightarrow> project_db \<Rightarrow> project_entry option" where
  "find_project_by_contract_address address d = List.find (\<lambda>p. pe_contract p = Some (to_lower address)) (pd_projects d)"

definition find_project_by_slug_or_id :: "string \<Rightarrow> project_db \<Rightarrow> project_entry option" where
  "find_project_by_slug_or_id key d = List.find (\<lambda>p. pe_slug p = Some key) (pd_projects d)"

definition projects_with_contract :: "int \<Rightarrow> project_db \<Rightarrow> (nat \<times> string option) list" where
  "projects_with_contract chain d =
     map (\<lambda>p. (pe_id p, pe_contract p)) (filter (\<lambda>p. pe_chain p = chain \<and> pe_contract p \<noteq> None) (pd_projects d))"

text \<open>Thresholds in whole seconds, as the interval literals have them.\<close>

definition live_next_slugs :: "nat \<Rightarrow> int \<Rightarrow> int \<Rightarrow> int \<Rightarrow> project_db \<Rightarrow> string list" where
  "live_next_slugs limit live_stale_ms next_stale_ms now d =
     (let stale = (\<lambda>p. case pe_drop_checked p of None \<Rightarrow> True
            | Some t \<Rightarrow> t < now - 1000 * math_round (of_int (if pe_lifecycle p = LIVE then live_stale_ms else next_stale_ms) / 1000))
      in List.map_filter pe_slug (take limit (sort_key (nulls_last \<circ> pe_next_start)
           (filter (\<lambda>p. pe_lifecycle p \<in> {LIVE, NEXT} \<and> pe_slug p \<noteq> None \<and> stale p) (pd_projects d)))))"

definition stageless_recent_collection_slugs :: "int \<Rightarrow> nat \<Rightarrow> project_db \<Rightarrow> string list" where
  "stageless_recent_collection_slugs first_seen_after limit d =
     List.map_filter pe_slug (take limit
       (sort_key (\<lambda>p. case pe_drop_checked p of None \<Rightarrow> (False, 0) | Some t \<Rightarrow> (True, t))
         (sort_desc pe_first_seen
           (filter (\<lambda>p. pe_slug p \<noteq> None \<and> pe_lifecycle p = UNKNOWN \<and> pe_first_seen p \<ge> first_seen_after
                        \<and> \<not> list_ex (\<lambda>r. se_project r = pe_id p) (pd_stages d)) (pd_projects d)))))"

section \<open>The identity of projects and stages\<close>

text \<open>Rows have keys of their own, below the next one; the unique indexes hold; references point to projects.\<close>

definition same_key :: "project_entry \<Rightarrow> project_entry \<Rightarrow> bool" where
  "same_key p q \<longleftrightarrow> (pe_contract p \<noteq> None \<and> pe_contract q = pe_contract p \<and> pe_chain q = pe_chain p)
     \<or> (pe_slug p \<noteq> None \<and> pe_slug q = pe_slug p)"

definition projects_ok :: "project_db \<Rightarrow> bool" where
  "projects_ok d \<longleftrightarrow> distinct (map pe_id (pd_projects d)) \<and> (\<forall>p\<in>set (pd_projects d). pe_id p < pd_next d)
     \<and> (\<forall>p\<in>set (pd_projects d). \<forall>q\<in>set (pd_projects d). same_key p q \<longrightarrow> q = p)"

text \<open>No other row has a key of the row \<open>p\<close>.\<close>

definition free_key :: "project_entry \<Rightarrow> project_db \<Rightarrow> bool" where
  "free_key p d \<longleftrightarrow> (\<forall>c. pe_contract p = Some c \<longrightarrow> \<not> contract_taken (pe_id p) (pe_chain p) c d)
     \<and> (\<forall>s. pe_slug p = Some s \<longrightarrow> \<not> slug_taken (pe_id p) s d)"

definition stages_ok :: "project_db \<Rightarrow> bool" where
  "stages_ok d \<longleftrightarrow> distinct (map se_id (pd_stages d)) \<and> (\<forall>r\<in>set (pd_stages d). se_id r < pd_next d)
     \<and> (\<forall>r\<in>set (pd_stages d). \<forall>s\<in>set (pd_stages d). se_project s = se_project r \<and> se_psid s = se_psid r \<longrightarrow> s = r)
     \<and> se_project ` set (pd_stages d) \<subseteq> pe_id ` set (pd_projects d)"

definition aliases_ok :: "project_db \<Rightarrow> bool" where
  "aliases_ok d \<longleftrightarrow> (\<forall>k a. pd_aliases d k = Some a \<longrightarrow> al_project a \<in> pe_id ` set (pd_projects d))"

definition db_ok :: "project_db \<Rightarrow> bool" where
  "db_ok d \<longleftrightarrow> projects_ok d \<and> stages_ok d \<and> aliases_ok d"

lemma db_ok_same:
  "db_ok d \<Longrightarrow> pd_projects d' = pd_projects d \<Longrightarrow> pd_stages d' = pd_stages d \<Longrightarrow> pd_aliases d' = pd_aliases d \<Longrightarrow>
     pd_next d \<le> pd_next d' \<Longrightarrow> db_ok d'"
  unfolding db_ok_def projects_ok_def stages_ok_def aliases_ok_def by (auto dest: order_less_le_trans)

lemma same_entry: "projects_ok d \<Longrightarrow> p \<in> set (pd_projects d) \<Longrightarrow> q \<in> set (pd_projects d) \<Longrightarrow> pe_id p = pe_id q \<Longrightarrow> p = q"
  by (auto simp: projects_ok_def distinct_map inj_on_def)

lemma same_key_sym: "same_key p q \<Longrightarrow> same_key q p"
  by (auto simp: same_key_def)

lemma free_key_iff: "free_key p d \<longleftrightarrow> (\<forall>q\<in>set (pd_projects d). same_key p q \<longrightarrow> pe_id q = pe_id p)"
  by (auto simp: free_key_def same_key_def contract_taken_def slug_taken_def list_ex_iff)

lemma entry_free: "projects_ok d \<Longrightarrow> p \<in> set (pd_projects d) \<Longrightarrow> free_key p d"
  by (auto simp: free_key_iff projects_ok_def)

lemma pd_set_project [simp]:
  "pd_stages (set_project i f d) = pd_stages d" "pd_aliases (set_project i f d) = pd_aliases d"
  "pd_next (set_project i f d) = pd_next d" "pd_supplies (set_project i f d) = pd_supplies d"
  "pd_providers (set_project i f d) = pd_providers d"
  by (simp_all add: set_project_def)

lemma ids_set_project: "(\<And>q. pe_id (f q) = pe_id q) \<Longrightarrow> map pe_id (pd_projects (set_project i f d)) = map pe_id (pd_projects d)"
  by (simp add: set_project_def map_update_where_same)

lemma projects_ok_set:
  assumes ok: "projects_ok d" and id: "\<And>q. pe_id (f q) = pe_id q"
    and free: "\<And>q. q \<in> set (pd_projects d) \<Longrightarrow> pe_id q = i \<Longrightarrow> free_key (f q) d"
  shows "projects_ok (set_project i f d)"
proof -
  define g where "g = (\<lambda>p. if pe_id p = i then f p else p)"
  have rows: "set (pd_projects (set_project i f d)) = g ` set (pd_projects d)"
    by (simp add: set_project_def set_update_where g_def)
  have gid: "pe_id (g p) = pe_id p" for p by (simp add: g_def id)
  have gfree: "free_key (g p) d" if "p \<in> set (pd_projects d)" for p
    using that free[OF that] entry_free[OF ok that] by (simp add: g_def)
  have uniq: "g q = g p" if p: "p \<in> set (pd_projects d)" and q: "q \<in> set (pd_projects d)" and k: "same_key (g p) (g q)" for p q
  proof (cases "pe_id p = i"; cases "pe_id q = i")
    assume "pe_id p = i" "pe_id q \<noteq> i"
    then show ?thesis using k gfree[OF p] q by (auto simp: free_key_iff gid g_def id)
  next
    assume "pe_id p \<noteq> i" "pe_id q = i"
    then show ?thesis using same_key_sym[OF k] gfree[OF q] p by (auto simp: free_key_iff gid g_def id)
  next
    assume "pe_id p = i" "pe_id q = i"
    then show ?thesis using same_entry[OF ok p q] by simp
  next
    assume "pe_id p \<noteq> i" "pe_id q \<noteq> i"
    then show ?thesis using k ok p q by (simp add: g_def projects_ok_def)
  qed
  have "\<forall>p\<in>set (pd_projects d). pe_id p < pd_next d" using ok by (simp add: projects_ok_def)
  moreover have "distinct (map pe_id (pd_projects (set_project i f d)))"
    unfolding ids_set_project[of f, OF id] using ok by (simp add: projects_ok_def)
  ultimately show ?thesis unfolding projects_ok_def rows using uniq by (auto simp: gid)
qed

lemma db_ok_set_project:
  assumes ok: "db_ok d" and id: "\<And>q. pe_id (f q) = pe_id q" and "projects_ok (set_project i f d)"
  shows "db_ok (set_project i f d)"
proof -
  have "pe_id ` set (pd_projects (set_project i f d)) = pe_id ` set (pd_projects d)"
    by (metis ids_set_project[of f, OF id] set_map)
  then show ?thesis using assms by (simp add: db_ok_def stages_ok_def aliases_ok_def)
qed

text \<open>A change that leaves the contract, the chain and the slug alone.\<close>

lemma db_ok_set_plain:
  assumes "db_ok d" "\<And>q. pe_id (f q) = pe_id q \<and> pe_chain (f q) = pe_chain q \<and> pe_contract (f q) = pe_contract q \<and> pe_slug (f q) = pe_slug q"
  shows "db_ok (set_project i f d)"
proof (rule db_ok_set_project[OF assms(1)])
  have "free_key (f q) d = free_key q d" for q using assms(2)[of q] by (simp add: free_key_def)
  moreover have ok: "projects_ok d" using assms(1) by (simp add: db_ok_def)
  ultimately have free: "free_key (f q) d" if "q \<in> set (pd_projects d)" for q using entry_free[OF ok that] by simp
  show id: "pe_id (f q) = pe_id q" for q using assms(2)[of q] by simp
  show "projects_ok (set_project i f d)" by (rule projects_ok_set[OF ok id free])
qed

lemma found_by_contract: "by_contract chain address d = Some p \<Longrightarrow>
    p \<in> set (pd_projects d) \<and> pe_chain p = chain \<and> pe_contract p = Some (to_lower address)"
  by (auto simp: by_contract_def find_Some_iff in_set_conv_nth)

lemma found_by_alias: "by_alias prov external d = Some p \<Longrightarrow>
    p \<in> set (pd_projects d) \<and> (\<exists>a. pd_aliases d (prov, external) = Some a \<and> al_project a = pe_id p)"
  by (auto simp: by_alias_def find_Some_iff in_set_conv_nth split: option.splits)

lemma resolved: "resolve_identity prov input d = Some p \<Longrightarrow> p \<in> set (pd_projects d)"
  by (auto simp: resolve_identity_def dest: found_by_contract found_by_alias split: option.splits)

lemma ensure_provider_ok: "db_ok d \<Longrightarrow> ensure_provider k d = Inr (prov, d') \<Longrightarrow> db_ok d'"
  by (auto simp: ensure_provider_def Let_def elim: db_ok_same split: option.splits)

lemma insert_project_ok:
  assumes ok: "db_ok d" and ins: "insert_project input d = Inr (i, d')"
  shows "db_ok d' \<and> i \<in> pe_id ` set (pd_projects d')"
proof -
  define p where "p = new_project input (pd_next d)"
  have p: "pe_id p = pd_next d" by (simp add: p_def new_project_def)
  from ins have d': "d' = d\<lparr>pd_projects := pd_projects d @ [p], pd_next := Suc (pd_next d)\<rparr>" "i = pd_next d" and free: "free_key p d"
    unfolding insert_project_def Let_def p_def[symmetric] free_key_def p by (simp_all split: if_splits option.splits)
  have new: "\<forall>q\<in>set (pd_projects d). pe_id q < pd_next d" using ok by (simp add: db_ok_def projects_ok_def)
  then have "\<not> same_key p q" if "q \<in> set (pd_projects d)" for q using free that p by (auto simp: free_key_iff)
  then have k: "\<forall>q\<in>set (pd_projects d). \<not> same_key p q \<and> \<not> same_key q p" using same_key_sym by blast
  have "projects_ok d'"
    using ok new k unfolding d' db_ok_def projects_ok_def by (auto simp: p)
  then show ?thesis
    using ok p unfolding d' db_ok_def stages_ok_def aliases_ok_def by (fastforce simp: less_Suc_eq)
qed

lemma settle_contract_ok:
  assumes ok: "db_ok d" and p: "p \<in> set (pd_projects d)" and "settle_contract prov input p d = Inr (u, d')"
  shows "db_ok d' \<and> pe_id p \<in> pe_id ` set (pd_projects d')"
proof (cases "pu_contract input")
  case (Some c)
  have ids: "map pe_id (pd_projects (set_project (pe_id p) (\<lambda>q. q\<lparr>pe_contract := Some (to_lower c)\<rparr>) d)) = map pe_id (pd_projects d)"
    by (rule ids_set_project) simp
  show ?thesis
  proof (cases "pe_contract p")
    case None
    with Some assms(3) have free: "\<not> contract_taken (pe_id p) (pe_chain p) (to_lower c) d"
        and d': "d' = set_project (pe_id p) (\<lambda>q. q\<lparr>pe_contract := Some (to_lower c)\<rparr>) d"
      by (auto simp: settle_contract_def split: if_splits)
    have pok: "projects_ok d" using ok by (simp add: db_ok_def)
    have "free_key (q\<lparr>pe_contract := Some (to_lower c)\<rparr>) d" if "q \<in> set (pd_projects d)" "pe_id q = pe_id p" for q
      using same_entry[OF pok that(1) p that(2)] free entry_free[OF pok p] by (simp add: free_key_def)
    then have "projects_ok d'" unfolding d' by (intro projects_ok_set[OF pok]) simp_all
    then have "db_ok d'" unfolding d' by (intro db_ok_set_project[OF ok]) simp_all
    then show ?thesis using p unfolding d' by (metis ids image_eqI set_map)
  next
    case (Some c')
    with \<open>pu_contract input = Some c\<close> assms(3) have "d' = d \<or> (\<exists>fs. d' = d\<lparr>pd_fields := fs\<rparr>)"
      by (auto simp: settle_contract_def split: if_splits)
    then show ?thesis using db_ok_same[OF ok, of d'] p by auto
  qed
qed (use assms in \<open>auto simp: settle_contract_def\<close>)

lemma refresh_project_ok:
  assumes ok: "db_ok d"
  shows "db_ok (refresh_project input i d) \<and> pe_id ` set (pd_projects (refresh_project input i d)) = pe_id ` set (pd_projects d)"
proof -
  let ?f = "\<lambda>q. q\<lparr>pe_name := pu_name input,
       pe_slug := (case pu_slug input of None \<Rightarrow> pe_slug q | Some s \<Rightarrow> if slug_taken i s d then pe_slug q else Some s),
       pe_image := (case pu_image input of None \<Rightarrow> pe_image q | Some u \<Rightarrow> Some u),
       pe_confidence := pu_confidence input, pe_last_seen := pu_now input\<rparr>"
  have pok: "projects_ok d" using ok by (simp add: db_ok_def)
  have "free_key (?f q) d" if "q \<in> set (pd_projects d)" "pe_id q = i" for q
    using entry_free[OF pok that(1)] that(2) by (auto simp: free_key_def split: option.splits if_splits)
  then have "projects_ok (set_project i ?f d)" by (intro projects_ok_set[OF pok]) simp_all
  then have "db_ok (set_project i ?f d)" by (intro db_ok_set_project[OF ok]) simp_all
  moreover have "map pe_id (pd_projects (set_project i ?f d)) = map pe_id (pd_projects d)" by (rule ids_set_project) simp
  ultimately show ?thesis unfolding refresh_project_def by (metis set_map)
qed

lemma settle_identity_ok:
  assumes ok: "db_ok d" and r: "settle_identity prov input d = Inr (i, d')"
  shows "db_ok d' \<and> i \<in> pe_id ` set (pd_projects d')"
proof (cases "resolve_identity prov input d")
  case None
  then show ?thesis using r insert_project_ok[OF ok] by (simp add: settle_identity_def)
next
  case (Some p)
  with r obtain d1 where d1: "settle_contract prov input p d = Inr ((), d1)" "i = pe_id p" "d' = refresh_project input i d1"
    by (auto simp: settle_identity_def tbind_def split: sum.splits)
  show ?thesis using settle_contract_ok[OF ok resolved[OF Some] d1(1)] refresh_project_ok[of d1 input i] d1 by auto
qed

lemma upsert_alias_ok: "db_ok d \<Longrightarrow> i \<in> pe_id ` set (pd_projects d) \<Longrightarrow> db_ok (upsert_alias prov input i d)"
  by (auto simp: upsert_alias_def Let_def db_ok_def projects_ok_def stages_ok_def aliases_ok_def split: if_splits option.splits)

lemma pd_upsert_alias [simp]:
  "pd_projects (upsert_alias prov input i d) = pd_projects d" "pd_stages (upsert_alias prov input i d) = pd_stages d"
  "pd_supplies (upsert_alias prov input i d) = pd_supplies d" "pd_next (upsert_alias prov input i d) = pd_next d"
  by (simp_all add: upsert_alias_def Let_def)

lemma pd_insert_evidence [simp]:
  "pd_projects (snd (insert_evidence prov ev d)) = pd_projects d" "pd_stages (snd (insert_evidence prov ev d)) = pd_stages d"
  "pd_aliases (snd (insert_evidence prov ev d)) = pd_aliases d" "pd_supplies (snd (insert_evidence prov ev d)) = pd_supplies d"
  by (simp_all add: insert_evidence_def split: option.split)

lemma next_insert_evidence: "pd_next d \<le> pd_next (snd (insert_evidence prov ev d))"
  by (simp add: insert_evidence_def split: option.split)

lemma insert_evidence_ok: "db_ok d \<Longrightarrow> db_ok (snd (insert_evidence prov ev d))"
  by (erule db_ok_same) (simp_all add: next_insert_evidence)

text \<open>Updates of stage rows that leave their keys alone.\<close>

lemma stages_ok_update:
  assumes ok: "stages_ok d" and "\<And>r. se_id (f r) = se_id r \<and> se_project (f r) = se_project r"
    and psid: "\<And>r. r \<in> set (pd_stages d) \<Longrightarrow> p r \<Longrightarrow> se_psid (f r) = se_psid r"
  shows "stages_ok (d\<lparr>pd_stages := update_where p f (pd_stages d)\<rparr>)"
proof -
  define g where "g = (\<lambda>r. if p r then f r else r)"
  have rows: "set (update_where p f (pd_stages d)) = g ` set (pd_stages d)" by (simp add: set_update_where g_def)
  have k: "se_id (g r) = se_id r" "se_project (g r) = se_project r" for r using assms(2) by (simp_all add: g_def)
  have m: "map se_id (update_where p f (pd_stages d)) = map se_id (pd_stages d)"
    using assms(2) by (intro map_update_where_same) blast
  have "se_psid (g r) = se_psid r" if "r \<in> set (pd_stages d)" for r using psid[OF that] by (simp add: g_def)
  then show ?thesis using ok by (auto simp: stages_ok_def rows m k)
qed

lemma same_psid_row: "stages_ok d \<Longrightarrow> r \<in> set (pd_stages d) \<Longrightarrow> s \<in> set (pd_stages d) \<Longrightarrow> se_id r = se_id s \<Longrightarrow> r = s"
  by (auto simp: stages_ok_def distinct_map inj_on_def)

lemma stages_ok_rekey:
  assumes ok: "stages_ok d" and r: "r \<in> set (pd_stages d)"
    and free: "\<forall>s\<in>set (pd_stages d). se_project s = se_project r \<longrightarrow> se_psid s \<noteq> k"
  shows "stages_ok (set_stage (se_id r) (\<lambda>q. q\<lparr>se_psid := k\<rparr>) d)"
proof -
  define g :: "stage_entry \<Rightarrow> stage_entry" where "g = (\<lambda>q. if se_id q = se_id r then q\<lparr>se_psid := k\<rparr> else q)"
  have rows: "set (update_where (\<lambda>q. se_id q = se_id r) (\<lambda>q. q\<lparr>se_psid := k\<rparr>) (pd_stages d)) = g ` set (pd_stages d)"
    by (simp add: set_update_where g_def)
  have id: "se_id (g q) = se_id q" "se_project (g q) = se_project q" for q by (simp_all add: g_def)
  have m: "map se_id (update_where (\<lambda>q. se_id q = se_id r) (\<lambda>q. q\<lparr>se_psid := k\<rparr>) (pd_stages d)) = map se_id (pd_stages d)"
    by (rule map_update_where_same) simp
  have other: "q = r" if "q \<in> set (pd_stages d)" "se_id q = se_id r" for q using same_psid_row[OF ok that(1) r that(2)] .
  have u: "g q = g s" if q: "q \<in> set (pd_stages d)" and s: "s \<in> set (pd_stages d)"
      and e: "se_project q = se_project s" "se_psid (g q) = se_psid (g s)" for q s
  proof -
    have "q = s \<or> (se_id q \<noteq> se_id r \<and> se_id s \<noteq> se_id r)"
      using other[OF q] other[OF s] free q s e by (auto simp: g_def split: if_splits)
    then show ?thesis using ok q s e by (auto simp: g_def stages_ok_def)
  qed
  have "\<forall>q\<in>set (pd_stages d). \<forall>s\<in>set (pd_stages d). se_project s = se_project q \<and> se_psid (g s) = se_psid (g q) \<longrightarrow> g s = g q"
    using u by metis
  then show ?thesis using ok by (auto simp: stages_ok_def set_stage_def rows m id)
qed

lemma lower_char_dash: "lower_char c = CHR ''-'' \<longleftrightarrow> c = CHR ''-''"
  by (auto simp: lower_char_def code_of_inj[symmetric] code_of_char_of) (simp_all add: code_of_def)

lemma canonical_id_idem [simp]: "canonical_id (canonical_id s) = canonical_id s"
  by (simp add: canonical_id_def to_lower_def filter_map o_def lower_char_dash)

lemma current_row_facts:
  assumes "current_row i s d = Some r"
  shows "r \<in> set (pd_stages d)" "se_project r = i" "canonical_id (se_psid r) = su_psid s"
    and "se_psid r \<noteq> su_psid s \<Longrightarrow> \<forall>q\<in>set (pd_stages d). se_project q = i \<longrightarrow> se_psid q \<noteq> su_psid s"
proof -
  define rows where "rows = filter (\<lambda>r. se_project r = i \<and> canonical_id (se_psid r) = su_psid s) (pd_stages d)"
  have l: "latest_by k xs = Some x \<Longrightarrow> x \<in> set xs" for k and xs :: "stage_entry list" and x
    by (induction xs arbitrary: x) (auto split: option.splits if_splits)
  have f: "List.find p xs = Some x \<Longrightarrow> x \<in> set xs \<and> p x" for p and xs :: "stage_entry list" and x
    by (auto simp: find_Some_iff in_set_conv_nth)
  have c: "(case List.find (\<lambda>r. se_psid r = su_psid s) rows of Some r \<Rightarrow> Some r | None \<Rightarrow> latest_by se_updated rows) = Some r"
    using assms unfolding current_row_def Let_def rows_def .
  then have r: "r \<in> set rows" using l f by (auto split: option.splits)
  then show "r \<in> set (pd_stages d)" "se_project r = i" and can: "canonical_id (se_psid r) = su_psid s" by (auto simp: rows_def)
  show "\<forall>q\<in>set (pd_stages d). se_project q = i \<longrightarrow> se_psid q \<noteq> su_psid s" if "se_psid r \<noteq> su_psid s"
  proof -
    have "List.find (\<lambda>r. se_psid r = su_psid s) rows = None" using c f that by (auto split: option.splits)
    then have "q \<notin> set rows" if "se_psid q = su_psid s" for q using that by (auto simp: find_None_iff)
    moreover have "canonical_id (su_psid s) = su_psid s" using can by (metis canonical_id_idem)
    ultimately show ?thesis by (auto simp: rows_def)
  qed
qed

text \<open>Fields that the stage updates leave alone, and the outcome of one stage.\<close>

lemma pd_set_stage [simp]:
  "pd_projects (set_stage i f d) = pd_projects d" "pd_aliases (set_stage i f d) = pd_aliases d"
  "pd_next (set_stage i f d) = pd_next d" "pd_supplies (set_stage i f d) = pd_supplies d"
  by (simp_all add: set_stage_def)

lemma db_ok_stages: "db_ok d \<Longrightarrow> pd_projects d' = pd_projects d \<Longrightarrow> pd_aliases d' = pd_aliases d \<Longrightarrow> pd_next d \<le> pd_next d' \<Longrightarrow>
    stages_ok d' \<Longrightarrow> db_ok d'"
  unfolding db_ok_def projects_ok_def aliases_ok_def by (auto dest: order_less_le_trans)

lemma upsert_stage_ok:
  assumes ok: "db_ok d" and i: "i \<in> pe_id ` set (pd_projects d)" and r: "upsert_stage ev t now i s d = Inr (u, d')"
  shows "db_ok d' \<and> pd_projects d' = pd_projects d"
proof (cases "current_row i s d")
  case None
  with r have d': "d' = d\<lparr>pd_stages := pd_stages d @ [new_stage ev t i (pd_next d) s], pd_next := Suc (pd_next d)\<rparr>"
      and free: "\<forall>q\<in>set (pd_stages d). se_project q = i \<longrightarrow> se_psid q \<noteq> su_psid s"
    by (auto simp: upsert_stage_def list_ex_iff split: if_splits)
  have n: "se_id (new_stage ev t i (pd_next d) s) = pd_next d" "se_project (new_stage ev t i (pd_next d) s) = i"
      "se_psid (new_stage ev t i (pd_next d) s) = su_psid s" by (simp_all add: new_stage_def)
  have "stages_ok d'"
    using ok i free unfolding d' db_ok_def stages_ok_def by (auto simp: n less_Suc_eq)
  then show ?thesis using db_ok_stages[OF ok, of d'] by (simp add: d')
next
  case (Some q)
  note q = current_row_facts[OF Some]
  define d1 where "d1 = (if se_psid q \<noteq> su_psid s then set_stage (se_id q) (\<lambda>x. x\<lparr>se_psid := su_psid s\<rparr>) d else d)"
  have ok1: "stages_ok d1"
    using ok stages_ok_rekey[OF _ q(1), of "su_psid s"] q(2,4) by (auto simp: d1_def db_ok_def)
  have key: "se_psid x = su_psid s" if x: "x \<in> set (pd_stages d1)" "se_id x = se_id q" for x
  proof (cases "se_psid q = su_psid s")
    case True
    then have "x = q" using ok x same_psid_row[of d x q] q(1) by (simp add: d1_def db_ok_def)
    then show ?thesis using True by simp
  next
    case False
    then show ?thesis using x by (auto simp: d1_def set_stage_def set_update_where split: if_splits)
  qed
  have "stages_ok (set_stage (se_id q) (write_stage ev now s) d1)"
    unfolding set_stage_def by (rule stages_ok_update[OF ok1]) (simp_all add: write_stage_def key)
  moreover have "d' = d1 \<or> d' = set_stage (se_id q) (write_stage ev now s) d1"
    using r Some by (auto simp: upsert_stage_def d1_def Let_def split: if_splits)
  ultimately show ?thesis using ok1 db_ok_stages[OF ok, of d'] by (auto simp: d1_def)
qed

lemma upsert_stages_ok:
  "db_ok d \<Longrightarrow> i \<in> pe_id ` set (pd_projects d) \<Longrightarrow> upsert_stages ev t now i ss d = Inr (u, d') \<Longrightarrow>
     db_ok d' \<and> pd_projects d' = pd_projects d"
proof (induction ss arbitrary: d)
  case (Cons s ss)
  then obtain d1 where "upsert_stage ev t now i s d = Inr ((), d1)" "upsert_stages ev t now i ss d1 = Inr (u, d')"
    by (auto simp: tbind_def split: sum.splits)
  then show ?case using upsert_stage_ok[OF Cons.prems(1,2)] Cons.IH[of d1] Cons.prems(2) by simp
qed simp

lemma retire_stages_ok: "db_ok d \<Longrightarrow> db_ok (retire_stages input i d)"
proof -
  assume ok: "db_ok d"
  then have "stages_ok (retire_stages input i d)"
    unfolding retire_stages_def by (auto intro: stages_ok_update simp: db_ok_def)
  then show ?thesis by (rule db_ok_stages[OF ok, rotated -1]) (simp_all add: retire_stages_def)
qed

lemma pd_retire [simp]: "pd_projects (retire_stages input i d) = pd_projects d" "pd_supplies (retire_stages input i d) = pd_supplies d"
  by (simp_all add: retire_stages_def)

lemma insert_supply_ok: "db_ok d \<Longrightarrow> db_ok (insert_supply input i d)"
  by (rule db_ok_same[of d]) (simp_all add: insert_supply_def split: option.split)

lemma pd_insert_supply [simp]:
  "pd_projects (insert_supply input i d) = pd_projects d" "pd_stages (insert_supply input i d) = pd_stages d"
  by (simp_all add: insert_supply_def split: option.split)

lemma store_schedule_ok:
  assumes ok: "db_ok d" and i: "i \<in> pe_id ` set (pd_projects d)" and r: "store_schedule t prov input i d = Inr (u, d')"
  shows "db_ok d' \<and> pd_projects d' = pd_projects d"
proof -
  obtain ev d1 where e: "insert_evidence prov (pu_evidence input) (upsert_alias prov input i d) = (ev, d1)" by fastforce
  have d1: "db_ok d1" "pd_projects d1 = pd_projects d"
    using insert_evidence_ok[OF upsert_alias_ok[OF ok i], of prov "pu_evidence input" prov input]
      pd_insert_evidence(1)[of prov "pu_evidence input" "upsert_alias prov input i d"] unfolding e by simp_all
  from r e obtain d2 where d2: "upsert_stages ev t (pu_now input) i (pu_stages input) d1 = Inr ((), d2)"
      "d' = insert_supply input i (retire_stages input i d2)"
    by (auto simp: store_schedule_def tbind_def split: sum.splits)
  from upsert_stages_ok[OF d1(1) _ d2(1)] i d1(2) have "db_ok d2" "pd_projects d2 = pd_projects d" by simp_all
  then show ?thesis unfolding d2(2) by (simp add: insert_supply_ok retire_stages_ok)
qed

text \<open>The parts of a transaction that went through.\<close>

lemma upsert_cases:
  assumes "upsert_project_from_source t input d = Inr (r, d')"
  obtains prov d1 d2 d3 where "ensure_provider (pu_provider input) d = Inr (prov, d1)"
    "settle_identity prov input d1 = Inr (ur_project r, d2)" "store_schedule t prov input (ur_project r) d2 = Inr ((), d3)"
    "settle_lifecycle (pu_now input) (ur_project r) d3 = Inr ((), d')"
    "r = upsert_result_of input (resolve_identity prov input d1) (ur_project r)"
  using assms
  by (auto simp: upsert_project_from_source_def tbind_def treturn_def upsert_result_of_def split: sum.splits)

lemma settle_lifecycle_ok: "db_ok d \<Longrightarrow> settle_lifecycle now i d = Inr (u, d') \<Longrightarrow> db_ok d'"
  by (auto simp: settle_lifecycle_def intro: db_ok_set_plain split: sum.splits)

text \<open>
C12. Whatever the providers say, merging it keeps the tables sound: row keys are unique, no two projects have the
same contract on a chain or the same slug, no two stages of a project the same provider id, and every stage
and alias belongs to a project; a transaction that would break this throws and changes nothing.
\<close>

theorem upsert_keeps_identity:
  assumes "db_ok d" and "upsert_project_from_source t input d = Inr (r, d')"
  shows "db_ok d' \<and> ur_project r \<in> pe_id ` set (pd_projects d')"
proof (rule upsert_cases[OF assms(2)])
  fix prov d1 d2 d3
  assume s: "ensure_provider (pu_provider input) d = Inr (prov, d1)" "settle_identity prov input d1 = Inr (ur_project r, d2)"
    "store_schedule t prov input (ur_project r) d2 = Inr ((), d3)" "settle_lifecycle (pu_now input) (ur_project r) d3 = Inr ((), d')"
  note i = settle_identity_ok[OF ensure_provider_ok[OF assms(1) s(1)] s(2)]
  note st = store_schedule_ok[OF conjunct1[OF i] conjunct2[OF i] s(3)]
  have "map pe_id (pd_projects d') = map pe_id (pd_projects d3)"
    using s(4) by (auto simp: settle_lifecycle_def set_project_def split: sum.splits intro!: map_update_where_same)
  then show ?thesis using st i settle_lifecycle_ok[OF conjunct1[OF st] s(4)] by (metis set_map)
qed

section \<open>The lifecycle, computed twice\<close>

lemma sql_min_set: "sql_min xs = (if xs = [] then None else Some (Min (set xs)))"
  by (cases xs) (simp_all add: sql_min_def Min.set_eq_fold del: set_simps(2))

lemma sort_head: "(case sort xs of [] \<Rightarrow> None | t # _ \<Rightarrow> Some t) = sql_min (xs :: int list)"
proof (cases "sort xs")
  case Nil
  then have "xs = []" by (metis set_empty set_sort)
  then show ?thesis by (simp add: sql_min_def)
next
  case (Cons t ts)
  then have "sorted (t # ts)" and "set xs = set (t # ts)" by (metis sorted_sort, metis set_sort)
  moreover from this have "Min (set xs) = t" by (intro Min_eqI) auto
  moreover have "xs \<noteq> []" using Cons by auto
  ultimately show ?thesis by (simp add: Cons sql_min_set)
qed

lemma next_start_is_min: "next_start_of now i d = upcoming_start now i d"
proof -
  let ?xs = "filter (\<lambda>t. t > now) (map se_starts (filter (\<lambda>r. \<not> se_paused r) (stages_of i d)))"
  let ?ys = "map se_starts (filter (\<lambda>r. se_project r = i \<and> \<not> se_paused r \<and> se_starts r > now) (pd_stages d))"
  have "set ?xs = set ?ys" by (auto simp: stages_of_def)
  moreover from this have "(?xs = []) = (?ys = [])" by (metis set_empty)
  ultimately have "sql_min ?xs = sql_min ?ys" by (simp only: sql_min_set)
  then show ?thesis unfolding next_start_of_def sort_head upcoming_start_def .
qed

lemma upcoming_start_iff:
  "upcoming_start now i d \<noteq> None \<longleftrightarrow> list_ex (\<lambda>r. se_project r = i \<and> \<not> se_paused r \<and> se_starts r > now) (pd_stages d)"
  by (auto simp: upcoming_start_def sql_min_set list_ex_iff filter_empty_conv)

lemma view_simps [simp]:
  "wf_stage (stage_view_of r)" "start_ms (stage_view_of r) = se_starts r" "stage_paused (stage_view_of r) = se_paused r"
  "open_at (stage_view_of r) now \<longleftrightarrow> se_starts r \<le> now \<and> (case se_ends r of None \<Rightarrow> True | Some e \<Rightarrow> now < e)"
  "over_at (stage_view_of r) now \<longleftrightarrow> (case se_ends r of None \<Rightarrow> False | Some e \<Rightarrow> e \<le> now)"
  by (auto simp: stage_view_of_def wf_stage_def start_ms_def open_at_def over_at_def end_ms_def split: option.split)

lemma exhausted_is_sold_out: "supply_exhausted (si_supply (status_of now i d)) = sold_out i d"
  by (auto simp: supply_exhausted_def status_of_def sold_out_def Let_def split: option.splits)

lemma lifecycle_is_sql:
  assumes rows: "list_ex (\<lambda>r. se_project r = pe_id p) (pd_stages d)"
  shows "compute_lifecycle (status_of now (pe_id p) d) = Inr (sql_lifecycle now d p)" and "sql_lifecycle now d p \<noteq> PAUSED"
proof -
  let ?i = "pe_id p"
  define all where "all = stages_of ?i d"
  define rs where "rs = filter (\<lambda>r. \<not> se_paused r) all"
  have mem: "r \<in> set all \<longleftrightarrow> r \<in> set (pd_stages d) \<and> se_project r = ?i" for r by (auto simp: all_def stages_of_def)
  have ne: "all \<noteq> []" using rows mem by (auto simp: list_ex_iff)
  have live: "list_ex (\<lambda>r. se_project r = ?i \<and> stage_open now r) (pd_stages d) \<longleftrightarrow> (\<exists>r\<in>set rs. open_at (stage_view_of r) now)"
    using mem by (auto simp: list_ex_iff rs_def stage_open_def split: option.splits)
  have future: "upcoming_start now ?i d \<noteq> None \<longleftrightarrow> (\<exists>r\<in>set rs. se_starts r > now)"
    unfolding upcoming_start_iff using mem by (auto simp: list_ex_iff rs_def)
  have st: "si_stages (status_of now ?i d) = map stage_view_of rs" "si_now (status_of now ?i d) = Some now"
      "(si_paused (status_of now ?i d) = Some True) = (rs = [])"
    using ne by (simp_all add: status_of_def Let_def rs_def all_def)
  have "compute_lifecycle (status_of now ?i d) =
      Inr (lifecycle_at (map stage_view_of rs) now (rs = []) (sold_out ?i d))"
    using compute_lifecycle_wf[of "status_of now ?i d" now] by (simp add: st exhausted_is_sold_out list_all_iff)
  moreover have "lifecycle_at (map stage_view_of rs) now (rs = []) (sold_out ?i d) = sql_lifecycle now d p"
  proof (cases "List.find (\<lambda>s. open_at s now) (map stage_view_of rs)")
    case None
    then have n: "\<not> (\<exists>r\<in>set rs. open_at (stage_view_of r) now)" by (auto simp: find_None_iff)
    have over: "list_all (\<lambda>s. over_at s now) (map stage_view_of rs)" if "\<not> (\<exists>r\<in>set rs. se_starts r > now)"
      using n that by (fastforce simp: list_all_iff not_less split: option.splits)
    show ?thesis
      unfolding lifecycle_at_def sql_lifecycle_def Let_def None live future using n rows over by auto
  next
    case (Some s)
    then have s: "s \<in> set (map stage_view_of rs)" "open_at s now" using find_SomeD[OF Some] by simp_all
    then have "\<not> stage_paused s" "\<exists>r\<in>set rs. open_at (stage_view_of r) now" by (auto simp: rs_def)
    then show ?thesis
      unfolding lifecycle_at_def sql_lifecycle_def Let_def Some live future using s rows by auto
  qed
  ultimately show "compute_lifecycle (status_of now ?i d) = Inr (sql_lifecycle now d p)" by simp
  show "sql_lifecycle now d p \<noteq> PAUSED" using rows by (simp add: sql_lifecycle_def Let_def)
qed

lemma updated_entry:
  assumes "p \<in> set (pd_projects (set_project i f d))" "pe_id p = i"
  obtains q where "q \<in> set (pd_projects d)" "pe_id q = i" "p = f q"
  using assms by (auto simp: set_project_def set_update_where split: if_splits)

lemma settled_lifecycle:
  assumes "settle_lifecycle now i d = Inr (u, d')" and "p \<in> set (pd_projects d')" "pe_id p = i"
    and "list_ex (\<lambda>r. se_project r = i) (pd_stages d')"
  shows "pe_lifecycle p = sql_lifecycle now d' p \<and> pe_next_start p = upcoming_start now i d' \<and> pe_lifecycle p \<noteq> PAUSED"
proof -
  from assms(1) obtain l where l: "compute_lifecycle (status_of now i d) = Inr l"
      and d': "d' = set_project i (\<lambda>q. q\<lparr>pe_lifecycle := l, pe_next_start := next_start_of now i d\<rparr>) d"
    by (auto simp: settle_lifecycle_def split: sum.splits)
  have "status_of now i d' = status_of now i d" "upcoming_start now i d' = upcoming_start now i d"
    by (simp_all add: d' status_of_def stages_of_def latest_supply_for_def upcoming_start_def)
  moreover obtain q where "p = q\<lparr>pe_lifecycle := l, pe_next_start := next_start_of now i d\<rparr>"
    using updated_entry[OF assms(2)[unfolded d'] assms(3)] by blast
  then have "pe_lifecycle p = l \<and> pe_next_start p = next_start_of now i d" by simp
  ultimately show ?thesis
    using lifecycle_is_sql[of p d' now] assms(3,4) l by (auto simp: next_start_is_min)
qed


section \<open>The schedule after a merge\<close>

text \<open>The row of a stage as the input has it.\<close>

definition stored :: "nat \<Rightarrow> stage_upsert \<Rightarrow> project_db \<Rightarrow> bool" where
  "stored i s d \<longleftrightarrow> (\<exists>r\<in>set (pd_stages d). se_project r = i \<and> se_psid r = su_psid s \<and> \<not> material_change r s)"

definition others :: "nat \<Rightarrow> project_db \<Rightarrow> stage_entry list" where
  "others i d = filter (\<lambda>r. se_project r \<noteq> i) (pd_stages d)"

lemma filter_update_where:
  "(\<And>r. r \<in> set rs \<Longrightarrow> p r \<Longrightarrow> \<not> k r \<and> \<not> k (f r)) \<Longrightarrow> filter k (update_where p f rs) = filter k rs"
  by (induction rs) auto

lemma others_set_stage:
  assumes "stages_ok d" "q \<in> set (pd_stages d)" "se_project q = i" "\<And>r. se_project (f r) = se_project r"
  shows "others i (set_stage (se_id q) f d) = others i d"
proof -
  have "r = q" if "r \<in> set (pd_stages d)" "se_id r = se_id q" for r using same_psid_row[OF assms(1) that(1) assms(2) that(2)] .
  then show ?thesis unfolding others_def set_stage_def using assms(3,4) by (auto intro!: filter_update_where)
qed

lemma stage_row_update:
  assumes "stages_ok d" "q \<in> set (pd_stages d)"
  shows "f q \<in> set (pd_stages (set_stage (se_id q) f d))"
    and "r \<in> set (pd_stages d) \<Longrightarrow> r \<noteq> q \<Longrightarrow> r \<in> set (pd_stages (set_stage (se_id q) f d))"
  using assms same_psid_row[OF assms(1), of r q] by (auto simp: set_stage_def intro: update_where_hit update_where_keep)

lemma upsert_stage_effect:
  assumes ok: "db_ok d" and r: "upsert_stage ev t now i s d = Inr (u, d')"
  shows "stored i s d' \<and> others i d' = others i d
         \<and> (\<forall>k\<in>set (pd_stages d). se_project k = i \<and> canonical_id (se_psid k) \<noteq> su_psid s \<longrightarrow> k \<in> set (pd_stages d'))"
proof (cases "current_row i s d")
  case None
  with r have d': "d' = d\<lparr>pd_stages := pd_stages d @ [new_stage ev t i (pd_next d) s], pd_next := Suc (pd_next d)\<rparr>"
    by (auto simp: upsert_stage_def split: if_splits)
  have n: "se_project (new_stage ev t i (pd_next d) s) = i" "se_psid (new_stage ev t i (pd_next d) s) = su_psid s"
      "\<not> material_change (new_stage ev t i (pd_next d) s) s"
    by (simp_all add: new_stage_def material_change_def)
  show ?thesis by (auto simp: d' stored_def others_def n)
next
  case (Some q)
  note q = current_row_facts[OF Some]
  have sok: "stages_ok d" using ok by (simp add: db_ok_def)
  define q1 where "q1 = q\<lparr>se_psid := su_psid s\<rparr>"
  define d1 where "d1 = (if se_psid q \<noteq> su_psid s then set_stage (se_id q) (\<lambda>x. x\<lparr>se_psid := su_psid s\<rparr>) d else d)"
  have q1: "q1 \<in> set (pd_stages d1)" "se_id q1 = se_id q" "se_project q1 = i" "material_change q1 s = material_change q s"
  proof -
    have same: "q1 = q" if "se_psid q = su_psid s" unfolding q1_def that[symmetric] by (cases q) simp
    then show "q1 \<in> set (pd_stages d1)" using q(1) same stage_row_update(1)[OF sok q(1), of "\<lambda>x. x\<lparr>se_psid := su_psid s\<rparr>"]
      by (cases "se_psid q = su_psid s") (simp_all add: d1_def flip: q1_def)
  qed (simp_all add: q1_def material_change_def q(2))
  have keep1: "k \<in> set (pd_stages d1)" if "k \<in> set (pd_stages d)" "k \<noteq> q" for k
    using that stage_row_update(2)[OF sok q(1)] by (auto simp: d1_def)
  have o1: "others i d1 = others i d" using others_set_stage[OF sok q(1,2)] by (simp add: d1_def)
  have ok1: "stages_ok d1" using stages_ok_rekey[OF sok q(1), of "su_psid s"] sok q(2,4) by (auto simp: d1_def)
  have notq: "k \<noteq> q" if "canonical_id (se_psid k) \<noteq> su_psid s" for k using that q(3) by auto
  have psid1: "se_psid q1 = su_psid s" by (simp add: q1_def)
  show ?thesis
  proof (cases "material_change q s")
    case False
    then have "d' = d1" using r Some by (simp add: upsert_stage_def d1_def Let_def)
    moreover have "stored i s d1" unfolding stored_def using q1 False psid1 by auto
    ultimately show ?thesis using o1 keep1 notq by blast
  next
    case True
    then have d': "d' = set_stage (se_id q1) (write_stage ev now s) d1"
      using r Some q1(2) by (auto simp: upsert_stage_def d1_def Let_def split: if_splits)
    have w: "se_project (write_stage ev now s q1) = i" "se_psid (write_stage ev now s q1) = su_psid s"
        "\<not> material_change (write_stage ev now s q1) s"
      using q1(3) by (simp_all add: write_stage_def material_change_def)
    have "stored i s d'" using stage_row_update(1)[OF ok1 q1(1)] w unfolding d' stored_def by blast
    moreover have "others i d' = others i d"
      unfolding d' o1[symmetric] by (rule others_set_stage[OF ok1 q1(1,3)]) (simp add: write_stage_def)
    moreover have "k \<in> set (pd_stages d')" if k: "k \<in> set (pd_stages d)" "canonical_id (se_psid k) \<noteq> su_psid s" for k
    proof -
      have "canonical_id (su_psid s) = su_psid s" using q(3) by (metis canonical_id_idem)
      then have "k \<noteq> q1" using k(2) psid1 by auto
      then show ?thesis using stage_row_update(2)[OF ok1 q1(1)] keep1[OF k(1) notq[OF k(2)]] by (simp add: d')
    qed
    ultimately show ?thesis by blast
  qed
qed

definition canonical_stages :: "stage_upsert list \<Rightarrow> bool" where
  "canonical_stages ss \<longleftrightarrow> distinct (map su_psid ss) \<and> list_all (\<lambda>s. canonical_id (su_psid s) = su_psid s) ss"

lemma stored_frame:
  assumes "db_ok d" "upsert_stage ev t now i s d = Inr (u, d')" "stored i k d" "canonical_id (su_psid k) = su_psid k" "su_psid k \<noteq> su_psid s"
  shows "stored i k d'"
  using assms(3-5) upsert_stage_effect[OF assms(1,2)] by (auto simp: stored_def)

lemma upsert_stages_effect:
  "db_ok d \<Longrightarrow> i \<in> pe_id ` set (pd_projects d) \<Longrightarrow> canonical_stages ss \<Longrightarrow> upsert_stages ev t now i ss d = Inr (u, d') \<Longrightarrow>
     list_all (\<lambda>s. stored i s d') ss \<and> others i d' = others i d
     \<and> (\<forall>k. stored i k d \<longrightarrow> canonical_id (su_psid k) = su_psid k \<longrightarrow> su_psid k \<notin> su_psid ` set ss \<longrightarrow> stored i k d')"
proof (induction ss arbitrary: d)
  case (Cons s ss)
  then obtain d1 where d1: "upsert_stage ev t now i s d = Inr ((), d1)" "upsert_stages ev t now i ss d1 = Inr (u, d')"
    by (auto simp: tbind_def split: sum.splits)
  have c: "canonical_stages ss" "canonical_id (su_psid s) = su_psid s" "su_psid s \<notin> su_psid ` set ss"
    using Cons.prems(3) by (auto simp: canonical_stages_def)
  have ok1: "db_ok d1" "i \<in> pe_id ` set (pd_projects d1)" using upsert_stage_ok[OF Cons.prems(1,2) d1(1)] Cons.prems(2) by auto
  note ih = Cons.IH[OF ok1 c(1) d1(2)] and e = upsert_stage_effect[OF Cons.prems(1) d1(1)]
  have "stored i s d'" using ih e c(2,3) by blast
  moreover have "stored i k d'" if "stored i k d" "canonical_id (su_psid k) = su_psid k" "su_psid k \<notin> su_psid ` set (s # ss)" for k
  proof -
    have "su_psid k \<noteq> su_psid s" "su_psid k \<notin> su_psid ` set ss" using that(3) by auto
    then show ?thesis using ih stored_frame[OF Cons.prems(1) d1(1) that(1,2)] that(2) by blast
  qed
  ultimately show ?case using ih e by simp
qed simp

lemma others_retire: "others i (retire_stages input i d) = others i d"
  by (auto simp: retire_stages_def others_def retired_by_def intro!: filter_update_where)

lemma stored_retire:
  assumes "stored i s d" "s \<in> set (pu_stages input)" "canonical_id (su_psid s) = su_psid s"
  shows "stored i s (retire_stages input i d)"
proof -
  from assms(1) obtain r where r: "r \<in> set (pd_stages d)" "se_project r = i" "se_psid r = su_psid s" "\<not> material_change r s"
    by (auto simp: stored_def)
  then have "\<not> retired_by i (map su_psid (pu_stages input)) r" using assms(2,3) by (auto simp: retired_by_def)
  then show ?thesis using r by (auto simp: stored_def retire_stages_def intro: update_where_keep)
qed

text \<open>What a merge leaves of the schedules.\<close>

lemma merged_schedule:
  assumes ok: "db_ok d" and u: "upsert_project_from_source t input d = Inr (r, d')" and c: "canonical_stages (pu_stages input)"
  shows "list_all (\<lambda>s. stored (ur_project r) s d') (pu_stages input)" "others (ur_project r) d' = others (ur_project r) d"
    and "is_detail input \<Longrightarrow> pu_stages input \<noteq> [] \<Longrightarrow>
           \<forall>q\<in>set (pd_stages d'). \<not> retired_by (ur_project r) (map su_psid (pu_stages input)) q"
proof -
  let ?i = "ur_project r"
  obtain prov d1 d2 d3 where s: "ensure_provider (pu_provider input) d = Inr (prov, d1)" "settle_identity prov input d1 = Inr (?i, d2)"
    "store_schedule t prov input ?i d2 = Inr ((), d3)" "settle_lifecycle (pu_now input) ?i d3 = Inr ((), d')"
    by (rule upsert_cases[OF u])
  have stages2: "pd_stages d2 = pd_stages d"
    using s(1,2) by (auto simp: ensure_provider_def settle_identity_def insert_project_def settle_contract_def
        refresh_project_def tbind_def Let_def split: option.splits if_splits sum.splits)
  have stages': "pd_stages d' = pd_stages d3" using s(4) by (auto simp: settle_lifecycle_def split: sum.splits)
  note i = settle_identity_ok[OF ensure_provider_ok[OF ok s(1)] s(2)]
  obtain ev e where e: "insert_evidence prov (pu_evidence input) (upsert_alias prov input ?i d2) = (ev, e)" by fastforce
  have e1: "db_ok e" "pd_projects e = pd_projects d2" "pd_stages e = pd_stages d2"
    using insert_evidence_ok[OF upsert_alias_ok[OF conjunct1[OF i] conjunct2[OF i]], of prov "pu_evidence input" prov input]
      pd_insert_evidence(1,2)[of prov "pu_evidence input" "upsert_alias prov input ?i d2"] unfolding e by simp_all
  from s(3) e obtain f where f: "upsert_stages ev t (pu_now input) ?i (pu_stages input) e = Inr ((), f)"
      "d3 = insert_supply input ?i (retire_stages input ?i f)"
    by (auto simp: store_schedule_def tbind_def split: sum.splits)
  have eff: "list_all (\<lambda>s. stored ?i s f) (pu_stages input)" "others ?i f = others ?i e"
    using upsert_stages_effect[OF e1(1) _ c f(1)] i e1(2) by auto
  have rows: "pd_stages d' = pd_stages (retire_stages input ?i f)" by (simp add: stages' f(2))
  then have st: "stored ?i k d' = stored ?i k (retire_stages input ?i f)" for k by (simp add: stored_def)
  show "list_all (\<lambda>s. stored ?i s d') (pu_stages input)"
    using eff(1) c stored_retire[of ?i _ f input] by (auto simp: list_all_iff st canonical_stages_def)
  have "others ?i d' = others ?i (retire_stages input ?i f)" by (simp add: others_def rows)
  also have "\<dots> = others ?i e" by (simp add: others_retire eff(2))
  also have "\<dots> = others ?i d" by (simp add: others_def e1(3) stages2)
  finally show "others ?i d' = others ?i d" .
  show "\<forall>q\<in>set (pd_stages d'). \<not> retired_by ?i (map su_psid (pu_stages input)) q" if "is_detail input" "pu_stages input \<noteq> []"
    using that by (auto simp: rows retire_stages_def set_update_where retired_by_def split: if_splits)
qed


section \<open>At-least-once delivery\<close>

lemma current_of_stored:
  assumes ok: "stages_ok d" and st: "stored i s d" and c: "canonical_id (su_psid s) = su_psid s"
  shows "\<exists>q. current_row i s d = Some q \<and> se_psid q = su_psid s \<and> \<not> material_change q s"
proof -
  from st obtain q where q: "q \<in> set (pd_stages d)" "se_project q = i" "se_psid q = su_psid s" "\<not> material_change q s"
    by (auto simp: stored_def)
  let ?rows = "filter (\<lambda>r. se_project r = i \<and> canonical_id (se_psid r) = su_psid s) (pd_stages d)"
  have "q \<in> set ?rows" using q c by simp
  then have "List.find (\<lambda>r. se_psid r = su_psid s) ?rows \<noteq> None" using q(3) unfolding find_None_iff by blast
  then obtain q' where f: "List.find (\<lambda>r. se_psid r = su_psid s) ?rows = Some q'" by blast
  from find_SomeD[OF f] have "q' \<in> set (pd_stages d)" "se_project q' = i" "se_psid q' = su_psid s" by auto
  then have "q' = q" using ok q by (simp add: stages_ok_def)
  then show ?thesis using f q by (simp add: current_row_def Let_def)
qed

lemma upsert_stage_again:
  "stages_ok d \<Longrightarrow> stored i s d \<Longrightarrow> canonical_id (su_psid s) = su_psid s \<Longrightarrow> upsert_stage ev t now i s d = Inr ((), d)"
  using current_of_stored[of d i s] by (auto simp: upsert_stage_def Let_def)

lemma upsert_stages_again:
  "stages_ok d \<Longrightarrow> canonical_stages ss \<Longrightarrow> list_all (\<lambda>s. stored i s d) ss \<Longrightarrow> upsert_stages ev t now i ss d = Inr ((), d)"
proof (induction ss)
  case (Cons s ss)
  then have "upsert_stage ev t now i s d = Inr ((), d)" "canonical_stages ss" "list_all (\<lambda>s. stored i s d) ss"
    by (simp_all add: upsert_stage_again canonical_stages_def)
  then show ?case using Cons by (simp add: tbind_def)
qed simp

text \<open>What the identity steps leave: the row, its alias, and that a second refresh changes nothing.\<close>

definition refreshed :: "project_upsert \<Rightarrow> project_db \<Rightarrow> project_entry \<Rightarrow> bool" where
  "refreshed input d p \<longleftrightarrow> pe_name p = pu_name input \<and> pe_confidence p = pu_confidence input \<and> pe_last_seen p = pu_now input
     \<and> (\<forall>u. pu_image input = Some u \<longrightarrow> pe_image p = Some u)
     \<and> (\<forall>s. pu_slug input = Some s \<longrightarrow> slug_taken (pe_id p) s d \<or> pe_slug p = Some s)
     \<and> (\<forall>c. pu_contract input = Some c \<longrightarrow> pe_contract p \<noteq> None)"

definition settled :: "project_upsert \<Rightarrow> nat \<Rightarrow> project_db \<Rightarrow> bool" where
  "settled input i d \<longleftrightarrow> (\<exists>p\<in>set (pd_projects d). pe_id p = i \<and> refreshed input d p)
     \<and> (\<forall>c p. pu_contract input = Some c \<longrightarrow> p \<in> set (pd_projects d) \<longrightarrow>
          pe_chain p = pu_chain input \<longrightarrow> pe_contract p = Some (to_lower c) \<longrightarrow> pe_id p = i)"

lemma slug_taken_mono:
  assumes "slug_taken i s d" "\<And>q. pe_id (f q) = pe_id q"
  shows "slug_taken i s (set_project i f d)"
  using assms by (fastforce simp: slug_taken_def list_ex_iff set_project_def set_update_where)

lemma contract_step:
  assumes ok: "db_ok d" and p: "p \<in> set (pd_projects d)" and r: "settle_contract prov input p d = Inr (u, d')"
  shows "\<exists>q\<in>set (pd_projects d'). pe_id q = pe_id p \<and> pe_chain q = pe_chain p \<and> (\<forall>c. pu_contract input = Some c \<longrightarrow> pe_contract q \<noteq> None)"
    and "\<And>q. q \<in> set (pd_projects d') \<Longrightarrow> pe_id q \<noteq> pe_id p \<Longrightarrow> q \<in> set (pd_projects d)"
proof -
  have "pd_projects d' = pd_projects d \<and> (\<forall>c. pu_contract input = Some c \<longrightarrow> pe_contract p \<noteq> None)
     \<or> (\<exists>c. d' = set_project (pe_id p) (\<lambda>q. q\<lparr>pe_contract := Some c\<rparr>) d)"
    using r by (auto simp: settle_contract_def split: option.splits if_splits)
  then consider (same) "pd_projects d' = pd_projects d" "\<forall>c. pu_contract input = Some c \<longrightarrow> pe_contract p \<noteq> None"
    | (set) c where "d' = set_project (pe_id p) (\<lambda>q. q\<lparr>pe_contract := Some c\<rparr>) d" by blast
  note cs = this
  show "\<exists>q\<in>set (pd_projects d'). pe_id q = pe_id p \<and> pe_chain q = pe_chain p \<and> (\<forall>c. pu_contract input = Some c \<longrightarrow> pe_contract q \<noteq> None)"
    using cs
  proof cases
    case same
    then show ?thesis using p by auto
  next
    case (set c)
    then have "p\<lparr>pe_contract := Some c\<rparr> \<in> set (pd_projects d')" using p by (auto simp: set_project_def intro: update_where_hit)
    then show ?thesis by (rule bexI[rotated]) simp
  qed
  show "q \<in> set (pd_projects d)" if "q \<in> set (pd_projects d')" "pe_id q \<noteq> pe_id p" for q
    using cs that by cases (auto simp: set_project_def set_update_where)
qed

lemma settle_identity_settled:
  assumes ok: "db_ok d" and r: "settle_identity prov input d = Inr (i, d')"
  shows "settled input i d'"
proof (cases "resolve_identity prov input d")
  case None
  with r have "insert_project input d = Inr (i, d')" by (simp add: settle_identity_def)
  then have d': "d' = d\<lparr>pd_projects := pd_projects d @ [new_project input (pd_next d)], pd_next := Suc (pd_next d)\<rparr>" "i = pd_next d"
    unfolding insert_project_def Let_def by (auto simp del: project_db.select_convs split: if_splits)
  have "\<not> (pe_chain p = pu_chain input \<and> pe_contract p = Some (to_lower c))"
    if "pu_contract input = Some c" "p \<in> set (pd_projects d)" for c p
    using None that by (auto simp: resolve_identity_def by_contract_def find_None_iff split: option.splits)
  then have "pe_id p = i" if "pu_contract input = Some c" "p \<in> set (pd_projects d')" "pe_chain p = pu_chain input"
      "pe_contract p = Some (to_lower c)" for c p
    using that d' by (auto simp: new_project_def)
  moreover have "new_project input i \<in> set (pd_projects d')" "pe_id (new_project input i) = i" "refreshed input d' (new_project input i)"
    by (simp_all add: d' refreshed_def new_project_def)
  ultimately show ?thesis unfolding settled_def by blast
next
  case (Some p)
  with r obtain d1 where d1: "settle_contract prov input p d = Inr ((), d1)" "i = pe_id p" "d' = refresh_project input i d1"
    by (auto simp: settle_identity_def tbind_def split: sum.splits)
  note pm = resolved[OF Some]
  from contract_step(1)[OF ok pm d1(1)] obtain q where q: "q \<in> set (pd_projects d1)" "pe_id q = i"
      "\<forall>c. pu_contract input = Some c \<longrightarrow> pe_contract q \<noteq> None" using d1(2) by auto
  define f :: "project_entry \<Rightarrow> project_entry" where "f = (\<lambda>q. q\<lparr>pe_name := pu_name input,
       pe_slug := (case pu_slug input of None \<Rightarrow> pe_slug q | Some s \<Rightarrow> if slug_taken i s d1 then pe_slug q else Some s),
       pe_image := (case pu_image input of None \<Rightarrow> pe_image q | Some u \<Rightarrow> Some u),
       pe_confidence := pu_confidence input, pe_last_seen := pu_now input\<rparr>)"
  have d': "d' = set_project i f d1" by (simp add: d1(3) refresh_project_def f_def)
  have mono: "slug_taken i s d'" if "slug_taken i s d1" for s
    unfolding d' by (rule slug_taken_mono[OF that]) (simp add: f_def)
  have "f q \<in> set (pd_projects d')" using q(1,2) by (auto simp: d' set_project_def intro: update_where_hit)
  moreover have "pe_id (f q) = i" "refreshed input d' (f q)"
    using q(2,3) mono by (auto simp: f_def refreshed_def)
  moreover have "pe_id x = i"
    if c: "pu_contract input = Some c" and x: "x \<in> set (pd_projects d')" "pe_chain x = pu_chain input" "pe_contract x = Some (to_lower c)" for c x
  proof (rule ccontr)
    assume n: "pe_id x \<noteq> i"
    then have "x \<in> set (pd_projects d1)" using x(1) by (auto simp: d' set_project_def set_update_where f_def)
    then have m: "x \<in> set (pd_projects d)" using contract_step(2)[OF ok pm d1(1)] n d1(2) by simp
    obtain y where y: "by_contract (pu_chain input) c d = Some y"
      using m x(2,3) by (cases "by_contract (pu_chain input) c d") (auto simp: by_contract_def find_None_iff)
    then have "p = y" using Some c by (simp add: resolve_identity_def)
    moreover have "same_key x y" using found_by_contract[OF y] x(2,3) by (simp add: same_key_def)
    ultimately show False using ok m found_by_contract[OF y] n d1(2) by (auto simp: db_ok_def projects_ok_def)
  qed
  ultimately show ?thesis unfolding settled_def by blast
qed

lemma entry_of: "projects_ok d \<Longrightarrow> p \<in> set (pd_projects d) \<Longrightarrow> q \<in> set (pd_projects d) \<Longrightarrow> pe_id p = i \<Longrightarrow> pe_id q = i \<Longrightarrow> p = q"
  by (rule same_entry) simp_all

lemma refresh_again:
  assumes ok: "projects_ok d" and s: "settled input i d"
  shows "refresh_project input i d = d"
proof -
  define f :: "project_entry \<Rightarrow> project_entry" where "f = (\<lambda>q. q\<lparr>pe_name := pu_name input,
       pe_slug := (case pu_slug input of None \<Rightarrow> pe_slug q | Some s \<Rightarrow> if slug_taken i s d then pe_slug q else Some s),
       pe_image := (case pu_image input of None \<Rightarrow> pe_image q | Some u \<Rightarrow> Some u),
       pe_confidence := pu_confidence input, pe_last_seen := pu_now input\<rparr>)"
  from s obtain p where p: "p \<in> set (pd_projects d)" "pe_id p = i" "refreshed input d p" by (auto simp: settled_def)
  have sl: "\<And>s. pu_slug input = Some s \<Longrightarrow> \<not> slug_taken i s d \<Longrightarrow> Some s = pe_slug p"
    using p(2,3) by (auto simp: refreshed_def)
  have f: "f p = p"
    unfolding f_def by (rule project_entry.equality) (use p(2,3) sl in \<open>simp_all add: refreshed_def split: option.split\<close>)
  have "(if pe_id q = i then f q else q) = q" if q: "q \<in> set (pd_projects d)" for q
  proof (cases "pe_id q = i")
    case True
    have "q = p" by (rule entry_of[OF ok q p(1) True p(2)])
    then show ?thesis using f by simp
  qed simp
  then have "update_where (\<lambda>q. pe_id q = i) f (pd_projects d) = pd_projects d"
    unfolding update_where_def by (intro map_idI)
  then show ?thesis unfolding refresh_project_def f_def[symmetric] set_project_def by simp
qed

lemma resolve_again:
  assumes "settled input i d" "pd_aliases d (prov, pu_external input) = Some a" "al_project a = i"
  shows "\<exists>p. resolve_identity prov input d = Some p \<and> pe_id p = i"
proof -
  from assms(1) obtain q where q: "q \<in> set (pd_projects d)" "pe_id q = i" by (auto simp: settled_def)
  then have "List.find (\<lambda>p. pe_id p = i) (pd_projects d) \<noteq> None" by (auto simp: find_None_iff)
  then obtain p where f: "List.find (\<lambda>p. pe_id p = i) (pd_projects d) = Some p" by blast
  then have al: "by_alias prov (pu_external input) d = Some p" by (simp add: by_alias_def assms(2,3))
  show ?thesis
  proof (cases "case pu_contract input of None \<Rightarrow> None | Some c \<Rightarrow> by_contract (pu_chain input) c d")
    case None
    then show ?thesis using al find_SomeD[OF f] by (simp add: resolve_identity_def)
  next
    case (Some y)
    then obtain c where c: "pu_contract input = Some c" "by_contract (pu_chain input) c d = Some y" by (auto split: option.splits)
    then have "pe_id y = i" using assms(1) found_by_contract[OF c(2)] by (auto simp: settled_def)
    then show ?thesis using Some by (simp add: resolve_identity_def)
  qed
qed

text \<open>A second identity step changes no project: at most it records the conflict once more.\<close>

lemma settle_again:
  assumes ok: "db_ok d" and s: "settled input i d" and a: "pd_aliases d (prov, pu_external input) = Some a" "al_project a = i"
  shows "\<exists>fs. settle_identity prov input d = Inr (i, d\<lparr>pd_fields := fs\<rparr>)"
proof -
  from resolve_again[OF s a] obtain p where p: "resolve_identity prov input d = Some p" "pe_id p = i" by blast
  have pok: "projects_ok d" using ok by (simp add: db_ok_def)
  from s obtain q where q: "q \<in> set (pd_projects d)" "pe_id q = i" "refreshed input d q" by (auto simp: settled_def)
  have "p = q" by (rule entry_of[OF pok resolved[OF p(1)] q(1) p(2) q(2)])
  then have "\<exists>fs. settle_contract prov input p d = Inr ((), d\<lparr>pd_fields := fs\<rparr>)"
    using q(3) by (auto simp: settle_contract_def refreshed_def split: option.splits intro: exI[of _ "pd_fields d"])
  then obtain fs where fs: "settle_contract prov input p d = Inr ((), d\<lparr>pd_fields := fs\<rparr>)" by blast
  have "projects_ok (d\<lparr>pd_fields := fs\<rparr>)" "settled input i (d\<lparr>pd_fields := fs\<rparr>)"
    using pok s by (simp_all add: projects_ok_def settled_def refreshed_def slug_taken_def)
  from refresh_again[OF this] show ?thesis using p fs by (auto simp: settle_identity_def tbind_def)
qed

lemma latest_by_append:
  "latest_by k (xs @ [z]) = (case latest_by k xs of None \<Rightarrow> Some z | Some y \<Rightarrow> if k z > k y then Some z else Some y)"
  by (induction xs) (auto split: option.split)

lemma latest_by_snoc: "latest_by k xs = Some y \<Longrightarrow> k z \<le> k y \<Longrightarrow> latest_by k (xs @ [z]) = Some y"
  by (simp add: latest_by_append)

lemma latest_by_max: "x \<in> set xs \<Longrightarrow> \<exists>y. latest_by k xs = Some y \<and> k x \<le> k y"
  by (induction xs) (fastforce split: option.splits)+

lemma find_snoc: "List.find p xs = None \<Longrightarrow> p x \<Longrightarrow> List.find p (xs @ [x]) = Some x"
  by (induction xs) (auto split: if_splits)

lemma ensure_again:
  "ensure_provider k d = Inr (prov, d1) \<Longrightarrow> pd_providers d' = pd_providers d1 \<Longrightarrow> ensure_provider k d' = Inr (prov, d')"
  by (auto simp: ensure_provider_def Let_def find_snoc split: option.splits)

lemma settled_frame:
  assumes "settled input i d" and "\<And>q. pe_id (f q) = pe_id q \<and> pe_chain (f q) = pe_chain q \<and> pe_contract (f q) = pe_contract q
      \<and> pe_slug (f q) = pe_slug q \<and> pe_name (f q) = pe_name q \<and> pe_image (f q) = pe_image q \<and> pe_confidence (f q) = pe_confidence q
      \<and> pe_last_seen (f q) = pe_last_seen q"
  shows "settled input i (set_project i f d)"
proof -
  from assms(1) obtain p where p: "p \<in> set (pd_projects d)" "pe_id p = i" "refreshed input d p" by (auto simp: settled_def)
  have "slug_taken j s (set_project i f d)" if st: "slug_taken j s d" for j s
  proof -
    from st obtain q where q: "q \<in> set (pd_projects d)" "pe_id q \<noteq> j" "pe_slug q = Some s" by (auto simp: slug_taken_def list_ex_iff)
    then have "(if pe_id q = i then f q else q) \<in> set (pd_projects (set_project i f d))" by (auto simp: set_project_def set_update_where)
    then show ?thesis unfolding slug_taken_def list_ex_iff by (rule bexI[rotated]) (use q assms(2)[of q] in simp)
  qed
  then have "refreshed input (set_project i f d) (f p)" using p(3) assms(2)[of p] by (auto simp: refreshed_def)
  moreover have "f p \<in> set (pd_projects (set_project i f d))" using p(1,2) by (auto simp: set_project_def intro: update_where_hit)
  moreover have "pe_id x = i" if "pu_contract input = Some c" "x \<in> set (pd_projects (set_project i f d))"
      "pe_chain x = pu_chain input" "pe_contract x = Some (to_lower c)" for c x
  proof -
    from that(2) obtain y where y: "y \<in> set (pd_projects d)" "x = (if pe_id y = i then f y else y)"
      by (auto simp: set_project_def set_update_where)
    then have "pe_id y = i" using assms(1,2) that(1,3,4) by (auto simp: settled_def split: if_splits)
    then show ?thesis using y(2) assms(2) by simp
  qed
  ultimately show ?thesis using p(2) assms(2) unfolding settled_def by metis
qed

lemma settled_same: "settled input i d \<Longrightarrow> pd_projects d' = pd_projects d \<Longrightarrow> settled input i d'"
  by (simp add: settled_def refreshed_def slug_taken_def)

lemma set_project_twice: "(\<And>q. f (f q) = f q \<and> pe_id (f q) = pe_id q) \<Longrightarrow> set_project i f (set_project i f d) = set_project i f d"
  by (simp add: set_project_def update_where_def o_def cong: map_cong)

lemma retire_again:
  "(is_detail input \<Longrightarrow> pu_stages input \<noteq> [] \<Longrightarrow> \<forall>q\<in>set (pd_stages d). \<not> retired_by i (map su_psid (pu_stages input)) q) \<Longrightarrow>
     retire_stages input i d = d"
  by (auto simp: retire_stages_def update_where_no_match)

lemma supply_again:
  assumes "pd_supplies d = pd_supplies (insert_supply input i d0)"
  shows "latest_supply_for i (insert_supply input i d) = latest_supply_for i d"
proof -
  define k :: "supply_entry \<Rightarrow> bool" where "k = (\<lambda>s. sn_project s = i)"
  have twice: "latest_by sn_observed (filter k xs @ [z, z]) = latest_by sn_observed (filter k xs @ [z])" for xs z
  proof -
    have "z \<in> set (filter k xs @ [z])" by simp
    from latest_by_max[OF this] obtain y where y: "latest_by sn_observed (filter k xs @ [z]) = Some y" "sn_observed z \<le> sn_observed y"
      by blast
    from latest_by_snoc[OF this] show ?thesis using y(1) by simp
  qed
  have n: "k (new_supply input i s m)" for s m by (simp add: new_supply_def k_def)
  show ?thesis
    using assms twice unfolding latest_supply_for_def k_def[symmetric]
    by (auto simp: insert_supply_def n split: option.splits)
qed

lemma frame_schedule:
  assumes "store_schedule t prov input i d = Inr (u, d')"
  shows "pd_providers d' = pd_providers d" and "pd_aliases d' = pd_aliases (upsert_alias prov input i d)"
    and "\<exists>d0. pd_supplies d' = pd_supplies (insert_supply input i d0)"
proof -
  have one: "upsert_stage ev t now i s d = Inr (u, d') \<Longrightarrow> pd_providers d' = pd_providers d \<and> pd_aliases d' = pd_aliases d" for ev now s d u d'
    by (auto simp: upsert_stage_def Let_def set_stage_def split: option.splits if_splits)
  have all: "upsert_stages ev t now i ss d = Inr (u, d') \<Longrightarrow> pd_providers d' = pd_providers d \<and> pd_aliases d' = pd_aliases d" for ev now ss d u d'
    by (induction ss arbitrary: d) (fastforce simp: tbind_def dest: one split: sum.splits)+
  obtain ev e where e: "insert_evidence prov (pu_evidence input) (upsert_alias prov input i d) = (ev, e)" by fastforce
  have "pd_providers e = pd_providers d" "pd_aliases e = pd_aliases (upsert_alias prov input i d)"
    using e by (auto simp: insert_evidence_def upsert_alias_def Let_def split: option.splits)
  moreover obtain d2 where d2: "upsert_stages ev t (pu_now input) i (pu_stages input) e = Inr ((), d2)"
      "d' = insert_supply input i (retire_stages input i d2)"
    using assms e by (auto simp: store_schedule_def tbind_def split: sum.splits)
  moreover have "pd_providers d' = pd_providers d2" "pd_aliases d' = pd_aliases d2"
    by (simp_all add: d2(2) insert_supply_def retire_stages_def split: option.split)
  ultimately show "pd_providers d' = pd_providers d" "pd_aliases d' = pd_aliases (upsert_alias prov input i d)"
    using all[OF d2(1)] by simp_all
  show "\<exists>d0. pd_supplies d' = pd_supplies (insert_supply input i d0)" using d2(2) by blast
qed

lemma store_again:
  assumes ok: "db_ok d" and c: "canonical_stages (pu_stages input)" and st: "list_all (\<lambda>s. stored i s d) (pu_stages input)"
    and re: "is_detail input \<Longrightarrow> pu_stages input \<noteq> [] \<Longrightarrow> \<forall>q\<in>set (pd_stages d). \<not> retired_by i (map su_psid (pu_stages input)) q"
    and al: "upsert_alias prov input i d = d"
  shows "\<exists>e. store_schedule t prov input i d = Inr ((), insert_supply input i e) \<and> pd_projects e = pd_projects d
           \<and> pd_stages e = pd_stages d \<and> pd_aliases e = pd_aliases d \<and> pd_supplies e = pd_supplies d"
proof -
  obtain ev e where e: "insert_evidence prov (pu_evidence input) (upsert_alias prov input i d) = (ev, e)" by fastforce
  have same: "pd_projects e = pd_projects d" "pd_stages e = pd_stages d" "pd_aliases e = pd_aliases d" "pd_supplies e = pd_supplies d"
    using pd_insert_evidence(1-4)[of prov "pu_evidence input" d] e unfolding al by simp_all
  have "stages_ok e" using insert_evidence_ok[OF ok, of prov "pu_evidence input"] e unfolding al by (simp add: db_ok_def)
  moreover have "list_all (\<lambda>s. stored i s e) (pu_stages input)" using st by (simp add: stored_def same)
  ultimately have "upsert_stages ev t (pu_now input) i (pu_stages input) e = Inr ((), e)" using upsert_stages_again[OF _ c] by blast
  moreover have "retire_stages input i e = e" by (rule retire_again) (use re same in simp)
  ultimately show ?thesis using same unfolding store_schedule_def e by (auto simp: tbind_def)
qed

text \<open>
. A discovery job may be delivered twice: merging the same answer again, at whatever later time, succeeds, finds the same
project, creates none, and leaves projects, schedules (versions included) and aliases as they are; only
evidence, supply readings and recorded conflicts grow.
\<close>

theorem upsert_idempotent:
  assumes "db_ok d" and "canonical_stages (pu_stages input)" and "upsert_project_from_source t input d = Inr (r, d1)"
  shows "\<exists>r' d2. upsert_project_from_source t' input d1 = Inr (r', d2) \<and> ur_project r' = ur_project r \<and> \<not> ur_created r'
     \<and> pd_projects d2 = pd_projects d1 \<and> pd_stages d2 = pd_stages d1 \<and> pd_aliases d2 = pd_aliases d1"
proof -
  let ?i = "ur_project r"
  obtain prov a b c where s: "ensure_provider (pu_provider input) d = Inr (prov, a)" "settle_identity prov input a = Inr (?i, b)"
    "store_schedule t prov input ?i b = Inr ((), c)" "settle_lifecycle (pu_now input) ?i c = Inr ((), d1)"
    by (rule upsert_cases[OF assms(3)])
  note ok1 = conjunct1[OF upsert_keeps_identity[OF assms(1,3)]] and m = merged_schedule[OF assms(1,3,2)]
  have oka: "db_ok a" by (rule ensure_provider_ok[OF assms(1) s(1)])
  note okb = settle_identity_ok[OF oka s(2)] and fs = frame_schedule[OF s(3)]
  obtain l where l: "compute_lifecycle (status_of (pu_now input) ?i c) = Inr l"
      and d1: "d1 = set_project ?i (\<lambda>q. q\<lparr>pe_lifecycle := l, pe_next_start := next_start_of (pu_now input) ?i c\<rparr>) c"
    using s(4) by (auto simp: settle_lifecycle_def split: sum.splits)
  have "pd_providers b = pd_providers a"
    using s(2) by (auto simp: settle_identity_def insert_project_def settle_contract_def refresh_project_def tbind_def Let_def
        split: option.splits if_splits sum.splits)
  then have prov: "ensure_provider (pu_provider input) d1 = Inr (prov, d1)" using ensure_again[OF s(1), of d1] fs(1) by (simp add: d1)
  have "settled input ?i c"
    using settled_same[OF settle_identity_settled[OF oka s(2)]] store_schedule_ok[OF conjunct1[OF okb] conjunct2[OF okb] s(3)] by simp
  then have st1: "settled input ?i d1" unfolding d1 by (rule settled_frame) simp
  have ala: "\<exists>x. pd_aliases d1 (prov, pu_external input) = Some x \<and> al_project x = ?i \<and> al_last_seen x = pu_now input"
    by (simp add: d1 fs(2) upsert_alias_def Let_def split: option.split)
  then obtain x where x: "pd_aliases d1 (prov, pu_external input) = Some x" "al_project x = ?i" "al_last_seen x = pu_now input" by blast
  obtain p where p: "resolve_identity prov input d1 = Some p" using resolve_again[OF st1 x(1,2)] by blast
  obtain f where f: "settle_identity prov input d1 = Inr (?i, d1\<lparr>pd_fields := f\<rparr>)" using settle_again[OF ok1 st1 x(1,2)] by blast
  let ?d = "d1\<lparr>pd_fields := f\<rparr>"
  have "x\<lparr>al_project := ?i, al_last_seen := pu_now input\<rparr> = x" using x(2,3) by (cases x) simp
  then have "upsert_alias prov input ?i ?d = ?d" using x(1) by (simp add: upsert_alias_def Let_def fun_upd_idem)
  then obtain e where e: "store_schedule t' prov input ?i ?d = Inr ((), insert_supply input ?i e)" "pd_projects e = pd_projects d1"
      "pd_stages e = pd_stages d1" "pd_aliases e = pd_aliases d1" "pd_supplies e = pd_supplies d1"
    using store_again[of ?d input ?i prov t'] ok1 assms(2) m(1,3) db_ok_same[OF ok1, of ?d] by (auto simp: stored_def)
  let ?e = "insert_supply input ?i e"
  have rows: "pd_projects ?e = pd_projects d1" "pd_stages ?e = pd_stages c" "pd_aliases ?e = pd_aliases d1"
    using e by (simp_all add: d1 insert_supply_def split: option.split)
  have "latest_supply_for ?i e = latest_supply_for ?i c" by (simp add: latest_supply_for_def e(5) d1)
  moreover obtain d0 where "pd_supplies e = pd_supplies (insert_supply input ?i d0)" using fs(3) e(5) by (auto simp: d1)
  ultimately have "latest_supply_for ?i ?e = latest_supply_for ?i c" using supply_again by metis
  then have status: "status_of (pu_now input) ?i ?e = status_of (pu_now input) ?i c" "next_start_of (pu_now input) ?i ?e = next_start_of (pu_now input) ?i c"
    using rows(2) by (simp_all add: status_of_def stages_of_def next_start_of_def)
  define g :: "project_entry \<Rightarrow> project_entry" where "g = (\<lambda>q. q\<lparr>pe_lifecycle := l, pe_next_start := next_start_of (pu_now input) ?i c\<rparr>)"
  have life: "settle_lifecycle (pu_now input) ?i ?e = Inr ((), set_project ?i g ?e)"
    by (simp add: settle_lifecycle_def status l g_def)
  have "set_project ?i g d1 = d1" unfolding d1 g_def[symmetric] by (rule set_project_twice) (simp add: g_def)
  then have "update_where (\<lambda>p. pe_id p = ?i) g (pd_projects d1) = pd_projects d1"
    by (metis (no_types) set_project_def project_db.select_convs(1) project_db.surjective project_db.update_convs(1))
  then have "pd_projects (set_project ?i g ?e) = pd_projects d1" by (simp add: set_project_def e(2))
  then have "upsert_project_from_source t' input d1 = Inr (upsert_result_of input (Some p) ?i, set_project ?i g ?e)
      \<and> pd_projects (set_project ?i g ?e) = pd_projects d1 \<and> pd_stages (set_project ?i g ?e) = pd_stages d1
      \<and> pd_aliases (set_project ?i g ?e) = pd_aliases d1"
    using prov f e(1) life p rows by (simp add: upsert_project_from_source_def tbind_def treturn_def d1)
  moreover have "ur_project (upsert_result_of input (Some p) ?i) = ?i" "\<not> ur_created (upsert_result_of input (Some p) ?i)"
    by (simp_all add: upsert_result_of_def)
  ultimately show ?thesis by blast
qed

section \<open>A run\<close>

definition empty_projects :: project_db where
  "empty_projects = \<lparr>pd_projects = [], pd_aliases = (\<lambda>_. None), pd_fields = [], pd_evidence = [], pd_stages = [], pd_supplies = [],
     pd_providers = [], pd_next = 0\<rparr>"

definition swoki_input :: project_upsert where
  "swoki_input = \<lparr>pu_provider = ''opensea'', pu_external = ''swoki'', pu_chain = 4663, pu_contract = Some ''0xAB'',
     pu_name = ''Swoki'', pu_slug = Some ''swoki'', pu_image = None, pu_confidence = Verified,
     pu_stages = [\<lparr>su_psid = ''ab12'', su_label = ''WL'', su_kind = Allowlist, su_price = Some ''0'', su_currency = None, su_max = Some 2,
        su_starts = 1000, su_ends = Some 2000, su_paused = False\<rparr>],
     pu_supply = None, pu_evidence = Some \<lparr>ei_kind = ''drops:detail'', ei_fetched = 0, ei_hash = ''h'', ei_payload = Null\<rparr>, pu_now = 500\<rparr>"

lemma empty_projects_ok: "db_ok empty_projects"
  by (simp add: db_ok_def projects_ok_def stages_ok_def aliases_ok_def empty_projects_def)

lemma swoki_canonical: "canonical_stages (pu_stages swoki_input)"
  by (simp add: canonical_stages_def swoki_input_def) code_simp

lemma swoki_detail: "is_detail swoki_input" "pu_stages swoki_input \<noteq> []"
  by (simp_all add: is_detail_def swoki_input_def)

lemma swoki_outcome:
  "case upsert_project_from_source 7 swoki_input empty_projects of
     Inl _ \<Rightarrow> False
   | Inr (r, d) \<Rightarrow> ur_project r = 1 \<and> ur_created r \<and> map (\<lambda>p. (pe_id p, pe_lifecycle p, pe_next_start p)) (pd_projects d) = [(1, NEXT, Some 1000)]
       \<and> list_ex (\<lambda>s. se_project s = 1) (pd_stages d)"
  by code_simp

lemma swoki_run:
  obtains r d where "upsert_project_from_source 7 swoki_input empty_projects = Inr (r, d)" "ur_project r = 1" "ur_created r"
    "map (\<lambda>p. (pe_id p, pe_lifecycle p, pe_next_start p)) (pd_projects d) = [(1, NEXT, Some 1000)]"
    "list_ex (\<lambda>s. se_project s = 1) (pd_stages d)"
  using swoki_outcome by (auto split: sum.splits)

lemma upsert_keeps_identity_witness:
  "\<exists>r d. upsert_project_from_source 7 swoki_input empty_projects = Inr (r, d) \<and> db_ok d \<and> ur_created r"
  by (rule swoki_run) (use upsert_keeps_identity[OF empty_projects_ok] in blast)

lemma upsert_idempotent_witness:
  "\<exists>r d r' d'. upsert_project_from_source 7 swoki_input empty_projects = Inr (r, d) \<and> ur_created r
     \<and> upsert_project_from_source 99 swoki_input d = Inr (r', d') \<and> \<not> ur_created r' \<and> pd_stages d' = pd_stages d"
  by (rule swoki_run) (use upsert_idempotent[OF empty_projects_ok swoki_canonical, of 7 _ _ 99] in blast)



end
