(* ===== verification/OpenSeaData.thy ===== *)
theory OpenSeaData
  imports Projects
begin

text \<open>
  The boundary to OpenSea's data: what its JSON must look like (\<open>packages/providers/src/opensea/schemas.ts\<close>)
  and what the program makes of it (\<open>normalizer.ts\<close>). A schema is the function that returns the parsed value, or
  \<open>None\<close> where the parser rejects; a field keeps apart what is missing, null and present. \<open>Date.parse\<close>, the
  hash of a payload and the text of a rejection are parameters.
\<close>

section \<open>Readings of a value\<close>

datatype 'a field = Missing | Nullish | Val 'a

fun or_null :: "'a field \<Rightarrow> 'a option" where
  "or_null (Val x) = Some x"
| "or_null _ = None"

definition z_string :: "js \<Rightarrow> string option" where
  "z_string v = (case v of JStr s \<Rightarrow> Some s | _ \<Rightarrow> None)"

definition z_nonempty :: "js \<Rightarrow> string option" where
  "z_nonempty v = (case v of JStr s \<Rightarrow> if s \<noteq> [] then Some s else None | _ \<Rightarrow> None)"

definition z_boolean :: "js \<Rightarrow> bool option" where
  "z_boolean v = (case v of JBool b \<Rightarrow> Some b | _ \<Rightarrow> None)"

definition z_regex :: "(string \<Rightarrow> bool) \<Rightarrow> js \<Rightarrow> string option" where
  "z_regex p v = (case v of JStr s \<Rightarrow> if p s then Some s else None | _ \<Rightarrow> None)"

definition z_optional :: "(js \<Rightarrow> 'a option) \<Rightarrow> js \<Rightarrow> 'a field option" where
  "z_optional d v = (case v of Undef \<Rightarrow> Some Missing | _ \<Rightarrow> map_option Val (d v))"

definition z_nullish :: "(js \<Rightarrow> 'a option) \<Rightarrow> js \<Rightarrow> 'a field option" where
  "z_nullish d v = (case v of Undef \<Rightarrow> Some Missing | Null \<Rightarrow> Some Nullish | _ \<Rightarrow> map_option Val (d v))"

fun z_all :: "(js \<Rightarrow> 'a option) \<Rightarrow> js list \<Rightarrow> 'a list option" where
  "z_all d [] = Some []"
| "z_all d (v # vs) = (case d v of None \<Rightarrow> None | Some x \<Rightarrow> map_option ((#) x) (z_all d vs))"

definition z_array :: "(js \<Rightarrow> 'a option) \<Rightarrow> js \<Rightarrow> 'a list option" where
  "z_array d v = (case v of JArr vs \<Rightarrow> z_all d vs | _ \<Rightarrow> None)"

definition z_default :: "'a \<Rightarrow> (js \<Rightarrow> 'a option) \<Rightarrow> js \<Rightarrow> 'a option" where
  "z_default x d v = (case v of Undef \<Rightarrow> Some x | _ \<Rightarrow> d v)"

definition z_object :: "(js \<Rightarrow> 'a option) \<Rightarrow> js \<Rightarrow> 'a option" where
  "z_object d v = (case v of JObj _ \<Rightarrow> d v | _ \<Rightarrow> None)"

definition obind :: "'a option \<Rightarrow> ('a \<Rightarrow> 'b option) \<Rightarrow> 'b option" where
  "obind x f = (case x of None \<Rightarrow> None | Some y \<Rightarrow> f y)"

definition digits_only :: "string \<Rightarrow> bool" where
  "digits_only s \<longleftrightarrow> s \<noteq> [] \<and> list_all is_digit s"

definition is_evm_address :: "string \<Rightarrow> bool" where
  "is_evm_address s \<longleftrightarrow> starts_with ''0x'' s \<and> length s = 42 \<and> list_all is_hex (drop 2 s)"

definition is_calldata :: "string \<Rightarrow> bool" where
  "is_calldata s \<longleftrightarrow> starts_with ''0x'' s \<and> list_all is_hex (drop 2 s)"

definition wei_string :: "js \<Rightarrow> string option" where
  "wei_string = z_regex digits_only"

text \<open>A decimal string as a number, or null when it is not a safe integer.\<close>

definition positive_int_string :: "js \<Rightarrow> int option option" where
  "positive_int_string v =
     map_option (\<lambda>s. case parse_int_prefix s of
        Some n \<Rightarrow> if n \<le> 2 ^ 53 - 1 then Some \<lfloor>n\<rfloor> else None
      | None \<Rightarrow> None) (z_regex digits_only v)"

record boundary =
  bd_date :: "string \<Rightarrow> int option"
  bd_issues :: "js \<Rightarrow> string"

definition iso_time :: "boundary \<Rightarrow> js \<Rightarrow> string option" where
  "iso_time b = z_regex (\<lambda>s. bd_date b s \<noteq> None)"

section \<open>Schemas\<close>

record os_stage =
  os_uuid :: string
  os_type :: string
  os_start :: string
  os_end :: "string field"
  os_label :: "string field"
  os_price :: "string field"
  os_currency :: "string field"
  os_max :: "int option field"
  os_paused :: "bool field"

definition stage_schema :: "boundary \<Rightarrow> js \<Rightarrow> os_stage option" where
  "stage_schema b = z_object (\<lambda>v.
     obind (z_nonempty (js_prop v ''uuid'')) (\<lambda>uuid.
     obind (z_nonempty (js_prop v ''stage_type'')) (\<lambda>ty.
     obind (iso_time b (js_prop v ''start_time'')) (\<lambda>start.
     obind (z_nullish (iso_time b) (js_prop v ''end_time'')) (\<lambda>stop.
     obind (z_optional z_string (js_prop v ''label'')) (\<lambda>lbl.
     obind (z_nullish wei_string (js_prop v ''price'')) (\<lambda>price.
     obind (z_nullish z_string (js_prop v ''price_currency_address'')) (\<lambda>currency.
     obind (z_nullish positive_int_string (js_prop v ''max_per_wallet'')) (\<lambda>cap.
     obind (z_optional z_boolean (js_prop v ''paused'')) (\<lambda>paused.
       Some \<lparr>os_uuid = uuid, os_type = ty, os_start = start, os_end = stop, os_label = lbl, os_price = price,
             os_currency = currency, os_max = cap, os_paused = paused\<rparr>))))))))))"

record drop_row =
  dr_chain :: string
  dr_slug :: string
  dr_contract :: "string field"
  dr_name :: "string field"
  dr_image :: "string field"
  dr_url :: "string field"
  dr_minting :: "bool field"
  dr_type :: "string field"
  dr_active :: "os_stage field"
  dr_next :: "os_stage field"
  dr_stages :: "os_stage list field"

definition drop_row_schema :: "boundary \<Rightarrow> js \<Rightarrow> drop_row option" where
  "drop_row_schema b = z_object (\<lambda>v.
     obind (z_nonempty (js_prop v ''chain'')) (\<lambda>chain.
     obind (z_nonempty (js_prop v ''collection_slug'')) (\<lambda>slug.
     obind (z_nullish (z_regex is_evm_address) (js_prop v ''contract_address'')) (\<lambda>contract.
     obind (z_optional z_string (js_prop v ''collection_name'')) (\<lambda>name.
     obind (z_nullish z_string (js_prop v ''image_url'')) (\<lambda>image.
     obind (z_nullish z_string (js_prop v ''opensea_url'')) (\<lambda>url.
     obind (z_optional z_boolean (js_prop v ''is_minting'')) (\<lambda>minting.
     obind (z_optional z_string (js_prop v ''drop_type'')) (\<lambda>ty.
     obind (z_nullish (stage_schema b) (js_prop v ''active_stage'')) (\<lambda>active.
     obind (z_nullish (stage_schema b) (js_prop v ''next_stage'')) (\<lambda>nxt.
     obind (z_optional (z_array (stage_schema b)) (js_prop v ''stages'')) (\<lambda>stages.
       Some \<lparr>dr_chain = chain, dr_slug = slug, dr_contract = contract, dr_name = name, dr_image = image, dr_url = url,
             dr_minting = minting, dr_type = ty, dr_active = active, dr_next = nxt, dr_stages = stages\<rparr>))))))))))))"

text \<open>A page: the rows that parse, how many do not, and the cursor of the next one.\<close>

record 'r page =
  pg_rows :: "'r list"
  pg_malformed :: nat
  pg_next :: "string option"

text \<open>The envelope of a listing: the raw rows under \<open>key\<close> and the cursor, or the parser's rejection.\<close>

definition page_schema :: "boundary \<Rightarrow> string \<Rightarrow> js \<Rightarrow> thrown + (js list \<times> string option)" where
  "page_schema b key v =
     (case z_object (\<lambda>v. obind (z_default [] (z_array Some) (js_prop v key)) (\<lambda>rows.
              obind (z_nullish z_string (js_prop v ''next'')) (\<lambda>nxt. Some (rows, or_null nxt)))) v of
        None \<Rightarrow> Inl (ThrownError (bd_issues b v))
      | Some p \<Rightarrow> Inr p)"

fun safe_rows :: "(js \<Rightarrow> 'r option) \<Rightarrow> js list \<Rightarrow> 'r list \<times> nat" where
  "safe_rows d [] = ([], 0)"
| "safe_rows d (v # vs) =
     (let (rows, bad) = safe_rows d vs in case d v of Some r \<Rightarrow> (r # rows, bad) | None \<Rightarrow> (rows, Suc bad))"

definition parse_drops_page :: "boundary \<Rightarrow> js \<Rightarrow> thrown + drop_row page" where
  "parse_drops_page b v = rmap (\<lambda>(raw, nxt). let (rows, bad) = safe_rows (drop_row_schema b) raw
      in \<lparr>pg_rows = rows, pg_malformed = bad, pg_next = nxt\<rparr>) (page_schema b ''drops'' v)"

definition dash_free :: "string \<Rightarrow> string" where
  "dash_free = filter (\<lambda>c. c \<noteq> CHR ''-'' \<and> c \<noteq> CHR ''_'')"

definition matches_chain :: "string \<Rightarrow> string \<Rightarrow> bool" where
  "matches_chain row_chain target_slug =
     (let normalized = to_lower row_chain; target = to_lower target_slug
      in normalized = target \<or> normalized = ''4663'' \<or> dash_free normalized = dash_free target \<or> infix_of target normalized)"

record collection_contract =
  cn_address :: string
  cn_chain :: string

record collection_data =
  cd_slug :: string
  cd_name :: "string field"
  cd_description :: "string field"
  cd_image :: "string field"
  cd_contracts :: "collection_contract list"
  cd_created :: "string field"

definition collection_contract_schema :: "js \<Rightarrow> collection_contract option" where
  "collection_contract_schema = z_object (\<lambda>v.
     obind (z_regex is_evm_address (js_prop v ''address'')) (\<lambda>a.
     obind (z_nonempty (js_prop v ''chain'')) (\<lambda>c. Some \<lparr>cn_address = a, cn_chain = c\<rparr>)))"

definition collection_row_schema :: "js \<Rightarrow> collection_data option" where
  "collection_row_schema = z_object (\<lambda>v.
     obind (z_nonempty (js_prop v ''collection'')) (\<lambda>slug.
     obind (z_optional z_string (js_prop v ''name'')) (\<lambda>name.
     obind (z_nullish z_string (js_prop v ''description'')) (\<lambda>description.
     obind (z_nullish z_string (js_prop v ''image_url'')) (\<lambda>image.
     obind (z_default [] (z_array collection_contract_schema) (js_prop v ''contracts'')) (\<lambda>contracts.
     obind (z_nullish z_string (js_prop v ''created_date'')) (\<lambda>created.
       Some \<lparr>cd_slug = slug, cd_name = name, cd_description = description, cd_image = image, cd_contracts = contracts,
             cd_created = created\<rparr>)))))))"

record collection_row =
  cr_slug :: string
  cr_name :: string
  cr_image :: "string option"
  cr_contract :: string
  cr_created :: "string option"

fun or_else :: "'a field \<Rightarrow> 'a \<Rightarrow> 'a" where
  "or_else (Val x) d = x"
| "or_else _ d = d"

definition on_chain_row :: "string \<Rightarrow> collection_data \<Rightarrow> collection_row option" where
  "on_chain_row chain d =
     map_option (\<lambda>c. \<lparr>cr_slug = cd_slug d, cr_name = or_else (cd_name d) (cd_slug d), cr_image = or_null (cd_image d),
                      cr_contract = cn_address c, cr_created = or_null (cd_created d)\<rparr>)
       (List.find (\<lambda>c. matches_chain (cn_chain c) chain) (cd_contracts d))"

definition parse_collections_page :: "boundary \<Rightarrow> js \<Rightarrow> string \<Rightarrow> thrown + collection_row page" where
  "parse_collections_page b v chain = rmap (\<lambda>(raw, nxt). let (rows, bad) = safe_rows collection_row_schema raw
      in \<lparr>pg_rows = List.map_filter (on_chain_row chain) rows, pg_malformed = bad, pg_next = nxt\<rparr>)
      (page_schema b ''collections'' v)"

record collection_socials =
  so_twitter :: "string option"
  so_project :: "string option"
  so_discord :: "string option"
  so_safelist :: "string option"

definition blank_to_null :: "string field \<Rightarrow> string option" where
  "blank_to_null v = (case v of Val s \<Rightarrow> if trim s = [] then None else Some (trim s) | _ \<Rightarrow> None)"

definition drop_at :: "string \<Rightarrow> string" where
  "drop_at s = (if s \<noteq> [] \<and> hd s = CHR ''@'' then tl s else s)"

definition parse_collection_socials :: "boundary \<Rightarrow> js \<Rightarrow> thrown + collection_socials" where
  "parse_collection_socials b v =
     (case z_object (\<lambda>v.
         obind (z_nonempty (js_prop v ''collection'')) (\<lambda>_.
         obind (z_nullish z_string (js_prop v ''twitter_username'')) (\<lambda>twitter.
         obind (z_nullish z_string (js_prop v ''project_url'')) (\<lambda>project.
         obind (z_nullish z_string (js_prop v ''discord_url'')) (\<lambda>discord.
         obind (z_nullish z_string (js_prop v ''safelist_status'')) (\<lambda>safelist.
           Some \<lparr>so_twitter = map_option drop_at (blank_to_null twitter), so_project = blank_to_null project,
                 so_discord = blank_to_null discord, so_safelist = blank_to_null safelist\<rparr>)))))) v of
        None \<Rightarrow> Inl (ThrownError (bd_issues b v))
      | Some s \<Rightarrow> Inr s)"

record eligibility_stage =
  es_uuid :: string
  es_eligible :: bool
  es_total :: "int option field"
  es_per_token :: "int option field"
  es_price :: "string field"

definition eligibility_stage_schema :: "js \<Rightarrow> eligibility_stage option" where
  "eligibility_stage_schema = z_object (\<lambda>v.
     obind (z_nonempty (js_prop v ''stage_uuid'')) (\<lambda>uuid.
     obind (z_boolean (js_prop v ''is_eligible'')) (\<lambda>eligible.
     obind (z_nullish positive_int_string (js_prop v ''max_total_mintable_by_wallet'')) (\<lambda>tot.
     obind (z_nullish positive_int_string (js_prop v ''max_total_mintable_by_wallet_per_token'')) (\<lambda>per_token.
     obind (z_nullish wei_string (js_prop v ''price'')) (\<lambda>price.
       Some \<lparr>es_uuid = uuid, es_eligible = eligible, es_total = tot, es_per_token = per_token, es_price = price\<rparr>))))))"

definition parse_eligibility :: "boundary \<Rightarrow> js \<Rightarrow> thrown + (eligibility_stage list \<times> nat)" where
  "parse_eligibility b v =
     (case z_object (\<lambda>v. z_default [] (z_array Some) (js_prop v ''stages'')) v of
        None \<Rightarrow> Inl (ThrownError (bd_issues b v))
      | Some raw \<Rightarrow> Inr (safe_rows eligibility_stage_schema raw))"

text \<open>The tokens of a collection; a trait's value may be a string or a number.\<close>

datatype trait_value = TStr string | TNum rat

definition z_trait_value :: "js \<Rightarrow> trait_value option" where
  "z_trait_value v = (case v of JStr s \<Rightarrow> Some (TStr s) | JNum n \<Rightarrow> Some (TNum n) | _ \<Rightarrow> None)"

record nft_trait =
  tr_type :: string
  tr_value :: trait_value
  tr_display :: "string field"
  tr_max :: "trait_value field"

record nft_row =
  nr_id :: string
  nr_name :: "string field"
  nr_image :: "string field"
  nr_display_image :: "string field"
  nr_traits :: "nft_trait list"

definition nft_trait_schema :: "js \<Rightarrow> nft_trait option" where
  "nft_trait_schema = z_object (\<lambda>v.
     obind (z_nonempty (js_prop v ''trait_type'')) (\<lambda>ty.
     obind (z_trait_value (js_prop v ''value'')) (\<lambda>x.
     obind (z_nullish z_string (js_prop v ''display_type'')) (\<lambda>d.
     obind (z_nullish z_trait_value (js_prop v ''max_value'')) (\<lambda>m.
       Some \<lparr>tr_type = ty, tr_value = x, tr_display = d, tr_max = m\<rparr>)))))"

definition nft_row_schema :: "js \<Rightarrow> nft_row option" where
  "nft_row_schema = z_object (\<lambda>v.
     obind (z_nonempty (js_prop v ''identifier'')) (\<lambda>i.
     obind (z_nullish z_string (js_prop v ''name'')) (\<lambda>name.
     obind (z_nullish z_string (js_prop v ''image_url'')) (\<lambda>image.
     obind (z_nullish z_string (js_prop v ''display_image_url'')) (\<lambda>display.
     obind (z_default [] (z_array nft_trait_schema) (js_prop v ''traits'')) (\<lambda>traits.
       Some \<lparr>nr_id = i, nr_name = name, nr_image = image, nr_display_image = display, nr_traits = traits\<rparr>))))))"

definition parse_nfts_page :: "boundary \<Rightarrow> js \<Rightarrow> thrown + nft_row page" where
  "parse_nfts_page b v = rmap (\<lambda>(raw, nxt). let (rows, bad) = safe_rows nft_row_schema raw
      in \<lparr>pg_rows = rows, pg_malformed = bad, pg_next = nxt\<rparr>) (page_schema b ''nfts'' v)"

section \<open>Answers to single requests\<close>

definition seconds_number :: "js \<Rightarrow> rat option" where
  "seconds_number v =
     (case v of JStr s \<Rightarrow> if digits_only s then parse_int_prefix s else None
      | JNum n \<Rightarrow> if n = of_int \<lfloor>n\<rfloor> \<and> 0 \<le> n \<and> n \<le> 2 ^ 53 - 1 then Some n else None
      | _ \<Rightarrow> None)"

record exchange_response =
  ex_token :: "string option"
  ex_seconds :: rat

definition first_val :: "'a field list \<Rightarrow> 'a option" where
  "first_val fs = (case List.map_filter or_null fs of [] \<Rightarrow> None | x # _ \<Rightarrow> Some x)"

definition exchange_response_schema :: "js \<Rightarrow> exchange_response option" where
  "exchange_response_schema = z_object (\<lambda>v.
     obind (z_optional z_nonempty (js_prop v ''accessToken'')) (\<lambda>a.
     obind (z_optional z_nonempty (js_prop v ''access_token'')) (\<lambda>a'.
     obind (z_optional z_nonempty (js_prop v ''token'')) (\<lambda>t.
     obind (z_nullish seconds_number (js_prop v ''expiresIn'')) (\<lambda>e.
     obind (z_nullish seconds_number (js_prop v ''expires_in'')) (\<lambda>e'.
       Some \<lparr>ex_token = first_val [a, a', t],
             ex_seconds = (case first_val [e, e'] of None \<Rightarrow> 12 * 60 * 60 | Some s \<Rightarrow> s)\<rparr>))))))"

record instant_key_response =
  ik_key :: "string option"
  ik_expires :: "string option"

definition instant_key_response_schema :: "boundary \<Rightarrow> js \<Rightarrow> instant_key_response option" where
  "instant_key_response_schema b = z_object (\<lambda>v.
     obind (z_optional z_nonempty (js_prop v ''api_key'')) (\<lambda>k.
     obind (z_optional z_nonempty (js_prop v ''apiKey'')) (\<lambda>k'.
     obind (z_nullish (iso_time b) (js_prop v ''expires_at'')) (\<lambda>e.
     obind (z_nullish (iso_time b) (js_prop v ''expiresAt'')) (\<lambda>e'.
       Some \<lparr>ik_key = first_val [k, k'], ik_expires = first_val [e, e']\<rparr>)))))"

record drop_mint_transaction =
  dm_target :: string
  dm_calldata :: string
  dm_value :: string

definition drop_mint_response_schema :: "js \<Rightarrow> drop_mint_transaction option" where
  "drop_mint_response_schema = z_object (\<lambda>v.
     obind (z_optional (z_regex is_evm_address) (js_prop v ''target'')) (\<lambda>target.
     obind (z_optional (z_regex is_calldata) (js_prop v ''calldata'')) (\<lambda>calldata.
     obind (z_optional (z_regex is_evm_address) (js_prop v ''to'')) (\<lambda>to'.
     obind (z_optional (z_regex is_calldata) (js_prop v ''data'')) (\<lambda>data.
     obind (wei_string (js_prop v ''value'')) (\<lambda>value.
     obind (first_val [target, to']) (\<lambda>t.
     obind (first_val [calldata, data]) (\<lambda>c.
       Some \<lparr>dm_target = t, dm_calldata = c, dm_value = value\<rparr>))))))))"

record chain_info =
  ci_chain :: string
  ci_name :: string

definition chain_info_schema :: "js \<Rightarrow> chain_info option" where
  "chain_info_schema = z_object (\<lambda>v.
     obind (z_nonempty (js_prop v ''chain'')) (\<lambda>c.
     obind (z_nonempty (js_prop v ''name'')) (\<lambda>n.
     obind (z_optional z_string (js_prop v ''symbol'')) (\<lambda>_.
     obind (z_optional z_string (js_prop v ''block_explorer_url'')) (\<lambda>_. Some \<lparr>ci_chain = c, ci_name = n\<rparr>)))))"

definition chains_response_schema :: "js \<Rightarrow> chain_info list option" where
  "chains_response_schema = z_object (\<lambda>v. z_array chain_info_schema (js_prop v ''chains''))"

section \<open>Normalization\<close>

definition stage_kind_map :: "(string \<times> stage_kind) list" where
  "stage_kind_map =
     [(''public_sale'', Public), (''public'', Public), (''open'', Public), (''signed_public'', Public),
      (''allowlist'', Allowlist), (''allowlist_sale'', Allowlist), (''allow_list'', Allowlist), (''allowlist_presale'', Allowlist),
      (''signed_presale'', Allowlist), (''presale'', Presale), (''pre_sale'', Presale), (''gtd'', Gtd), (''guaranteed'', Gtd),
      (''community'', Community), (''community_sale'', Community), (''token_gated'', Community), (''holder'', Community),
      (''holders'', Community)]"

definition is_small_letter :: "char \<Rightarrow> bool" where
  "is_small_letter c \<longleftrightarrow> 97 \<le> code_of c \<and> code_of c \<le> 122"

text \<open>The regular expression for the word \<open>wl\<close>: no letter before it and none after it.\<close>

fun wl_word :: "bool \<Rightarrow> string \<Rightarrow> bool" where
  "wl_word boundary_before [] = False"
| "wl_word boundary_before (c # cs) =
     ((boundary_before \<and> starts_with ''wl'' (c # cs) \<and> (drop 2 (c # cs) = [] \<or> \<not> is_small_letter (hd (drop 2 (c # cs)))))
      \<or> wl_word (\<not> is_small_letter c) cs)"

definition gtd_marker :: "string \<Rightarrow> bool" where
  "gtd_marker raw \<longleftrightarrow> infix_of ''gtd'' raw \<or> infix_of ''guarantee'' raw"

definition community_marker :: "string \<Rightarrow> bool" where
  "community_marker raw \<longleftrightarrow> infix_of ''holder'' raw \<or> infix_of ''token_gated'' raw \<or> infix_of ''community'' raw"

definition allowlist_marker :: "string \<Rightarrow> bool" where
  "allowlist_marker raw \<longleftrightarrow> infix_of ''presale'' raw \<or> infix_of ''allowlist'' raw \<or> infix_of ''allow_list'' raw
     \<or> infix_of ''signed'' raw \<or> infix_of ''whitelist'' raw \<or> infix_of ''fcfs'' raw \<or> wl_word True raw"

definition stage_type_to_kind :: "string \<Rightarrow> stage_kind" where
  "stage_type_to_kind stage_type =
     (let raw = to_lower stage_type
      in case map_of stage_kind_map raw of
           Some k \<Rightarrow> k
         | None \<Rightarrow>
             if gtd_marker raw then Gtd
             else if community_marker raw then Community
             else if allowlist_marker raw then Allowlist
             else if infix_of ''public'' raw \<or> infix_of ''open'' raw then Public
             else UnknownKind)"

text \<open>The schema has checked the dates, so the default is never used.\<close>

definition date_ms :: "boundary \<Rightarrow> string \<Rightarrow> int" where
  "date_ms b s = (case bd_date b s of Some t \<Rightarrow> t | None \<Rightarrow> 0)"

definition to_stage_upsert :: "boundary \<Rightarrow> os_stage \<Rightarrow> stage_upsert" where
  "to_stage_upsert b s =
     \<lparr>su_psid = normalize_stage_id (os_uuid s), su_label = or_else (os_label s) (os_type s), su_kind = stage_type_to_kind (os_type s),
      su_price = or_null (os_price s), su_currency = or_null (os_currency s), su_max = Option.bind (or_null (os_max s)) id,
      su_starts = date_ms b (os_start s), su_ends = map_option (date_ms b) (or_null (os_end s)),
      su_paused = or_else (os_paused s) False\<rparr>"

record normalize_options =
  no_chain :: int
  no_now :: int
  no_feed :: "string option"

fun js_null :: "('a \<Rightarrow> js) \<Rightarrow> 'a option \<Rightarrow> js" where
  "js_null f None = Null"
| "js_null f (Some x) = f x"

definition drop_upsert :: "normalize_options \<Rightarrow> drop_row \<Rightarrow> confidence \<Rightarrow> stage_upsert list \<Rightarrow> evidence_input \<Rightarrow> project_upsert" where
  "drop_upsert opts row conf ss ev =
     \<lparr>pu_provider = ''opensea'', pu_external = dr_slug row, pu_chain = no_chain opts, pu_contract = or_null (dr_contract row),
      pu_name = or_else (dr_name row) (dr_slug row), pu_slug = Some (dr_slug row), pu_image = or_null (dr_image row),
      pu_confidence = conf, pu_stages = ss, pu_supply = None, pu_evidence = Some ev, pu_now = no_now opts\<rparr>"

text \<open>\<open>hash\<close> is the first half of the SHA-256 of the row's JSON text.\<close>

definition list_stages :: "boundary \<Rightarrow> drop_row \<Rightarrow> stage_upsert list" where
  "list_stages b row = map (to_stage_upsert b) (List.map_filter or_null [dr_active row, dr_next row])"

definition normalize_drop_row :: "(drop_row \<Rightarrow> string) \<Rightarrow> boundary \<Rightarrow> drop_row \<Rightarrow> normalize_options \<Rightarrow> project_upsert" where
  "normalize_drop_row hash b row opts =
     (let ss = list_stages b row
      in drop_upsert opts row SingleSource ss
           \<lparr>ei_kind = ''drops:'' @ (case no_feed opts of None \<Rightarrow> ''list'' | Some f \<Rightarrow> f), ei_fetched = no_now opts, ei_hash = hash row,
            ei_payload = JObj [(''chain'', JStr (dr_chain row)), (''slug'', JStr (dr_slug row)),
              (''contract'', js_null JStr (or_null (dr_contract row))), (''is_minting'', js_null JBool (or_null (dr_minting row))),
              (''drop_type'', js_null JStr (or_null (dr_type row))), (''stages'', JArr (map (JStr \<circ> su_psid) ss))]\<rparr>)"

definition normalize_collection_row :: "(collection_row \<Rightarrow> string) \<Rightarrow> collection_row \<Rightarrow> normalize_options \<Rightarrow> project_upsert" where
  "normalize_collection_row hash row opts =
     \<lparr>pu_provider = ''opensea'', pu_external = cr_slug row, pu_chain = no_chain opts, pu_contract = Some (cr_contract row),
      pu_name = cr_name row, pu_slug = Some (cr_slug row), pu_image = cr_image row, pu_confidence = SingleSource,
      pu_stages = [], pu_supply = None,
      pu_evidence = Some \<lparr>ei_kind = ''collections:list'', ei_fetched = no_now opts, ei_hash = hash row,
        ei_payload = JObj [(''slug'', JStr (cr_slug row)), (''contract'', JStr (cr_contract row)),
          (''createdDate'', js_null JStr (cr_created row))]\<rparr>,
      pu_now = no_now opts\<rparr>"

text \<open>The full list, and the active and next stages that are not in it.\<close>

definition merge_extra :: "stage_upsert option \<Rightarrow> stage_upsert list \<Rightarrow> stage_upsert list" where
  "merge_extra extra merged =
     (case extra of
        None \<Rightarrow> merged
      | Some s \<Rightarrow> if list_ex (\<lambda>m. su_psid m = su_psid s) merged then merged else merged @ [s])"

definition detail_stages :: "boundary \<Rightarrow> drop_row \<Rightarrow> stage_upsert list" where
  "detail_stages b row =
     merge_extra (map_option (to_stage_upsert b) (or_null (dr_next row)))
       (merge_extra (map_option (to_stage_upsert b) (or_null (dr_active row)))
          (map (to_stage_upsert b) (or_else (dr_stages row) [])))"

definition normalize_drop_detail :: "(drop_row \<Rightarrow> string) \<Rightarrow> boundary \<Rightarrow> js \<Rightarrow> normalize_options \<Rightarrow> thrown + project_upsert" where
  "normalize_drop_detail hash b payload opts =
     (case drop_row_schema b payload of
        None \<Rightarrow> Inl (ThrownError (bd_issues b payload))
      | Some row \<Rightarrow>
          let merged = detail_stages b row
          in Inr (drop_upsert opts row Verified merged
               \<lparr>ei_kind = ''drops:detail'', ei_fetched = no_now opts, ei_hash = hash row,
                ei_payload = JObj [(''chain'', JStr (dr_chain row)), (''slug'', JStr (dr_slug row)),
                  (''contract'', js_null JStr (or_null (dr_contract row))), (''is_minting'', js_null JBool (or_null (dr_minting row))),
                  (''stageCount'', JNum (of_nat (length merged)))]\<rparr>))"

record eligibility_result =
  er_stage :: string
  er_eligible :: bool
  er_max_mintable :: "int option"
  er_price :: "string option"

definition normalize_eligibility :: "eligibility_stage list \<Rightarrow> (string \<Rightarrow> stage_upsert option) \<Rightarrow> eligibility_result list \<times> nat" where
  "normalize_eligibility ss by_uuid =
     (map (\<lambda>s. \<lparr>er_stage = normalize_stage_id (es_uuid s), er_eligible = es_eligible s,
               er_max_mintable = (case Option.bind (or_null (es_total s)) id of
                   Some m \<Rightarrow> Some m | None \<Rightarrow> Option.bind (or_null (es_per_token s)) id),
               er_price = or_null (es_price s)\<rparr>) ss,
      length (filter (\<lambda>s. by_uuid (normalize_stage_id (es_uuid s)) = None) ss))"

section \<open>What the normalization guarantees\<close>

definition restriction_marker :: "string \<Rightarrow> bool" where
  "restriction_marker raw \<longleftrightarrow> gtd_marker raw \<or> community_marker raw \<or> allowlist_marker raw"

text \<open>
. A stage whose type names a restriction is never taken for a public one, whatever else its name says (an
\<open>fcfs_open\<close> is not open): only the four public names of the table, and names without any restriction marker
that say public or open, are public; everything else is a stage the eligibility check looks at.
\<close>

theorem restricted_never_public:
  "stage_type_to_kind ty = Public \<longleftrightarrow>
     to_lower ty \<in> {''public_sale'', ''public'', ''open'', ''signed_public''} \<or>
     (map_of stage_kind_map (to_lower ty) = None \<and> \<not> restriction_marker (to_lower ty)
      \<and> (infix_of ''public'' (to_lower ty) \<or> infix_of ''open'' (to_lower ty)))"
proof -
  have t: "map_of stage_kind_map raw = Some Public \<longleftrightarrow> raw \<in> {''public_sale'', ''public'', ''open'', ''signed_public''}" for raw
    by (simp add: stage_kind_map_def)
  show ?thesis
  proof (cases "map_of stage_kind_map (to_lower ty)")
    case None
    then have "to_lower ty \<notin> {''public_sale'', ''public'', ''open'', ''signed_public''}" using t[of "to_lower ty"] by auto
    then show ?thesis using None by (simp add: stage_type_to_kind_def Let_def restriction_marker_def)
  next
    case (Some k)
    then show ?thesis using t[of "to_lower ty"] by (auto simp: stage_type_to_kind_def)
  qed
qed

lemma canonical_normalized: "canonical_id (normalize_stage_id s) = normalize_stage_id s"
  by (simp add: canonical_id_def normalize_stage_id_def to_lower_def filter_map o_def lower_char_dash)

lemma canonical_upsert [simp]: "canonical_id (su_psid (to_stage_upsert b s)) = su_psid (to_stage_upsert b s)"
  by (simp add: to_stage_upsert_def canonical_normalized)

lemma merge_extra_canonical:
  assumes "canonical_stages ss" "\<And>s. extra = Some s \<Longrightarrow> canonical_id (su_psid s) = su_psid s"
  shows "canonical_stages (merge_extra extra ss)"
  using assms by (auto simp: merge_extra_def canonical_stages_def list_ex_iff split: option.split)

lemma detail_canonical:
  assumes "distinct (map (normalize_stage_id \<circ> os_uuid) (or_else (dr_stages row) []))"
  shows "canonical_stages (detail_stages b row)"
proof -
  have "su_psid \<circ> to_stage_upsert b = normalize_stage_id \<circ> os_uuid" by (rule ext) (simp add: to_stage_upsert_def)
  then have "canonical_stages (map (to_stage_upsert b) (or_else (dr_stages row) []))"
    using assms unfolding canonical_stages_def by (simp add: list_all_iff)
  then show ?thesis unfolding detail_stages_def by (intro merge_extra_canonical) auto
qed

text \<open>The stages a detail answer speaks of.\<close>

definition spoken_stages :: "drop_row \<Rightarrow> os_stage set" where
  "spoken_stages row = set (or_else (dr_stages row) []) \<union> {s. dr_active row = Val s} \<union> {s. dr_next row = Val s}"

lemma or_null_Some: "or_null f = Some x \<longleftrightarrow> f = Val x"
  by (cases f) simp_all

lemma detail_spoken: "set (detail_stages b row) \<subseteq> to_stage_upsert b ` spoken_stages row"
  by (auto simp: detail_stages_def merge_extra_def spoken_stages_def or_null_Some split: option.splits if_splits)


definition swoki_boundary :: boundary where
  "swoki_boundary = \<lparr>bd_date = (\<lambda>s. if s = ''t1'' then Some 1000 else None), bd_issues = (\<lambda>_. ''invalid'')\<rparr>"

definition swoki_payload :: js where
  "swoki_payload = JObj [(''chain'', JStr ''robinhood''), (''collection_slug'', JStr ''swoki''),
     (''stages'', JArr [JObj [(''uuid'', JStr ''AB-12''), (''stage_type'', JStr ''fcfs_open''), (''start_time'', JStr ''t1'')]])]"

definition swoki_options :: normalize_options where
  "swoki_options = \<lparr>no_chain = 4663, no_now = 500, no_feed = None\<rparr>"

definition swoki_stage :: os_stage where
  "swoki_stage = \<lparr>os_uuid = ''AB-12'', os_type = ''fcfs_open'', os_start = ''t1'', os_end = Missing, os_label = Missing, os_price = Missing,
     os_currency = Missing, os_max = Missing, os_paused = Missing\<rparr>"

definition swoki_row :: drop_row where
  "swoki_row = \<lparr>dr_chain = ''robinhood'', dr_slug = ''swoki'', dr_contract = Missing, dr_name = Missing, dr_image = Missing, dr_url = Missing,
     dr_minting = Missing, dr_type = Missing, dr_active = Missing, dr_next = Missing, dr_stages = Val [swoki_stage]\<rparr>"

lemma swoki_parse: "drop_row_schema swoki_boundary swoki_payload = Some swoki_row"
  by code_simp

lemma swoki_merge:
  "case normalize_drop_detail (\<lambda>_. ''h'') swoki_boundary swoki_payload swoki_options of Inl _ \<Rightarrow> False
   | Inr input \<Rightarrow> pu_stages input \<noteq> [] \<and> (case upsert_project_from_source 7 input empty_projects of Inl _ \<Rightarrow> False
       | Inr (r, d) \<Rightarrow> ur_project r = 1 \<and> map (\<lambda>q. (se_project q, se_psid q, se_paused q)) (pd_stages d) = [(1, ''ab12'', False)])"
  by code_simp


end
