(* ===== verification/HttpClient.thy ===== *)
theory HttpClient
  imports Pacing
begin

text \<open>
  Outbound HTTP: \<open>fetchJson\<close> with its retries, bounds and typed errors (\<open>packages/providers/src/http.ts\<close>), and
  what the OpenSea client does around it (\<open>opensea/client.ts\<close>): the hourly budget of each key, the gate that
  refuses a call, the choice of a key and the pacing, and the reading of the budget out of the response.
  The network (what \<open>fetch\<close> answers at each attempt), \<open>JSON.parse\<close> and \<open>Math.random\<close> are parameters. A body is
  its text, one byte per character.
\<close>

section \<open>Requests and responses\<close>

datatype http_method = GET | POST

text \<open>\<open>hr_stream\<close> tells whether the response has a body stream; without one the text is read whole.\<close>

record http_response =
  hr_status :: int
  hr_headers :: headers
  hr_stream :: bool
  hr_body :: string

datatype network = Failed string | Answered http_response

record etag_entry =
  et_etag :: string
  et_json :: js

type_synonym etag_cache = "string \<Rightarrow> etag_entry option"

record fetch_options =
  fo_method :: http_method
  fo_retries :: "nat option"
  fo_max_bytes :: "int option"
  fo_max_retry_delay :: "int option"
  fo_allow_statuses :: "int list"

record fetch_result =
  fr_status :: int
  fr_headers :: headers
  fr_json :: js
  fr_cached :: bool

record net_env =
  ne_fetch :: "nat \<Rightarrow> network"
  ne_parse :: "string \<Rightarrow> js option"
  ne_random :: "nat \<Rightarrow> rat"

definition redacted_headers :: "string list" where
  "redacted_headers = [''x-api-key'', ''authorization'', ''cookie'']"

definition headers_to_record :: "headers \<Rightarrow> headers" where
  "headers_to_record h = (\<lambda>k. map_option (\<lambda>v. if k \<in> set redacted_headers then ''[REDACTED]'' else v) (h k))"

definition body_limit_error :: "string option \<Rightarrow> thrown" where
  "body_limit_error hint = ThrownApp (mk_app_error InvalidPayload ''response body exceeds limit'' (no_options\<lparr>opt_hint := hint\<rparr>))"

definition read_bounded :: "http_response \<Rightarrow> int \<Rightarrow> thrown + string" where
  "read_bounded r max_bytes =
     (if (case hr_headers r ''content-length'' of None \<Rightarrow> False
          | Some s \<Rightarrow> (case parse_int_prefix s of None \<Rightarrow> False | Some n \<Rightarrow> n > of_int max_bytes))
      then Inl (body_limit_error (Some (''provider returned >'' @ show_int max_bytes @ '' bytes'')))
      else if hr_stream r \<and> int (length (hr_body r)) > max_bytes then Inl (body_limit_error None)
      else Inr (hr_body r))"

definition full_jitter_delay :: "rat \<Rightarrow> nat \<Rightarrow> int \<Rightarrow> int" where
  "full_jitter_delay rnd attempt cap = \<lfloor>dmul rnd (of_int (min (1000 * 2 ^ attempt) cap))\<rfloor>"

definition retry_after_seconds :: "headers \<Rightarrow> int option" where
  "retry_after_seconds h = (case h ''retry-after'' of
      None \<Rightarrow> None
    | Some raw \<Rightarrow> map_option (\<lambda>n. min (max (math_trunc n) 0) 600) (parse_int_prefix raw))"

definition http_error :: "error_category \<Rightarrow> string \<Rightarrow> thrown" where
  "http_error c m = ThrownApp (mk_app_error c m no_options)"

definition rate_limited :: "int option \<Rightarrow> thrown" where
  "rate_limited retry = ThrownApp (mk_app_error RateLimited ''provider rate limited''
     \<lparr>opt_hint = Some ''quota reserve reached or upstream 429'', opt_retry_after = retry, opt_status = None\<rparr>)"

section \<open>One attempt\<close>

text \<open>
  What the body of the try block makes of an attempt: a result (with the cache it leaves), a sleep before the
  next attempt, or an error to be handled by the catch block.
\<close>

datatype attempt_outcome = Done fetch_result etag_cache | Sleep int | Raise thrown

definition parse_body :: "net_env \<Rightarrow> string \<Rightarrow> js option" where
  "parse_body env text = (if text = [] then Some Null else ne_parse env text)"

definition allowed_status :: "net_env \<Rightarrow> int \<Rightarrow> http_response \<Rightarrow> etag_cache \<Rightarrow> attempt_outcome" where
  "allowed_status env max_bytes r cache =
     (case read_bounded r max_bytes of
        Inl e \<Rightarrow> Raise e
      | Inr text \<Rightarrow> Done \<lparr>fr_status = hr_status r, fr_headers = headers_to_record (hr_headers r),
            fr_json = (case parse_body env text of None \<Rightarrow> Null | Some j \<Rightarrow> j), fr_cached = False\<rparr> cache)"

definition store_etag :: "http_method \<Rightarrow> string \<Rightarrow> http_response \<Rightarrow> js \<Rightarrow> etag_cache \<Rightarrow> etag_cache" where
  "store_etag m key r j cache =
     (case hr_headers r ''etag'' of
        Some e \<Rightarrow> if m = GET \<and> j \<noteq> Null then cache(key \<mapsto> \<lparr>et_etag = e, et_json = j\<rparr>) else cache
      | None \<Rightarrow> cache)"

definition http_attempt ::
  "net_env \<Rightarrow> fetch_options \<Rightarrow> string \<Rightarrow> etag_entry option \<Rightarrow> bool \<Rightarrow> nat \<Rightarrow> http_response \<Rightarrow> etag_cache \<Rightarrow> attempt_outcome" where
  "http_attempt env opts key cached may_retry n r cache =
     (let s = hr_status r;
          h = headers_to_record (hr_headers r);
          max_bytes = (case fo_max_bytes opts of None \<Rightarrow> 2 * 1024 * 1024 | Some b \<Rightarrow> b);
          cap = (case fo_max_retry_delay opts of None \<Rightarrow> 30000 | Some c \<Rightarrow> c)
      in case (if s = 304 then cached else None) of
           Some c \<Rightarrow> Done \<lparr>fr_status = 200, fr_headers = h, fr_json = et_json c, fr_cached = True\<rparr> cache
         | None \<Rightarrow>
       if 300 \<le> s \<and> s < 400 then Raise (http_error PermanentConfig ''redirect blocked by outbound policy'')
       else if s \<in> set (fo_allow_statuses opts) then allowed_status env max_bytes r cache
       else if s = 429 \<or> s \<ge> 500
       then (if may_retry
             then Sleep (case retry_after_seconds h of Some t \<Rightarrow> t * 1000 | None \<Rightarrow> full_jitter_delay (ne_random env n) n cap)
             else if s = 429 then Raise (rate_limited (retry_after_seconds h))
             else Raise (http_error RetryableProvider (''provider server error ('' @ show_int s @ '')'')))
       else if s = 401 \<or> s = 403
       then Raise (http_error AuthRequired (''provider rejected credentials ('' @ show_int s @ '')''))
       else if s = 404 then Raise (http_error NotFound ''resource not found'')
       else if s \<ge> 400
       then (case read_bounded r 4096 of
               Inl e \<Rightarrow> Raise e
             | Inr text \<Rightarrow> Raise (http_error (if s = 400 \<or> s = 409 \<or> s = 422 then InvalidPayload else RetryableProvider)
                 (''provider returned '' @ show_int s @ '': '' @ take 200 text)))
       else (case read_bounded r max_bytes of
               Inl e \<Rightarrow> Raise e
             | Inr text \<Rightarrow> (case parse_body env text of
                   None \<Rightarrow> Raise (http_error InvalidPayload ''provider returned malformed JSON'')
                 | Some j \<Rightarrow> Done \<lparr>fr_status = s, fr_headers = h, fr_json = j, fr_cached = False\<rparr>
                               (store_etag (fo_method opts) key r j cache))))"

text \<open>The catch block: sleep and go on, or end with an error.\<close>

definition retry_delay :: "net_env \<Rightarrow> fetch_options \<Rightarrow> nat \<Rightarrow> thrown \<Rightarrow> int option" where
  "retry_delay env opts n e =
     (let cap = (case fo_max_retry_delay opts of None \<Rightarrow> 30000 | Some c \<Rightarrow> c)
      in case e of
           ThrownApp a \<Rightarrow>
             (case retry_after a of
                Some t \<Rightarrow> if category a = RateLimited then Some (t * 1000)
                          else if category a = RetryableProvider then Some (full_jitter_delay (ne_random env n) n cap) else None
              | None \<Rightarrow> if category a = RetryableProvider then Some (full_jitter_delay (ne_random env n) n cap) else None)
         | _ \<Rightarrow> Some (full_jitter_delay (ne_random env n) n cap))"

definition final_error :: "thrown \<Rightarrow> thrown" where
  "final_error e = (case e of
      ThrownApp a \<Rightarrow> ThrownApp a
    | ThrownError m \<Rightarrow> http_error RetryableProvider (''network failure: '' @ strip_query m)
    | ThrownOther _ \<Rightarrow> http_error RetryableProvider (''network failure: '' @ strip_query ''network error''))"

text \<open>The loop: the sleeps it made, and how it ended. \<open>left\<close> counts the retries that remain.\<close>

definition round_outcome ::
  "net_env \<Rightarrow> fetch_options \<Rightarrow> string \<Rightarrow> etag_entry option \<Rightarrow> bool \<Rightarrow> nat \<Rightarrow> etag_cache \<Rightarrow> attempt_outcome" where
  "round_outcome env opts key cached may_retry n cache =
     (case ne_fetch env n of
        Failed m \<Rightarrow> Raise (ThrownError m)
      | Answered r \<Rightarrow> http_attempt env opts key cached may_retry n r cache)"

fun fetch_loop ::
  "net_env \<Rightarrow> fetch_options \<Rightarrow> string \<Rightarrow> etag_entry option \<Rightarrow> etag_cache \<Rightarrow> nat \<Rightarrow> nat
     \<Rightarrow> int list \<times> (thrown + fetch_result) \<times> etag_cache" where
  "fetch_loop env opts key cached cache n left =
     (let may_retry = (fo_method opts = GET \<and> left \<noteq> 0)
      in case round_outcome env opts key cached may_retry n cache of
           Done x cache' \<Rightarrow> ([], Inr x, cache')
         | Sleep d \<Rightarrow> (case left of
               0 \<Rightarrow> ([], Inl (ThrownOther ''unreachable''), cache)
             | Suc k \<Rightarrow> (let (ds, r) = fetch_loop env opts key cached cache (Suc n) k in (d # ds, r)))
         | Raise e \<Rightarrow> (case (if may_retry then retry_delay env opts n e else None) of
               None \<Rightarrow> ([], Inl (final_error e), cache)
             | Some d \<Rightarrow> (case left of
                   0 \<Rightarrow> ([], Inl (ThrownOther ''unreachable''), cache)
                 | Suc k \<Rightarrow> (let (ds, r) = fetch_loop env opts key cached cache (Suc n) k in (d # ds, r)))))"

declare fetch_loop.simps [simp del]

definition method_name :: "http_method \<Rightarrow> string" where
  "method_name m = (case m of GET \<Rightarrow> ''GET'' | POST \<Rightarrow> ''POST'')"

definition fetch_json ::
  "net_env \<Rightarrow> string \<Rightarrow> fetch_options \<Rightarrow> etag_cache \<Rightarrow> int list \<times> (thrown + fetch_result) \<times> etag_cache" where
  "fetch_json env url opts cache =
     (let key = method_name (fo_method opts) @ '' '' @ url
      in fetch_loop env opts key (cache key) cache 0 (case fo_retries opts of None \<Rightarrow> 2 | Some r \<Rightarrow> r))"

section \<open>What a request may cost and how it may fail\<close>

text \<open>An error of the system, never a raw one.\<close>

fun typed :: "thrown \<Rightarrow> bool" where
  "typed (ThrownApp a) = True"
| "typed _ = False"

lemma typed_mk [simp]: "typed (http_error c m)" "typed (rate_limited t)" "typed (body_limit_error h)"
  by (simp_all add: http_error_def rate_limited_def body_limit_error_def)

lemma typed_final [simp]: "typed (final_error e)"
  by (simp add: final_error_def split: thrown.split)

definition fair_random :: "net_env \<Rightarrow> bool" where
  "fair_random env \<longleftrightarrow> (\<forall>n. 0 \<le> ne_random env n \<and> ne_random env n < 1)"

definition delay_cap :: "fetch_options \<Rightarrow> int" where
  "delay_cap opts = (case fo_max_retry_delay opts of None \<Rightarrow> 30000 | Some c \<Rightarrow> c)"

lemma jitter_bounds:
  assumes "0 \<le> r" "r < 1" "0 \<le> cap" "cap \<le> 2 ^ 53"
  shows "0 \<le> full_jitter_delay r n cap \<and> full_jitter_delay r n cap \<le> cap"
proof -
  define b where "b = min (1000 * 2 ^ n) cap"
  have b: "0 \<le> b" "b \<le> cap" using assms by (auto simp: b_def)
  have "r * of_int b \<le> 1 * (of_int b :: rat)" using assms b by (intro mult_right_mono) auto
  then have "fl (r * of_int b) \<le> of_int b" using b assms by (intro fl_le_int) auto
  then have "\<lfloor>fl (r * of_int b)\<rfloor> \<le> b" by (simp add: floor_le_iff)
  moreover have "0 \<le> fl (r * of_int b)" using assms b by (intro fl_nonneg) simp
  ultimately show ?thesis using b unfolding full_jitter_delay_def dmul_def b_def[symmetric] by simp
qed

lemma retry_after_bounds: "retry_after_seconds h = Some t \<Longrightarrow> 0 \<le> t \<and> t \<le> 600"
  by (auto simp: retry_after_seconds_def split: option.splits)

lemma attempt_sleep:
  assumes "http_attempt env opts key cached may n r cache = Sleep d"
  shows "may \<and> (d = full_jitter_delay (ne_random env n) n (delay_cap opts)
                \<or> (\<exists>t. retry_after_seconds (headers_to_record (hr_headers r)) = Some t \<and> d = t * 1000))"
  using assms by (auto simp: http_attempt_def allowed_status_def delay_cap_def Let_def split: if_splits option.splits sum.splits)

lemma bounded_error: "read_bounded r m = Inl e \<Longrightarrow> \<exists>a. e = ThrownApp a \<and> category a = InvalidPayload"
  by (auto simp: read_bounded_def body_limit_error_def mk_app_error_def split: if_splits)

text \<open>An error the loop may meet while it may still retry: not a rate limit, which it has slept off.\<close>

fun loop_error :: "bool \<Rightarrow> thrown \<Rightarrow> bool" where
  "loop_error may (ThrownApp a) = (may \<longrightarrow> category a \<noteq> RateLimited)"
| "loop_error may _ = True"

lemma loop_error_mk [simp]:
  "loop_error may (http_error c m) \<longleftrightarrow> (may \<longrightarrow> c \<noteq> RateLimited)" "loop_error False e"
  by (simp add: http_error_def mk_app_error_def) (cases e; simp)

lemma attempt_raise: "http_attempt env opts key cached may n r cache = Raise e \<Longrightarrow> loop_error may e"
  by (auto simp: http_attempt_def allowed_status_def Let_def
      dest!: bounded_error split: if_splits option.splits sum.splits)

lemma attempt_done:
  assumes "http_attempt env opts key cached may n r cache = Done x cache'"
  shows "(fo_method opts = POST \<longrightarrow> cache' = cache) \<and> (\<forall>k. k \<noteq> key \<longrightarrow> cache' k = cache k)"
  using assms
  by (auto simp: http_attempt_def allowed_status_def store_etag_def Let_def split: if_splits option.splits sum.splits)

lemma delay_within:
  assumes "fair_random env" "0 \<le> delay_cap opts" "delay_cap opts \<le> 2 ^ 53" "retry_delay env opts n e = Some d"
    and "loop_error True e"
  shows "0 \<le> d \<and> d \<le> max 600000 (delay_cap opts)"
proof -
  have "d = full_jitter_delay (ne_random env n) n (delay_cap opts)"
    using assms(4,5) by (auto simp: retry_delay_def delay_cap_def Let_def split: thrown.splits option.splits if_splits)
  then show ?thesis
    using jitter_bounds[of "ne_random env n" "delay_cap opts" n] assms(1-3) by (auto simp: fair_random_def max_def)
qed

lemma round_raise: "round_outcome env opts key cached may n cache = Raise e \<Longrightarrow> loop_error may e"
  by (auto simp: round_outcome_def dest: attempt_raise split: network.splits)

lemma round_sleep:
  assumes "fair_random env" "0 \<le> delay_cap opts" "delay_cap opts \<le> 2 ^ 53"
    and "round_outcome env opts key cached may n cache = Sleep d"
  shows "may \<and> 0 \<le> d \<and> d \<le> max 600000 (delay_cap opts)"
proof -
  from assms(4) obtain r where "http_attempt env opts key cached may n r cache = Sleep d"
    by (auto simp: round_outcome_def split: network.splits)
  from attempt_sleep[OF this] show ?thesis
    using jitter_bounds[of "ne_random env n" "delay_cap opts" n] assms(1-3)
    by (auto simp: fair_random_def max_def dest!: retry_after_bounds)
qed

text \<open>One round of the loop.\<close>

lemma fetch_loop_round:
  assumes "fair_random env" "0 \<le> delay_cap opts" "delay_cap opts \<le> 2 ^ 53"
  obtains (result) x c where "fetch_loop env opts key cached cache n left = ([], Inr x, c)"
    "round_outcome env opts key cached (fo_method opts = GET \<and> left \<noteq> 0) n cache = Done x c"
  | (failed) e where "fetch_loop env opts key cached cache n left = ([], Inl (final_error e), cache)"
  | (again) d k where "left = Suc k" "fo_method opts = GET" "0 \<le> d" "d \<le> max 600000 (delay_cap opts)"
    "fetch_loop env opts key cached cache n left =
       (d # fst (fetch_loop env opts key cached cache (Suc n) k), snd (fetch_loop env opts key cached cache (Suc n) k))"
proof (cases "round_outcome env opts key cached (fo_method opts = GET \<and> left \<noteq> 0) n cache")
  case (Done x c)
  then show thesis by (intro result) (simp_all add: fetch_loop.simps[of _ _ _ _ _ n])
next
  case (Sleep d)
  with round_sleep[OF assms Sleep] obtain k where "left = Suc k" by (cases left) auto
  with Sleep round_sleep[OF assms Sleep] show thesis
    by (intro again[of k d]) (simp_all add: fetch_loop.simps[of _ _ _ _ _ n] case_prod_beta)
next
  case (Raise e)
  show thesis
  proof (cases "fo_method opts = GET \<and> left \<noteq> 0 \<and> retry_delay env opts n e \<noteq> None")
    case False
    with Raise show thesis by (intro failed[of e]) (auto simp: fetch_loop.simps[of _ _ _ _ _ n])
  next
    case True
    then obtain k d where kd: "left = Suc k" "retry_delay env opts n e = Some d" by (cases left) auto
    have "loop_error True e" using round_raise[OF Raise] True by simp
    from delay_within[OF assms kd(2) this] Raise True kd show thesis
      by (intro again[of k d]) (simp_all add: fetch_loop.simps[of _ _ _ _ _ n] case_prod_beta)
  qed
qed

lemma round_done:
  "round_outcome env opts key cached may n cache = Done x c \<Longrightarrow>
     (fo_method opts = POST \<longrightarrow> c = cache) \<and> (\<forall>k. k \<noteq> key \<longrightarrow> c k = cache k)"
  by (auto simp: round_outcome_def dest: attempt_done split: network.splits)

lemma fetch_loop_contract:
  assumes "fair_random env" "0 \<le> delay_cap opts" "delay_cap opts \<le> 2 ^ 53"
    and "fetch_loop env opts key cached cache n left = (sleeps, r, cache')"
  shows "length sleeps \<le> (if fo_method opts = GET then left else 0) \<and>
         (\<forall>d\<in>set sleeps. 0 \<le> d \<and> d \<le> max 600000 (delay_cap opts)) \<and>
         (\<forall>e. r = Inl e \<longrightarrow> typed e) \<and> (\<forall>k. cache' k \<noteq> cache k \<longrightarrow> fo_method opts = GET \<and> k = key)"
  using assms(4)
proof (induction left arbitrary: n sleeps)
  case 0
  show ?case
  proof (rule fetch_loop_round[OF assms(1-3), of key cached cache n 0])
    fix x c
    assume "fetch_loop env opts key cached cache n 0 = ([], Inr x, c)"
      and "round_outcome env opts key cached (fo_method opts = GET \<and> 0 \<noteq> (0::nat)) n cache = Done x c"
    with 0 round_done[OF this(2)] show ?thesis by (cases "fo_method opts") auto
  qed (use 0 in auto)
next
  case (Suc k)
  show ?case
  proof (rule fetch_loop_round[OF assms(1-3), of key cached cache n "Suc k"])
    fix x c
    assume "fetch_loop env opts key cached cache n (Suc k) = ([], Inr x, c)"
      and "round_outcome env opts key cached (fo_method opts = GET \<and> Suc k \<noteq> 0) n cache = Done x c"
    with Suc.prems round_done[OF this(2)] show ?thesis by (cases "fo_method opts") auto
  next
    fix e
    assume "fetch_loop env opts key cached cache n (Suc k) = ([], Inl (final_error e), cache)"
    with Suc.prems show ?thesis by auto
  next
    fix d j
    assume again: "Suc k = Suc j" "fo_method opts = GET" "0 \<le> d" "d \<le> max 600000 (delay_cap opts)"
      "fetch_loop env opts key cached cache n (Suc k) =
       (d # fst (fetch_loop env opts key cached cache (Suc n) j), snd (fetch_loop env opts key cached cache (Suc n) j))"
    obtain ds where rest: "fetch_loop env opts key cached cache (Suc n) k = (ds, r, cache')" "sleeps = d # ds"
      using again(1,5) Suc.prems by (cases "fetch_loop env opts key cached cache (Suc n) k") auto
    from Suc.IH[OF rest(1)] rest(2) again(2-4) show ?thesis by auto
  qed
qed

text \<open>
C31. An outbound request ends in a result or in one of the system's typed errors, never in a raw one, whatever the
network answers. A GET is sent at most once more than its retries, a POST exactly once, since only a
request that cost a sleep is repeated; every sleep is at most ten minutes or the configured cap, and
only a successful GET may change the cache, at its own key.
\<close>

theorem fetch_json_contract:
  assumes "fair_random env" "0 \<le> delay_cap opts" "delay_cap opts \<le> 2 ^ 53"
    and "fetch_json env url opts cache = (sleeps, r, cache')"
  shows "length sleeps \<le> (if fo_method opts = GET then (case fo_retries opts of None \<Rightarrow> 2 | Some n \<Rightarrow> n) else 0) \<and>
         (\<forall>d\<in>set sleeps. 0 \<le> d \<and> d \<le> max 600000 (delay_cap opts)) \<and>
         (\<forall>e. r = Inl e \<longrightarrow> typed e) \<and>
         (\<forall>k. cache' k \<noteq> cache k \<longrightarrow> fo_method opts = GET \<and> k = ''GET '' @ url)"
  using fetch_loop_contract[OF assms(1-3), of "method_name (fo_method opts) @ '' '' @ url"] assms(4)
  by (cases "fo_method opts") (auto simp: fetch_json_def method_name_def Let_def)

definition demo_net :: net_env where
  "demo_net = \<lparr>ne_fetch = (\<lambda>_. Failed ''boom https://x/?k=1''), ne_parse = (\<lambda>_. None), ne_random = (\<lambda>_. 0)\<rparr>"

definition demo_get :: fetch_options where
  "demo_get = \<lparr>fo_method = GET, fo_retries = Some 2, fo_max_bytes = None, fo_max_retry_delay = None, fo_allow_statuses = []\<rparr>"

lemma demo_fetch:
  "fst (fetch_json demo_net ''u'' demo_get (\<lambda>_. None)) = [0, 0]"
  "fst (snd (fetch_json demo_net ''u'' demo_get (\<lambda>_. None))) =
     Inl (http_error RetryableProvider (''network failure: boom https://x/?'' @ [ellipsis]))"
  by (simp_all add: fetch_json_def fetch_loop.simps demo_net_def demo_get_def round_outcome_def retry_delay_def
      full_jitter_delay_def dmul_def final_error_def strip_query.simps is_space_def code_of_def Let_def)

lemma fetch_json_contract_witness:
  "typed (http_error RetryableProvider (''network failure: boom https://x/?'' @ [ellipsis]))"
proof -
  have c: "fair_random demo_net" "0 \<le> delay_cap demo_get" "delay_cap demo_get \<le> 2 ^ 53"
    by (simp_all add: fair_random_def demo_net_def delay_cap_def demo_get_def)
  obtain c' where f: "fetch_json demo_net ''u'' demo_get (\<lambda>_. None) = ([0, 0],
      Inl (http_error RetryableProvider (''network failure: boom https://x/?'' @ [ellipsis])), c')"
    using demo_fetch by (metis prod.collapse)
  from fetch_json_contract[OF c f] show ?thesis by blast
qed

end
