(* ===== verification/OpenSeaClient.thy ===== *)
theory OpenSeaClient
  imports OpenSeaData HttpClient
begin

text \<open>
  The OpenSea client (\<open>packages/providers/src/opensea/client.ts\<close>): the budget it keeps for each key, the gate that refuses a
  call, the choice and pacing of the key, the request, what it learns from the answer, and the operations that page
  through listings or read one answer. A session is the client, the buckets it shares with the other clients of the
  process, and two traces: the requests it sent (the path and the key) and the headers it was answered. A call may
  never get its token; it then stays waiting. Text is bytes of UTF-8.
\<close>

section \<open>Paths\<close>

definition hex_digit :: "nat \<Rightarrow> char" where
  "hex_digit n = (if n < 10 then char_of (48 + n) else char_of (55 + n))"

definition percent :: "char \<Rightarrow> string" where
  "percent c = [CHR ''%'', hex_digit (code_of c div 16), hex_digit (code_of c mod 16)]"

definition is_alnum :: "char \<Rightarrow> bool" where
  "is_alnum c \<longleftrightarrow> is_digit c \<or> is_small_letter c \<or> (65 \<le> code_of c \<and> code_of c \<le> 90)"

definition encode_uri_component :: "string \<Rightarrow> string" where
  "encode_uri_component s = concat (map (\<lambda>c. if is_alnum c \<or> c \<in> set ''-_.!~*()'' \<or> code_of c = 39 then [c] else percent c) s)"

definition form_encode :: "string \<Rightarrow> string" where
  "form_encode s = concat (map (\<lambda>c. if is_alnum c \<or> c \<in> set ''*-._'' then [c] else if c = CHR '' '' then ''+'' else percent c) s)"

fun search_params :: "(string \<times> string) list \<Rightarrow> string" where
  "search_params [] = []"
| "search_params [(k, v)] = form_encode k @ ''='' @ form_encode v"
| "search_params ((k, v) # ps) = form_encode k @ ''='' @ form_encode v @ ''&'' @ search_params ps"

section \<open>The client\<close>

record client_options =
  co_base_url :: "string option"
  co_api_key :: "string option"
  co_max_pages :: "nat option"
  co_page_limit :: "int option"
  co_hourly_limit :: "int option"
  co_api_keys :: "string list option"
  co_per_minute :: "int option"
  co_reserve_percent :: "int option"

record client =
  cl_base :: string
  cl_api_key :: "string option"
  cl_keys :: "string list"
  cl_per_minute :: "int option"
  cl_max_pages :: nat
  cl_page_limit :: int
  cl_cache :: etag_cache
  cl_quota :: quota_state
  cl_by_key :: "string \<Rightarrow> quota_state option"
  cl_provider_limit :: "int option"

definition strip_slash :: "string \<Rightarrow> string" where
  "strip_slash s = (if s \<noteq> [] \<and> last s = CHR ''/'' then butlast s else s)"

definition new_client :: "client_options \<Rightarrow> client" where
  "new_client o' =
     \<lparr>cl_base = strip_slash (case co_base_url o' of None \<Rightarrow> ''https://api.opensea.io'' | Some u \<Rightarrow> u),
      cl_api_key = co_api_key o',
      cl_keys = (case co_api_keys o' of
          Some (k # ks) \<Rightarrow> k # ks
        | _ \<Rightarrow> (case co_api_key o' of Some k \<Rightarrow> [k] | None \<Rightarrow> [])),
      cl_per_minute = co_per_minute o',
      cl_max_pages = (case co_max_pages o' of None \<Rightarrow> 5 | Some n \<Rightarrow> n),
      cl_page_limit = min (case co_page_limit o' of None \<Rightarrow> 50 | Some n \<Rightarrow> n) 100,
      cl_cache = (\<lambda>_. None),
      cl_quota = \<lparr>qt_limit = (case co_hourly_limit o' of None \<Rightarrow> 600 | Some n \<Rightarrow> n), qt_remaining = None, qt_reset = None,
                  qt_reserve = (case co_reserve_percent o' of None \<Rightarrow> 10 | Some n \<Rightarrow> n)\<rparr>,
      cl_by_key = (\<lambda>_. None), cl_provider_limit = None\<rparr>"

definition quota_for :: "client \<Rightarrow> string option \<Rightarrow> quota_state" where
  "quota_for c key = (case key of
      None \<Rightarrow> cl_quota c
    | Some k \<Rightarrow> (case cl_by_key c k of None \<Rightarrow> cl_quota c | Some q \<Rightarrow> q))"

text \<open>Whether a budget lets a call through: the reserve is there for the priority calls.\<close>

definition budget_open :: "bool \<Rightarrow> quota_state \<Rightarrow> bool" where
  "budget_open priority q =
     (let d = allowed_requests q 3600 in \<not> qd_blocked d \<or> (priority \<and> qd_reason d = ReserveReached))"

definition usable_keys :: "client \<Rightarrow> bool \<Rightarrow> string list" where
  "usable_keys c priority = filter (\<lambda>k. budget_open priority (quota_for c (Some k))) (cl_keys c)"

record rate_limit_snapshot =
  rs_remaining :: "int option"
  rs_limit :: "int option"
  rs_reset :: "int option"

definition rate_limit :: "client \<Rightarrow> rate_limit_snapshot" where
  "rate_limit c = \<lparr>rs_remaining = qt_remaining (cl_quota c), rs_limit = cl_provider_limit c, rs_reset = qt_reset (cl_quota c)\<rparr>"

text \<open>What the headers of an answer make of a budget; headers without a word on it leave it.\<close>

definition or_keep :: "'a option \<Rightarrow> 'a option \<Rightarrow> 'a option" where
  "or_keep a b = (case a of None \<Rightarrow> b | Some x \<Rightarrow> Some x)"

definition quota_after :: "headers \<Rightarrow> int \<Rightarrow> quota_state \<Rightarrow> quota_state" where
  "quota_after h now q =
     (let p = parse_rate_limit_headers h now
      in \<lparr>qt_limit = (case rh_limit p of None \<Rightarrow> qt_limit q | Some l \<Rightarrow> l), qt_remaining = or_keep (rh_remaining p) (qt_remaining q),
          qt_reset = or_keep (rh_reset p) (qt_reset q), qt_reserve = qt_reserve q\<rparr>)"

definition update_quota :: "headers \<Rightarrow> string option \<Rightarrow> int \<Rightarrow> client \<Rightarrow> client" where
  "update_quota h key now c =
     (let p = parse_rate_limit_headers h now in
      if rh_remaining p = None \<and> rh_limit p = None \<and> rh_reset p = None then c
      else let c1 = c\<lparr>cl_provider_limit := or_keep (rh_limit p) (cl_provider_limit c)\<rparr>;
               nxt = quota_after h now (quota_for c key)
           in case key of
                Some k \<Rightarrow> c1\<lparr>cl_by_key := (cl_by_key c)(k \<mapsto> nxt)\<rparr>
              | None \<Rightarrow> c1\<lparr>cl_quota := nxt\<rparr>)"

definition quota_error :: "string \<Rightarrow> thrown" where
  "quota_error m = ThrownApp (mk_app_error RateLimited m (no_options\<lparr>opt_hint := Some ''waits for window reset or key rotation''\<rparr>))"

definition assert_quota :: "client \<Rightarrow> bool \<Rightarrow> thrown option" where
  "assert_quota c priority =
     (if cl_keys c \<noteq> []
      then if usable_keys c priority \<noteq> [] then None
           else Some (quota_error ''opensea quota exhausted on every configured key; waiting for window reset'')
      else if budget_open priority (cl_quota c) then None
      else Some (quota_error (if qd_reason (allowed_requests (cl_quota c) 3600) = Exhausted
                              then ''opensea quota exhausted for this key; waiting for window reset''
                              else ''opensea quota reserve reached; deferring requests'')))"

section \<open>A call\<close>

text \<open>While a caller waits for its token it wakes up at instants of its own, and the others go on.\<close>

datatype wait_event = Own int | Meanwhile pace_event

fun wait_token :: "nat \<Rightarrow> wait_event list \<Rightarrow> pacer \<Rightarrow> bool \<times> pacer" where
  "wait_token i [] p = (False, p)"
| "wait_token i (Own t # es) p = (let (w, p') = acquire_round i t p in if w = 0 then (True, p') else wait_token i es p')"
| "wait_token i (Meanwhile e # es) p = wait_token i es (snd (pace_step i e p))"

definition acquire :: "string \<Rightarrow> int \<Rightarrow> int \<Rightarrow> wait_event list \<Rightarrow> pacer \<Rightarrow> bool \<times> pacer" where
  "acquire key per_minute now es p = (let (i, p') = acquire_enter key per_minute now p in wait_token i (Own now # es) p')"

text \<open>The surroundings of the calls, by their number: the network, the instants, the wake-ups.\<close>

record call_env =
  ce_net :: "nat \<Rightarrow> net_env"
  ce_now :: "nat \<Rightarrow> int"
  ce_waits :: "nat \<Rightarrow> wait_event list"
  ce_answered :: "nat \<Rightarrow> int"
  ce_bound :: boundary

record session =
  ss_client :: client
  ss_pacer :: pacer
  ss_calls :: nat
  ss_sent :: "(string \<times> string option) list"
  ss_heard :: "(string option \<times> headers \<times> int) list"

record call_init =
  ca_method :: http_method
  ca_priority :: bool

datatype 'a progress = Waiting | Failing thrown | Giving 'a

type_synonym 'a session_action = "session \<Rightarrow> 'a progress \<times> session"

definition sbind :: "'a session_action \<Rightarrow> ('a \<Rightarrow> 'b session_action) \<Rightarrow> 'b session_action" where
  "sbind m f s = (case m s of
      (Waiting, s') \<Rightarrow> (Waiting, s') | (Failing e, s') \<Rightarrow> (Failing e, s') | (Giving x, s') \<Rightarrow> f x s')"

definition sgive :: "'a \<Rightarrow> 'a session_action" where
  "sgive x s = (Giving x, s)"

definition sfrom :: "thrown + 'a \<Rightarrow> 'a session_action" where
  "sfrom r s = (case r of Inl e \<Rightarrow> (Failing e, s) | Inr x \<Rightarrow> (Giving x, s))"

text \<open>The key of a call, and whether it has its token.\<close>

definition choose_key :: "call_env \<Rightarrow> bool \<Rightarrow> session \<Rightarrow> string option \<times> bool \<times> pacer" where
  "choose_key env priority s =
     (let c = ss_client s; n = ss_calls s; candidates = usable_keys c priority;
          pool = (if candidates \<noteq> [] then candidates else cl_keys c)
      in if cl_keys c = [] then (None, True, ss_pacer s)
         else case cl_per_minute c of
                None \<Rightarrow> (Some (hd pool), True, ss_pacer s)
              | Some pm \<Rightarrow>
                  let (k, p1) = pick_key pool pm (ce_now env n) (ss_pacer s);
                      (granted, p2) = acquire k pm (ce_now env n) (ce_waits env n) p1
                  in (Some k, granted, p2))"

definition call_options :: "call_init \<Rightarrow> fetch_options" where
  "call_options init = \<lparr>fo_method = ca_method init, fo_retries = None, fo_max_bytes = None, fo_max_retry_delay = None,
     fo_allow_statuses = []\<rparr>"

text \<open>The error path: a rate limit drains the bucket of the key that was paced.\<close>

definition punished :: "call_env \<Rightarrow> nat \<Rightarrow> client \<Rightarrow> string option \<Rightarrow> thrown \<Rightarrow> pacer \<Rightarrow> pacer" where
  "punished env n c key e p =
     (case (key, cl_per_minute c, e) of
        (Some k, Some pm, ThrownApp a) \<Rightarrow>
          if category a = RateLimited
          then penalize k (case retry_after a of None \<Rightarrow> 5 | Some t \<Rightarrow> t) pm (ce_answered env n) p else p
      | _ \<Rightarrow> p)"

definition call :: "call_env \<Rightarrow> string \<Rightarrow> call_init \<Rightarrow> (js \<times> headers) session_action" where
  "call env path init s =
     (let c = ss_client s; n = ss_calls s
      in case assert_quota c (ca_priority init) of
           Some e \<Rightarrow> (Failing e, s)
         | None \<Rightarrow>
             let (key, granted, p) = choose_key env (ca_priority init) s; s1 = s\<lparr>ss_pacer := p, ss_calls := Suc n\<rparr>
             in if \<not> granted then (Waiting, s1)
                else let (_, r, cache) = fetch_json (ce_net env n) (cl_base c @ path) (call_options init) (cl_cache c);
                         sent = (path, if key = None then cl_api_key c else key);
                         s2 = s1\<lparr>ss_client := c\<lparr>cl_cache := cache\<rparr>, ss_sent := ss_sent s @ [sent]\<rparr>
                     in case r of
                          Inl e \<Rightarrow> (Failing e, s2\<lparr>ss_pacer := punished env n c key e p\<rparr>)
                        | Inr x \<Rightarrow> (Giving (fr_json x, fr_headers x),
                            s2\<lparr>ss_client := update_quota (fr_headers x) key (ce_answered env n) (c\<lparr>cl_cache := cache\<rparr>),
                               ss_heard := ss_heard s @ [(key, fr_headers x, ce_answered env n)]\<rparr>))"

definition plain_get :: call_init where
  "plain_get = \<lparr>ca_method = GET, ca_priority = False\<rparr>"

definition call_json :: "call_env \<Rightarrow> string \<Rightarrow> call_init \<Rightarrow> js session_action" where
  "call_json env path init = sbind (call env path init) (\<lambda>(j, _). sgive j)"

section \<open>Operations\<close>

definition is_rate_limit :: "thrown \<Rightarrow> bool" where
  "is_rate_limit e = (case e of ThrownApp a \<Rightarrow> category a = RateLimited | _ \<Rightarrow> False)"

definition zod :: "boundary \<Rightarrow> js \<Rightarrow> 'a option \<Rightarrow> thrown + 'a" where
  "zod b v r = (case r of None \<Rightarrow> Inl (ThrownError (bd_issues b v)) | Some x \<Rightarrow> Inr x)"

definition resolve_chain_identifier :: "call_env \<Rightarrow> string \<Rightarrow> string session_action" where
  "resolve_chain_identifier env fallback s =
     (case sbind (call_json env ''/api/v2/chains'' plain_get) (\<lambda>j. sfrom (zod (ce_bound env) j (chains_response_schema j))) s of
        (Waiting, s') \<Rightarrow> (Waiting, s')
      | (Failing e, s') \<Rightarrow> if is_rate_limit e then (Failing e, s') else (Giving fallback, s')
      | (Giving cs, s') \<Rightarrow>
          (let normalized = to_lower fallback
           in (Giving (case List.find (\<lambda>c. to_lower (ci_chain c) = normalized \<or> infix_of normalized (to_lower (ci_name c))) cs of
                  None \<Rightarrow> fallback | Some c \<Rightarrow> ci_chain c), s')))"

record 'r listing =
  ls_rows :: "'r list"
  ls_malformed :: nat
  ls_pages :: nat

definition no_rows :: "'r listing" where
  "no_rows = \<lparr>ls_rows = [], ls_malformed = 0, ls_pages = 0\<rparr>"

definition add_page :: "'r page \<Rightarrow> 'r listing \<Rightarrow> 'r listing" where
  "add_page p l = \<lparr>ls_rows = ls_rows l @ pg_rows p, ls_malformed = ls_malformed l + pg_malformed p, ls_pages = Suc (ls_pages l)\<rparr>"

definition bad_request :: "thrown \<Rightarrow> bool" where
  "bad_request e = (case e of ThrownApp a \<Rightarrow> category a = InvalidPayload \<and> infix_of ''400'' (err_message a) | _ \<Rightarrow> False)"

definition cursor_param :: "string \<Rightarrow> string option \<Rightarrow> (string \<times> string) list" where
  "cursor_param name cursor = (case cursor of None \<Rightarrow> [] | Some c \<Rightarrow> [(name, c)])"

text \<open>One page of drops: refetched without the chain when the chain is refused. The flag says whether it was.\<close>

definition drops_page :: "call_env \<Rightarrow> string \<Rightarrow> string \<Rightarrow> string option \<Rightarrow> (drop_row page \<times> bool) session_action" where
  "drops_page env drop_type chain cursor s =
     (let limit = show_int (cl_page_limit (ss_client s));
          get = (\<lambda>params. sbind (call_json env (''/api/v2/drops?'' @ search_params (params @ cursor_param ''cursor'' cursor)) plain_get)
                   (\<lambda>j. sfrom (parse_drops_page (ce_bound env) j)))
      in case get [(''type'', drop_type), (''limit'', limit), (''chains'', chain)] s of
           (Failing e, s') \<Rightarrow>
             if bad_request e
             then sbind (get [(''type'', drop_type), (''limit'', limit)])
                    (\<lambda>p. sgive (p\<lparr>pg_rows := filter (\<lambda>r. matches_chain (dr_chain r) chain) (pg_rows p)\<rparr>, True)) s'
             else (Failing e, s')
         | (Giving p, s') \<Rightarrow> (Giving (p, False), s')
         | (Waiting, s') \<Rightarrow> (Waiting, s'))"

fun drops_pages :: "call_env \<Rightarrow> string \<Rightarrow> string \<Rightarrow> nat \<Rightarrow> string option \<Rightarrow> drop_row listing \<times> bool \<Rightarrow> (drop_row listing \<times> bool) session_action" where
  "drops_pages env drop_type chain 0 cursor acc = sgive acc"
| "drops_pages env drop_type chain (Suc n) cursor acc =
     sbind (drops_page env drop_type chain cursor) (\<lambda>(p, dropped).
       let acc' = (add_page p (fst acc), snd acc \<or> dropped)
       in case pg_next p of None \<Rightarrow> sgive acc' | Some c \<Rightarrow> drops_pages env drop_type chain n (Some c) acc')"

definition list_drops :: "call_env \<Rightarrow> string \<Rightarrow> string \<Rightarrow> bool \<Rightarrow> (drop_row listing \<times> bool) session_action" where
  "list_drops env drop_type chain local_filter s =
     sbind (drops_pages env drop_type chain (cl_max_pages (ss_client s)) None (no_rows, False)) (\<lambda>(l, dropped).
       if local_filter \<and> \<not> dropped
       then let filtered = filter (\<lambda>r. matches_chain (dr_chain r) chain) (ls_rows l)
            in sgive (l\<lparr>ls_rows := filtered\<rparr>, length (ls_rows l) \<noteq> length filtered)
       else sgive (l, dropped)) s"

text \<open>The paging of the other listings: the flag says whether the cap was met with a cursor left.\<close>

fun pages :: "(string option \<Rightarrow> 'r page session_action) \<Rightarrow> nat \<Rightarrow> string option \<Rightarrow> 'r listing \<Rightarrow> ('r listing \<times> bool) session_action" where
  "pages get 0 cursor l = sgive (l, cursor \<noteq> None)"
| "pages get (Suc n) cursor l = sbind (get cursor) (\<lambda>p.
     case pg_next p of None \<Rightarrow> sgive (add_page p l, False) | Some c \<Rightarrow> pages get n (Some c) (add_page p l))"

definition collections_page :: "call_env \<Rightarrow> string \<Rightarrow> string \<Rightarrow> int \<Rightarrow> string option \<Rightarrow> collection_row page session_action" where
  "collections_page env chain order_by limit cursor =
     sbind (call_json env (''/api/v2/collections?'' @ search_params
              ([(''chain'', chain), (''order_by'', order_by), (''order_direction'', ''desc''), (''limit'', show_int limit)]
               @ cursor_param ''next'' cursor)) plain_get)
       (\<lambda>j. sfrom (parse_collections_page (ce_bound env) j chain))"

definition list_collections ::
  "call_env \<Rightarrow> string \<Rightarrow> string option \<Rightarrow> nat option \<Rightarrow> int option \<Rightarrow> collection_row listing session_action" where
  "list_collections env chain order_by max_pages page_limit s =
     (let c = ss_client s;
          limit = min (case page_limit of None \<Rightarrow> cl_page_limit c | Some n \<Rightarrow> n) 100
      in sbind (pages (collections_page env chain (case order_by of None \<Rightarrow> ''created_date'' | Some o' \<Rightarrow> o') limit)
                 (case max_pages of None \<Rightarrow> cl_max_pages c | Some n \<Rightarrow> n) None no_rows) (\<lambda>(l, _). sgive l) s)"

definition nfts_page :: "call_env \<Rightarrow> string \<Rightarrow> int \<Rightarrow> string option \<Rightarrow> nft_row page session_action" where
  "nfts_page env slug limit cursor =
     sbind (call_json env (''/api/v2/collection/'' @ encode_uri_component slug @ ''/nfts?''
              @ search_params ([(''limit'', show_int limit)] @ cursor_param ''next'' cursor)) plain_get)
       (\<lambda>j. sfrom (parse_nfts_page (ce_bound env) j))"

definition list_collection_nfts :: "call_env \<Rightarrow> string \<Rightarrow> nat option \<Rightarrow> (nft_row listing \<times> bool) session_action" where
  "list_collection_nfts env slug max_pages s =
     pages (nfts_page env slug (cl_page_limit (ss_client s))) (case max_pages of None \<Rightarrow> cl_max_pages (ss_client s) | Some n \<Rightarrow> n)
       None no_rows s"

definition get_drop :: "call_env \<Rightarrow> string \<Rightarrow> js session_action" where
  "get_drop env slug = call_json env (''/api/v2/drops/'' @ encode_uri_component slug) plain_get"

definition get_collection_socials :: "call_env \<Rightarrow> string \<Rightarrow> collection_socials session_action" where
  "get_collection_socials env slug =
     sbind (call_json env (''/api/v2/collections/'' @ encode_uri_component slug) plain_get)
       (\<lambda>j. sfrom (parse_collection_socials (ce_bound env) j))"

definition get_eligibility :: "call_env \<Rightarrow> string \<Rightarrow> (eligibility_stage list \<times> nat) session_action" where
  "get_eligibility env slug =
     sbind (call_json env (''/api/v2/drops/'' @ encode_uri_component slug @ ''/eligibility'') plain_get)
       (\<lambda>j. sfrom (parse_eligibility (ce_bound env) j))"

definition payload_error :: "string \<Rightarrow> thrown" where
  "payload_error m = ThrownApp (mk_app_error InvalidPayload m no_options)"

text \<open>A token, and the instant it expires.\<close>

definition exchange_pat :: "call_env \<Rightarrow> (string \<times> rat) session_action" where
  "exchange_pat env s =
     sbind (call_json env ''/api/v2/auth/tokens/exchange'' \<lparr>ca_method = POST, ca_priority = False\<rparr>) (\<lambda>j.
     sbind (sfrom (zod (ce_bound env) j (exchange_response_schema j))) (\<lambda>x.
       case ex_token x of
         None \<Rightarrow> sfrom (Inl (payload_error ''token exchange returned no access token''))
       | Some t \<Rightarrow> sgive (t, of_int (ce_answered env (ss_calls s)) + ex_seconds x * 1000))) s"

definition build_drop_mint_transaction :: "call_env \<Rightarrow> string \<Rightarrow> drop_mint_transaction session_action" where
  "build_drop_mint_transaction env slug =
     sbind (call_json env (''/api/v2/drops/'' @ encode_uri_component slug @ ''/mint'') \<lparr>ca_method = POST, ca_priority = True\<rparr>)
       (\<lambda>j. sfrom (zod (ce_bound env) j (drop_mint_response_schema j)))"

definition create_instant_key :: "call_env \<Rightarrow> (string \<times> int option) session_action" where
  "create_instant_key env =
     sbind (call_json env ''/api/v2/auth/keys'' \<lparr>ca_method = POST, ca_priority = False\<rparr>) (\<lambda>j.
     sbind (sfrom (zod (ce_bound env) j (instant_key_response_schema (ce_bound env) j))) (\<lambda>x.
       case ik_key x of
         None \<Rightarrow> sfrom (Inl (payload_error ''instant key response contained no key''))
       | Some k \<Rightarrow> sgive (k, map_option (date_ms (ce_bound env)) (ik_expires x))))"

section \<open>Budgets are per key\<close>

text \<open>A sequence of calls of one client, whatever becomes of each.\<close>

fun run_calls :: "call_env \<Rightarrow> (string \<times> call_init) list \<Rightarrow> session \<Rightarrow> session" where
  "run_calls env [] s = s"
| "run_calls env ((path, init) # rs) s = run_calls env rs (snd (call env path init s))"

text \<open>The budget of one key, from what was heard on that key alone.\<close>

definition own_budget :: "quota_state \<Rightarrow> string \<Rightarrow> (string option \<times> headers \<times> int) list \<Rightarrow> quota_state" where
  "own_budget q k heard = foldl (\<lambda>q (_, h, t). quota_after h t q) q (filter (\<lambda>x. fst x = Some k) heard)"

lemma quota_after_silent:
  "rh_remaining (parse_rate_limit_headers h t) = None \<Longrightarrow> rh_limit (parse_rate_limit_headers h t) = None \<Longrightarrow>
     rh_reset (parse_rate_limit_headers h t) = None \<Longrightarrow> quota_after h t q = q"
  by (simp add: quota_after_def or_keep_def Let_def)

lemma update_quota_keyed:
  "quota_for (update_quota h (Some k) t c) (Some k') = (if k' = k then quota_after h t (quota_for c (Some k)) else quota_for c (Some k'))"
  "cl_keys (update_quota h (Some k) t c) = cl_keys c" "cl_quota (update_quota h (Some k) t c) = cl_quota c"
  by (auto simp: update_quota_def quota_for_def quota_after_silent Let_def split: option.split)

definition budgets_own :: "string list \<Rightarrow> quota_state \<Rightarrow> session \<Rightarrow> bool" where
  "budgets_own keys q s \<longleftrightarrow> cl_keys (ss_client s) = keys \<and> cl_quota (ss_client s) = q
     \<and> (\<forall>k. quota_for (ss_client s) (Some k) = own_budget q k (ss_heard s))"

lemma choose_key_keyed: "cl_keys (ss_client s) \<noteq> [] \<Longrightarrow> choose_key env pr s = (key, granted, p) \<Longrightarrow> \<exists>k. key = Some k"
  by (auto simp: choose_key_def Let_def split: option.splits prod.splits if_splits)

lemma call_cases:
  obtains (refused) e where "assert_quota (ss_client s) (ca_priority init) = Some e" "call env path init s = (Failing e, s)"
  | (waits) key p where "choose_key env (ca_priority init) s = (key, False, p)"
      "call env path init s = (Waiting, s\<lparr>ss_pacer := p, ss_calls := Suc (ss_calls s)\<rparr>)"
  | (fails) key p p' cache snt e where "choose_key env (ca_priority init) s = (key, True, p)"
      "call env path init s = (Failing e, s\<lparr>ss_client := (ss_client s)\<lparr>cl_cache := cache\<rparr>, ss_pacer := p', ss_calls := Suc (ss_calls s),
          ss_sent := ss_sent s @ [snt]\<rparr>)"
  | (answers) key p cache snt t and x :: fetch_result where "choose_key env (ca_priority init) s = (key, True, p)"
      "call env path init s = (Giving (fr_json x, fr_headers x), s\<lparr>ss_client := update_quota (fr_headers x) key t ((ss_client s)\<lparr>cl_cache := cache\<rparr>),
          ss_pacer := p, ss_calls := Suc (ss_calls s), ss_sent := ss_sent s @ [snt], ss_heard := ss_heard s @ [(key, fr_headers x, t)]\<rparr>)"
proof (cases "assert_quota (ss_client s) (ca_priority init)")
  case (Some e)
  then show thesis by (intro refused) (simp_all add: call_def Let_def)
next
  case None
  obtain key granted p where ck: "choose_key env (ca_priority init) s = (key, granted, p)" by (rule prod_cases3)
  show thesis
  proof (cases granted)
    case False
    with None ck show thesis by (intro waits[of key p]) (simp_all add: call_def Let_def)
  next
    case True
    obtain ds r cache where fj: "fetch_json (ce_net env (ss_calls s)) (cl_base (ss_client s) @ path) (call_options init) (cl_cache (ss_client s)) = (ds, r, cache)"
      by (rule prod_cases3)
    let ?snt = "(path, if key = None then cl_api_key (ss_client s) else key)"
    show thesis
    proof (cases r)
      case (Inl e)
      with None ck True fj show thesis
        by (intro fails[of key p e ?snt "punished env (ss_calls s) (ss_client s) key e p" cache]) (simp_all add: call_def Let_def)
    next
      case (Inr x)
      with None ck True fj show thesis
        by (intro answers[where key = key and p = p and x = x and t = "ce_answered env (ss_calls s)" and snt = ?snt and cache = cache]) (simp_all add: call_def Let_def)
    qed
  qed
qed

lemma own_budget_snoc:
  "own_budget q k (hs @ [(Some k', h, t)]) = (if k' = k then quota_after h t (own_budget q k hs) else own_budget q k hs)"
  by (simp add: own_budget_def)

lemma quota_for_cache [simp]: "quota_for (c\<lparr>cl_cache := x\<rparr>) key = quota_for c key"
  by (simp add: quota_for_def split: option.split)

lemma call_budgets:
  assumes "keys \<noteq> []" "budgets_own keys q s"
  shows "budgets_own keys q (snd (call env path init s))"
proof (rule call_cases[of s init env path])
  fix key p cache snt t and x :: fetch_result
  assume ck: "choose_key env (ca_priority init) s = (key, True, p)"
    and c: "call env path init s = (Giving (fr_json x, fr_headers x), s\<lparr>ss_client := update_quota (fr_headers x) key t ((ss_client s)\<lparr>cl_cache := cache\<rparr>),
          ss_pacer := p, ss_calls := Suc (ss_calls s), ss_sent := ss_sent s @ [snt], ss_heard := ss_heard s @ [(key, fr_headers x, t)]\<rparr>)"
  obtain k where k: "key = Some k" using choose_key_keyed[OF _ ck] assms by (auto simp: budgets_own_def)
  show ?thesis using assms(2) unfolding c k budgets_own_def by (simp add: update_quota_keyed own_budget_snoc)
qed (use assms in \<open>simp_all add: budgets_own_def\<close>)

lemma run_budgets: "keys \<noteq> [] \<Longrightarrow> budgets_own keys q s \<Longrightarrow> budgets_own keys q (run_calls env rs s)"
proof (induction rs arbitrary: s)
  case (Cons r rs)
  then show ?case using call_budgets[of keys q s] by (cases r) simp
qed simp

text \<open>
C29. However a client with several keys is used, the budget it holds for a key is the one that the answers on that key alone
give: what one key reports never changes another key's budget. A call is refused for want of quota exactly
when every key's own budget is closed, the reserve counting as open for a priority call.
\<close>

theorem key_budgets_isolated:
  assumes "cl_keys (ss_client s) \<noteq> []" and "cl_by_key (ss_client s) = (\<lambda>_. None)" and "ss_heard s = []"
  shows "(\<forall>k. quota_for (ss_client (run_calls env rs s)) (Some k) = own_budget (cl_quota (ss_client s)) k (ss_heard (run_calls env rs s)))
    \<and> (assert_quota (ss_client (run_calls env rs s)) priority = None \<longleftrightarrow>
      (\<exists>k\<in>set (cl_keys (ss_client s)). budget_open priority (own_budget (cl_quota (ss_client s)) k (ss_heard (run_calls env rs s)))))"
proof -
  let ?s = "run_calls env rs s"
  have "budgets_own (cl_keys (ss_client s)) (cl_quota (ss_client s)) s"
    using assms(2,3) by (simp add: budgets_own_def quota_for_def own_budget_def)
  from run_budgets[OF assms(1) this, of env rs]
  have b: "cl_keys (ss_client ?s) = cl_keys (ss_client s)"
      "\<forall>k. quota_for (ss_client ?s) (Some k) = own_budget (cl_quota (ss_client s)) k (ss_heard ?s)" by (simp_all add: budgets_own_def)
  have "assert_quota (ss_client ?s) priority = None \<longleftrightarrow>
      (\<exists>k\<in>set (cl_keys (ss_client s)). budget_open priority (own_budget (cl_quota (ss_client s)) k (ss_heard ?s)))"
    using assms(1) b by (simp add: assert_quota_def usable_keys_def filter_empty_conv)
  with b(2) show ?thesis by blast
qed

definition demo_bound :: boundary where
  "demo_bound = \<lparr>bd_date = (\<lambda>_. None), bd_issues = (\<lambda>_. ''bad'')\<rparr>"

definition demo_call_env :: call_env where
  "demo_call_env = \<lparr>ce_net = (\<lambda>_. demo_net), ce_now = (\<lambda>_. 0), ce_waits = (\<lambda>_. []), ce_answered = (\<lambda>_. 0), ce_bound = demo_bound\<rparr>"

definition demo_client :: client where
  "demo_client = new_client \<lparr>co_base_url = None, co_api_key = None, co_max_pages = None, co_page_limit = None, co_hourly_limit = None,
     co_api_keys = Some [''k1'', ''k2''], co_per_minute = None, co_reserve_percent = None\<rparr>"

definition demo_session :: "client \<Rightarrow> session" where
  "demo_session c = \<lparr>ss_client = c, ss_pacer = \<lparr>px_table = (\<lambda>_. None), px_objs = []\<rparr>, ss_calls = 0, ss_sent = [], ss_heard = []\<rparr>"

lemma key_budgets_isolated_witness:
  "assert_quota (ss_client (run_calls demo_call_env [(''/a'', plain_get), (''/b'', plain_get)] (demo_session demo_client))) True = None \<longleftrightarrow>
     (\<exists>k\<in>{''k1'', ''k2''}. budget_open True (own_budget (cl_quota demo_client) k
        (ss_heard (run_calls demo_call_env [(''/a'', plain_get), (''/b'', plain_get)] (demo_session demo_client)))))"
  using key_budgets_isolated[of "demo_session demo_client" demo_call_env "[(''/a'', plain_get), (''/b'', plain_get)]" True]
  by (simp add: demo_session_def demo_client_def new_client_def del: run_calls.simps)

text \<open>
. A client whose every key once reported no remaining requests never calls again: each later call, a mint's included, is refused
as rate limited without a request, at whatever time, since the instant of the reset it was told is
not part of the decision.
\<close>

theorem exhausted_client_stays_shut:
  assumes "cl_keys (ss_client s) \<noteq> []"
    and "\<forall>k\<in>set (cl_keys (ss_client s)). \<exists>r. qt_remaining (quota_for (ss_client s) (Some k)) = Some r \<and> r \<le> 0"
  shows "run_calls env rs s = s \<and> (\<exists>a. call env path init s = (Failing (ThrownApp a), s) \<and> category a = RateLimited)"
proof -
  have shut: "\<not> budget_open p (quota_for (ss_client s) (Some k))" if "k \<in> set (cl_keys (ss_client s))" for k p
    using assms(2) that by (auto simp: budget_open_def allowed_requests_def Let_def)
  have "usable_keys (ss_client s) p = []" for p using shut by (simp add: usable_keys_def filter_empty_conv)
  then have a: "assert_quota (ss_client s) p =
      Some (quota_error ''opensea quota exhausted on every configured key; waiting for window reset'')" for p
    using assms(1) by (simp add: assert_quota_def)
  have c: "call env path init s = (Failing (quota_error ''opensea quota exhausted on every configured key; waiting for window reset''), s)" for path init
    by (simp add: call_def a Let_def)
  have "run_calls env rs s = s" by (induction rs) (auto simp: c)
  then show ?thesis using c by (simp add: quota_error_def mk_app_error_def)
qed

definition spent_budget :: quota_state where
  "spent_budget = \<lparr>qt_limit = 600, qt_remaining = Some 0, qt_reset = Some 3600, qt_reserve = 10\<rparr>"

lemma exhausted_client_stays_shut_witness:
  "\<exists>a. call demo_call_env ''/api/v2/drops/x/mint'' \<lparr>ca_method = POST, ca_priority = True\<rparr>
         (demo_session (demo_client\<lparr>cl_by_key := (\<lambda>_. Some spent_budget)\<rparr>))
       = (Failing (ThrownApp a), demo_session (demo_client\<lparr>cl_by_key := (\<lambda>_. Some spent_budget)\<rparr>)) \<and> category a = RateLimited"
  using exhausted_client_stays_shut[of "demo_session (demo_client\<lparr>cl_by_key := (\<lambda>_. Some spent_budget)\<rparr>)" demo_call_env "[]"]
  by (simp add: demo_session_def demo_client_def new_client_def quota_for_def spent_budget_def)

end
