(* ===== verification/MintTx.thy ===== *)
theory MintTx
  imports MintReads Pacing OpenSeaClient Effects
begin

text \<open>
  Building the mint transaction ahead of its use (\<open>apps/worker/src/mint-tx.ts\<close>, \<open>workers/pre-build.ts\<close>). The
  signature burst is a state machine: a timer fires, requests are in flight on every key at once, their answers
  arrive in any order, and a promise is settled once. The speculative pass builds calldata for
  plans that open soon, under a write quota kept in a settings row and a back-off map of the process;
  its world records the requests it makes.
\<close>

section \<open>The signature burst\<close>

text \<open>A request is flying, has landed (its handler ran, the \<open>finally\<close> is due), or is over.\<close>

datatype flight = Flying | Landed | Over

record burst_request =
  rq_key :: nat
  rq_flight :: flight

type_synonym built_tx = "string \<times> string \<times> string"

record burst =
  bu_deadline :: int
  bu_settled :: "(thrown + built_tx) option"
  bu_next :: nat
  bu_penalized :: "nat \<Rightarrow> int option"
  bu_requests :: "burst_request list"
  bu_in_flight :: nat
  bu_last_error :: string

definition burst_start :: "int \<Rightarrow> int \<Rightarrow> burst" where
  "burst_start now max_ms = \<lparr>bu_deadline = now + max_ms, bu_settled = None, bu_next = 0, bu_penalized = (\<lambda>_. None),
     bu_requests = [], bu_in_flight = 0, bu_last_error = ''no attempt''\<rparr>"

definition finish :: "thrown + built_tx \<Rightarrow> burst \<Rightarrow> burst" where
  "finish r b = (if bu_settled b = None then b\<lparr>bu_settled := Some r\<rparr> else b)"

definition timed_out :: "burst \<Rightarrow> thrown" where
  "timed_out b = ThrownError (''signature burst timed out after '' @ show_nat (length (bu_requests b)) @ '' attempts: '' @ bu_last_error b)"

text \<open>\<open>fire\<close>, run by the timer until the promise is settled.\<close>

definition fire :: "nat \<Rightarrow> int \<Rightarrow> burst \<Rightarrow> burst" where
  "fire keys now b =
     (if bu_settled b \<noteq> None then b
      else if now > bu_deadline b then (if bu_in_flight b = 0 then finish (Inl (timed_out b)) b else b)
      else let idx = bu_next b mod keys; b1 = b\<lparr>bu_next := Suc (bu_next b)\<rparr>
           in if (case bu_penalized b idx of None \<Rightarrow> 0 | Some u \<Rightarrow> u) > now then b1
              else b1\<lparr>bu_requests := bu_requests b @ [\<lparr>rq_key = idx, rq_flight = Flying\<rparr>], bu_in_flight := Suc (bu_in_flight b)\<rparr>)"

text \<open>\<open>message.replace(/\s+/g, " ")\<close>.\<close>

fun squeeze :: "bool \<Rightarrow> string \<Rightarrow> string" where
  "squeeze after [] = []"
| "squeeze after (c # cs) =
     (if is_space c then (if after then squeeze True cs else CHR '' '' # squeeze True cs) else c # squeeze False cs)"

definition rate_limit_message :: "string \<Rightarrow> bool" where
  "rate_limit_message m \<longleftrightarrow> matches_ci ''429'' m \<or> matches_ci ''rate limit'' m"

definition aborts_burst :: "string \<Rightarrow> bool" where
  "aborts_burst m \<longleftrightarrow> is_terminal_mint_build_error m \<and> \<not> is_per_wallet_limit_error m"

definition set_flight :: "nat \<Rightarrow> flight \<Rightarrow> burst \<Rightarrow> burst" where
  "set_flight n f b = b\<lparr>bu_requests := (bu_requests b)[n := (bu_requests b ! n)\<lparr>rq_flight := f\<rparr>]\<rparr>"

definition in_state :: "nat \<Rightarrow> flight \<Rightarrow> burst \<Rightarrow> bool" where
  "in_state n f b \<longleftrightarrow> n < length (bu_requests b) \<and> rq_flight (bu_requests b ! n) = f"

definition answered :: "built_tx \<Rightarrow> burst \<Rightarrow> burst" where
  "answered tx = finish (Inr tx)"

definition refused :: "nat \<Rightarrow> thrown \<Rightarrow> int \<Rightarrow> burst \<Rightarrow> burst" where
  "refused key e now b =
     (let m = message_or_string e;
          b1 = b\<lparr>bu_last_error := take 160 (squeeze False m)\<rparr>;
          b2 = (if rate_limit_message m then b1\<lparr>bu_penalized := (bu_penalized b)(key \<mapsto> now + 1500)\<rparr> else b1)
      in if aborts_burst m then finish (Inl (as_error e)) b2 else b2)"

definition landed :: "int \<Rightarrow> burst \<Rightarrow> burst" where
  "landed now b =
     (let b1 = b\<lparr>bu_in_flight := bu_in_flight b - 1\<rparr>
      in if bu_settled b = None \<and> now > bu_deadline b \<and> bu_in_flight b1 = 0 then finish (Inl (timed_out b1)) b1 else b1)"

text \<open>
  What can happen next, with the clock's reading: the timer fires; the answer to request \<open>n\<close> arrives and its handler
  runs; the \<open>finally\<close> of a request runs. An event whose request is not in the state for it does not happen.
\<close>

datatype burst_event = Tick int | Answer nat built_tx | Refusal nat thrown int | Finally nat int

fun burst_step :: "nat \<Rightarrow> burst_event \<Rightarrow> burst \<Rightarrow> burst" where
  "burst_step keys (Tick t) b = fire keys t b"
| "burst_step keys (Answer n tx) b = (if in_state n Flying b then answered tx (set_flight n Landed b) else b)"
| "burst_step keys (Refusal n e t) b =
     (if in_state n Flying b then refused (rq_key (bu_requests b ! n)) e t (set_flight n Landed b) else b)"
| "burst_step keys (Finally n t) b = (if in_state n Landed b then landed t (set_flight n Over b) else b)"

definition run_burst :: "nat \<Rightarrow> burst_event list \<Rightarrow> burst \<Rightarrow> burst" where
  "run_burst keys es b = foldl (\<lambda>b e. burst_step keys e b) b es"

lemma run_burst_snoc [simp]: "run_burst keys (es @ [e]) b = burst_step keys e (run_burst keys es b)"
  by (simp add: run_burst_def)

lemma run_burst_Nil [simp]: "run_burst keys [] b = b"
  by (simp add: run_burst_def)

lemma run_burst_append: "run_burst keys (es @ fs) b = run_burst keys fs (run_burst keys es b)"
  by (simp add: run_burst_def)

definition in_flight :: "burst \<Rightarrow> nat" where
  "in_flight b = length (filter (\<lambda>r. rq_flight r \<noteq> Over) (bu_requests b))"

lemma settled_stays: "bu_settled b = Some r \<Longrightarrow> bu_settled (burst_step keys e b) = Some r"
  by (cases e) (auto simp: fire_def answered_def refused_def landed_def finish_def set_flight_def Let_def)

lemma settled_no_request: "bu_settled b \<noteq> None \<Longrightarrow> length (bu_requests (burst_step keys e b)) = length (bu_requests b)"
  by (cases e) (auto simp: fire_def answered_def refused_def landed_def finish_def set_flight_def Let_def)

lemma settled_run:
  "bu_settled b = Some r \<Longrightarrow> bu_settled (run_burst keys es b) = Some r \<and> length (bu_requests (run_burst keys es b)) = length (bu_requests b)"
proof (induction es rule: rev_induct)
  case (snoc e es)
  then show ?case using settled_stays[of "run_burst keys es b" r] settled_no_request[of "run_burst keys es b" keys e] by simp
qed simp

lemma filter_flight_update:
  assumes "n < length rs"
  shows "length (filter (\<lambda>r. rq_flight r \<noteq> Over) (rs[n := (rs ! n)\<lparr>rq_flight := f\<rparr>])) + (if rq_flight (rs ! n) \<noteq> Over then 1 else 0)
       = length (filter (\<lambda>r. rq_flight r \<noteq> Over) rs) + (if f \<noteq> Over then 1 else 0)"
proof -
  have "rs = take n rs @ rs ! n # drop (Suc n) rs" using assms by (rule id_take_nth_drop)
  from arg_cong[OF this, of "\<lambda>l. length (filter (\<lambda>r. rq_flight r \<noteq> Over) l)"]
  show ?thesis using assms by (simp add: upd_conv_take_nth_drop)
qed

text \<open>The counter is the number of requests that are not over, and every request is on a key.\<close>

definition burst_inv :: "nat \<Rightarrow> burst \<Rightarrow> bool" where
  "burst_inv keys b \<longleftrightarrow> bu_in_flight b = in_flight b \<and> (\<forall>r\<in>set (bu_requests b). rq_key r < keys)"

lemma in_flight_set: "in_state n g b \<Longrightarrow> in_flight (set_flight n f b) + (if g \<noteq> Over then 1 else 0) = in_flight b + (if f \<noteq> Over then 1 else 0)"
  using filter_flight_update[of n "bu_requests b" f] by (auto simp: in_state_def in_flight_def set_flight_def)

lemma keys_set: "in_state n g b \<Longrightarrow> \<forall>r\<in>set (bu_requests b). rq_key r < keys \<Longrightarrow> \<forall>r\<in>set (bu_requests (set_flight n f b)). rq_key r < keys"
  by (auto simp: in_state_def set_flight_def dest!: set_update_subset_insert[THEN subsetD] intro: nth_mem)

lemma in_flight_same: "bu_requests b' = bu_requests b \<Longrightarrow> in_flight b' = in_flight b"
  by (simp add: in_flight_def)

lemma requests_simps [simp]:
  "bu_requests (finish r b) = bu_requests b" "bu_in_flight (finish r b) = bu_in_flight b"
  "bu_requests (answered tx b) = bu_requests b" "bu_in_flight (answered tx b) = bu_in_flight b"
  "bu_requests (refused k e t b) = bu_requests b" "bu_in_flight (refused k e t b) = bu_in_flight b"
  "bu_requests (landed t b) = bu_requests b" "bu_in_flight (landed t b) = bu_in_flight b - 1"
  "bu_in_flight (set_flight n f b) = bu_in_flight b" "bu_settled (set_flight n f b) = bu_settled b"
  "bu_deadline (set_flight n f b) = bu_deadline b"
  by (simp_all add: finish_def answered_def refused_def landed_def set_flight_def Let_def)

lemma burst_inv_step:
  assumes "0 < keys" and "burst_inv keys b"
  shows "burst_inv keys (burst_step keys e b)"
proof (cases e)
  case (Tick t)
  have "bu_next b mod keys < keys" using assms(1) by simp
  then show ?thesis using assms(2) Tick by (auto simp: burst_inv_def fire_def in_flight_def Let_def)
next
  case (Answer n tx)
  then show ?thesis using assms(2) in_flight_set[of n Flying b Landed] keys_set[of n Flying b keys Landed]
    by (auto simp: burst_inv_def in_flight_same[OF requests_simps(3)])
next
  case (Refusal n e t)
  then show ?thesis using assms(2) in_flight_set[of n Flying b Landed] keys_set[of n Flying b keys Landed]
    by (auto simp: burst_inv_def in_flight_same[OF requests_simps(5)])
next
  case (Finally n t)
  then show ?thesis using assms(2) in_flight_set[of n Landed b Over] keys_set[of n Landed b keys Over]
    by (auto simp: burst_inv_def in_flight_same[OF requests_simps(7)])
qed

lemma burst_inv_run: "0 < keys \<Longrightarrow> burst_inv keys (run_burst keys es (burst_start now ms))"
proof (induction es rule: rev_induct)
  case Nil
  then show ?case by (simp add: burst_inv_def burst_start_def in_flight_def)
next
  case (snoc e es)
  then show ?case by (simp add: burst_inv_step)
qed

lemma deadline_run [simp]: "bu_deadline (run_burst keys es b) = bu_deadline b"
proof (induction es rule: rev_induct)
  case (snoc e es)
  moreover have "bu_deadline (burst_step keys e c) = bu_deadline c" for c
    by (cases e) (auto simp: fire_def answered_def refused_def landed_def finish_def set_flight_def Let_def)
  ultimately show ?case by simp
qed simp

text \<open>
  Where a settlement comes from: an answer, a refusal that ends the burst, or a timer or a \<open>finally\<close> past the deadline
  after which nothing is in flight.
\<close>

definition timed :: "burst_event \<Rightarrow> int \<Rightarrow> bool" where
  "timed e t \<longleftrightarrow> e = Tick t \<or> (\<exists>n. e = Finally n t)"

definition timeout_in :: "nat \<Rightarrow> burst \<Rightarrow> burst_event list \<Rightarrow> bool" where
  "timeout_in keys b es \<longleftrightarrow> (\<exists>es1 x es2 t. es = es1 @ x # es2 \<and> timed x t \<and> t > bu_deadline b
     \<and> bu_in_flight (run_burst keys (es1 @ [x]) b) = 0)"

definition settled_by :: "nat \<Rightarrow> burst \<Rightarrow> burst_event list \<Rightarrow> thrown + built_tx \<Rightarrow> bool" where
  "settled_by keys b es r \<longleftrightarrow>
     (case r of
        Inr tx \<Rightarrow> (\<exists>n. Answer n tx \<in> set es)
      | Inl e \<Rightarrow> (\<exists>n e' t. Refusal n e' t \<in> set es \<and> e = as_error e' \<and> aborts_burst (message_or_string e'))
               \<or> (timeout_in keys b es \<and> (\<exists>m. e = ThrownError m)))"

lemma settled_byI:
  "Answer n tx \<in> set es \<Longrightarrow> settled_by keys b es (Inr tx)"
  "Refusal n e t \<in> set es \<Longrightarrow> aborts_burst (message_or_string e) \<Longrightarrow> settled_by keys b es (Inl (as_error e))"
  "timeout_in keys b es \<Longrightarrow> settled_by keys b es (Inl (ThrownError m))"
  unfolding settled_by_def by auto

lemma settles_by:
  assumes "bu_settled b = None" and "bu_settled (burst_step keys e b) = Some r"
  shows "(\<exists>n tx. e = Answer n tx \<and> r = Inr tx)
    \<or> (\<exists>n e' t. e = Refusal n e' t \<and> r = Inl (as_error e') \<and> aborts_burst (message_or_string e'))
    \<or> (\<exists>t m. timed e t \<and> t > bu_deadline b \<and> bu_in_flight (burst_step keys e b) = 0 \<and> r = Inl (ThrownError m))"
  using assms
  by (cases e) (auto simp: fire_def answered_def refused_def landed_def finish_def timed_def timed_out_def Let_def
      split: if_splits)

lemma timeout_in_snoc: "timeout_in keys b es \<Longrightarrow> timeout_in keys b (es @ [e])"
  unfolding timeout_in_def
proof (elim exE conjE)
  fix es1 x es2 t
  assume "es = es1 @ x # es2" "timed x t" "t > bu_deadline b" "bu_in_flight (run_burst keys (es1 @ [x]) b) = 0"
  then show "\<exists>es1 x es2 t. es @ [e] = es1 @ x # es2 \<and> timed x t \<and> t > bu_deadline b \<and> bu_in_flight (run_burst keys (es1 @ [x]) b) = 0"
    by (intro exI[of _ es1] exI[of _ x] exI[of _ "es2 @ [e]"] exI[of _ t]) simp
qed

lemma settled_by_snoc: "settled_by keys b es r \<Longrightarrow> settled_by keys b (es @ [e]) r"
  unfolding settled_by_def by (auto intro: timeout_in_snoc split: sum.splits)

lemma settled_from: "bu_settled b = None \<Longrightarrow> bu_settled (run_burst keys es b) = Some r \<Longrightarrow> settled_by keys b es r"
proof (induction es rule: rev_induct)
  case (snoc e es)
  show ?case
  proof (cases "bu_settled (run_burst keys es b)")
    case None
    with snoc.prems settles_by[OF None, of keys e r] have
      "(\<exists>n tx. e = Answer n tx \<and> r = Inr tx)
       \<or> (\<exists>n e' t. e = Refusal n e' t \<and> r = Inl (as_error e') \<and> aborts_burst (message_or_string e'))
       \<or> (\<exists>t m. timed e t \<and> t > bu_deadline b \<and> bu_in_flight (run_burst keys (es @ [e]) b) = 0 \<and> r = Inl (ThrownError m))"
      by simp
    moreover have "timed e t \<Longrightarrow> t > bu_deadline b \<Longrightarrow> bu_in_flight (run_burst keys (es @ [e]) b) = 0 \<Longrightarrow> timeout_in keys b (es @ [e])" for t
      unfolding timeout_in_def by (intro exI[of _ es] exI[of _ e] exI[of _ "[]"] exI[of _ t]) simp
    ultimately show ?thesis by (elim disjE exE conjE) (auto simp del: run_burst_snoc intro: settled_byI)
  next
    case (Some r')
    then have "r' = r" using snoc.prems settled_stays[OF Some] by simp
    then show ?thesis using snoc Some by (auto intro: settled_by_snoc)
  qed
qed simp

text \<open>
C22. The signature burst settles once and for a reason: with calldata only if some request was answered with it; with a
refusal only if that refusal ends the whole drop and is not about this wallet's limit; with a timeout only past
the deadline and with no request in flight. After that nothing changes it and nothing more is sent.
And it does not hang: once the deadline has passed and no request is in flight, the next timer or the
\<open>finally\<close> of the last request settles it.
\<close>

theorem burst_settles:
  assumes "0 < keys"
  shows "(\<forall>r. bu_settled (run_burst keys es (burst_start now ms)) = Some r \<longrightarrow>
            settled_by keys (burst_start now ms) es r \<and>
            (\<forall>fs. bu_settled (run_burst keys (es @ fs) (burst_start now ms)) = Some r \<and>
                  length (bu_requests (run_burst keys (es @ fs) (burst_start now ms)))
                    = length (bu_requests (run_burst keys es (burst_start now ms)))))
    \<and> (\<forall>e t. timed e t \<longrightarrow> t > now + ms \<longrightarrow> (\<forall>n. e = Finally n t \<longrightarrow> in_state n Landed (run_burst keys es (burst_start now ms))) \<longrightarrow>
            in_flight (run_burst keys (es @ [e]) (burst_start now ms)) = 0 \<longrightarrow>
            bu_settled (run_burst keys (es @ [e]) (burst_start now ms)) \<noteq> None)"
proof (intro conjI allI impI)
  let ?b = "burst_start now ms"
  fix r assume r: "bu_settled (run_burst keys es ?b) = Some r"
  show "settled_by keys ?b es r" by (rule settled_from[OF _ r]) (simp add: burst_start_def)
  fix fs
  show "bu_settled (run_burst keys (es @ fs) ?b) = Some r"
      "length (bu_requests (run_burst keys (es @ fs) ?b)) = length (bu_requests (run_burst keys es ?b))"
    using settled_run[OF r, of keys fs] by (simp_all add: run_burst_append)
next
  let ?b = "run_burst keys es (burst_start now ms)"
  fix e t
  assume e: "timed e t" "t > now + ms" "\<forall>n. e = Finally n t \<longrightarrow> in_state n Landed ?b"
    and "in_flight (run_burst keys (es @ [e]) (burst_start now ms)) = 0"
  then have z: "bu_in_flight (burst_step keys e ?b) = 0"
    using burst_inv_run[OF assms, of "es @ [e]" now ms] by (simp add: burst_inv_def)
  have "bu_deadline ?b = now + ms" by (simp add: burst_start_def)
  with e z show "bu_settled (run_burst keys (es @ [e]) (burst_start now ms)) \<noteq> None"
    by (auto simp: timed_def fire_def landed_def finish_def Let_def split: if_splits)
qed

lemma burst_settles_witness:
  "bu_settled (run_burst 2 [Tick 0, Tick 80, Refusal 0 (ThrownError ''exceeds max per wallet'') 90, Finally 0 90,
      Answer 1 (''0xsea'', ''0xdata'', ''5''), Tick 160] (burst_start 0 1000)) = Some (Inr (''0xsea'', ''0xdata'', ''5''))
   \<and> settled_by 2 (burst_start 0 1000) [Tick 0, Tick 80, Refusal 0 (ThrownError ''exceeds max per wallet'') 90, Finally 0 90,
      Answer 1 (''0xsea'', ''0xdata'', ''5''), Tick 160] (Inr (''0xsea'', ''0xdata'', ''5''))"
proof -
  let ?es = "[Tick 0, Tick 80, Refusal 0 (ThrownError ''exceeds max per wallet'') 90, Finally 0 90,
      Answer 1 (''0xsea'', ''0xdata'', ''5''), Tick 160]"
  have r: "bu_settled (run_burst 2 ?es (burst_start 0 1000)) = Some (Inr (''0xsea'', ''0xdata'', ''5''))"
    by code_simp
  have "(0::nat) < 2" by simp
  from burst_settles[OF this, of ?es 0 1000] r show ?thesis by blast
qed

section \<open>The speculative pre-build\<close>

record pre_build_db =
  pb_tables :: db
  pb_window :: "write_window option"

record pre_build_world = "pre_build_db machine" +
  pb_backoff :: "string \<Rightarrow> (int \<times> nat) option"
  pb_calls :: "string list"

text \<open>What the key resolution and OpenSea make of the calls, by their number.\<close>

type_synonym build_env = "nat \<Rightarrow> string \<Rightarrow> int \<Rightarrow> string \<Rightarrow> int \<Rightarrow> thrown + raw_tx"

record pre_build_summary =
  pbs_candidates :: nat
  pbs_built :: nat
  pbs_skipped_quota :: nat
  pbs_skipped_backoff :: nat
  pbs_failed :: nat

definition write_quota_per_hour :: int where "write_quota_per_hour = 30"
definition cache_ttl_ms :: int where "cache_ttl_ms = 5 * 60 * 1000"
definition pre_build_lead_ms :: int where "pre_build_lead_ms = 10 * 60000"
definition pre_build_backoff_base_ms :: int where "pre_build_backoff_base_ms = 30000"
definition pre_build_backoff_max_ms :: int where "pre_build_backoff_max_ms = 5 * 60000"

definition pre_build_backoff_ms :: "nat \<Rightarrow> int" where
  "pre_build_backoff_ms k = min (pre_build_backoff_base_ms * 2 ^ (k - 1)) pre_build_backoff_max_ms"

type_synonym 'a pre_build = "(pre_build_world, 'a) eff"

definition load_quota_window :: "write_window pre_build" where
  "load_quota_window = then_do (db_read pb_window) (\<lambda>stored. then_do clock (\<lambda>t. ret (current_write_quota_window stored t)))"

definition held_back :: "string \<Rightarrow> bool pre_build" where
  "held_back i w = (case pb_backoff w i of None \<Rightarrow> (Inr False, w) | Some (until, _) \<Rightarrow> then_do clock (\<lambda>t. ret (t < until)) w)"

definition ask_build :: "build_env \<Rightarrow> string \<Rightarrow> string \<Rightarrow> int \<Rightarrow> string \<Rightarrow> int \<Rightarrow> raw_tx pre_build" where
  "ask_build env plan slug chain minter quantity w =
     (env (length (pb_calls w)) slug chain minter quantity, w\<lparr>pb_calls := pb_calls w @ [plan]\<rparr>)"

definition forget_backoff :: "string \<Rightarrow> unit pre_build" where
  "forget_backoff i w = (Inr (), w\<lparr>pb_backoff := (pb_backoff w)(i := None)\<rparr>)"

definition note_failure :: "string \<Rightarrow> unit pre_build" where
  "note_failure i = then_do clock (\<lambda>t w.
     let k = Suc (case pb_backoff w i of None \<Rightarrow> 0 | Some (_, n) \<Rightarrow> n)
     in (Inr (), w\<lparr>pb_backoff := (pb_backoff w)(i \<mapsto> (t + pre_build_backoff_ms k, k))\<rparr>))"

definition build_and_cache :: "build_env \<Rightarrow> mint_plan \<Rightarrow> write_window \<Rightarrow> string \<Rightarrow> int \<Rightarrow> string \<Rightarrow> unit pre_build" where
  "build_and_cache env p q slug chain minter =
     then_do (db_write (\<lambda>d. d\<lparr>pb_window := Some q\<rparr>)) (\<lambda>_.
     then_do (ask_build env (mp_id p) slug chain minter (mp_quantity p)) (\<lambda>tx.
     then_do (forget_backoff (mp_id p)) (\<lambda>_.
     then_do clock (\<lambda>t.
     db_write (\<lambda>d. d\<lparr>pb_tables := cache_mint_plan_tx (mp_id p) tx t (pb_tables d)\<rparr>)))))"

definition count_failed :: "string \<Rightarrow> write_window \<Rightarrow> pre_build_summary \<Rightarrow> (write_window \<times> pre_build_summary) pre_build" where
  "count_failed i q s = then_do (note_failure i) (\<lambda>_. ret (q, s\<lparr>pbs_failed := Suc (pbs_failed s)\<rparr>))"

definition pre_build_try :: "build_env \<Rightarrow> mint_plan \<Rightarrow> write_window \<Rightarrow> pre_build_summary \<Rightarrow> (write_window \<times> pre_build_summary) pre_build" where
  "pre_build_try env p q s =
     then_do (attempt (then_do (db_read (\<lambda>d. List.find (\<lambda>r. pr_id r = mp_project p) (projects (pb_tables d)))) (\<lambda>pr.
                       then_do (db_read (\<lambda>d. wallet_of (pb_tables d) p)) (\<lambda>wl. ret (pr, wl))))) (\<lambda>r.
     case r of
       Inl _ \<Rightarrow> count_failed (mp_id p) q s
     | Inr (pr, wl) \<Rightarrow>
         (case (pr, wl, Option.bind pr pr_slug) of
            (Some pr, Some wl, Some slug) \<Rightarrow>
              let q' = record_write_quota_call q
              in then_do (attempt (build_and_cache env p q' slug (pr_chain pr) (wl_address wl))) (\<lambda>r.
                 case r of
                   Inl _ \<Rightarrow> count_failed (mp_id p) q' s
                 | Inr _ \<Rightarrow> ret (q', s\<lparr>pbs_built := Suc (pbs_built s)\<rparr>))
          | _ \<Rightarrow> ret (q, s)))"

definition pre_build_one :: "build_env \<Rightarrow> mint_plan \<Rightarrow> write_window \<times> pre_build_summary \<Rightarrow> (write_window \<times> pre_build_summary) pre_build" where
  "pre_build_one env p = (\<lambda>(q, s).
     if \<not> should_attempt_speculative_write q write_quota_per_hour default_cap_fraction
     then ret (q, s\<lparr>pbs_skipped_quota := Suc (pbs_skipped_quota s)\<rparr>)
     else then_do (held_back (mp_id p)) (\<lambda>held.
          if held then ret (q, s\<lparr>pbs_skipped_backoff := Suc (pbs_skipped_backoff s)\<rparr>) else pre_build_try env p q s))"

fun pre_build_each :: "build_env \<Rightarrow> mint_plan list \<Rightarrow> write_window \<times> pre_build_summary \<Rightarrow> (write_window \<times> pre_build_summary) pre_build" where
  "pre_build_each env [] acc = ret acc"
| "pre_build_each env (p # ps) acc = then_do (pre_build_one env p acc) (pre_build_each env ps)"

definition run_speculative_pre_build :: "build_env \<Rightarrow> pre_build_summary pre_build" where
  "run_speculative_pre_build env =
     then_do clock (\<lambda>t.
     then_do (db_read (\<lambda>d. plans_needing_pre_build (pb_tables d) t cache_ttl_ms 5 pre_build_lead_ms)) (\<lambda>candidates.
     let s = \<lparr>pbs_candidates = length candidates, pbs_built = 0, pbs_skipped_quota = 0, pbs_skipped_backoff = 0, pbs_failed = 0\<rparr>
     in if candidates = [] then ret s
        else then_do load_quota_window (\<lambda>q. then_do (pre_build_each env candidates (q, s)) (\<lambda>(_, s). ret s))))"

section \<open>The write quota is kept\<close>

text \<open>
  What a pass may have done, relative to the window \<open>w0\<close> it loaded, the one stored before and the calls before: nothing,
  or every call it made is counted in the stored window.
\<close>

definition accounted :: "write_window \<Rightarrow> write_window option \<Rightarrow> nat \<Rightarrow> pre_build_world \<Rightarrow> bool" where
  "accounted w0 old n w \<longleftrightarrow>
     (pb_window (m_db w) = old \<and> length (pb_calls w) = n)
     \<or> (\<exists>v. pb_window (m_db w) = Some v \<and> ww_start v = ww_start w0 \<and> ww_count w0 \<le> ww_count v \<and> ww_count v \<le> write_cap write_quota_per_hour default_cap_fraction
          \<and> n \<le> length (pb_calls w) \<and> int (length (pb_calls w)) - int n \<le> ww_count v - ww_count w0)"

text \<open>The window in hand counts at least what is old.\<close>

definition in_hand :: "write_window \<Rightarrow> write_window option \<Rightarrow> nat \<Rightarrow> write_window \<Rightarrow> pre_build_world \<Rightarrow> bool" where
  "in_hand w0 old n q w \<longleftrightarrow> accounted w0 old n w \<and> ww_start q = ww_start w0 \<and> ww_count w0 \<le> ww_count q
     \<and> ww_count q \<le> write_cap write_quota_per_hour default_cap_fraction
     \<and> (pb_window (m_db w) = old \<and> length (pb_calls w) = n
        \<or> (\<forall>v. pb_window (m_db w) = Some v \<longrightarrow> ww_count v \<le> ww_count q))"

text \<open>Steps that leave the old window and the calls alone.\<close>

definition quota_view :: "pre_build_world \<Rightarrow> write_window option \<times> string list" where
  "quota_view w = (pb_window (m_db w), pb_calls w)"

definition view_only :: "(pre_build_world \<Rightarrow> bool) \<Rightarrow> bool" where
  "view_only I \<longleftrightarrow> (\<forall>w w'. quota_view w' = quota_view w \<longrightarrow> I w \<longrightarrow> I w')"

lemma view_onlyD: "view_only I \<Longrightarrow> I w \<Longrightarrow> quota_view w' = quota_view w \<Longrightarrow> I w'"
  unfolding view_only_def by blast

lemma in_hand_view: "view_only (in_hand w0 old n q)"
  by (simp add: view_only_def in_hand_def accounted_def quota_view_def)

lemma keeps_view:
  assumes "view_only I" and "\<And>w. quota_view (snd (m w)) = quota_view w"
  shows "keeps I m"
  by (rule keepsI) (rule view_onlyD[OF assms(1) _ assms(2)])

lemma view_clock: "quota_view (snd (clock w)) = quota_view w"
  by (simp add: clock_def quota_view_def split: list.split)

lemma view_read: "quota_view (snd (db_read f w)) = quota_view w"
  unfolding db_read_def by (cases rule: db_call_cases[of "\<lambda>d. (f d, d)" w]) (simp_all add: quota_view_def)

lemma view_held: "quota_view (snd (held_back i w)) = quota_view w"
  using view_clock[of w] by (auto simp: held_back_def then_do_def ret_def split: option.split prod.splits sum.splits)

lemma view_forget: "quota_view (snd (forget_backoff i w)) = quota_view w"
  by (simp add: forget_backoff_def quota_view_def)

lemma view_tables: "quota_view (snd (db_write (\<lambda>d. d\<lparr>pb_tables := f (pb_tables d)\<rparr>) w)) = quota_view w"
  unfolding db_write_def by (cases rule: db_call_cases[of "\<lambda>d. ((), d\<lparr>pb_tables := f (pb_tables d)\<rparr>)" w]) (simp_all add: quota_view_def)

lemma view_note: "quota_view (snd (note_failure i w)) = quota_view w"
  using view_clock[of w]
  by (auto simp: note_failure_def then_do_def quota_view_def Let_def split: prod.splits sum.splits)

lemmas keeps_quiet = keeps_view[OF _ view_clock] keeps_view[OF _ view_read] keeps_view[OF _ view_held]
  keeps_view[OF _ view_forget] keeps_view[OF _ view_tables] keeps_view[OF _ view_note]

lemma acts_then_quiet:
  assumes "view_only P" and "keeps P m" and "\<And>x. acts P (f x) Q" and "\<And>e w. P w \<Longrightarrow> Q (Inl e) w"
  shows "acts P (then_do m f) Q"
  by (rule acts_then_keep[OF assms(2,3,4)])

text \<open>Between the meter and the call.\<close>

definition metered_ahead :: "write_window \<Rightarrow> nat \<Rightarrow> write_window \<Rightarrow> pre_build_world \<Rightarrow> bool" where
  "metered_ahead w0 n q w \<longleftrightarrow> pb_window (m_db w) = Some q \<and> n \<le> length (pb_calls w)
     \<and> int (length (pb_calls w)) - int n < ww_count q - ww_count w0 \<and> ww_start q = ww_start w0
     \<and> ww_count w0 \<le> ww_count q \<and> ww_count q \<le> write_cap write_quota_per_hour default_cap_fraction"

lemma acts_build_and_cache:
  assumes "should_attempt_speculative_write q write_quota_per_hour default_cap_fraction" and "q' = record_write_quota_call q"
  shows "acts (in_hand w0 old n q) (build_and_cache env p q' slug chain minter) (\<lambda>r. in_hand w0 old n q')"
proof -
  have more: "in_hand w0 old n q' w" if "in_hand w0 old n q w" for w
    using that assms unfolding in_hand_def record_write_quota_call_def attempt_iff by fastforce
  have 1: "acts (in_hand w0 old n q) (db_write (\<lambda>d. d\<lparr>pb_window := Some q'\<rparr>))
      (\<lambda>r w. case r of Inl e \<Rightarrow> in_hand w0 old n q' w | Inr x \<Rightarrow> metered_ahead w0 n q' w)"
  proof (rule acts_db_write)
    fix w :: pre_build_world and fs assume h: "in_hand w0 old n q w"
    show "case Inr () of Inl (e::thrown) \<Rightarrow> in_hand w0 old n q' (w\<lparr>m_db := (m_db w)\<lparr>pb_window := Some q'\<rparr>, m_faults := fs\<rparr>)
        | Inr x \<Rightarrow> metered_ahead w0 n q' (w\<lparr>m_db := (m_db w)\<lparr>pb_window := Some q'\<rparr>, m_faults := fs\<rparr>)"
      using h assms unfolding in_hand_def accounted_def metered_ahead_def record_write_quota_call_def attempt_iff
      by (auto split: option.splits)
  next
    fix w :: pre_build_world and e :: thrown and fs assume h: "in_hand w0 old n q w"
    then show "case Inl e of Inl e \<Rightarrow> in_hand w0 old n q' (w\<lparr>m_faults := fs\<rparr>) | Inr (x :: unit) \<Rightarrow> metered_ahead w0 n q' (w\<lparr>m_faults := fs\<rparr>)"
      by (simp add: view_onlyD[OF in_hand_view more[OF h]] quota_view_def)
  qed
  have 2: "acts (metered_ahead w0 n q') (ask_build env (mp_id p) slug chain minter (mp_quantity p)) (\<lambda>r. in_hand w0 old n q')"
    by (rule actsI) (auto simp: ask_build_def metered_ahead_def in_hand_def accounted_def)
  have 3: "acts (in_hand w0 old n q') (then_do (forget_backoff (mp_id p)) (\<lambda>_. then_do clock (\<lambda>t.
      db_write (\<lambda>d. d\<lparr>pb_tables := cache_mint_plan_tx (mp_id p) tx t (pb_tables d)\<rparr>)))) (\<lambda>r. in_hand w0 old n q')" for tx
    unfolding keeps_def[symmetric] by (intro keep_rules keeps_quiet in_hand_view)
  show ?thesis unfolding build_and_cache_def
  proof (rule acts_then[OF 1])
    fix x :: unit
    show "acts (metered_ahead w0 n q') (then_do (ask_build env (mp_id p) slug chain minter (mp_quantity p)) (\<lambda>tx.
        then_do (forget_backoff (mp_id p)) (\<lambda>_. then_do clock (\<lambda>t.
        db_write (\<lambda>d. d\<lparr>pb_tables := cache_mint_plan_tx (mp_id p) tx t (pb_tables d)\<rparr>))))) (\<lambda>r. in_hand w0 old n q')"
      by (rule acts_then[where R = "\<lambda>_. in_hand w0 old n q'"]) (use 2 3 in \<open>auto split: sum.splits\<close>)
  qed
qed

definition pass_post :: "write_window \<Rightarrow> write_window option \<Rightarrow> nat \<Rightarrow> thrown + write_window \<times> pre_build_summary \<Rightarrow> pre_build_world \<Rightarrow> bool" where
  "pass_post w0 old n r w \<longleftrightarrow> (case r of Inl _ \<Rightarrow> accounted w0 old n w | Inr (q, _) \<Rightarrow> in_hand w0 old n q w)"

lemma in_hand_accounted: "in_hand w0 old n q w \<Longrightarrow> accounted w0 old n w"
  by (simp add: in_hand_def)

lemma acts_pass_ret: "acts (in_hand w0 old n q) (ret (q, s)) (pass_post w0 old n)"
  by (rule acts_ret) (simp add: pass_post_def)

lemma acts_count_failed: "acts (in_hand w0 old n q) (count_failed i q s) (pass_post w0 old n)"
  unfolding count_failed_def
  by (rule acts_then_keep[OF keeps_quiet(6)[OF in_hand_view] acts_pass_ret]) (simp add: pass_post_def in_hand_accounted)

lemma acts_pre_build_try:
  assumes "should_attempt_speculative_write q write_quota_per_hour default_cap_fraction"
  shows "acts (in_hand w0 old n q) (pre_build_try env p q s) (pass_post w0 old n)"
proof -
  have build: "acts (in_hand w0 old n q)
     (then_do (attempt (build_and_cache env p (record_write_quota_call q) slug chain minter)) (\<lambda>r.
        case r of Inl _ \<Rightarrow> count_failed (mp_id p) (record_write_quota_call q) s
        | Inr _ \<Rightarrow> ret (record_write_quota_call q, s\<lparr>pbs_built := Suc (pbs_built s)\<rparr>))) (pass_post w0 old n)" for slug chain minter
    by (rule acts_then[where R = "\<lambda>_. in_hand w0 old n (record_write_quota_call q)"], rule acts_attempt)
       (auto intro: acts_build_and_cache[OF assms refl] acts_count_failed acts_pass_ret split: sum.split)
  have quiet: "keeps (in_hand w0 old n q) (attempt (then_do (db_read (\<lambda>d. List.find (\<lambda>r. pr_id r = mp_project p) (projects (pb_tables d)))) (\<lambda>pr.
                       then_do (db_read (\<lambda>d. wallet_of (pb_tables d) p)) (\<lambda>wl. ret (pr, wl)))))"
    by (intro keep_rules keeps_quiet in_hand_view)
  show ?thesis unfolding pre_build_try_def
    by (rule acts_then_keep[OF quiet])
       (auto simp: Let_def pass_post_def in_hand_accounted intro!: build acts_count_failed acts_pass_ret
         split: sum.split option.split prod.split)
qed

lemma acts_pre_build_one: "acts (in_hand w0 old n q) (pre_build_one env p (q, s)) (pass_post w0 old n)"
proof (cases "should_attempt_speculative_write q write_quota_per_hour default_cap_fraction")
  case True
  have "acts (in_hand w0 old n q) (then_do (held_back (mp_id p)) (\<lambda>held.
          if held then ret (q, s\<lparr>pbs_skipped_backoff := Suc (pbs_skipped_backoff s)\<rparr>) else pre_build_try env p q s)) (pass_post w0 old n)"
    by (rule acts_then_keep[OF keeps_quiet(3)[OF in_hand_view]])
       (auto intro: acts_pass_ret acts_pre_build_try[OF True] simp: pass_post_def in_hand_accounted)
  then show ?thesis using True by (simp add: pre_build_one_def)
next
  case False
  then show ?thesis by (simp add: pre_build_one_def acts_pass_ret)
qed

lemma acts_pre_build_each: "acts (in_hand w0 old n q) (pre_build_each env ps (q, s)) (pass_post w0 old n)"
proof (induction ps arbitrary: q s)
  case Nil
  then show ?case by (simp add: acts_pass_ret)
next
  case (Cons p ps)
  have 1: "acts (in_hand w0 old n q) (pre_build_one env p (q, s))
      (\<lambda>r w. case r of Inl e \<Rightarrow> pass_post w0 old n (Inl e) w | Inr x \<Rightarrow> pass_post w0 old n (Inr x) w)"
    by (rule acts_post[OF acts_pre_build_one]) (auto split: sum.split)
  have 2: "acts (pass_post w0 old n (Inr acc)) (pre_build_each env ps acc) (pass_post w0 old n)" for acc
    using Cons.IH by (cases acc) (simp add: pass_post_def[of _ _ _ "Inr _", abs_def])
  show ?case unfolding pre_build_each.simps by (rule acts_then[OF 1 2])
qed

text \<open>The clock reads the instants between \<open>a\<close> and \<open>b\<close>.\<close>

definition clock_within :: "int \<Rightarrow> int \<Rightarrow> ('d, 'z) machine_scheme \<Rightarrow> bool" where
  "clock_within a b w \<longleftrightarrow> m_clock w \<noteq> [] \<and> set (m_clock w) \<subseteq> {a..b}"

definition at_rest :: "int \<Rightarrow> int \<Rightarrow> write_window option \<Rightarrow> nat \<Rightarrow> pre_build_world \<Rightarrow> bool" where
  "at_rest a b old n w \<longleftrightarrow> clock_within a b w \<and> pb_window (m_db w) = old \<and> length (pb_calls w) = n"

lemma at_rest_clock: "acts (at_rest a b old n) clock (\<lambda>r w. at_rest a b old n w \<and> (\<exists>t. r = Inr t \<and> a \<le> t \<and> t \<le> b))"
  by (rule actsI) (auto simp: clock_def at_rest_def clock_within_def split: list.splits)

lemma at_rest_read: "acts (at_rest a b old n) (db_read f) (\<lambda>r w. at_rest a b old n w \<and> (\<forall>x. r = Inr x \<longrightarrow> (\<exists>d. pb_window d = old \<and> x = f d)))"
proof (rule actsI)
  fix w r w' assume "at_rest a b old n w" "db_read f w = (r, w')"
  then show "at_rest a b old n w' \<and> (\<forall>x. r = Inr x \<longrightarrow> (\<exists>d. pb_window d = old \<and> x = f d))"
    unfolding db_read_def by (cases rule: db_call_cases[of "\<lambda>d. (f d, d)" w]) (auto simp: at_rest_def clock_within_def)
qed

definition loaded :: "int \<Rightarrow> int \<Rightarrow> write_window option \<Rightarrow> write_window \<Rightarrow> bool" where
  "loaded a b old q \<longleftrightarrow> (\<exists>t. a \<le> t \<and> t \<le> b \<and> q = current_write_quota_window old t)"

definition quota_ok :: "write_window option \<Rightarrow> bool" where
  "quota_ok old \<longleftrightarrow> (\<forall>v. old = Some v \<longrightarrow> 0 \<le> ww_count v \<and> ww_count v \<le> write_cap write_quota_per_hour default_cap_fraction)"

lemma loaded_in_hand:
  assumes "quota_ok old" "loaded a b old q" "at_rest a b old n w"
  shows "in_hand q old n q w"
  using assms write_cap_default
  by (auto simp: loaded_def in_hand_def accounted_def at_rest_def quota_ok_def current_write_quota_window_def write_quota_per_hour_def
      split: option.splits if_splits)

definition ran :: "int \<Rightarrow> int \<Rightarrow> write_window option \<Rightarrow> nat \<Rightarrow> pre_build_world \<Rightarrow> bool" where
  "ran a b old n w \<longleftrightarrow> pb_window (m_db w) = old \<and> length (pb_calls w) = n \<or> (\<exists>q. loaded a b old q \<and> accounted q old n w)"

lemma at_rest_ran: "at_rest a b old n w \<Longrightarrow> ran a b old n w"
  by (simp add: at_rest_def ran_def)

lemma acts_load: "acts (at_rest a b old n) load_quota_window (\<lambda>r w. at_rest a b old n w \<and> (\<forall>q. r = Inr q \<longrightarrow> loaded a b old q))"
  unfolding load_quota_window_def
proof (rule acts_then[where R = "\<lambda>x w. at_rest a b old n w \<and> x = old"], rule acts_post[OF at_rest_read[where f = pb_window]])
  fix x
  have "acts (at_rest a b old n) (then_do clock (\<lambda>t. ret (current_write_quota_window old t)))
      (\<lambda>r w. at_rest a b old n w \<and> (\<forall>q. r = Inr q \<longrightarrow> loaded a b old q))"
    by (rule acts_then[where R = "\<lambda>t w. at_rest a b old n w \<and> a \<le> t \<and> t \<le> b"], rule acts_post[OF at_rest_clock])
       (auto intro!: acts_ret simp: loaded_def split: sum.splits)
  then show "acts (\<lambda>w. at_rest a b old n w \<and> x = old) (then_do clock (\<lambda>t. ret (current_write_quota_window x t)))
      (\<lambda>r w. at_rest a b old n w \<and> (\<forall>q. r = Inr q \<longrightarrow> loaded a b old q))"
    by (cases "x = old") (simp_all add: acts_def)
qed (auto split: sum.splits)

lemma acts_run_pre_build:
  assumes "quota_ok old"
  shows "acts (at_rest a b old n) (run_speculative_pre_build env) (\<lambda>r. ran a b old n)"
proof -
  have each: "acts (at_rest a b old n) (then_do (pre_build_each env ps (q, s)) (\<lambda>(_, s). ret s)) (\<lambda>r. ran a b old n)"
    if "loaded a b old q" for q ps s
  proof -
    have "acts (in_hand q old n q) (then_do (pre_build_each env ps (q, s)) (\<lambda>(_, s). ret s)) (\<lambda>r. accounted q old n)"
      by (rule acts_then[where R = "\<lambda>_. accounted q old n"], rule acts_post[OF acts_pre_build_each])
         (auto simp: pass_post_def in_hand_accounted intro!: acts_ret split: sum.splits)
    then show ?thesis
      by (rule acts_pre[THEN acts_post]) (use that assms in \<open>auto intro: loaded_in_hand simp: ran_def\<close>)
  qed
  have rest: "acts (at_rest a b old n) (then_do load_quota_window (\<lambda>q. then_do (pre_build_each env ps (q, s)) (\<lambda>(_, s). ret s))) (\<lambda>r. ran a b old n)" for ps s
  proof (rule acts_then[where R = "\<lambda>q w. at_rest a b old n w \<and> loaded a b old q"], rule acts_post[OF acts_load])
    fix q
    show "acts (\<lambda>w. at_rest a b old n w \<and> loaded a b old q) (then_do (pre_build_each env ps (q, s)) (\<lambda>(_, s). ret s)) (\<lambda>r. ran a b old n)"
      by (cases "loaded a b old q") (simp_all add: each, simp add: acts_def)
  qed (auto intro: at_rest_ran split: sum.splits)
  have quiet: "keeps (at_rest a b old n) clock" "keeps (at_rest a b old n) (db_read f)" for f :: "pre_build_db \<Rightarrow> mint_plan list"
    unfolding keeps_def by (rule acts_post[OF at_rest_clock], simp) (rule acts_post[OF at_rest_read], simp)
  show ?thesis unfolding run_speculative_pre_build_def
    by (intro acts_then_keep[OF quiet(1)] acts_then_keep[OF quiet(2)]) (auto simp: Let_def at_rest_ran intro: acts_ret rest)
qed

text \<open>
  A pass in its surroundings: whatever the other workers made of the tables since, whatever was left of the back-off
  map, new readings of the clock and new faults.
\<close>

record pass_event =
  pa_env :: build_env
  pa_tables :: db
  pa_backoff :: "string \<Rightarrow> (int \<times> nat) option"
  pa_clock :: "int list"
  pa_faults :: "string option list"

definition enter_pass :: "pass_event \<Rightarrow> pre_build_world \<Rightarrow> pre_build_world" where
  "enter_pass e w = w\<lparr>m_db := (m_db w)\<lparr>pb_tables := pa_tables e\<rparr>, m_clock := pa_clock e, m_faults := pa_faults e,
     pb_backoff := pa_backoff e\<rparr>"

definition pre_build_pass :: "pass_event \<Rightarrow> pre_build_world \<Rightarrow> nat \<times> pre_build_world" where
  "pre_build_pass e w =
     (let w' = snd (run_speculative_pre_build (pa_env e) (enter_pass e w)) in (length (pb_calls w') - length (pb_calls w), w'))"

text \<open>The window a pass starts from: none stored counts as an empty one that starts at \<open>a\<close>.\<close>

definition window_at :: "int \<Rightarrow> write_window option \<Rightarrow> write_window" where
  "window_at a old = (case old of None \<Rightarrow> \<lparr>ww_start = a, ww_count = 0\<rparr> | Some v \<Rightarrow> v)"

definition pass_fine :: "int \<Rightarrow> int \<Rightarrow> pass_event \<Rightarrow> pre_build_world \<Rightarrow> bool" where
  "pass_fine a b e w \<longleftrightarrow> pa_clock e \<noteq> [] \<and> set (pa_clock e) \<subseteq> {a..b} \<and> quota_ok (pb_window (m_db w))"

definition pass_pot :: "int \<Rightarrow> int \<Rightarrow> pre_build_world \<Rightarrow> rat" where
  "pass_pot a b w = write_pot 24 b (window_at a (pb_window (m_db w)))"

lemma roll_pot:
  assumes "0 \<le> ww_count v" "ww_count v \<le> 24" "t \<le> b"
  shows "write_pot 24 b (current_write_quota_window (Some v) t) \<le> write_pot 24 b v"
proof -
  have f: "write_fine (write_cap 30 default_cap_fraction) b t v" using assms by (simp add: write_fine_def write_cap_default)
  have "write_pot 24 b (record_write_quota_call q) = write_pot 24 b q - 1" for q
    by (simp add: write_pot_def record_write_quota_call_def)
  then show ?thesis using write_pays[OF f] by (simp add: write_call_def write_cap_default Let_def split: if_splits)
qed

lemma loaded_pot:
  assumes "quota_ok old" "loaded a b old q"
  shows "write_pot 24 b q \<le> write_pot 24 b (window_at a old)"
proof -
  obtain t where t: "a \<le> t" "t \<le> b" "q = current_write_quota_window old t" using assms(2) by (auto simp: loaded_def)
  show ?thesis
  proof (cases old)
    case None
    have "(of_int a :: rat) \<le> of_int t" using t by simp
    then show ?thesis using t None by (simp add: write_pot_def window_at_def current_write_quota_window_def hour_ms_def)
  next
    case (Some v)
    then show ?thesis using roll_pot[of v t b] assms(1) t write_cap_default by (simp add: window_at_def quota_ok_def write_quota_per_hour_def)
  qed
qed

lemma ran_pays:
  assumes "quota_ok old" "ran a b old n w"
  shows "of_nat (length (pb_calls w) - n) + write_pot 24 b (window_at a (pb_window (m_db w))) \<le> write_pot 24 b (window_at a old)"
    and "quota_ok (pb_window (m_db w))" and "n \<le> length (pb_calls w)"
proof -
  have c: "write_cap write_quota_per_hour default_cap_fraction = 24" by (simp add: write_quota_per_hour_def write_cap_default)
  consider "pb_window (m_db w) = old" "length (pb_calls w) = n"
    | q v where "loaded a b old q" "pb_window (m_db w) = Some v" "ww_start v = ww_start q" "ww_count q \<le> ww_count v"
        "ww_count v \<le> 24" "n \<le> length (pb_calls w)" "int (length (pb_calls w)) - int n \<le> ww_count v - ww_count q"
    using assms(2) unfolding ran_def accounted_def c by blast
  then have "of_nat (length (pb_calls w) - n) + write_pot 24 b (window_at a (pb_window (m_db w))) \<le> write_pot 24 b (window_at a old)
      \<and> quota_ok (pb_window (m_db w)) \<and> n \<le> length (pb_calls w)"
  proof cases
    case 1
    then show ?thesis using assms(1) by simp
  next
    case 2
    have "0 \<le> ww_count q" using assms(1) 2(1) by (auto simp: loaded_def quota_ok_def current_write_quota_window_def split: option.splits)
    then have ok: "quota_ok (pb_window (m_db w))" using 2 c by (simp add: quota_ok_def)
    have "(of_nat (length (pb_calls w) - n) :: rat) = of_int (int (length (pb_calls w)) - int n)" using 2(6) by (simp add: of_nat_diff)
    also have "\<dots> \<le> of_int (ww_count v - ww_count q)" using 2(7) by (simp only: of_int_le_iff)
    finally have "of_nat (length (pb_calls w) - n) + write_pot 24 b v \<le> write_pot 24 b q"
      using 2(3) by (simp add: write_pot_def)
    then show ?thesis using loaded_pot[OF assms(1) 2(1)] ok 2(2,6) by (simp add: window_at_def)
  qed
  then show "of_nat (length (pb_calls w) - n) + write_pot 24 b (window_at a (pb_window (m_db w))) \<le> write_pot 24 b (window_at a old)"
    "quota_ok (pb_window (m_db w))" "n \<le> length (pb_calls w)" by blast+
qed

lemma pass_ran:
  assumes "pass_fine a b e w"
  shows "ran a b (pb_window (m_db w)) (length (pb_calls w)) (snd (pre_build_pass e w))"
proof -
  have "at_rest a b (pb_window (m_db w)) (length (pb_calls w)) (enter_pass e w)"
    using assms by (simp add: at_rest_def enter_pass_def clock_within_def pass_fine_def)
  moreover have "quota_ok (pb_window (m_db w))" using assms by (simp add: pass_fine_def)
  ultimately show ?thesis
    using acts_run_pre_build[of "pb_window (m_db w)" a b "length (pb_calls w)" "pa_env e"]
    by (auto simp: pre_build_pass_def Let_def acts_def) (metis prod.collapse)
qed

interpretation pre_build: metered pre_build_pass "pass_fine a b" "pass_pot a b" "\<lambda>_. 0"
proof
  fix e w assume f: "pass_fine a b e w"
  then have "quota_ok (pb_window (m_db w))" by (simp add: pass_fine_def)
  from ran_pays(1)[OF this pass_ran[OF f]]
  show "of_nat (fst (pre_build_pass e w)) + pass_pot a b (snd (pre_build_pass e w)) \<le> pass_pot a b w + 0"
    by (simp add: pass_pot_def pre_build_pass_def Let_def)
qed

lemma passes_all_fine:
  assumes "quota_ok (pb_window (m_db w))" and "\<forall>e\<in>set es. pa_clock e \<noteq> [] \<and> set (pa_clock e) \<subseteq> {a..b}"
  shows "pre_build.all_fine a b es w \<and> quota_ok (pb_window (m_db (snd (run_total pre_build_pass es w))))"
  using assms
proof (induction es arbitrary: w)
  case (Cons e es)
  have f: "pass_fine a b e w" using Cons.prems by (simp add: pass_fine_def)
  have "quota_ok (pb_window (m_db (snd (pre_build_pass e w))))" by (rule ran_pays(2)[OF Cons.prems(1) pass_ran[OF f]])
  from Cons.IH[OF this] f Cons.prems(2) show ?case by (simp add: split_beta Let_def)
qed simp

lemma started_before:
  assumes "\<forall>v. pb_window (m_db w) = Some v \<longrightarrow> ww_start v \<le> b" "a \<le> b" "quota_ok (pb_window (m_db w))"
    and "\<forall>e\<in>set es. pa_clock e \<noteq> [] \<and> set (pa_clock e) \<subseteq> {a..b}"
  shows "\<forall>v. pb_window (m_db (snd (run_total pre_build_pass es w))) = Some v \<longrightarrow> ww_start v \<le> b"
  using assms
proof (induction es arbitrary: w)
  case (Cons e es)
  have f: "pass_fine a b e w" using Cons.prems by (simp add: pass_fine_def)
  note r = pass_ran[OF f]
  have "\<forall>v. pb_window (m_db (snd (pre_build_pass e w))) = Some v \<longrightarrow> ww_start v \<le> b"
    using r Cons.prems(1) by (auto simp: ran_def accounted_def loaded_def current_write_quota_window_def split: option.splits if_splits)
  from Cons.IH[OF this Cons.prems(2) ran_pays(2)[OF Cons.prems(3) r]] Cons.prems(4) show ?case by (simp add: split_beta Let_def)
qed simp

text \<open>
C27. However often the speculative pass runs, whatever fails in it and whatever OpenSea answers, the builds it asks for stay
within its share of the write quota: from an empty window they are at most 24, and 24 more for
every hour that goes by, because the meter is stored before the call is made.
\<close>

theorem pre_build_within_quota:
  assumes "pb_window (m_db w) = None" and "a \<le> b" and "\<forall>e\<in>set es. pa_clock e \<noteq> [] \<and> set (pa_clock e) \<subseteq> {a..b}"
  shows "rat_of_nat (fst (run_total pre_build_pass es w)) \<le> 24 + 24 * (of_int (b - a) / of_int hour_ms)"
proof -
  have ok: "quota_ok (pb_window (m_db w))" using assms(1) by (simp add: quota_ok_def)
  let ?w = "snd (run_total pre_build_pass es w)"
  note fine = passes_all_fine[OF ok assms(3)]
  have "ww_start (window_at a (pb_window (m_db ?w))) \<le> b"
    using started_before[OF _ assms(2) ok assms(3)] assms(1,2) by (auto simp: window_at_def split: option.split)
  moreover have "ww_count (window_at a (pb_window (m_db ?w))) \<le> 24"
    using conjunct2[OF fine] write_cap_default by (auto simp: window_at_def quota_ok_def write_quota_per_hour_def split: option.split)
  ultimately have "0 \<le> pass_pot a b ?w"
    by (simp add: pass_pot_def write_pot_def hour_ms_def)
  from pre_build.total_bound[OF conjunct1[OF fine] this] show ?thesis
    using assms(1) by (simp add: pass_pot_def window_at_def write_pot_def sum_list_0)
qed

text \<open>One plan, one pass whose build OpenSea refuses: the call is metered all the same.\<close>

definition pre_build_plan :: mint_plan where
  "pre_build_plan = \<lparr>mp_id = ''m'', mp_project = ''p'', mp_stage = None, mp_fire_at = Some 1000, mp_signer = None, mp_wallet = ''w'',
     mp_quantity = 1, mp_ceiling = ''5'', mp_status = Armed, mp_armed_at = Some 0, mp_armed_until = Some 100000,
     mp_armed_by = None, mp_cached_tx = None, mp_cached_at = None, mp_raw = None, mp_nonce = None, mp_hash = None,
     mp_presigned_at = None, mp_created = 0, mp_updated = 0\<rparr>"

definition pre_build_tables :: db where
  "pre_build_tables = \<lparr>plans = [pre_build_plan], attempts = [], signers = [], stages = [],
     wallets = [\<lparr>wl_id = ''w'', wl_address = ''0xabc'', wl_label = None, wl_enabled = True, wl_key = None, wl_balance = None\<rparr>],
     projects = [\<lparr>pr_id = ''p'', pr_name = ''drop'', pr_slug = Some ''drop'', pr_contract = None, pr_chain = 4663\<rparr>], events = []\<rparr>"

definition refused_pass :: pass_event where
  "refused_pass = \<lparr>pa_env = (\<lambda>_ _ _ _ _. Inl (ThrownError ''provider returned 422'')), pa_tables = pre_build_tables,
     pa_backoff = (\<lambda>_. None), pa_clock = [10], pa_faults = []\<rparr>"

definition fresh_world :: pre_build_world where
  "fresh_world = \<lparr>m_db = \<lparr>pb_tables = pre_build_tables, pb_window = None\<rparr>, m_clock = [0], m_faults = [], pb_backoff = (\<lambda>_. None), pb_calls = []\<rparr>"

lemma refused_pass_asks: "fst (run_total pre_build_pass [refused_pass] fresh_world) = 1"
  by code_simp

lemma pre_build_within_quota_witness:
  "fst (run_total pre_build_pass [refused_pass] fresh_world) = 1
   \<and> rat_of_nat (fst (run_total pre_build_pass [refused_pass] fresh_world)) \<le> 24 + 24 * (of_int (10 - 0) / of_int hour_ms)"
  using refused_pass_asks pre_build_within_quota[of fresh_world 0 10 "[refused_pass]"]
  by (simp add: fresh_world_def refused_pass_def)

end
