(* ===== verification/Credentials.thy ===== *)
theory Credentials
  imports MintTx Secrets
begin

text \<open>
  The credential store (\<open>packages/db/src/repositories/credentials.ts\<close>) and the resolution of OpenSea keys and wallet tokens
  (\<open>apps/worker/src/credentials.ts\<close>). Secrets are sealed before they are stored. What the functions need of the
  outside is in \<open>key_env\<close>: the cipher with its random bytes, the SHA-256 of a text, and the networks of the requests by
  their number; the world counts seals and requests and holds the process's token cache.
\<close>

section \<open>The store\<close>

record credential =
  cd_id :: nat
  cd_type :: string
  cd_name :: string
  cd_ciphertext :: string
  cd_version :: int
  cd_fingerprint :: string
  cd_expires :: "int option"
  cd_metadata :: "(string \<times> js) list option"
  cd_created_by :: "string option"
  cd_created :: int
  cd_updated :: int

record credential_view =
  cv_id :: nat
  cv_type :: string
  cv_name :: string
  cv_fingerprint :: string
  cv_expires :: "int option"
  cv_metadata :: "(string \<times> js) list option"
  cv_created :: int

definition to_view :: "credential \<Rightarrow> credential_view" where
  "to_view r = \<lparr>cv_id = cd_id r, cv_type = cd_type r, cv_name = cd_name r, cv_fingerprint = cd_fingerprint r,
     cv_expires = cd_expires r, cv_metadata = cd_metadata r, cv_created = cd_created r\<rparr>"

record key_db =
  kd_credentials :: "credential list"
  kd_settings :: "string \<Rightarrow> js option"
  kd_next :: nat

record 'd key_world = "'d machine" +
  kw_seals :: nat
  kw_posts :: nat
  kw_jwts :: "string \<Rightarrow> (string \<times> rat) option"

type_synonym ('z, 'w, 'a) keyed = "(('z key_db_scheme, 'w) key_world_scheme, 'a) eff"

record key_env =
  ke_gcm :: gcm
  ke_nonce :: "nat \<Rightarrow> bytes"
  ke_sha256 :: "string \<Rightarrow> string"
  ke_master :: string
  ke_instant :: "nat \<Rightarrow> call_env"
  ke_exchange :: "nat \<Rightarrow> string \<Rightarrow> thrown + string \<times> rat"

definition fingerprint :: "key_env \<Rightarrow> string \<Rightarrow> string" where
  "fingerprint env v = take 12 (ke_sha256 env v)"

definition seal :: "key_env \<Rightarrow> string \<Rightarrow> ('z, 'w, sealed) keyed" where
  "seal env plaintext w =
     (seal_secret (ke_gcm env) (ke_nonce env (kw_seals w)) plaintext (ke_master env) current_key_version, w\<lparr>kw_seals := Suc (kw_seals w)\<rparr>)"

record credential_input =
  cn_type :: string
  cn_name :: string
  cn_secret :: string
  cn_metadata :: "(string \<times> js) list option"
  cn_expires :: "int option"
  cn_created_by :: "string option"

definition insert_credential :: "key_env \<Rightarrow> credential_input \<Rightarrow> sealed \<Rightarrow> int \<Rightarrow> 'z key_db_scheme \<Rightarrow> credential_view \<times> 'z key_db_scheme" where
  "insert_credential env c s now d =
     (let row = \<lparr>cd_id = kd_next d, cd_type = cn_type c, cd_name = cn_name c, cd_ciphertext = se_ciphertext s, cd_version = se_version s,
                 cd_fingerprint = fingerprint env (cn_secret c), cd_expires = cn_expires c, cd_metadata = cn_metadata c,
                 cd_created_by = cn_created_by c, cd_created = now, cd_updated = now\<rparr>
      in (to_view row, d\<lparr>kd_credentials := kd_credentials d @ [row], kd_next := Suc (kd_next d)\<rparr>))"

definition create_credential :: "key_env \<Rightarrow> credential_input \<Rightarrow> ('z, 'w, credential_view) keyed" where
  "create_credential env c =
     then_do (seal env (cn_secret c)) (\<lambda>s. then_do clock (\<lambda>t. db_call (insert_credential env c s t)))"

definition credential_row :: "nat \<Rightarrow> 'z key_db_scheme \<Rightarrow> credential option" where
  "credential_row i d = List.find (\<lambda>r. cd_id r = i) (kd_credentials d)"

definition open_row :: "key_env \<Rightarrow> credential \<Rightarrow> thrown + string" where
  "open_row env r = open_secret (ke_gcm env)
     \<lparr>se_ciphertext = cd_ciphertext r, se_version = cd_version r, se_algorithm = symmetric_algorithm\<rparr> (ke_master env)"

definition get_credential_secret :: "key_env \<Rightarrow> nat \<Rightarrow> ('z, 'w, string option) keyed" where
  "get_credential_secret env i =
     then_do (db_read (credential_row i)) (\<lambda>row. case row of
       None \<Rightarrow> ret None
     | Some r \<Rightarrow> lift_sum (rmap Some (open_row env r)))"

text \<open>An option of the patch that is absent leaves the column.\<close>

definition reseal_row :: "key_env \<Rightarrow> string \<Rightarrow> sealed \<Rightarrow> (string \<times> js) list option \<Rightarrow> int option option \<Rightarrow> int \<Rightarrow> credential \<Rightarrow> credential" where
  "reseal_row env secret s metadata expires now r =
     r\<lparr>cd_ciphertext := se_ciphertext s, cd_version := se_version s, cd_fingerprint := fingerprint env secret, cd_updated := now,
       cd_metadata := (case metadata of None \<Rightarrow> cd_metadata r | Some m \<Rightarrow> Some m),
       cd_expires := (case expires of None \<Rightarrow> cd_expires r | Some e \<Rightarrow> e)\<rparr>"

definition update_row :: "nat \<Rightarrow> (credential \<Rightarrow> credential) \<Rightarrow> 'z key_db_scheme \<Rightarrow> 'z key_db_scheme" where
  "update_row i f d = d\<lparr>kd_credentials := update_where (\<lambda>r. cd_id r = i) f (kd_credentials d)\<rparr>"

definition update_credential_secret ::
  "key_env \<Rightarrow> nat \<Rightarrow> string \<Rightarrow> (string \<times> js) list option \<Rightarrow> int option option \<Rightarrow> ('z, 'w, credential_view option) keyed" where
  "update_credential_secret env i secret metadata expires =
     then_do (seal env secret) (\<lambda>s. then_do clock (\<lambda>t.
     db_call (\<lambda>d. let d' = update_row i (reseal_row env secret s metadata expires t) d in (map_option to_view (credential_row i d'), d'))))"

text \<open>\<open>{ ...old, ...patch }\<close>.\<close>

definition merge_fields :: "(string \<times> js) list \<Rightarrow> (string \<times> js) list \<Rightarrow> (string \<times> js) list" where
  "merge_fields old patch = filter (\<lambda>(k, _). k \<notin> fst ` set patch) old @ patch"

definition update_credential_metadata :: "nat \<Rightarrow> (string \<times> js) list \<Rightarrow> ('z, 'w, unit) keyed" where
  "update_credential_metadata i patch =
     then_do (db_read (credential_row i)) (\<lambda>row. case row of
       None \<Rightarrow> ret ()
     | Some r \<Rightarrow> then_do clock (\<lambda>t. db_write (update_row i
         (\<lambda>q. q\<lparr>cd_metadata := Some (merge_fields (case cd_metadata r of None \<Rightarrow> [] | Some m \<Rightarrow> m) patch), cd_updated := t\<rparr>))))"

definition find_credentials_by_type :: "string \<Rightarrow> ('z, 'w, credential_view list) keyed" where
  "find_credentials_by_type ty = db_read (\<lambda>d. map to_view (sort_desc cd_created (filter (\<lambda>r. cd_type r = ty) (kd_credentials d))))"

definition find_credential_by_type :: "string \<Rightarrow> ('z, 'w, credential_view option) keyed" where
  "find_credential_by_type ty =
     db_read (\<lambda>d. case sort_desc cd_created (filter (\<lambda>r. cd_type r = ty) (kd_credentials d)) of [] \<Rightarrow> None | r # _ \<Rightarrow> Some (to_view r))"

definition list_credentials :: "('z, 'w, credential_view list) keyed" where
  "list_credentials = db_read (\<lambda>d. map to_view (sort_desc cd_created (kd_credentials d)))"

definition revoke_credential :: "nat \<Rightarrow> ('z, 'w, bool) keyed" where
  "revoke_credential i = db_call (\<lambda>d. (credential_row i d \<noteq> None, d\<lparr>kd_credentials := filter (\<lambda>r. cd_id r \<noteq> i) (kd_credentials d)\<rparr>))"

definition get_setting :: "string \<Rightarrow> ('z, 'w, js option) keyed" where
  "get_setting key = db_read (\<lambda>d. kd_settings d key)"

definition set_setting :: "string \<Rightarrow> js \<Rightarrow> ('z, 'w, unit) keyed" where
  "set_setting key v = db_write (\<lambda>d. d\<lparr>kd_settings := (kd_settings d)(key \<mapsto> v)\<rparr>)"

section \<open>OpenSea keys\<close>

datatype key_purpose = ForScan | ForMint

definition partition_keys :: "string list \<Rightarrow> key_purpose \<Rightarrow> nat \<Rightarrow> string list" where
  "partition_keys keys purpose scan_count =
     (if length keys < 2 then keys
      else let n = min (max 1 scan_count) (length keys - 1) in if purpose = ForScan then take n keys else drop n keys)"

record resolved_key =
  rk_key :: string
  rk_keys :: "string list"
  rk_instant :: bool
  rk_expires :: "int option"

definition invalidate_instant_key_on_auth_failure :: "bool \<Rightarrow> ('z, 'w, bool) keyed" where
  "invalidate_instant_key_on_auth_failure instant =
     (if \<not> instant then ret False
      else then_do (find_credential_by_type ''opensea_instant_key'') (\<lambda>c. case c of
        None \<Rightarrow> ret False
      | Some v \<Rightarrow> then_do (revoke_credential (cv_id v)) (\<lambda>_. ret True)))"

fun portal_secrets :: "key_env \<Rightarrow> credential_view list \<Rightarrow> ('z, 'w, string list) keyed" where
  "portal_secrets env [] = ret []"
| "portal_secrets env (v # vs) =
     then_do (get_credential_secret env (cv_id v)) (\<lambda>s.
     then_do (portal_secrets env vs) (\<lambda>r.
     ret (case s of Some x \<Rightarrow> if trim x \<noteq> [] then x # r else r | None \<Rightarrow> r)))"

definition with_env_key :: "string list \<Rightarrow> string option \<Rightarrow> string list" where
  "with_env_key keys env_key = (case env_key of Some k \<Rightarrow> if k \<noteq> [] \<and> k \<notin> set keys then keys @ [k] else keys | None \<Rightarrow> keys)"

definition instant_of :: "string \<Rightarrow> int option \<Rightarrow> resolved_key" where
  "instant_of k e = \<lparr>rk_key = k, rk_keys = [k], rk_instant = True, rk_expires = e\<rparr>"

definition stored_instant :: "key_env \<Rightarrow> ('z, 'w, resolved_key option) keyed" where
  "stored_instant env =
     then_do (find_credential_by_type ''opensea_instant_key'') (\<lambda>c. case c of
       None \<Rightarrow> ret None
     | Some v \<Rightarrow> then_do (get_credential_secret env (cv_id v)) (\<lambda>s. case s of
         None \<Rightarrow> ret None
       | Some k \<Rightarrow> (case cv_expires v of
           None \<Rightarrow> ret (Some (instant_of k None))
         | Some e \<Rightarrow> then_do clock (\<lambda>t. ret (if e > t + 24 * 3600 * 1000 then Some (instant_of k (Some e)) else None)))))"

definition backoff_setting :: string where "backoff_setting = ''opensea_instant_key_backoff_until''"

definition issuance_parked :: thrown where
  "issuance_parked = ThrownApp (mk_app_error AuthRequired
     ''no OpenSea key: instant-key issuance is rate-limited - add a Developer API key in Admin > OpenSea'' (no_options\<lparr>opt_status := Some 401\<rparr>))"

text \<open>\<open>backoffUntil !== undefined && backoffUntil > Date.now()\<close>; only numbers are ever stored there.\<close>

definition still_parked :: "js option \<Rightarrow> int \<Rightarrow> bool" where
  "still_parked v now = (case v of Some (js.JNum r) \<Rightarrow> r > of_int now | _ \<Rightarrow> False)"

definition keyless_session :: session where
  "keyless_session = \<lparr>ss_client = new_client \<lparr>co_base_url = None, co_api_key = None, co_max_pages = None, co_page_limit = None,
       co_hourly_limit = None, co_api_keys = None, co_per_minute = None, co_reserve_percent = None\<rparr>,
     ss_pacer = \<lparr>px_table = (\<lambda>_. None), px_objs = []\<rparr>, ss_calls = 0, ss_sent = [], ss_heard = []\<rparr>"

text \<open>The request for a fresh key, by a client without keys, which never waits.\<close>

definition bootstrap_key :: "key_env \<Rightarrow> ('z, 'w, string \<times> int option) keyed" where
  "bootstrap_key env w =
     (case fst (create_instant_key (ke_instant env (kw_posts w)) keyless_session) of
        Giving x \<Rightarrow> Inr x | Failing e \<Rightarrow> Inl e | Waiting \<Rightarrow> Inl (ThrownError ''waiting''),
      w\<lparr>kw_posts := Suc (kw_posts w)\<rparr>)"

definition park_and_throw :: "thrown \<Rightarrow> ('z, 'w, 'a) keyed" where
  "park_and_throw e =
     then_do clock (\<lambda>t. then_do (attempt (set_setting backoff_setting (js.JNum (of_int (t + 15 * 60 * 1000))))) (\<lambda>_. throw e))"

definition fresh_instant :: "key_env \<Rightarrow> ('z, 'w, resolved_key) keyed" where
  "fresh_instant env =
     then_do (get_setting backoff_setting) (\<lambda>b.
     then_do (case b of None \<Rightarrow> ret False | Some _ \<Rightarrow> then_do clock (\<lambda>t. ret (still_parked b t))) (\<lambda>parked.
     if parked then throw issuance_parked
     else then_do (attempt (bootstrap_key env)) (\<lambda>r. case r of
       Inl e \<Rightarrow> park_and_throw e
     | Inr (k, e) \<Rightarrow>
         then_do (case e of Some t \<Rightarrow> ret t | None \<Rightarrow> then_do clock (\<lambda>t. ret (t + 6 * 24 * 3600 * 1000))) (\<lambda>expires.
         then_do (create_credential env \<lparr>cn_type = ''opensea_instant_key'', cn_name = ''Managed instant key'', cn_secret = k,
                    cn_metadata = None, cn_expires = Some expires, cn_created_by = None\<rparr>) (\<lambda>_.
         ret (instant_of k (Some expires)))))))"

definition portal_key :: "credential_view list \<Rightarrow> string list \<Rightarrow> resolved_key" where
  "portal_key portals allowed = \<lparr>rk_key = hd allowed, rk_keys = allowed, rk_instant = False,
     rk_expires = (case portals of [] \<Rightarrow> None | v # _ \<Rightarrow> cv_expires v)\<rparr>"

definition resolve_open_sea_key :: "key_env \<Rightarrow> string option \<Rightarrow> key_purpose \<Rightarrow> nat \<Rightarrow> ('z, 'w, resolved_key) keyed" where
  "resolve_open_sea_key env env_key purpose scan_count =
     then_do (find_credentials_by_type ''opensea_api_key'') (\<lambda>portals.
     then_do (portal_secrets env portals) (\<lambda>secrets.
     let keys = with_env_key secrets env_key
     in if keys \<noteq> [] then ret (portal_key portals (partition_keys keys purpose scan_count))
        else then_do (stored_instant env) (\<lambda>i. case i of Some k \<Rightarrow> ret k | None \<Rightarrow> fresh_instant env)))"

section \<open>Wallet tokens\<close>

definition stored_pat :: "key_env \<Rightarrow> ('z, 'w, (string \<times> string) option) keyed" where
  "stored_pat env =
     then_do (find_credential_by_type ''opensea_pat'') (\<lambda>c. case c of
       None \<Rightarrow> ret None
     | Some v \<Rightarrow> then_do (get_credential_secret env (cv_id v)) (\<lambda>s. ret (map_option (\<lambda>x. (x, cv_fingerprint v)) s)))"

definition access_pat :: "key_env \<Rightarrow> string option \<Rightarrow> ('z, 'w, (string \<times> string) option) keyed" where
  "access_pat env env_pat =
     (case env_pat of
        Some p \<Rightarrow> if p \<noteq> [] then ret (Some (p, ''env:'' @ show_nat (length p))) else stored_pat env
      | None \<Rightarrow> stored_pat env)"

definition cached_jwt :: "string \<Rightarrow> ('z, 'w, string option) keyed" where
  "cached_jwt fp w = (case kw_jwts w fp of
      None \<Rightarrow> (Inr None, w)
    | Some (j, e) \<Rightarrow> then_do clock (\<lambda>t. ret (if e > of_int (t + 5 * 60 * 1000) then Some j else None)) w)"

definition ask_exchange :: "key_env \<Rightarrow> string \<Rightarrow> ('z, 'w, string \<times> rat) keyed" where
  "ask_exchange env pat w = (ke_exchange env (kw_posts w) pat, w\<lparr>kw_posts := Suc (kw_posts w)\<rparr>)"

definition keep_jwt :: "string \<Rightarrow> string \<times> rat \<Rightarrow> ('z, 'w, unit) keyed" where
  "keep_jwt fp x w = (Inr (), w\<lparr>kw_jwts := (kw_jwts w)(fp \<mapsto> x)\<rparr>)"

definition get_wallet_jwt :: "key_env \<Rightarrow> string option \<Rightarrow> ('z, 'w, string option) keyed" where
  "get_wallet_jwt env env_pat =
     then_do (access_pat env env_pat) (\<lambda>p. case p of
       None \<Rightarrow> ret None
     | Some (pat, fp) \<Rightarrow>
         then_do (cached_jwt fp) (\<lambda>c. case c of
           Some j \<Rightarrow> ret (Some j)
         | None \<Rightarrow> try_catch (then_do (ask_exchange env pat) (\<lambda>x. then_do (keep_jwt fp x) (\<lambda>_. ret (Some (fst x)))))
             (\<lambda>e. case e of ThrownApp a \<Rightarrow> if category a = AuthRequired then ret None else throw e | _ \<Rightarrow> throw e)))"

section \<open>The two pools\<close>

lemma then_do_Inr: "then_do m f w = (Inr y, w') \<longleftrightarrow> (\<exists>x w1. m w = (Inr x, w1) \<and> f x w1 = (Inr y, w'))"
  by (auto simp: then_do_def split: prod.splits sum.splits)

lemma stored_instant_yields: "yields (stored_instant env) (\<lambda>i. \<forall>k. i = Some k \<longrightarrow> rk_instant k)"
  unfolding stored_instant_def
  by (intro yields_then)
     (auto split: option.split if_split_asm intro!: yields_then yields_ret simp: instant_of_def)

lemma yields_throw: "yields (throw e) Q"
  by (simp add: yields_def throw_def)

lemma fresh_instant_yields: "yields (fresh_instant env) rk_instant"
  unfolding fresh_instant_def park_and_throw_def
  by (intro yields_then) (auto split: sum.split intro!: yields_then yields_ret yields_throw simp: instant_of_def)

lemma instants_owned:
  "stored_instant env w = (Inr (Some r), w') \<Longrightarrow> rk_instant r" "fresh_instant env w = (Inr r, w') \<Longrightarrow> rk_instant r"
  using stored_instant_yields fresh_instant_yields unfolding yields_def by blast+

lemma resolved_from_pool:
  assumes "resolve_open_sea_key env k purpose n w = (Inr r, w')" and "\<not> rk_instant r"
  shows "\<exists>portals w1 secrets w2. find_credentials_by_type ''opensea_api_key'' w = (Inr portals, w1)
    \<and> portal_secrets env portals w1 = (Inr secrets, w2) \<and> with_env_key secrets k \<noteq> []
    \<and> r = portal_key portals (partition_keys (with_env_key secrets k) purpose n)"
proof -
  have inst: "\<not> (case i of Some k \<Rightarrow> ret k | None \<Rightarrow> fresh_instant env) v = (Inr r, w')"
    if "stored_instant env u = (Inr i, v)" for i and u v :: "('a key_db_scheme, 'b) key_world_scheme"
    using that assms(2) by (cases i) (auto simp: ret_def dest: instants_owned)
  show ?thesis using assms(1) inst
    by (fastforce simp: resolve_open_sea_key_def then_do_Inr Let_def ret_def split: if_splits)
qed

lemma pool_disjoint:
  assumes "distinct keys" "2 \<le> length keys"
  shows "set (partition_keys keys ForScan n) \<inter> set (partition_keys keys ForMint 1) = {} \<longleftrightarrow> n \<le> 1 \<or> length keys = 2"
proof -
  let ?n = "min (max 1 n) (length keys - 1)"
  have m: "min (max 1 1) (length keys - 1) = 1" using assms(2) by simp
  have "set (take ?n keys) \<inter> set (drop 1 keys) = {} \<longleftrightarrow> ?n \<le> 1"
  proof
    assume d: "set (take ?n keys) \<inter> set (drop 1 keys) = {}"
    show "?n \<le> 1"
    proof (rule ccontr)
      assume "\<not> ?n \<le> 1"
      then have n: "1 < ?n" by (rule not_le_imp_less)
      then have l: "1 < length keys" by linarith
      have "take ?n keys ! 1 \<in> set (take ?n keys)" by (rule nth_mem) (use n l in \<open>simp only: length_take min_less_iff_conj\<close>)
      then have "keys ! 1 \<in> set (take ?n keys)" using nth_take[OF n, of keys] by simp
      moreover have "drop 1 keys ! 0 \<in> set (drop 1 keys)" by (rule nth_mem) (use l in simp)
      then have "keys ! 1 \<in> set (drop 1 keys)" using l by simp
      ultimately show False using d by blast
    qed
  next
    assume "?n \<le> 1"
    then have "set (take ?n keys) \<subseteq> set (take 1 keys)" by (rule set_take_subset_set_take)
    moreover have "set (take 1 keys) \<inter> set (drop 1 keys) = {}" using assms(1) by (rule set_take_disj_set_drop_if_distinct) simp
    ultimately show "set (take ?n keys) \<inter> set (drop 1 keys) = {}" by blast
  qed
  moreover have "?n \<le> 1 \<longleftrightarrow> n \<le> 1 \<or> length keys = 2" using assms(2) by linarith
  ultimately show ?thesis using assms(2) m by (simp add: partition_keys_def)
qed


definition demo_key_env :: key_env where
  "demo_key_env = \<lparr>ke_gcm = \<lparr>gcm_seal = (\<lambda>k n t. (t, replicate 16 7)), gcm_open = (\<lambda>k n tag c. Inr c)\<rparr>, ke_nonce = (\<lambda>_. replicate 12 9),
     ke_sha256 = (\<lambda>s. s), ke_master = b64_encode (replicate 32 5), ke_instant = (\<lambda>_. demo_call_env), ke_exchange = (\<lambda>_ p. Inr (p, 0))\<rparr>"

definition demo_credential :: "nat \<Rightarrow> string \<Rightarrow> credential" where
  "demo_credential i k = \<lparr>cd_id = i, cd_type = ''opensea_api_key'', cd_name = ''key'',
     cd_ciphertext = b64_encode (replicate 12 9 @ replicate 16 7 @ to_bytes k), cd_version = 1, cd_fingerprint = k, cd_expires = None,
     cd_metadata = None, cd_created_by = None, cd_created = - int i, cd_updated = 0\<rparr>"

definition demo_key_world :: "credential list \<Rightarrow> int \<Rightarrow> key_db key_world" where
  "demo_key_world rs t = \<lparr>m_db = \<lparr>kd_credentials = rs, kd_settings = (\<lambda>_. None), kd_next = 9\<rparr>, m_clock = [t], m_faults = [],
     kw_seals = 0, kw_posts = 0, kw_jwts = (\<lambda>_. None)\<rparr>"

lemma quiet_read: "m_faults w = [] \<Longrightarrow> db_read f w = (Inr (f (m_db w)), w)"
  by (simp add: db_read_def db_call_def)

lemma quiet_secret: "m_faults w = [] \<Longrightarrow> get_credential_secret env i w =
    (case credential_row i (m_db w) of None \<Rightarrow> Inr None | Some r \<Rightarrow> rmap Some (open_row env r), w)"
  by (simp add: get_credential_secret_def then_do_def quiet_read ret_def lift_sum_def split: option.split)

lemma demo_open: "open_row demo_key_env (demo_credential i k) = Inr k"
  by (simp add: open_row_def open_secret_def demo_key_env_def demo_credential_def derive_key_def gcm_auth_tag_length_def rbind_simps rmap_simps)

lemma demo_resolved:
  "resolve_open_sea_key demo_key_env (Some ''k3'') purpose n (demo_key_world [demo_credential 2 ''k1'', demo_credential 3 ''k2''] 0)
   = (Inr \<lparr>rk_key = hd (partition_keys [''k1'', ''k2'', ''k3''] purpose n), rk_keys = partition_keys [''k1'', ''k2'', ''k3''] purpose n,
           rk_instant = False, rk_expires = None\<rparr>, demo_key_world [demo_credential 2 ''k1'', demo_credential 3 ''k2''] 0)"
proof -
  let ?a = "demo_credential 2 ''k1''" and ?b = "demo_credential 3 ''k2''"
  let ?w = "demo_key_world [?a, ?b] 0"
  have f: "m_faults ?w = []" "kd_credentials (m_db ?w) = [?a, ?b]" by (simp_all add: demo_key_world_def)
  have i: "cd_id ?a = 2" "cd_id ?b = 3" "cd_type ?a = ''opensea_api_key''" "cd_type ?b = ''opensea_api_key''" "cd_created ?a = - 2"
    "cd_created ?b = - 3" "cv_id (to_view ?a) = 2" "cv_id (to_view ?b) = 3" "cv_expires (to_view ?a) = None"
    by (simp_all add: demo_credential_def to_view_def)
  have "get_credential_secret demo_key_env 2 ?w = (Inr (Some ''k1''), ?w)" "get_credential_secret demo_key_env 3 ?w = (Inr (Some ''k2''), ?w)"
  proof -
    have "credential_row 2 (m_db ?w) = Some ?a" "credential_row 3 (m_db ?w) = Some ?b"
      unfolding credential_row_def f by (simp_all add: i)
    then show "get_credential_secret demo_key_env 2 ?w = (Inr (Some ''k1''), ?w)" "get_credential_secret demo_key_env 3 ?w = (Inr (Some ''k2''), ?w)"
      unfolding quiet_secret[OF f(1)] by (simp_all add: demo_open rmap_simps)
  qed
  moreover have "trim ''k1'' \<noteq> []" "trim ''k2'' \<noteq> []" by code_simp+
  ultimately have "portal_secrets demo_key_env [to_view ?a, to_view ?b] ?w = (Inr [''k1'', ''k2''], ?w)"
    by (simp add: then_do_def ret_def i)
  moreover have "find_credentials_by_type ''opensea_api_key'' ?w = (Inr [to_view ?a, to_view ?b], ?w)"
    by (simp add: find_credentials_by_type_def quiet_read f i sort_desc_def)
  ultimately show ?thesis
    by (simp add: resolve_open_sea_key_def then_do_def ret_def with_env_key_def portal_key_def i Let_def del: portal_secrets.simps)
qed


section \<open>A key that does not open\<close>

lemma read_db [simp]: "m_db (snd (db_read f w)) = m_db w"
  unfolding db_read_def by (cases rule: db_call_cases[of "\<lambda>d. (f d, d)" w]) simp_all

lemma read_value: "db_read f w = (Inr x, w') \<Longrightarrow> x = f (m_db w)"
  unfolding db_read_def by (cases rule: db_call_cases[of "\<lambda>d. (f d, d)" w]) simp_all

lemma get_secret_db [simp]: "m_db (snd (get_credential_secret env i w)) = m_db w"
  using read_db[of "credential_row i" w]
  by (cases "db_read (credential_row i) w")
     (auto simp: get_credential_secret_def then_do_def ret_def lift_sum_def split: sum.splits option.splits)

lemma get_secret_throws:
  assumes "credential_row i (m_db w) = Some r" "open_row env r = Inl e"
  shows "\<exists>e'. fst (get_credential_secret env i w) = Inl e'"
proof (cases "fst (db_read (credential_row i) w)")
  case (Inl e')
  then show ?thesis by (auto simp: get_credential_secret_def then_do_def split: prod.splits)
next
  case (Inr x)
  then have "x = Some r" using read_value[of "credential_row i" w x "snd (db_read (credential_row i) w)"] assms(1) by (simp add: prod_eq_iff)
  then show ?thesis using Inr assms(2)
    by (auto simp: get_credential_secret_def then_do_def lift_sum_def rmap_simps split: prod.splits)
qed

lemma portal_secrets_throws:
  assumes "v \<in> set vs" "credential_row (cv_id v) (m_db w) = Some r" "open_row env r = Inl e"
  shows "\<exists>e'. fst (portal_secrets env vs w) = Inl e'"
  using assms
proof (induction vs arbitrary: w)
  case (Cons u vs)
  obtain x w1 where g: "get_credential_secret env (cv_id u) w = (x, w1)" by fastforce
  have db: "m_db w1 = m_db w" using get_secret_db[of env "cv_id u" w] g by simp
  show ?case
  proof (cases x)
    case (Inl e')
    then show ?thesis using g by (simp add: then_do_def)
  next
    case (Inr s)
    have "v \<in> set vs" using Cons.prems get_secret_throws[of "cv_id u" w r env e] g Inr by auto
    from Cons.IH[OF this, of w1] Cons.prems(2,3) db obtain e' where "fst (portal_secrets env vs w1) = Inl e'" by auto
    then show ?thesis using g Inr by (auto simp: then_do_def split: prod.splits)
  qed
qed simp

lemma find_by_key: "distinct (map f xs) \<Longrightarrow> x \<in> set xs \<Longrightarrow> List.find (\<lambda>y. f y = f x) xs = Some x"
  by (induction xs) auto

lemma stored_row: "distinct (map cd_id (kd_credentials d)) \<Longrightarrow> r \<in> set (kd_credentials d) \<Longrightarrow> credential_row (cd_id r) d = Some r"
  unfolding credential_row_def by (rule find_by_key)

text \<open>
C35. One Developer key that no longer opens (sealed under another master key, or damaged) stops all of OpenSea: while its row
is there every resolution throws, for scanning and for minting, whichever good keys are stored next to
it and whatever key the environment provides.
\<close>

theorem unreadable_key_blocks_all:
  assumes "distinct (map cd_id (kd_credentials (m_db w)))" and "r \<in> set (kd_credentials (m_db w))"
    and "cd_type r = ''opensea_api_key''" and "open_row env r = Inl e"
  shows "\<exists>e'. fst (resolve_open_sea_key env k purpose n w) = Inl e'"
proof (cases "fst (find_credentials_by_type ''opensea_api_key'' w)")
  case (Inl e')
  then show ?thesis by (auto simp: resolve_open_sea_key_def then_do_def split: prod.splits)
next
  case (Inr portals)
  let ?w = "snd (find_credentials_by_type ''opensea_api_key'' w)"
  have "portals = map to_view (sort_desc cd_created (filter (\<lambda>r. cd_type r = ''opensea_api_key'') (kd_credentials (m_db w))))"
    by (rule read_value[of _ w _ ?w]) (use Inr in \<open>simp add: find_credentials_by_type_def prod_eq_iff\<close>)
  then have "to_view r \<in> set portals" using assms(2,3) by simp
  moreover have "credential_row (cv_id (to_view r)) (m_db ?w) = Some r"
    using stored_row[OF assms(1,2)] by (simp add: to_view_def find_credentials_by_type_def)
  ultimately obtain e' where "fst (portal_secrets env portals ?w) = Inl e'" using portal_secrets_throws assms(4) by blast
  then show ?thesis using Inr by (auto simp: resolve_open_sea_key_def then_do_def split: prod.splits)
qed

theorem unreadable_key_blocks_all_witness:
  "\<exists>e. fst (resolve_open_sea_key (demo_key_env\<lparr>ke_master := []\<rparr>) (Some ''k3'') ForMint 1
     (demo_key_world [demo_credential 2 ''k1'', demo_credential 3 ''k2''] 0)) = Inl e"
proof (rule unreadable_key_blocks_all[of _ "demo_credential 2 ''k1''"])
  show "open_row (demo_key_env\<lparr>ke_master := []\<rparr>) (demo_credential 2 ''k1'') =
      Inl (ThrownError ''APP_ENCRYPTION_KEY must decode to exactly 32 bytes'')"
    by (simp add: open_row_def open_secret_def demo_key_env_def demo_credential_def derive_key_def b64_decode_def rbind_simps)
qed (simp_all add: demo_key_world_def demo_credential_def)

section \<open>An issued key is found again\<close>

lemma quiet_call: "m_faults w = [] \<Longrightarrow> db_call f w = (Inr (fst (f (m_db w))), w\<lparr>m_db := snd (f (m_db w))\<rparr>)"
  by (simp add: db_call_def split: prod.split)

lemma quiet_clock: "m_clock w = [t] \<Longrightarrow> clock w = (Inr t, w)"
  by (simp add: clock_def)

lemma quiet_find: "m_faults w = [] \<Longrightarrow> find_credential_by_type ty w =
    (Inr (case sort_desc cd_created (filter (\<lambda>r. cd_type r = ty) (kd_credentials (m_db w))) of [] \<Rightarrow> None | r # _ \<Rightarrow> Some (to_view r)), w)"
  by (simp add: find_credential_by_type_def quiet_read)

lemma quiet_stored:
  assumes "m_faults w = []" "m_clock w = [t]"
  shows "snd (stored_instant env w) = w"
  using assms by (auto simp: stored_instant_def then_do_def quiet_find quiet_secret quiet_clock ret_def split: option.split sum.split)

text \<open>Without Developer keys the resolution is the stored instant key, or a fresh one.\<close>

lemma keyless:
  assumes "m_faults w = []" and "\<forall>r\<in>set (kd_credentials (m_db w)). cd_type r \<noteq> ''opensea_api_key''" and "k = None \<or> k = Some []"
  shows "resolve_open_sea_key env k purpose n w = then_do (stored_instant env) (\<lambda>i. case i of Some k \<Rightarrow> ret k | None \<Rightarrow> fresh_instant env) w"
proof -
  have "filter (\<lambda>r. cd_type r = ''opensea_api_key'') (kd_credentials (m_db w)) = []" using assms(2) by (simp add: filter_empty_conv)
  then have "find_credentials_by_type ''opensea_api_key'' w = (Inr [], w)"
    by (simp add: find_credentials_by_type_def quiet_read assms(1) sort_desc_def)
  then show ?thesis using assms(3) by (auto simp: resolve_open_sea_key_def then_do_def ret_def with_env_key_def Let_def)
qed

lemma newest_last:
  assumes "\<forall>r\<in>set rs. k r < k x"
  shows "\<exists>ys. sort_desc k (rs @ [x]) = x # ys"
proof (cases "sort_desc k (rs @ [x])")
  case Nil
  then show ?thesis using set_sort_desc[of k "rs @ [x]"] by simp
next
  case (Cons y ys)
  have o: "sorted (map (\<lambda>r. - k r) (y # ys))"
    using sorted_sort_key[of "\<lambda>r. - k r" "rs @ [x]"] unfolding Cons[unfolded sort_desc_def] .
  have s: "set (y # ys) = insert x (set rs)" using set_sort_desc[of k "rs @ [x]"] unfolding Cons by simp
  then have "x = y \<or> x \<in> set ys" by auto
  then have "k x \<le> k y" using o by auto
  moreover have "y = x \<or> y \<in> set rs" using s by auto
  ultimately have "y = x" using assms by force
  then show ?thesis using Cons by simp
qed

lemma sealed_by: "seal_secret g i x m v = Inr s \<Longrightarrow> se_algorithm s = symmetric_algorithm"
  unfolding seal_secret_def rbind_Inr_iff by (auto split: prod.splits simp: case_prod_beta)

lemma find_appended: "\<forall>r\<in>set rs. cd_id r \<noteq> i \<Longrightarrow> cd_id x = i \<Longrightarrow> List.find (\<lambda>r. cd_id r = i) (rs @ [x]) = Some x"
  by (induction rs) auto

lemma fresh_issued:
  assumes "m_faults w = []" "m_clock w = [t]" "fresh_instant env w = (Inr r, w1)"
  obtains key e s where "fst (bootstrap_key env w) = Inr (key, e)"
    "seal_secret (ke_gcm env) (ke_nonce env (kw_seals w)) key (ke_master env) current_key_version = Inr s"
    "r = instant_of key (Some (case e of Some u \<Rightarrow> u | None \<Rightarrow> t + 518400000))"
    "m_db w1 = snd (insert_credential env \<lparr>cn_type = ''opensea_instant_key'', cn_name = ''Managed instant key'', cn_secret = key,
         cn_metadata = None, cn_expires = rk_expires r, cn_created_by = None\<rparr> s t (m_db w))" "kw_posts w1 = Suc (kw_posts w)"
proof -
  let ?b = "kd_settings (m_db w) backoff_setting"
  have parked: "(case ?b of None \<Rightarrow> ret False | Some _ \<Rightarrow> then_do clock (\<lambda>t. ret (still_parked ?b t))) w = (Inr (still_parked ?b t), w)"
    by (simp add: then_do_def ret_def quiet_clock[OF assms(2)] still_parked_def split: option.split)
  define w' where "w' = w\<lparr>kw_posts := Suc (kw_posts w)\<rparr>"
  have b: "bootstrap_key env w = (fst (bootstrap_key env w), w')" by (simp add: bootstrap_key_def w'_def)
  have w': "m_faults w' = []" "m_clock w' = [t]" "m_db w' = m_db w" "kw_seals w' = kw_seals w" using assms(1,2) by (simp_all add: w'_def)
  have unparked: "\<not> still_parked ?b t"
    using assms(3) by (auto simp: fresh_instant_def then_do_def get_setting_def quiet_read[OF assms(1)] parked throw_def)
  obtain key e where k: "fst (bootstrap_key env w) = Inr (key, e)"
  proof (cases "fst (bootstrap_key env w)")
    case (Inl x)
    then show ?thesis using assms(3) b unparked
      by (auto simp: fresh_instant_def then_do_def get_setting_def quiet_read[OF assms(1)] parked attempt_def park_and_throw_def throw_def split: prod.splits sum.splits)
  qed auto
  let ?e = "case e of Some u \<Rightarrow> u | None \<Rightarrow> t + 518400000"
  let ?c = "\<lparr>cn_type = ''opensea_instant_key'', cn_name = ''Managed instant key'', cn_secret = key,
         cn_metadata = None, cn_expires = Some ?e, cn_created_by = None\<rparr>"
  have "(case e of Some t \<Rightarrow> ret t | None \<Rightarrow> then_do clock (\<lambda>t. ret (t + 6 * 24 * 3600 * 1000))) w' = (Inr ?e, w')"
    by (simp add: ret_def then_do_def quiet_clock[OF w'(2)] split: option.split)
  then have c: "then_do (create_credential env ?c) (\<lambda>_. ret (instant_of key (Some ?e))) w' = (Inr r, w1)"
    using assms(3) b unparked k by (simp add: fresh_instant_def then_do_def get_setting_def quiet_read[OF assms(1)] parked attempt_def)
  obtain s where s: "seal_secret (ke_gcm env) (ke_nonce env (kw_seals w)) key (ke_master env) current_key_version = Inr s"
    using c w'(4) by (cases "seal_secret (ke_gcm env) (ke_nonce env (kw_seals w)) key (ke_master env) current_key_version")
      (auto simp: create_credential_def then_do_def seal_def)
  have "r = instant_of key (Some ?e)" "m_db w1 = snd (insert_credential env ?c s t (m_db w))" "kw_posts w1 = Suc (kw_posts w)"
    using c s w' by (auto simp: create_credential_def then_do_def seal_def quiet_clock quiet_call ret_def w'_def)
  then show thesis using that[OF k s] by (simp add: instant_of_def)
qed


definition issuing_env :: key_env where
  "issuing_env = demo_key_env\<lparr>ke_instant := (\<lambda>_. demo_call_env\<lparr>ce_net := (\<lambda>_. \<lparr>ne_fetch = (\<lambda>_. Answered \<lparr>hr_status = 200, hr_headers = (\<lambda>_. None),
     hr_stream = True, hr_body = ''{}''\<rparr>), ne_parse = (\<lambda>_. Some (js.JObj [(''api_key'', js.JStr ''k'')])), ne_random = (\<lambda>_. 0)\<rparr>)\<rparr>)\<rparr>"

lemma issuing_bootstrap: "fst (bootstrap_key issuing_env (demo_key_world [] 5)) = Inr (''k'', None)"
  by code_simp

lemma issuing_first:
  "fst (resolve_open_sea_key issuing_env None ForMint 1 (demo_key_world [] 5)) = Inr (instant_of ''k'' (Some 518400005))"
  "kw_posts (snd (resolve_open_sea_key issuing_env None ForMint 1 (demo_key_world [] 5))) = 1"
proof -
  let ?w = "demo_key_world [] 5"
  let ?w' = "?w\<lparr>kw_posts := Suc 0\<rparr>"
  have q: "m_faults ?w = []" "m_clock ?w = [5]" "m_faults ?w' = []" "m_clock ?w' = [5]" "kw_posts ?w = 0" "kd_credentials (m_db ?w) = []"
    "kd_settings (m_db ?w) backoff_setting = None" by (simp_all add: demo_key_world_def)
  have b: "bootstrap_key issuing_env ?w = (Inr (''k'', None), ?w')"
    using issuing_bootstrap by (simp add: bootstrap_key_def q(5))
  obtain s where s: "seal_secret (ke_gcm issuing_env) (ke_nonce issuing_env i) ''k'' (ke_master issuing_env) current_key_version = Inr s" for i
    by (simp add: seal_secret_def issuing_env_def demo_key_env_def derive_key_def rbind_simps)
  have "stored_instant issuing_env ?w = (Inr None, ?w)"
    by (simp add: stored_instant_def then_do_def quiet_find[OF q(1)] q(6) sort_desc_def ret_def)
  then have e: "resolve_open_sea_key issuing_env None ForMint 1 ?w = fresh_instant issuing_env ?w"
    using keyless[of ?w None issuing_env ForMint 1] q(1,6) by (simp add: then_do_def)
  show "fst (resolve_open_sea_key issuing_env None ForMint 1 ?w) = Inr (instant_of ''k'' (Some 518400005))"
    "kw_posts (snd (resolve_open_sea_key issuing_env None ForMint 1 ?w)) = 1"
    unfolding e by (simp_all add: fresh_instant_def get_setting_def then_do_def quiet_read[OF q(1)] q(7) ret_def attempt_def b
      quiet_clock[OF q(4)] create_credential_def seal_def s quiet_clock quiet_call q(1,2))
qed


end
