(* ===== verification/Xai.thy ===== *)
theory Xai
  imports Credentials Notify ManagedFire
begin

text \<open>
  The xAI connection: the device grant (\<open>packages/providers/src/xai/oauth.ts\<close>), its server actions
  (\<open>apps/web/src/app/actions.ts\<close>), the resolution and refresh of the token (\<open>apps/worker/src/credentials.ts\<close>), the
  reading of Grok's answers (\<open>xai/schemas.ts\<close>, \<open>xai/client.ts\<close>) and the scan that stores them
  (\<open>workers/sentiment.ts\<close>, \<open>repositories/signals.ts\<close>). Parameters are the network, \<open>JSON.parse\<close> and
  \<open>JSON.stringify\<close>, the reading and writing of ISO dates and the URL parser. The session guard is modelled in Auth:
  an action gets the user it let in, or none.
\<close>

record xai_env =
  xe_keys :: key_env
  xe_net :: "nat \<Rightarrow> net_env"
  xe_parse :: "string \<Rightarrow> js option"
  xe_stringify :: "js \<Rightarrow> string"
  xe_date :: "string \<Rightarrow> int option"
  xe_iso :: "int \<Rightarrow> string"
  xe_url :: "string \<Rightarrow> bool"

section \<open>The grant\<close>

definition xai_default_client_id :: string where "xai_default_client_id = ''b1a00492-073a-47ea-816f-4c329264a828''"
definition xai_device_url :: string where "xai_device_url = ''https://auth.x.ai/oauth2/device/code''"
definition xai_token_url :: string where "xai_token_url = ''https://auth.x.ai/oauth2/token''"
definition xai_api_url :: string where "xai_api_url = ''https://api.x.ai/v1''"
definition xai_refresh_skew_ms :: int where "xai_refresh_skew_ms = 3600 * 1000"
definition default_poll_interval :: int where "default_poll_interval = 5"
definition slow_down_increment :: int where "slow_down_increment = 5"
definition default_expires_in :: int where "default_expires_in = 6 * 3600"

record oauth_client =
  oc_id :: string
  oc_device :: "string option"
  oc_token :: "string option"
  oc_api :: "string option"

definition z_endpoints :: "xai_env \<Rightarrow> js \<Rightarrow> (string option \<times> string option \<times> string option) option" where
  "z_endpoints env = z_object (\<lambda>v.
     obind (z_optional (z_regex (xe_url env)) (js_prop v ''deviceAuthorization'')) (\<lambda>d.
     obind (z_optional (z_regex (xe_url env)) (js_prop v ''token'')) (\<lambda>t.
     obind (z_optional (z_regex (xe_url env)) (js_prop v ''api'')) (\<lambda>a. Some (or_null d, or_null t, or_null a)))))"

definition xai_oauth_client_schema :: "xai_env \<Rightarrow> js \<Rightarrow> oauth_client option" where
  "xai_oauth_client_schema env = z_object (\<lambda>v.
     obind (z_default xai_default_client_id z_nonempty (js_prop v ''client_id'')) (\<lambda>i.
     obind (z_optional (z_endpoints env) (js_prop v ''endpoints'')) (\<lambda>e.
     let (d, t, a) = (case e of Val x \<Rightarrow> x | _ \<Rightarrow> (None, None, None))
     in Some \<lparr>oc_id = i, oc_device = d, oc_token = t, oc_api = a\<rparr>)))"

record xai_client =
  xc_id :: string
  xc_device_url :: string
  xc_token_url :: string
  xc_api_url :: string

definition or_else :: "'a option \<Rightarrow> 'a \<Rightarrow> 'a" where
  "or_else x d = (case x of None \<Rightarrow> d | Some y \<Rightarrow> y)"

definition resolve_xai_client :: "oauth_client option \<Rightarrow> xai_client" where
  "resolve_xai_client s = \<lparr>xc_id = or_else (map_option oc_id s) xai_default_client_id,
     xc_device_url = or_else (Option.bind s oc_device) xai_device_url,
     xc_token_url = or_else (Option.bind s oc_token) xai_token_url,
     xc_api_url = strip_slash (or_else (Option.bind s oc_api) xai_api_url)\<rparr>"

record xai_token =
  xt_access :: string
  xt_refresh :: "string option"
  xt_expires :: string
  xt_scopes :: "string list"

text \<open>\<open>z.string().min(1).nullable()\<close>; \<open>z.number().int().positive()\<close>, safe integers only.\<close>

definition z_nullable :: "(js \<Rightarrow> 'a option) \<Rightarrow> js \<Rightarrow> 'a option option" where
  "z_nullable d v = (case v of js.Null \<Rightarrow> Some None | _ \<Rightarrow> map_option Some (d v))"

definition z_positive :: "js \<Rightarrow> int option" where
  "z_positive v = (case v of js.JNum r \<Rightarrow> if of_int \<lfloor>r\<rfloor> = r \<and> 0 < r \<and> r \<le> 2 ^ 53 - 1 then Some \<lfloor>r\<rfloor> else None | _ \<Rightarrow> None)"

definition stored_xai_token_schema :: "js \<Rightarrow> xai_token option" where
  "stored_xai_token_schema = z_object (\<lambda>v.
     obind (z_nonempty (js_prop v ''access_token'')) (\<lambda>a.
     obind (z_default None (z_nullable z_nonempty) (js_prop v ''refresh_token'')) (\<lambda>r.
     obind (z_nonempty (js_prop v ''expires_at'')) (\<lambda>e.
     obind (z_default [] (z_array z_string) (js_prop v ''scopes'')) (\<lambda>s.
     Some \<lparr>xt_access = a, xt_refresh = r, xt_expires = e, xt_scopes = s\<rparr>)))))"

record device_pending =
  dp_code :: string
  dp_interval :: int
  dp_expires :: string

definition stored_device_pending_schema :: "js \<Rightarrow> device_pending option" where
  "stored_device_pending_schema = z_object (\<lambda>v.
     obind (z_nonempty (js_prop v ''device_code'')) (\<lambda>c.
     obind (z_default default_poll_interval z_positive (js_prop v ''interval'')) (\<lambda>i.
     obind (z_nonempty (js_prop v ''expires_at'')) (\<lambda>e. Some \<lparr>dp_code = c, dp_interval = i, dp_expires = e\<rparr>))))"

record device_authorization =
  da_code :: string
  da_user :: string
  da_uri :: string
  da_complete :: "string option"
  da_expires_in :: int
  da_interval :: int

definition device_authorization_schema :: "js \<Rightarrow> device_authorization option" where
  "device_authorization_schema = z_object (\<lambda>v.
     obind (z_nonempty (js_prop v ''device_code'')) (\<lambda>c.
     obind (z_nonempty (js_prop v ''user_code'')) (\<lambda>u.
     obind (z_nonempty (js_prop v ''verification_uri'')) (\<lambda>uri.
     obind (z_optional z_nonempty (js_prop v ''verification_uri_complete'')) (\<lambda>full.
     obind (z_default 600 z_positive (js_prop v ''expires_in'')) (\<lambda>e.
     obind (z_default default_poll_interval z_positive (js_prop v ''interval'')) (\<lambda>i.
     Some \<lparr>da_code = c, da_user = u, da_uri = uri, da_complete = or_null full, da_expires_in = e, da_interval = i\<rparr>)))))))"

text \<open>A zod failure thrown by \<open>parse\<close>.\<close>

definition must :: "'a option \<Rightarrow> thrown + 'a" where
  "must r = (case r of None \<Rightarrow> Inl (ThrownError ''invalid payload'') | Some x \<Rightarrow> Inr x)"

text \<open>\<open>new Date(t).toISOString()\<close>, and the date of a stored text, which the driver writes the same way.\<close>

definition max_date_ms :: int where "max_date_ms = 8640000000000000"

definition to_iso :: "xai_env \<Rightarrow> int \<Rightarrow> thrown + string" where
  "to_iso env t = (if \<bar>t\<bar> \<le> max_date_ms then Inr (xe_iso env t) else Inl (ThrownError ''Invalid time value''))"

definition to_date :: "xai_env \<Rightarrow> string \<Rightarrow> thrown + int" where
  "to_date env s = (case xe_date env s of None \<Rightarrow> Inl (ThrownError ''Invalid time value'') | Some t \<Rightarrow> Inr t)"

record token_response =
  tr_access :: string
  tr_expires_in :: "int option"
  tr_refresh :: "string option"
  tr_scope :: "string option"

definition xai_token_response_schema :: "js \<Rightarrow> token_response option" where
  "xai_token_response_schema = z_object (\<lambda>v.
     obind (z_nonempty (js_prop v ''access_token'')) (\<lambda>a.
     obind (z_optional z_string (js_prop v ''token_type'')) (\<lambda>_.
     obind (z_optional z_positive (js_prop v ''expires_in'')) (\<lambda>e.
     obind (z_optional z_nonempty (js_prop v ''refresh_token'')) (\<lambda>r.
     obind (z_optional z_string (js_prop v ''scope'')) (\<lambda>s.
     Some \<lparr>tr_access = a, tr_expires_in = or_null e, tr_refresh = or_null r, tr_scope = or_null s\<rparr>))))))"

definition oauth_error_schema :: "js \<Rightarrow> string option" where
  "oauth_error_schema = z_object (\<lambda>v.
     obind (z_nonempty (js_prop v ''error'')) (\<lambda>e.
     obind (z_optional z_string (js_prop v ''error_description'')) (\<lambda>_. Some e)))"

definition token_of_response :: "xai_env \<Rightarrow> token_response \<Rightarrow> int \<Rightarrow> string option \<Rightarrow> thrown + xai_token" where
  "token_of_response env p now previous =
     rbind (to_iso env (now + or_else (tr_expires_in p) default_expires_in * 1000)) (\<lambda>e.
     Inr \<lparr>xt_access = tr_access p, xt_refresh = (case tr_refresh p of Some r \<Rightarrow> Some r | None \<Rightarrow> previous), xt_expires = e,
          xt_scopes = (case tr_scope p of None \<Rightarrow> [] | Some s \<Rightarrow> filter (\<lambda>w. w \<noteq> []) (split_on CHR '' '' s))\<rparr>)"

definition parse_token_response :: "xai_env \<Rightarrow> js \<Rightarrow> int \<Rightarrow> string option \<Rightarrow> thrown + xai_token" where
  "parse_token_response env raw now previous =
     rbind (must (xai_token_response_schema raw)) (\<lambda>p. token_of_response env p now previous)"

definition is_token_expiring :: "xai_env \<Rightarrow> xai_token \<Rightarrow> int \<Rightarrow> bool" where
  "is_token_expiring env t now = (case xe_date env (xt_expires t) of None \<Rightarrow> True | Some e \<Rightarrow> e - now \<le> xai_refresh_skew_ms)"

datatype poll_outcome = PollPending int | PollSlow int | PollDenied | PollExpired | PollSuccess xai_token | PollError string

definition interpret_device_token_response :: "xai_env \<Rightarrow> int \<Rightarrow> js \<Rightarrow> int \<Rightarrow> int \<Rightarrow> thrown + poll_outcome" where
  "interpret_device_token_response env status body interval now =
     (if 200 \<le> status \<and> status < 300
      then (case xai_token_response_schema body of
              None \<Rightarrow> Inr (PollError ''malformed_token_response'')
            | Some p \<Rightarrow> rmap PollSuccess (token_of_response env p now None))
      else case oauth_error_schema body of
             None \<Rightarrow> Inr (PollError ''malformed_error_response'')
           | Some e \<Rightarrow> Inr (
               if e = ''authorization_pending'' then PollPending interval
               else if e = ''slow_down'' then PollSlow (interval + slow_down_increment)
               else if e = ''access_denied'' then PollDenied
               else if e = ''expired_token'' then PollExpired
               else PollError (take 64 e)))"

text \<open>A form is sent once, never again on failure. Its members besides the code or token decide nothing here.\<close>

definition post_form :: "xai_env \<Rightarrow> string \<Rightarrow> int list \<Rightarrow> ('z, 'w, int \<times> js) keyed" where
  "post_form env url allow w =
     (rmap (\<lambda>r. (fr_status r, fr_json r))
        (fst (snd (fetch_json (xe_net env (kw_posts w)) url
           \<lparr>fo_method = POST, fo_retries = Some 0, fo_max_bytes = None, fo_max_retry_delay = None, fo_allow_statuses = allow\<rparr> (\<lambda>_. None)))),
      w\<lparr>kw_posts := Suc (kw_posts w)\<rparr>)"

definition request_device_authorization :: "xai_env \<Rightarrow> xai_client \<Rightarrow> ('z, 'w, device_authorization) keyed" where
  "request_device_authorization env c =
     then_do (post_form env (xc_device_url c) []) (\<lambda>(_, j). lift_sum (must (device_authorization_schema j)))"

definition poll_device_token :: "xai_env \<Rightarrow> xai_client \<Rightarrow> int \<Rightarrow> ('z, 'w, poll_outcome) keyed" where
  "poll_device_token env c interval =
     then_do (post_form env (xc_token_url c) [400, 401, 403, 428]) (\<lambda>(s, j).
     then_do clock (\<lambda>t. lift_sum (interpret_device_token_response env s j interval t)))"

definition refresh_refused :: "js \<Rightarrow> thrown" where
  "refresh_refused j =
     (let code = or_else (oauth_error_schema j) ''invalid_grant''
      in ThrownApp (mk_app_error (if code = ''invalid_grant'' then AuthRequired else RetryableProvider)
           (''xAI refused the refresh grant ('' @ code @ '')'')
           (no_options\<lparr>opt_hint := Some ''reconnect the X (Grok) account from Admin - Signals''\<rparr>)))"

definition refresh_xai_token :: "xai_env \<Rightarrow> xai_client \<Rightarrow> string \<Rightarrow> int \<Rightarrow> ('z, 'w, xai_token) keyed" where
  "refresh_xai_token env c refresh now =
     then_do (post_form env (xc_token_url c) [400]) (\<lambda>(s, j).
     if s \<ge> 400 then throw (refresh_refused j) else lift_sum (parse_token_response env j now (Some refresh)))"

section \<open>The token of the worker\<close>

definition token_js :: "xai_token \<Rightarrow> js" where
  "token_js t = js.JObj [(''access_token'', js.JStr (xt_access t)),
     (''refresh_token'', case xt_refresh t of None \<Rightarrow> js.Null | Some r \<Rightarrow> js.JStr r),
     (''expires_at'', js.JStr (xt_expires t)), (''scopes'', js.JArr (map js.JStr (xt_scopes t)))]"

text \<open>\<open>safeJsonParse\<close>.\<close>

definition safe_json_parse :: "xai_env \<Rightarrow> string \<Rightarrow> js" where
  "safe_json_parse env s = or_else (xe_parse env s) js.Null"

definition resolve_xai_client_config :: "xai_env \<Rightarrow> ('z, 'w, xai_client) keyed" where
  "resolve_xai_client_config env =
     then_do (find_credential_by_type ''xai_oauth_client'') (\<lambda>c. case c of
       None \<Rightarrow> ret (resolve_xai_client None)
     | Some v \<Rightarrow> then_do (get_credential_secret (xe_keys env) (cv_id v)) (\<lambda>s. case s of
         None \<Rightarrow> ret (resolve_xai_client None)
       | Some x \<Rightarrow> ret (resolve_xai_client (xai_oauth_client_schema env (safe_json_parse env x)))))"

definition mark_xai_credential_unhealthy :: "xai_env \<Rightarrow> nat \<Rightarrow> string \<Rightarrow> ('z, 'w, unit) keyed" where
  "mark_xai_credential_unhealthy env i code =
     then_do clock (\<lambda>t.
     then_do (attempt (update_credential_metadata i [(''health'', js.JStr ''unhealthy''), (''lastErrorCode'', js.JStr code),
        (''lastErrorAt'', js.JStr (xe_iso env t))])) (\<lambda>_. ret ()))"

definition refreshed_metadata :: "xai_env \<Rightarrow> credential_view \<Rightarrow> xai_token \<Rightarrow> int \<Rightarrow> (string \<times> js) list" where
  "refreshed_metadata env v t now = merge_fields (or_else (cv_metadata v) []) [(''scopes'', js.JArr (map js.JStr (xt_scopes t))),
     (''health'', js.JStr ''healthy''), (''lastErrorCode'', js.Null), (''refreshedAt'', js.JStr (xe_iso env now))]"

definition refresh_and_store :: "xai_env \<Rightarrow> credential_view \<Rightarrow> string \<Rightarrow> int \<Rightarrow> ('z, 'w, string) keyed" where
  "refresh_and_store env v refresh now =
     then_do (resolve_xai_client_config env) (\<lambda>c.
     then_do (refresh_xai_token env c refresh now) (\<lambda>t.
     then_do (lift_sum (to_date env (xt_expires t))) (\<lambda>e.
     then_do (update_credential_secret (xe_keys env) (cv_id v) (xe_stringify env (token_js t)) (Some (refreshed_metadata env v t now)) (Some (Some e))) (\<lambda>_.
     ret (xt_access t)))))"

definition failure_code :: "thrown \<Rightarrow> string" where
  "failure_code e = (case e of ThrownApp a \<Rightarrow> category_name (category a) | _ \<Rightarrow> ''refresh_failed'')"

definition use_stored_token :: "xai_env \<Rightarrow> credential_view \<Rightarrow> xai_token \<Rightarrow> ('z, 'w, string option) keyed" where
  "use_stored_token env v t =
     then_do clock (\<lambda>now.
     if \<not> is_token_expiring env t now then ret (Some (xt_access t))
     else case xt_refresh t of
       None \<Rightarrow> then_do (mark_xai_credential_unhealthy env (cv_id v) ''expired_no_refresh_token'') (\<lambda>_. ret None)
     | Some r \<Rightarrow> try_catch (then_do (refresh_and_store env v r now) (\<lambda>a. ret (Some a)))
         (\<lambda>e. then_do (mark_xai_credential_unhealthy env (cv_id v) (failure_code e)) (\<lambda>_. ret None)))"

definition resolve_xai_subscription_token :: "xai_env \<Rightarrow> ('z, 'w, string option) keyed" where
  "resolve_xai_subscription_token env =
     then_do (find_credential_by_type ''xai_user_token'') (\<lambda>c. case c of
       None \<Rightarrow> ret None
     | Some v \<Rightarrow> then_do (get_credential_secret (xe_keys env) (cv_id v)) (\<lambda>s. case s of
         None \<Rightarrow> ret None
       | Some x \<Rightarrow> (case stored_xai_token_schema (safe_json_parse env x) of
           None \<Rightarrow> then_do (mark_xai_credential_unhealthy env (cv_id v) ''malformed_stored_token'') (\<lambda>_. ret None)
         | Some t \<Rightarrow> use_stored_token env v t)))"

datatype token_source = SubscriptionOauth | StoredApiKey | EnvApiKey

definition stored_xai_key :: "xai_env \<Rightarrow> ('z, 'w, string option) keyed" where
  "stored_xai_key env =
     then_do (find_credential_by_type ''xai_api_key'') (\<lambda>c. case c of
       None \<Rightarrow> ret None
     | Some v \<Rightarrow> then_do (get_credential_secret (xe_keys env) (cv_id v)) (\<lambda>s.
         ret (case s of Some x \<Rightarrow> if trim x \<noteq> [] then Some x else None | None \<Rightarrow> None)))"

definition resolve_xai_token :: "xai_env \<Rightarrow> string option \<Rightarrow> ('z, 'w, (string \<times> token_source) option) keyed" where
  "resolve_xai_token env env_key =
     then_do (resolve_xai_subscription_token env) (\<lambda>sub. case sub of
       Some t \<Rightarrow> ret (Some (t, SubscriptionOauth))
     | None \<Rightarrow> then_do (stored_xai_key env) (\<lambda>k. case k of
         Some x \<Rightarrow> ret (Some (x, StoredApiKey))
       | None \<Rightarrow> ret (case env_key of Some x \<Rightarrow> if trim x \<noteq> [] then Some (x, EnvApiKey) else None | None \<Rightarrow> None)))"

definition mark_xai_token_unhealthy :: "xai_env \<Rightarrow> string \<Rightarrow> ('z, 'w, unit) keyed" where
  "mark_xai_token_unhealthy env code =
     then_do (find_credential_by_type ''xai_user_token'') (\<lambda>c. case c of
       None \<Rightarrow> ret ()
     | Some v \<Rightarrow> mark_xai_credential_unhealthy env (cv_id v) code)"

section \<open>Grok's answers\<close>

record grok_post =
  gp_url :: string
  gp_handle :: string
  gp_why :: string

record grok_signal =
  gs_hype :: rat
  gs_risk :: rat
  gs_flags :: "string list"
  gs_summary :: string
  gs_posts :: "grok_post list"
  gs_sources :: "string list"

definition z_number :: "js \<Rightarrow> rat option" where
  "z_number v = (case v of js.JNum r \<Rightarrow> Some r | _ \<Rightarrow> None)"

definition grok_post_schema :: "js \<Rightarrow> grok_post option" where
  "grok_post_schema = z_object (\<lambda>v.
     obind (z_default [] z_string (js_prop v ''url'')) (\<lambda>u.
     obind (z_default [] z_string (js_prop v ''handle'')) (\<lambda>h.
     obind (z_default [] z_string (js_prop v ''why'')) (\<lambda>y. Some \<lparr>gp_url = u, gp_handle = h, gp_why = y\<rparr>))))"

definition grok_signal_schema :: "js \<Rightarrow> grok_signal option" where
  "grok_signal_schema = z_object (\<lambda>v.
     obind (z_number (js_prop v ''hype_score'')) (\<lambda>h.
     obind (z_number (js_prop v ''risk_score'')) (\<lambda>r.
     obind (z_default [] (z_array z_string) (js_prop v ''phishing_flags'')) (\<lambda>f.
     obind (z_default [] z_string (js_prop v ''summary'')) (\<lambda>s.
     obind (z_default [] (z_array grok_post_schema) (js_prop v ''notable_posts'')) (\<lambda>p.
     obind (z_default [] (z_array z_string) (js_prop v ''sources'')) (\<lambda>src.
     Some \<lparr>gs_hype = h, gs_risk = r, gs_flags = f, gs_summary = s, gs_posts = p, gs_sources = src\<rparr>)))))))"

definition clamp_score :: "rat \<Rightarrow> rat" where
  "clamp_score v = max 0 (min 100 (of_int (math_round v)))"

definition normalize_grok_signal :: "grok_signal \<Rightarrow> grok_signal" where
  "normalize_grok_signal g = \<lparr>gs_hype = clamp_score (gs_hype g), gs_risk = clamp_score (gs_risk g),
     gs_flags = map (take 120) (take 12 (gs_flags g)), gs_summary = take 600 (gs_summary g),
     gs_posts = map (\<lambda>p. \<lparr>gp_url = take 300 (gp_url p), gp_handle = take 80 (gp_handle p), gp_why = take 200 (gp_why p)\<rparr>) (take 5 (gs_posts g)),
     gs_sources = map (take 300) (take 20 (gs_sources g))\<rparr>"

text \<open>The code fence: three back quotes, \<open>json\<close> perhaps, white space; and one at the end.\<close>

definition fence :: string where "fence = ''```''"

definition open_fence :: "string \<Rightarrow> string" where
  "open_fence s =
     (if \<not> starts_with fence s then s
      else let r = drop 3 s in dropWhile is_space (if starts_with ''json'' (to_lower r) then drop 4 r else r))"

definition close_fence :: "string \<Rightarrow> string" where
  "close_fence s =
     (if length s \<ge> 3 \<and> drop (length s - 3) s = fence then rev (dropWhile is_space (rev (take (length s - 3) s))) else s)"

definition parse_grok_signal :: "xai_env \<Rightarrow> string \<Rightarrow> grok_signal option" where
  "parse_grok_signal env s =
     (let u = trim (close_fence (open_fence (trim s)))
      in if u = [] then None
         else Option.bind (xe_parse env u) (\<lambda>v. map_option normalize_grok_signal (grok_signal_schema v)))"

text \<open>The blocks of an item: their type and text.\<close>

type_synonym grok_block = "string option \<times> string option"

record grok_envelope =
  ge_output :: "grok_block list list"
  ge_text :: "string option"
  ge_citations :: "string list"

definition z_text_option :: "js \<Rightarrow> string option option" where
  "z_text_option v = map_option or_null (z_optional z_string v)"

definition grok_block_schema :: "js \<Rightarrow> grok_block option" where
  "grok_block_schema = z_object (\<lambda>v.
     obind (z_text_option (js_prop v ''type'')) (\<lambda>t. obind (z_text_option (js_prop v ''text'')) (\<lambda>x. Some (t, x))))"

definition grok_item_schema :: "js \<Rightarrow> grok_block list option" where
  "grok_item_schema = z_object (\<lambda>v.
     obind (z_text_option (js_prop v ''type'')) (\<lambda>_.
     obind (z_optional (z_array grok_block_schema) (js_prop v ''content'')) (\<lambda>c. Some (or_else (or_null c) []))))"

definition xai_responses_envelope_schema :: "js \<Rightarrow> grok_envelope option" where
  "xai_responses_envelope_schema = z_object (\<lambda>v.
     obind (z_default [] (z_array grok_item_schema) (js_prop v ''output'')) (\<lambda>o'.
     obind (z_text_option (js_prop v ''output_text'')) (\<lambda>t.
     obind (z_default [] (z_array z_string) (js_prop v ''citations'')) (\<lambda>c.
     Some \<lparr>ge_output = o', ge_text = t, ge_citations = c\<rparr>))))"

definition extract_output_text :: "grok_envelope \<Rightarrow> string" where
  "extract_output_text e =
     (let from_items = trim (concat (map (\<lambda>(_, t). or_else t [])
            (filter (\<lambda>(ty, _). ty = None \<or> ty = Some ''output_text'') (concat (ge_output e)))))
      in if from_items \<noteq> [] then from_items else trim (or_else (ge_text e) []))"

text \<open>\<open>scanSentiment\<close>, with the token its provider gave.\<close>

definition scan_sentiment :: "xai_env \<Rightarrow> string \<Rightarrow> ('z, 'w, grok_signal option \<times> string list) keyed" where
  "scan_sentiment env token =
     (if trim token = [] then throw (ThrownApp (mk_app_error AuthRequired ''xAI token provider returned an empty token'' no_options))
      else then_do (post_form env (xai_api_url @ ''/responses'') []) (\<lambda>(_, j).
           then_do (lift_sum (must (xai_responses_envelope_schema j))) (\<lambda>e.
           ret (parse_grok_signal env (extract_output_text e), ge_citations e))))"

section \<open>The scan\<close>

datatype signal_kind = Hype | Risk

record evidence =
  ev_model :: string
  ev_parsed :: bool
  ev_summary :: string
  ev_posts :: "grok_post list"
  ev_flags :: "string list"
  ev_citations :: "string list"
  ev_sources :: "string list"

record signal =
  si_project :: "string option"
  si_subject :: string
  si_source :: string
  si_kind :: signal_kind
  si_score :: rat
  si_confidence :: string
  si_evidence :: evidence
  si_observed :: int

record scan_project =
  sp_id :: string
  sp_name :: string
  sp_slug :: "string option"
  sp_lifecycle :: string
  sp_seen :: int

record scan_run =
  sr_kind :: string
  sr_status :: string
  sr_counts :: "(string \<times> nat) list"

record audit_row =
  au_actor :: string
  au_action :: string
  au_result :: string

record xai_db = key_db +
  xd_projects :: "scan_project list"
  xd_signals :: "signal list"
  xd_runs :: "scan_run list"
  xd_audit :: "audit_row list"

type_synonym 'a xai = "(xai_db key_world, 'a) eff"

definition insert_signal :: "signal \<Rightarrow> unit xai" where
  "insert_signal s = db_write (\<lambda>d. d\<lparr>xd_signals := xd_signals d @ [s]\<rparr>)"

definition list_signals_for_project :: "string \<Rightarrow> nat \<Rightarrow> signal list xai" where
  "list_signals_for_project p limit =
     db_read (\<lambda>d. take limit (sort_desc si_observed (filter (\<lambda>s. si_project s = Some p) (xd_signals d))))"

definition latest_signal :: "string \<Rightarrow> string \<Rightarrow> signal_kind \<Rightarrow> signal option xai" where
  "latest_signal subject source k =
     db_read (\<lambda>d. case sort_desc si_observed (filter (\<lambda>s. si_subject s = subject \<and> si_source s = source \<and> si_kind s = k) (xd_signals d)) of
        [] \<Rightarrow> None | s # _ \<Rightarrow> Some s)"

definition latest_signals_for_project :: "string \<Rightarrow> (signal option \<times> signal option) xai" where
  "latest_signals_for_project p =
     then_do (list_signals_for_project p 20) (\<lambda>rows. ret (List.find (\<lambda>s. si_kind s = Hype) rows, List.find (\<lambda>s. si_kind s = Risk) rows))"

definition projects_for_sentiment_scan :: "nat \<Rightarrow> scan_project list xai" where
  "projects_for_sentiment_scan limit =
     db_read (\<lambda>d. take limit (sort_desc sp_seen (filter (\<lambda>p. sp_lifecycle p \<in> {''LIVE'', ''NEXT''}) (xd_projects d))))"

definition start_scan_run :: "string \<Rightarrow> nat xai" where
  "start_scan_run k = db_call (\<lambda>d. (length (xd_runs d), d\<lparr>xd_runs := xd_runs d @ [\<lparr>sr_kind = k, sr_status = ''running'', sr_counts = []\<rparr>]\<rparr>))"

definition finish_scan_run :: "nat \<Rightarrow> string \<Rightarrow> (string \<times> nat) list \<Rightarrow> unit xai" where
  "finish_scan_run i status counts = db_write (\<lambda>d. d\<lparr>xd_runs := (xd_runs d)[i := (xd_runs d ! i)\<lparr>sr_status := status, sr_counts := counts\<rparr>]\<rparr>)"

record sentiment_summary =
  ss_enabled :: bool
  ss_scanned :: nat
  ss_written :: nat
  ss_failed :: nat
  ss_token :: "token_source option"

definition max_projects_per_pass :: nat where "max_projects_per_pass = 20"

record sentiment_config =
  sc_enabled :: bool
  sc_model :: string
  sc_env_key :: "string option"

text \<open>The two rows of one scanned project.\<close>

definition hype_row :: "string \<Rightarrow> scan_project \<Rightarrow> grok_signal option \<Rightarrow> string list \<Rightarrow> int \<Rightarrow> signal" where
  "hype_row model p g citations t = \<lparr>si_project = Some (sp_id p), si_subject = or_else (sp_slug p) (sp_name p), si_source = ''grok_x_search'',
     si_kind = Hype, si_score = (case g of None \<Rightarrow> 0 | Some s \<Rightarrow> gs_hype s),
     si_confidence = (if g = None then ''unverified'' else ''single-source''),
     si_evidence = \<lparr>ev_model = model, ev_parsed = (g \<noteq> None), ev_summary = (case g of None \<Rightarrow> [] | Some s \<Rightarrow> gs_summary s),
        ev_posts = (case g of None \<Rightarrow> [] | Some s \<Rightarrow> gs_posts s), ev_flags = [], ev_citations = citations,
        ev_sources = (case g of None \<Rightarrow> citations | Some s \<Rightarrow> gs_sources s)\<rparr>, si_observed = t\<rparr>"

definition risk_row :: "string \<Rightarrow> scan_project \<Rightarrow> grok_signal option \<Rightarrow> string list \<Rightarrow> int \<Rightarrow> signal" where
  "risk_row model p g citations t = \<lparr>si_project = Some (sp_id p), si_subject = or_else (sp_slug p) (sp_name p), si_source = ''grok_x_search'',
     si_kind = Risk, si_score = (case g of None \<Rightarrow> 0 | Some s \<Rightarrow> gs_risk s),
     si_confidence = (if g = None then ''unverified'' else ''single-source''),
     si_evidence = \<lparr>ev_model = model, ev_parsed = (g \<noteq> None), ev_summary = (case g of None \<Rightarrow> [] | Some s \<Rightarrow> gs_summary s),
        ev_posts = [], ev_flags = (case g of None \<Rightarrow> [] | Some s \<Rightarrow> gs_flags s), ev_citations = citations, ev_sources = []\<rparr>, si_observed = t\<rparr>"

text \<open>The provider: the token as it resolves now, else the one of the start.\<close>

definition current_token :: "xai_env \<Rightarrow> string option \<Rightarrow> string \<Rightarrow> string xai" where
  "current_token env env_key first =
     then_do (attempt (resolve_xai_token env env_key)) (\<lambda>r. ret (case r of Inr (Some (t, _)) \<Rightarrow> t | _ \<Rightarrow> first))"

text \<open>The rows written before an error are kept and counted; \<open>Inl\<close> is the error the loop met.\<close>

definition scan_project_once :: "xai_env \<Rightarrow> sentiment_config \<Rightarrow> string \<Rightarrow> scan_project \<Rightarrow> sentiment_summary \<Rightarrow> (sentiment_summary \<times> thrown option) xai" where
  "scan_project_once env conf first p s =
     then_do (attempt (then_do (current_token env (sc_env_key conf) first) (scan_sentiment env))) (\<lambda>r. case r of
       Inl e \<Rightarrow> ret (s, Some e)
     | Inr (g, citations) \<Rightarrow>
         (let s1 = s\<lparr>ss_scanned := Suc (ss_scanned s)\<rparr>
          in then_do clock (\<lambda>t.
             then_do (attempt (insert_signal (hype_row (sc_model conf) p g citations t))) (\<lambda>r. case r of
               Inl e \<Rightarrow> ret (s1, Some e)
             | Inr _ \<Rightarrow>
                 (let s2 = s1\<lparr>ss_written := Suc (ss_written s1)\<rparr>
                  in then_do (attempt (insert_signal (risk_row (sc_model conf) p g citations t))) (\<lambda>r. ret (case r of
                       Inl e \<Rightarrow> (s2, Some e) | Inr _ \<Rightarrow> (s2\<lparr>ss_written := Suc (ss_written s2)\<rparr>, None))))))))"

definition stops_scan :: "thrown \<Rightarrow> bool" where
  "stops_scan e = (case e of ThrownApp a \<Rightarrow> category a = AuthRequired | _ \<Rightarrow> False)"

fun scan_each :: "xai_env \<Rightarrow> sentiment_config \<Rightarrow> string \<times> token_source \<Rightarrow> scan_project list \<Rightarrow> sentiment_summary \<Rightarrow> sentiment_summary xai" where
  "scan_each env conf tok [] s = ret s"
| "scan_each env conf tok (p # ps) s =
     then_do (scan_project_once env conf (fst tok) p s) (\<lambda>(s1, r). case r of
       None \<Rightarrow> scan_each env conf tok ps s1
     | Some e \<Rightarrow>
         (let s2 = s1\<lparr>ss_failed := Suc (ss_failed s1)\<rparr>
          in if stops_scan e
             then then_do (if snd tok = SubscriptionOauth then mark_xai_token_unhealthy env ''api_refused_spending_limit_or_no_entitlement'' else ret ())
                    (\<lambda>_. ret s2)
             else scan_each env conf tok ps s2))"

definition no_scan :: sentiment_summary where
  "no_scan = \<lparr>ss_enabled = False, ss_scanned = 0, ss_written = 0, ss_failed = 0, ss_token = None\<rparr>"

text \<open>The client refuses a blank model id.\<close>

definition run_sentiment_scan :: "xai_env \<Rightarrow> sentiment_config \<Rightarrow> sentiment_summary xai" where
  "run_sentiment_scan env conf =
     (if \<not> sc_enabled conf then ret no_scan
      else then_do (resolve_xai_token env (sc_env_key conf)) (\<lambda>r. case r of
        None \<Rightarrow> ret no_scan
      | Some tok \<Rightarrow>
          then_do (start_scan_run ''sentiment'') (\<lambda>i.
          if trim (sc_model conf) = [] then throw (ThrownApp (mk_app_error PermanentConfig ''XaiClient requires a model id'' no_options))
          else then_do (projects_for_sentiment_scan max_projects_per_pass) (\<lambda>ps.
               then_do (scan_each env conf tok ps (no_scan\<lparr>ss_enabled := True, ss_token := Some (snd tok)\<rparr>)) (\<lambda>s.
               then_do (finish_scan_run i (if ss_failed s > 0 then ''partial'' else ''success'')
                 [(''scanned'', ss_scanned s), (''signalsWritten'', ss_written s), (''failed'', ss_failed s)]) (\<lambda>_. ret s))))))"

section \<open>The server actions\<close>

definition record_audit :: "string \<Rightarrow> string \<Rightarrow> string \<Rightarrow> unit xai" where
  "record_audit actor action result = db_write (\<lambda>d. d\<lparr>xd_audit := xd_audit d @ [\<lparr>au_actor = actor, au_action = action, au_result = result\<rparr>]\<rparr>)"

record device_state =
  dv_ok :: bool
  dv_message :: string
  dv_user :: "string option"
  dv_uri :: "string option"
  dv_complete :: "string option"
  dv_interval :: "int option"
  dv_expires :: "string option"

definition device_refused :: "string \<Rightarrow> device_state" where
  "device_refused m = \<lparr>dv_ok = False, dv_message = m, dv_user = None, dv_uri = None, dv_complete = None, dv_interval = None, dv_expires = None\<rparr>"

definition pending_js :: "device_pending \<Rightarrow> js" where
  "pending_js p = js.JObj [(''device_code'', js.JStr (dp_code p)), (''interval'', js.JNum (of_int (dp_interval p))), (''expires_at'', js.JStr (dp_expires p))]"

definition revoke_stale :: "unit xai" where
  "revoke_stale = then_do (find_credential_by_type ''xai_device_pending'') (\<lambda>c. case c of
      None \<Rightarrow> ret () | Some v \<Rightarrow> then_do (revoke_credential (cv_id v)) (\<lambda>_. ret ()))"

definition begin_grant :: "xai_env \<Rightarrow> string \<Rightarrow> device_state xai" where
  "begin_grant env actor =
     then_do (resolve_xai_client_config env) (\<lambda>c.
     then_do (request_device_authorization env c) (\<lambda>d.
     then_do clock (\<lambda>t.
     let due = t + da_expires_in d * 1000 in
     then_do revoke_stale (\<lambda>_.
     then_do (lift_sum (to_iso env due)) (\<lambda>expires.
     then_do (create_credential (xe_keys env) \<lparr>cn_type = ''xai_device_pending'', cn_name = ''xAI device grant (pending)'',
        cn_secret = xe_stringify env (pending_js \<lparr>dp_code = da_code d, dp_interval = da_interval d, dp_expires = expires\<rparr>),
        cn_metadata = Some [(''userId'', js.JStr actor), (''interval'', js.JNum (of_int (da_interval d)))],
        cn_expires = Some due, cn_created_by = Some actor\<rparr>) (\<lambda>_.
     then_do (record_audit actor ''credential.xai_device_start'' ''success'') (\<lambda>_.
     ret \<lparr>dv_ok = True, dv_message = ''Approve the code at x.ai, then this page will finish automatically.'', dv_user = Some (da_user d),
        dv_uri = Some (da_uri d), dv_complete = da_complete d, dv_interval = Some (da_interval d), dv_expires = Some expires\<rparr>)))))))"

definition start_xai_device_auth :: "xai_env \<Rightarrow> string option \<Rightarrow> device_state xai" where
  "start_xai_device_auth env who =
     (case who of
        None \<Rightarrow> ret (device_refused ''Insufficient role.'')
      | Some actor \<Rightarrow> try_catch (begin_grant env actor) (\<lambda>e. ret (device_refused (case e of
            ThrownApp a \<Rightarrow> ''Could not start the connection: '' @ err_message a
          | _ \<Rightarrow> ''Could not reach xAI to start the connection.''))))"

record poll_state =
  po_status :: string
  po_message :: string
  po_interval :: "int option"

definition polled :: "string \<Rightarrow> string \<Rightarrow> poll_state" where
  "polled status m = \<lparr>po_status = status, po_message = m, po_interval = None\<rparr>"

definition keep_polling :: "string \<Rightarrow> string \<Rightarrow> int \<Rightarrow> poll_state" where
  "keep_polling status m interval = \<lparr>po_status = status, po_message = m, po_interval = Some interval\<rparr>"

definition store_connection :: "xai_env \<Rightarrow> string \<Rightarrow> xai_token \<Rightarrow> unit xai" where
  "store_connection env actor t =
     then_do clock (\<lambda>now.
     let m = [(''scopes'', js.JArr (map js.JStr (xt_scopes t))), (''health'', js.JStr ''healthy''), (''lastErrorCode'', js.Null),
              (''connectedAt'', js.JStr (xe_iso env now))] in
     then_do (find_credential_by_type ''xai_user_token'') (\<lambda>c.
     then_do (lift_sum (to_date env (xt_expires t))) (\<lambda>e. case c of
       None \<Rightarrow> then_do (create_credential (xe_keys env) \<lparr>cn_type = ''xai_user_token'', cn_name = ''xAI subscription (Grok) token'',
                 cn_secret = xe_stringify env (token_js t), cn_metadata = Some m, cn_expires = Some e, cn_created_by = Some actor\<rparr>) (\<lambda>_. ret ())
     | Some v \<Rightarrow> then_do (update_credential_secret (xe_keys env) (cv_id v) (xe_stringify env (token_js t)) (Some m) (Some (Some e))) (\<lambda>_. ret ()))))"

definition revoke_pending :: "nat \<Rightarrow> poll_state \<Rightarrow> poll_state xai" where
  "revoke_pending i s = then_do (revoke_credential i) (\<lambda>_. ret s)"

definition settle_poll :: "xai_env \<Rightarrow> string \<Rightarrow> nat \<Rightarrow> poll_outcome \<Rightarrow> poll_state xai" where
  "settle_poll env actor i r = (case r of
      PollPending n \<Rightarrow> ret (keep_polling ''pending'' ''Waiting for approval at x.ai'' n)
    | PollSlow n \<Rightarrow> ret (keep_polling ''slow_down'' ''Waiting for approval at x.ai'' n)
    | PollDenied \<Rightarrow> then_do (revoke_credential i) (\<lambda>_. then_do (record_audit actor ''credential.xai_device_connect'' ''failure'') (\<lambda>_.
        ret (polled ''denied'' ''Approval was declined at x.ai - nothing was stored.'')))
    | PollExpired \<Rightarrow> revoke_pending i (polled ''expired'' ''The code expired before it was approved. Try again.'')
    | PollError code \<Rightarrow> revoke_pending i (polled ''error'' (''xAI rejected the connection ('' @ code @ '').''))
    | PollSuccess t \<Rightarrow> then_do (store_connection env actor t) (\<lambda>_.
        then_do (revoke_credential i) (\<lambda>_.
        then_do (record_audit actor ''credential.xai_device_connect'' ''success'') (\<lambda>_.
        ret (polled ''success'' ''Connected. The next scan will use your subscription.'')))))"

definition owned_by :: "string \<Rightarrow> credential_view \<Rightarrow> bool" where
  "owned_by actor v \<longleftrightarrow> js_prop (js.JObj (or_else (cv_metadata v) [])) ''userId'' = js.JStr actor"

definition poll_pending :: "xai_env \<Rightarrow> string \<Rightarrow> nat \<Rightarrow> device_pending \<Rightarrow> poll_state xai" where
  "poll_pending env actor i p =
     then_do (attempt (then_do (resolve_xai_client_config env) (\<lambda>c. poll_device_token env c (dp_interval p)))) (\<lambda>r. case r of
       Inl _ \<Rightarrow> ret (keep_polling ''pending'' ''Waiting for approval'' (dp_interval p))
     | Inr q \<Rightarrow> settle_poll env actor i q)"

text \<open>\<open>Date.parse(...) <= Date.now()\<close>: false for a text that is no date.\<close>

definition poll_xai_device_auth :: "xai_env \<Rightarrow> string option \<Rightarrow> poll_state xai" where
  "poll_xai_device_auth env who =
     (case who of
        None \<Rightarrow> ret (polled ''error'' ''Insufficient role.'')
      | Some actor \<Rightarrow> then_do (find_credential_by_type ''xai_device_pending'') (\<lambda>c. case c of
          None \<Rightarrow> ret (polled ''error'' ''No connection in progress. Start it again.'')
        | Some v \<Rightarrow>
            if \<not> owned_by actor v then ret (polled ''error'' ''This connection was started by another admin.'')
            else then_do (get_credential_secret (xe_keys env) (cv_id v)) (\<lambda>s.
              case stored_device_pending_schema (case s of None \<Rightarrow> js.Null | Some x \<Rightarrow> safe_json_parse env x) of
                None \<Rightarrow> revoke_pending (cv_id v) (polled ''error'' ''Pending connection was unreadable. Start it again.'')
              | Some p \<Rightarrow> then_do clock (\<lambda>t.
                  if (case xe_date env (dp_expires p) of None \<Rightarrow> False | Some e \<Rightarrow> e \<le> t)
                  then revoke_pending (cv_id v) (polled ''expired'' ''The code expired before it was approved. Try again.'')
                  else poll_pending env actor (cv_id v) p))))"

definition save_xai_oauth_client :: "xai_env \<Rightarrow> string option \<Rightarrow> string \<Rightarrow> (string \<times> string option) list \<Rightarrow> (bool \<times> string) xai" where
  "save_xai_oauth_client env who client_id urls =
     (case who of
        None \<Rightarrow> ret (False, ''Insufficient role.'')
      | Some actor \<Rightarrow>
          let i = trim client_id; eps = filter (\<lambda>(_, u). u \<noteq> []) (map (\<lambda>(k, u). (k, trim (or_else u []))) urls) in
          if length i < 8 then ret (False, ''Client ID looks too short to be valid.'')
          else case List.find (\<lambda>(_, u). \<not> starts_with ''https://'' u) eps of
            Some (k, _) \<Rightarrow> ret (False, k @ '' endpoint must be an https:// URL.'')
          | None \<Rightarrow>
              let e = js.JObj (map (\<lambda>(k, u). (k, js.JStr u)) eps); j = js.JObj ((''client_id'', js.JStr i) # (if eps = [] then [] else [(''endpoints'', e)])) in
              if xai_oauth_client_schema env j = None then ret (False, ''Client override is not valid.'')
              else then_do (create_credential (xe_keys env) \<lparr>cn_type = ''xai_oauth_client'', cn_name = ''xAI OAuth client override'',
                     cn_secret = xe_stringify env j, cn_metadata = Some [(''clientId'', js.JStr i), (''endpoints'', e)], cn_expires = None,
                     cn_created_by = Some actor\<rparr>) (\<lambda>_.
                   then_do (record_audit actor ''credential.create'' ''success'') (\<lambda>_. ret (True, ''Saved. Reconnect the account for it to take effect.''))))"

definition save_xai_api_key :: "xai_env \<Rightarrow> string option \<Rightarrow> string \<Rightarrow> (bool \<times> string) xai" where
  "save_xai_api_key env who val =
     (case who of
        None \<Rightarrow> ret (False, ''Insufficient role.'')
      | Some actor \<Rightarrow>
          if length (trim val) < 16 then ret (False, ''Value looks too short to be an xAI API key.'')
          else then_do (create_credential (xe_keys env) \<lparr>cn_type = ''xai_api_key'', cn_name = ''xAI API key'', cn_secret = trim val,
                 cn_metadata = None, cn_expires = None, cn_created_by = Some actor\<rparr>) (\<lambda>_.
               then_do (record_audit actor ''credential.create'' ''success'') (\<lambda>_. ret (True, ''Saved and encrypted. Older keys remain until revoked.''))))"

section \<open>What a scan writes\<close>

definition bounded_row :: "signal \<Rightarrow> bool" where
  "bounded_row s \<longleftrightarrow> 0 \<le> si_score s \<and> si_score s \<le> 100 \<and> length (ev_summary (si_evidence s)) \<le> 600
     \<and> length (ev_posts (si_evidence s)) \<le> 5
     \<and> (\<forall>p\<in>set (ev_posts (si_evidence s)). length (gp_url p) \<le> 300 \<and> length (gp_handle p) \<le> 80 \<and> length (gp_why p) \<le> 200)
     \<and> length (ev_flags (si_evidence s)) \<le> 12 \<and> (\<forall>f\<in>set (ev_flags (si_evidence s)). length f \<le> 120)
     \<and> (ev_parsed (si_evidence s) \<longrightarrow> length (ev_sources (si_evidence s)) \<le> 20 \<and> (\<forall>f\<in>set (ev_sources (si_evidence s)). length f \<le> 300))
     \<and> (\<not> ev_parsed (si_evidence s) \<longrightarrow> si_score s = 0 \<and> si_confidence s = ''unverified'')"

definition only_adds :: "xai_db \<Rightarrow> xai_db key_world \<Rightarrow> bool" where
  "only_adds d w \<longleftrightarrow> (\<exists>rows. xd_signals (m_db w) = xd_signals d @ rows \<and> list_all bounded_row rows)
     \<and> xd_projects (m_db w) = xd_projects d \<and> xd_audit (m_db w) = xd_audit d \<and> kd_settings (m_db w) = kd_settings d
     \<and> map (\<lambda>r. (cd_id r, cd_type r, cd_name r)) (kd_credentials (m_db w)) = map (\<lambda>r. (cd_id r, cd_type r, cd_name r)) (kd_credentials d)"

lemma clamp_bounds: "0 \<le> clamp_score v \<and> clamp_score v \<le> 100"
  by (simp add: clamp_score_def)

lemma parsed_bounded:
  assumes "parse_grok_signal env s = Some g"
  shows "bounded_row (hype_row m p (Some g) c t)" "bounded_row (risk_row m p (Some g) c t)"
proof -
  obtain x where g: "g = normalize_grok_signal x"
    using assms by (auto simp: parse_grok_signal_def Let_def split: if_splits bind_splits)
  show "bounded_row (hype_row m p (Some g) c t)" "bounded_row (risk_row m p (Some g) c t)"
    using clamp_bounds unfolding g by (auto simp: bounded_row_def hype_row_def risk_row_def normalize_grok_signal_def)
qed

lemma rows_bounded:
  "g = None \<or> (\<exists>env s. parse_grok_signal env s = g) \<Longrightarrow> bounded_row (hype_row m p g c t) \<and> bounded_row (risk_row m p g c t)"
  using parsed_bounded by (cases g) (auto simp: bounded_row_def hype_row_def risk_row_def)

lemma db_only_adds: "db_only (only_adds d)"
  by (simp add: db_only_def only_adds_def)

lemma adds_seal: "keeps (only_adds d) (seal env x)"
  by (rule keepsI) (simp add: seal_def only_adds_def)

lemma adds_post: "keeps (only_adds d) (post_form env u a)"
  by (rule keepsI) (simp add: post_form_def only_adds_def)

lemma update_same: "(\<And>x. g (f x) = g x) \<Longrightarrow> map g (update_where p f xs) = map g xs"
  by (simp add: update_where_def comp_def if_distrib)

lemma adds_update:
  assumes "\<And>d. f d = update_row i h d" and "\<And>r. cd_id (h r) = cd_id r \<and> cd_type (h r) = cd_type r \<and> cd_name (h r) = cd_name r"
  shows "keeps (only_adds d) (db_write f)"
  by (rule keeps_db_write[OF db_only_adds]) (simp add: only_adds_def assms update_row_def update_same)

lemma adds_reseal: "keeps (only_adds d) (update_credential_secret env i x m e)"
  unfolding update_credential_secret_def
  by (intro keep_rules adds_seal keeps_clock_db[OF db_only_adds] keeps_call_db[OF db_only_adds])
     (simp add: only_adds_def update_row_def update_same reseal_row_def Let_def)

lemma adds_metadata: "keeps (only_adds d) (update_credential_metadata i m)"
  unfolding update_credential_metadata_def
  by (intro keep_rules keeps_clock_db[OF db_only_adds] keeps_read_db[OF db_only_adds]) (rule adds_update, rule refl, simp)

lemmas adds_reads = keeps_clock_db[OF db_only_adds] keeps_read_db[OF db_only_adds]

lemma adds_secret: "keeps (only_adds d) (get_credential_secret env i)"
  unfolding get_credential_secret_def by (intro keep_rules adds_reads)

lemma adds_find: "keeps (only_adds d) (find_credential_by_type ty)"
  unfolding find_credential_by_type_def by (rule adds_reads)

lemma adds_mark: "keeps (only_adds d) (mark_xai_credential_unhealthy env i c)"
  unfolding mark_xai_credential_unhealthy_def by (intro keep_rules adds_reads adds_metadata)

lemma adds_client: "keeps (only_adds d) (resolve_xai_client_config env)"
  unfolding resolve_xai_client_config_def by (intro keep_rules adds_find adds_secret)

lemma adds_refresh: "keeps (only_adds d) (refresh_and_store env v r now)"
  unfolding refresh_and_store_def refresh_xai_token_def
  by (intro keep_rules adds_client adds_post adds_reseal)

lemma adds_resolve: "keeps (only_adds d) (resolve_xai_token env k)"
  unfolding resolve_xai_token_def resolve_xai_subscription_token_def use_stored_token_def stored_xai_key_def
  by (intro keep_rules adds_find adds_secret adds_mark adds_refresh adds_reads)

lemma adds_mark_token: "keeps (only_adds d) (mark_xai_token_unhealthy env c)"
  unfolding mark_xai_token_unhealthy_def by (intro keep_rules adds_find adds_mark)

lemma adds_insert: "bounded_row s \<Longrightarrow> keeps (only_adds d) (insert_signal s)"
  unfolding insert_signal_def
  by (rule keeps_db_write[OF db_only_adds]) (auto simp: only_adds_def)

lemma scan_yields: "yields (scan_sentiment env t) (\<lambda>(g, c). g = None \<or> (\<exists>env s. parse_grok_signal env s = g))"
  unfolding scan_sentiment_def
  by (auto intro!: yields_then yields_ret yields_throw split: prod.split)

lemma adds_scan: "keeps (only_adds d) (scan_sentiment env t)"
  unfolding scan_sentiment_def by (intro keep_rules adds_post)

lemma adds_once: "keeps (only_adds d) (scan_project_once env conf first p s)"
proof -
  let ?ask = "then_do (current_token env (sc_env_key conf) first) (scan_sentiment env)"
  have k: "keeps (only_adds d) (attempt ?ask)"
    unfolding current_token_def by (intro keep_rules adds_resolve adds_scan)
  have y: "yields (attempt ?ask) (\<lambda>r. \<forall>g c. r = Inr (g, c) \<longrightarrow> g = None \<or> (\<exists>env s. parse_grok_signal env s = g))"
    using scan_yields by (fastforce simp: yields_def attempt_def then_do_def split: prod.splits sum.splits)
  show ?thesis unfolding scan_project_once_def
  proof (rule keeps_then_yields[OF k y])
    fix r :: "thrown + grok_signal option \<times> string list"
    assume r: "\<forall>g c. r = Inr (g, c) \<longrightarrow> g = None \<or> (\<exists>env s. parse_grok_signal env s = g)"
    show "keeps (only_adds d) (case r of Inl e \<Rightarrow> ret (s, Some e) | Inr (g, citations) \<Rightarrow>
         (let s1 = s\<lparr>ss_scanned := Suc (ss_scanned s)\<rparr>
          in then_do clock (\<lambda>t.
             then_do (attempt (insert_signal (hype_row (sc_model conf) p g citations t))) (\<lambda>r. case r of
               Inl e \<Rightarrow> ret (s1, Some e)
             | Inr _ \<Rightarrow>
                 (let s2 = s1\<lparr>ss_written := Suc (ss_written s1)\<rparr>
                  in then_do (attempt (insert_signal (risk_row (sc_model conf) p g citations t))) (\<lambda>r. ret (case r of
                       Inl e \<Rightarrow> (s2, Some e) | Inr _ \<Rightarrow> (s2\<lparr>ss_written := Suc (ss_written s2)\<rparr>, None))))))))"
    proof (cases r)
      case (Inr x)
      then obtain g c where x: "r = Inr (g, c)" by (cases x) auto
      from r x have "g = None \<or> (\<exists>env s. parse_grok_signal env s = g)" by simp
      then have b: "bounded_row (hype_row m p g c t)" "bounded_row (risk_row m p g c t)" for m p t using rows_bounded[of g m p c t] by simp_all
      show ?thesis unfolding x Let_def by (simp only: sum.case prod.case, intro keep_rules adds_reads adds_insert b)
    qed (simp add: keeps_ret)
  qed
qed

lemma adds_each: "keeps (only_adds d) (scan_each env conf tok ps s)"
proof (induction ps arbitrary: s)
  case (Cons p ps)
  show ?case unfolding scan_each.simps Let_def
    by (intro keep_rules adds_once adds_mark_token Cons)
qed (simp add: keeps_ret)


end
