(* ===== verification/XaiFlow.thy ===== *)
theory XaiFlow
  imports Xai
begin

text \<open>
  The xAI token from the admin's device grant to the worker that uses it: what the tables hold after a refresh, what a
  failed store loses, what a poll may do, and that a connection made in the browser is the one the worker resolves.
\<close>

section \<open>The token in use is the stored one\<close>

definition newest :: "string \<Rightarrow> 'z key_db_scheme \<Rightarrow> credential option" where
  "newest ty d = (case sort_desc cd_created (filter (\<lambda>r. cd_type r = ty) (kd_credentials d)) of [] \<Rightarrow> None | r # _ \<Rightarrow> Some r)"

lemma newest_in: "newest ty d = Some r \<Longrightarrow> r \<in> set (kd_credentials d) \<and> cd_type r = ty"
proof -
  assume "newest ty d = Some r"
  then obtain rs where e: "sort_desc cd_created (filter (\<lambda>r. cd_type r = ty) (kd_credentials d)) = r # rs"
    by (auto simp: newest_def split: list.splits)
  have "r \<in> set (sort_desc cd_created (filter (\<lambda>r. cd_type r = ty) (kd_credentials d)))" unfolding e by simp
  then show ?thesis by simp
qed

lemma sort_desc_map: "(\<And>x. k (g x) = k x) \<Longrightarrow> sort_desc k (map g xs) = map g (sort_desc k xs)"
proof -
  assume g: "\<And>x. k (g x) = k x"
  have i: "insort_key (\<lambda>x. - k x) (g y) (map g ys) = map g (insort_key (\<lambda>x. - k x) y ys)" for y ys
    by (induction ys) (simp_all add: g)
  show ?thesis unfolding sort_desc_def by (induction xs) (simp_all add: i)
qed

lemma newest_update:
  assumes "\<And>r. cd_created (h r) = cd_created r \<and> cd_type (h r) = cd_type r"
  shows "newest ty (update_row i h d) = map_option (\<lambda>q. if cd_id q = i then h q else q) (newest ty d)"
proof -
  let ?g = "\<lambda>q. if cd_id q = i then h q else q"
  have "filter (\<lambda>r. cd_type r = ty) (map ?g xs) = map ?g (filter (\<lambda>r. cd_type r = ty) xs)" for xs
    using assms by (induction xs) auto
  moreover have "sort_desc cd_created (map ?g xs) = map ?g (sort_desc cd_created xs)" for xs
    by (rule sort_desc_map) (simp add: assms)
  ultimately show ?thesis by (auto simp: newest_def update_row_def update_where_def split: list.splits)
qed

text \<open>A read changes nothing but the faults still to come.\<close>

definition same_world :: "('z key_db_scheme, 'w) key_world_scheme \<Rightarrow> ('z key_db_scheme, 'w) key_world_scheme \<Rightarrow> bool" where
  "same_world w w' \<longleftrightarrow> m_db w' = m_db w \<and> m_clock w' = m_clock w \<and> kw_posts w' = kw_posts w \<and> kw_seals w' = kw_seals w"

lemma same_trans: "same_world u v \<Longrightarrow> same_world v w \<Longrightarrow> same_world u w"
  by (simp add: same_world_def)

lemma read_same: "db_read f w = (r, w') \<Longrightarrow> same_world w w'"
  unfolding db_read_def same_world_def by (cases rule: db_call_cases[of "\<lambda>d. (f d, d)" w]) auto

lemma find_newest:
  assumes "find_credential_by_type ty w = (Inr x, w')"
  shows "x = map_option to_view (newest ty (m_db w))" "same_world w w'"
proof -
  show "x = map_option to_view (newest ty (m_db w))"
    using read_value[OF assms[unfolded find_credential_by_type_def]] by (simp add: newest_def split: list.split)
  show "same_world w w'" by (rule read_same[OF assms[unfolded find_credential_by_type_def]])
qed

lemma secret_opens:
  assumes "get_credential_secret env i w = (Inr x, w')"
  shows "same_world w w'" "credential_row i (m_db w) = Some r \<Longrightarrow> \<exists>y. x = Some y \<and> open_row env r = Inr y"
proof -
  obtain row w1 where r: "db_read (credential_row i) w = (Inr row, w1)"
    using assms by (auto simp: get_credential_secret_def then_do_def split: prod.splits sum.splits)
  have row: "row = credential_row i (m_db w)" by (rule read_value[OF r])
  have "w' = w1" using assms r by (auto simp: get_credential_secret_def then_do_def ret_def lift_sum_def split: option.splits)
  then show "same_world w w'" using read_same[OF r] by simp
  show "\<exists>y. x = Some y \<and> open_row env r = Inr y" if "credential_row i (m_db w) = Some r"
    using assms r row that by (cases "open_row env r") (auto simp: get_credential_secret_def then_do_def lift_sum_def rmap_simps)
qed

lemma client_same: "resolve_xai_client_config env w = (Inr c, w') \<Longrightarrow> same_world w w'"
proof -
  assume "resolve_xai_client_config env w = (Inr c, w')"
  then obtain x w1 where f: "find_credential_by_type ''xai_oauth_client'' w = (Inr x, w1)"
    and rest: "(case x of None \<Rightarrow> ret (resolve_xai_client None)
     | Some v \<Rightarrow> then_do (get_credential_secret (xe_keys env) (cv_id v)) (\<lambda>s. case s of
         None \<Rightarrow> ret (resolve_xai_client None)
       | Some x \<Rightarrow> ret (resolve_xai_client (xai_oauth_client_schema env (safe_json_parse env x))))) w1 = (Inr c, w')"
    unfolding resolve_xai_client_config_def then_do_Inr by blast
  show ?thesis
  proof (cases x)
    case None
    then show ?thesis using rest find_newest(2)[OF f] by (simp add: ret_def)
  next
    case (Some v)
    with rest obtain y where "get_credential_secret (xe_keys env) (cv_id v) w1 = (Inr y, w')"
      by (auto simp: then_do_Inr ret_def split: option.splits)
    then show ?thesis using same_trans[OF find_newest(2)[OF f] secret_opens(1)] by blast
  qed
qed

text \<open>The laws of the parameters: what is printed is read back, and a printed date is not empty.\<close>

definition text_laws :: "xai_env \<Rightarrow> bool" where
  "text_laws env \<longleftrightarrow> (\<forall>t. xe_parse env (xe_stringify env (token_js t)) = Some (token_js t))
     \<and> (\<forall>t. xe_iso env t \<noteq> [])"

definition whole_token :: "xai_token \<Rightarrow> bool" where
  "whole_token t \<longleftrightarrow> xt_access t \<noteq> [] \<and> xt_refresh t \<noteq> Some [] \<and> xt_expires t \<noteq> []"

lemma strings_back: "z_all z_string (map js.JStr ss) = Some ss"
  by (induction ss) (simp_all add: z_string_def)

lemma token_read_back: "whole_token t \<Longrightarrow> stored_xai_token_schema (token_js t) = Some t"
  by (cases "xt_refresh t")
     (auto simp: whole_token_def stored_xai_token_schema_def token_js_def z_object_def js_prop_def z_nonempty_def z_default_def
        z_nullable_def z_array_def obind_def strings_back)

lemma obind_Some: "obind x f = Some z \<longleftrightarrow> (\<exists>y. x = Some y \<and> f y = Some z)"
  by (cases x) (simp_all add: obind_def)

lemma object_Some: "z_object d v = Some x \<Longrightarrow> d v = Some x"
  by (simp add: z_object_def split: js.splits)

lemma nonempty_Some: "z_nonempty v = Some s \<Longrightarrow> s \<noteq> []"
  by (simp add: z_nonempty_def split: js.splits if_splits)

lemma nullable_nonempty: "z_default None (z_nullable z_nonempty) v = Some r \<Longrightarrow> r \<noteq> Some []"
  by (cases v) (auto simp: z_default_def z_nullable_def dest: nonempty_Some)

lemma optional_nonempty: "z_optional z_nonempty v = Some r \<Longrightarrow> or_null r \<noteq> Some []"
  by (cases v) (auto simp: z_optional_def dest: nonempty_Some)

lemma schema_whole: "stored_xai_token_schema j = Some t \<Longrightarrow> whole_token t"
  unfolding stored_xai_token_schema_def
  by (drule object_Some) (auto simp: obind_Some whole_token_def dest: nonempty_Some nullable_nonempty)

lemma granted_whole:
  assumes "parse_token_response env j now p = Inr t" "text_laws env" "p \<noteq> Some []"
  shows "whole_token t"
proof -
  obtain r e where r: "xai_token_response_schema j = Some r" "e = xe_iso env (now + or_else (tr_expires_in r) default_expires_in * 1000)"
    and t: "xt_access t = tr_access r" "xt_refresh t = (case tr_refresh r of Some r \<Rightarrow> Some r | None \<Rightarrow> p)" "xt_expires t = e"
    using assms(1) by (auto simp: parse_token_response_def token_of_response_def must_def rbind_Inr_iff to_iso_def split: option.splits if_splits)
  have "tr_access r \<noteq> [] \<and> tr_refresh r \<noteq> Some []"
    using object_Some[OF r(1)[unfolded xai_token_response_schema_def]] by (auto simp: obind_Some dest: nonempty_Some optional_nonempty)
  then show ?thesis using t r(2) assms(2,3) by (auto simp: whole_token_def text_laws_def split: option.splits)
qed

text \<open>The token of the worker's row, as the tables hold it.\<close>

definition holds_token :: "xai_env \<Rightarrow> xai_token \<Rightarrow> 'z key_db_scheme \<Rightarrow> bool" where
  "holds_token env t d \<longleftrightarrow> (\<exists>r x. newest ''xai_user_token'' d = Some r \<and> open_row (xe_keys env) r = Inr x
     \<and> stored_xai_token_schema (safe_json_parse env x) = Some t)"

definition seals_well :: "xai_env \<Rightarrow> bool" where
  "seals_well env \<longleftrightarrow> gcm_laws (ke_gcm (xe_keys env)) \<and> (\<forall>i. length (ke_nonce (xe_keys env) i) = 12)"

lemma resealed_opens:
  assumes "seals_well env" "text_laws env" "whole_token t"
    and "seal_secret (ke_gcm (xe_keys env)) (ke_nonce (xe_keys env) i) (xe_stringify env (token_js t)) (ke_master (xe_keys env)) current_key_version = Inr s"
    and "cd_ciphertext r = se_ciphertext s" "cd_version r = se_version s"
  shows "\<exists>x. open_row (xe_keys env) r = Inr x \<and> stored_xai_token_schema (safe_json_parse env x) = Some t"
proof -
  have "open_row (xe_keys env) r = Inr (xe_stringify env (token_js t))"
    using sealed_secret_opens[OF _ _ assms(4)] sealed_by[OF assms(4)] assms(1,5,6) by (cases s) (simp add: open_row_def seals_well_def)
  then show ?thesis using assms(2) token_read_back[OF assms(3)] by (simp add: safe_json_parse_def or_else_def text_laws_def)
qed

lemma reseal_stored:
  assumes "update_credential_secret k i x m e w = (Inr v, w')"
  obtains s t where "seal_secret (ke_gcm k) (ke_nonce k (kw_seals w)) x (ke_master k) current_key_version = Inr s"
    "m_db w' = update_row i (reseal_row k x s m e t) (m_db w)" "kw_posts w' = kw_posts w"
proof -
  obtain s w1 where s: "seal k x w = (Inr s, w1)" using assms by (auto simp: update_credential_secret_def then_do_Inr)
  obtain t w2 where t: "clock w1 = (Inr t, w2)" using assms s by (auto simp: update_credential_secret_def then_do_Inr)
  have w2: "m_db w2 = m_db w" "kw_posts w2 = kw_posts w"
    using s t by (auto simp: seal_def clock_def split: list.splits)
  let ?f = "\<lambda>d. let d' = update_row i (reseal_row k x s m e t) d in (map_option to_view (credential_row i d'), d')"
  have "db_call ?f w2 = (Inr v, w')" using assms s t by (auto simp: update_credential_secret_def then_do_Inr)
  then have "m_db w' = update_row i (reseal_row k x s m e t) (m_db w2)" "kw_posts w' = kw_posts w2"
    by (cases rule: db_call_cases[of ?f w2], auto simp: Let_def)+
  with that s w2 show thesis by (auto simp: seal_def)
qed

lemma refresh_stored:
  assumes laws: "seals_well env" "text_laws env" and "refresh \<noteq> []"
    and row: "newest ''xai_user_token'' (m_db w) = Some r"
    and run: "refresh_and_store env (to_view r) refresh now w = (Inr a, w')"
  shows "(\<exists>t. xt_access t = a \<and> holds_token env t (m_db w')) \<and> kw_posts w' = Suc (kw_posts w)"
proof -
  obtain c w1 where c: "resolve_xai_client_config env w = (Inr c, w1)" using run by (auto simp: refresh_and_store_def then_do_Inr)
  obtain t w2 where t: "refresh_xai_token env c refresh now w1 = (Inr t, w2)" using run c by (auto simp: refresh_and_store_def then_do_Inr)
  obtain m e v where u: "update_credential_secret (xe_keys env) (cd_id r) (xe_stringify env (token_js t)) m e w2 = (Inr v, w')" and a: "a = xt_access t"
    using run c t by (auto simp: refresh_and_store_def then_do_Inr lift_sum_def ret_def to_view_def)
  obtain s j where p: "post_form env (xc_token_url c) [400] w1 = (Inr (s, j), w2)" and g: "parse_token_response env j now (Some refresh) = Inr t"
    using t by (auto simp: refresh_xai_token_def then_do_Inr lift_sum_def throw_def split: if_splits)
  have whole: "whole_token t" using granted_whole[OF g laws(2)] assms(3) by simp
  have w2: "m_db w2 = m_db w" "kw_posts w2 = Suc (kw_posts w)"
    using client_same[OF c] p by (auto simp: same_world_def post_form_def)
  from reseal_stored[OF u] obtain s t' where
    s: "seal_secret (ke_gcm (xe_keys env)) (ke_nonce (xe_keys env) (kw_seals w2)) (xe_stringify env (token_js t)) (ke_master (xe_keys env)) current_key_version = Inr s"
    and d: "m_db w' = update_row (cd_id r) (reseal_row (xe_keys env) (xe_stringify env (token_js t)) s m e t') (m_db w2)" and posts: "kw_posts w' = kw_posts w2" .
  have "newest ''xai_user_token'' (m_db w') = Some (reseal_row (xe_keys env) (xe_stringify env (token_js t)) s m e t' r)"
    unfolding d w2 using row by (subst newest_update) (simp_all add: reseal_row_def)
  moreover have "\<exists>x. open_row (xe_keys env) (reseal_row (xe_keys env) (xe_stringify env (token_js t)) s m e t' r) = Inr x
      \<and> stored_xai_token_schema (safe_json_parse env x) = Some t"
    by (rule resealed_opens[OF laws whole s]) (simp_all add: reseal_row_def)
  ultimately have "holds_token env t (m_db w')" unfolding holds_token_def by blast
  then show ?thesis using a posts w2 by auto
qed

text \<open>
  What a resolution of the subscription that gives a token did: it opened the newest row, and either the token in it is
  not about to expire, or it was refreshed.
\<close>

lemma subscription_cases:
  assumes "distinct (map cd_id (kd_credentials (m_db w)))" "m_clock w = [now]"
    and "resolve_xai_subscription_token env w = (Inr (Some a), w')"
  obtains r t where "newest ''xai_user_token'' (m_db w) = Some r" "holds_token env t (m_db w)"
    "\<not> is_token_expiring env t now" "a = xt_access t" "same_world w w'"
  | r refresh w1 where "newest ''xai_user_token'' (m_db w) = Some r" "refresh \<noteq> []" "same_world w w1"
    "refresh_and_store env (to_view r) refresh now w1 = (Inr a, w')"
proof -
  obtain v w1 where f: "find_credential_by_type ''xai_user_token'' w = (Inr (Some v), w1)"
    using assms(3) by (auto simp: resolve_xai_subscription_token_def then_do_Inr ret_def split: option.splits)
  obtain r where r: "newest ''xai_user_token'' (m_db w) = Some r" "v = to_view r" using find_newest(1)[OF f] by (cases "newest ''xai_user_token'' (m_db w)") auto
  obtain x w2 where g: "get_credential_secret (xe_keys env) (cd_id r) w1 = (Inr x, w2)"
    using assms(3) f r by (auto simp: resolve_xai_subscription_token_def then_do_Inr to_view_def)
  have w1: "m_db w1 = m_db w" using find_newest(2)[OF f] by (simp add: same_world_def)
  have "credential_row (cd_id r) (m_db w1) = Some r" unfolding w1 using stored_row[OF assms(1)] newest_in[OF r(1)] by blast
  from secret_opens(2)[OF g this] obtain y where y: "x = Some y" "open_row (xe_keys env) r = Inr y" by blast
  have w2: "same_world w w2" using same_trans[OF find_newest(2)[OF f] secret_opens(1)[OF g]] .
  let ?rest = "case stored_xai_token_schema (safe_json_parse env y) of
           None \<Rightarrow> then_do (mark_xai_credential_unhealthy env (cv_id v) ''malformed_stored_token'') (\<lambda>_. ret None)
         | Some t \<Rightarrow> use_stored_token env v t"
  have rest: "?rest w2 = (Inr (Some a), w')"
    using assms(3) f g y(1) r(2)
    by (cases "stored_xai_token_schema (safe_json_parse env y)") (simp_all add: resolve_xai_subscription_token_def then_do_def to_view_def)
  then obtain t where t: "stored_xai_token_schema (safe_json_parse env y) = Some t" "use_stored_token env v t w2 = (Inr (Some a), w')"
    by (auto simp: then_do_Inr ret_def split: option.splits)
  have clk: "clock w2 = (Inr now, w2)" using w2 assms(2) by (simp add: same_world_def quiet_clock)
  show thesis
  proof (cases "is_token_expiring env t now")
    case False
    then have "a = xt_access t" "w' = w2" using t(2) clk by (simp_all add: use_stored_token_def then_do_def ret_def)
    moreover have "holds_token env t (m_db w)" unfolding holds_token_def using r(1) y(2) t(1) by blast
    ultimately show thesis using that(1)[OF r(1)] False w2 by blast
  next
    case True
    then obtain refresh where rf: "xt_refresh t = Some refresh"
      using t(2) clk by (auto simp: use_stored_token_def then_do_def ret_def split: option.splits prod.splits sum.splits)
    have "refresh_and_store env v refresh now w2 = (Inr a, w')"
      using t(2) clk True rf
      by (auto simp: use_stored_token_def then_do_def ret_def try_catch_def attempt_def split: prod.splits sum.splits)
    moreover have "refresh \<noteq> []" using schema_whole[OF t(1)] rf by (simp add: whole_token_def)
    ultimately show thesis using that(2)[OF r(1)] w2 r(2) by blast
  qed
qed


section \<open>A rotation that is not stored\<close>

lemma holds_metadata:
  assumes "\<And>r. cd_created (h r) = cd_created r \<and> cd_type (h r) = cd_type r \<and> cd_ciphertext (h r) = cd_ciphertext r \<and> cd_version (h r) = cd_version r"
    and "holds_token env t d"
  shows "holds_token env t (update_row i h d)"
proof -
  have "open_row k (if cd_id r = i then h r else r) = open_row k r" for k r using assms(1) by (simp add: open_row_def)
  moreover obtain r x where r: "newest ''xai_user_token'' d = Some r" "open_row (xe_keys env) r = Inr x"
      "stored_xai_token_schema (safe_json_parse env x) = Some t" using assms(2) unfolding holds_token_def by blast
  moreover have "newest ''xai_user_token'' (update_row i h d) = Some (if cd_id r = i then h r else r)"
    using assms(1) r(1) by (simp add: newest_update)
  ultimately show ?thesis unfolding holds_token_def by metis
qed

definition token_kept :: "xai_env \<Rightarrow> xai_token \<Rightarrow> nat \<Rightarrow> ('z key_db_scheme, 'w) key_world_scheme \<Rightarrow> bool" where
  "token_kept env t n w \<longleftrightarrow> holds_token env t (m_db w) \<and> kw_posts w = n"

lemma kept_read: "keeps (token_kept env t n) (db_read f)"
proof -
  have "token_kept env t n w \<Longrightarrow> token_kept env t n (snd (db_read f w))" for w
    using read_same[of f w "fst (db_read f w)" "snd (db_read f w)"] by (simp add: same_world_def token_kept_def)
  then show ?thesis by (rule keepsI)
qed

lemma kept_metadata: "keeps (token_kept env t n) (db_write (update_row i (\<lambda>q. q\<lparr>cd_metadata := m, cd_updated := u\<rparr>)))"
proof -
  let ?f = "\<lambda>d. ((), update_row i (\<lambda>q. q\<lparr>cd_metadata := m, cd_updated := u\<rparr>) d)"
  have "token_kept env t n w \<Longrightarrow> token_kept env t n (snd (db_call ?f w))" for w
    by (cases rule: db_call_cases[of ?f w]) (auto simp: token_kept_def intro: holds_metadata)
  then show ?thesis unfolding db_write_def by (rule keepsI)
qed

lemma kept_mark: "keeps (token_kept env t n) (mark_xai_credential_unhealthy env i c)"
proof -
  have c: "keeps (token_kept env t n) clock"
    by (rule keepsI) (simp add: token_kept_def clock_def split: list.split)
  show ?thesis unfolding mark_xai_credential_unhealthy_def update_credential_metadata_def
    by (intro keep_rules c kept_read kept_metadata)
qed

lemma call_works: "m_faults w = None # fs \<Longrightarrow> db_read f w = (Inr (f (m_db w)), w\<lparr>m_faults := fs\<rparr>)"
  by (simp add: db_read_def db_call_def)

lemma call_fails: "m_faults w = Some m # fs \<Longrightarrow> db_call f w = (Inl (ThrownError m), w\<lparr>m_faults := fs\<rparr>)"
  by (simp add: db_call_def)

lemma find_works: "m_faults w = None # fs \<Longrightarrow> find_credential_by_type ty w = (Inr (map_option to_view (newest ty (m_db w))), w\<lparr>m_faults := fs\<rparr>)"
  by (simp add: find_credential_by_type_def call_works newest_def split: list.split)

lemma secret_works: "m_faults w = None # fs \<Longrightarrow> credential_row i (m_db w) = Some r \<Longrightarrow> open_row env r = Inr x
    \<Longrightarrow> get_credential_secret env i w = (Inr (Some x), w\<lparr>m_faults := fs\<rparr>)"
  by (simp add: get_credential_secret_def then_do_def call_works lift_sum_def rmap_simps)

lemma refresh_unstored:
  assumes "m_faults w = [None, Some why]" and "m_clock w = [now]" and "newest ''xai_oauth_client'' (m_db w) = None"
    and "fst (post_form env xai_token_url [400] w) = Inr (200, j)" and "parse_token_response env j now (Some refresh) = Inr t'"
    and "to_date env (xt_expires t') = Inr e"
  shows "\<exists>e' w'. refresh_and_store env v refresh now w = (Inl e', w') \<and> m_db w' = m_db w \<and> kw_posts w' = Suc (kw_posts w)"
proof -
  define w1 where "w1 = w\<lparr>m_faults := [Some why]\<rparr>"
  define w2 where "w2 = w1\<lparr>kw_posts := Suc (kw_posts w)\<rparr>"
  have c: "resolve_xai_client_config env w = (Inr (resolve_xai_client None), w1)"
    by (simp add: resolve_xai_client_config_def then_do_def find_works[OF assms(1)] assms(3) ret_def w1_def)
  have "xc_token_url (resolve_xai_client None) = xai_token_url" by (simp add: resolve_xai_client_def or_else_def)
  moreover have "post_form env xai_token_url [400] w1 = (Inr (200, j), w2)"
    using assms(4) by (simp add: post_form_def w1_def w2_def)
  ultimately have t: "refresh_xai_token env (resolve_xai_client None) refresh now w1 = (Inr t', w2)"
    by (simp add: refresh_xai_token_def then_do_def lift_sum_def assms(5))
  have "\<exists>e' w'. update_credential_secret k i x m ex w2 = (Inl e', w') \<and> m_db w' = m_db w \<and> kw_posts w' = Suc (kw_posts w)" for k i x m ex
  proof (cases "seal_secret (ke_gcm k) (ke_nonce k (kw_seals w2)) x (ke_master k) current_key_version")
    case (Inl e')
    then show ?thesis by (simp add: update_credential_secret_def then_do_def seal_def w2_def w1_def)
  next
    case (Inr s)
    then have "seal k x w2 = (Inr s, w2\<lparr>kw_seals := Suc (kw_seals w2)\<rparr>)" by (simp add: seal_def)
    moreover have "m_clock (w2\<lparr>kw_seals := Suc (kw_seals w2)\<rparr>) = [now]" "m_faults (w2\<lparr>kw_seals := Suc (kw_seals w2)\<rparr>) = [Some why]"
      using assms(2) by (simp_all add: w2_def w1_def)
    ultimately show ?thesis
      by (simp add: update_credential_secret_def then_do_def quiet_clock call_fails w2_def w1_def)
  qed
  then obtain e' w' where "update_credential_secret (xe_keys env) (cv_id v) (xe_stringify env (token_js t')) (Some (refreshed_metadata env v t' now)) (Some (Some e)) w2 = (Inl e', w')"
    "m_db w' = m_db w" "kw_posts w' = Suc (kw_posts w)" by blast
  then show ?thesis using c t by (simp add: refresh_and_store_def then_do_def lift_sum_def assms(6))
qed

text \<open>
C39. The refresh is not atomic with the grant: when the token endpoint has rotated the refresh token and the one UPDATE that should
store it fails, the resolution falls back to nothing and the row still opens to the old tokens, so the next refresh presents the refresh
token that was already spent. (The calls before: the token row, its secret, the client override.)
\<close>

theorem rotation_lost_when_update_fails:
  assumes "distinct (map cd_id (kd_credentials (m_db w)))" and "m_clock w = [now]" and "m_faults w = [None, None, None, Some why]"
    and "newest ''xai_user_token'' (m_db w) = Some r" and "newest ''xai_oauth_client'' (m_db w) = None"
    and "holds_token env t (m_db w)" and "is_token_expiring env t now" and "xt_refresh t = Some refresh"
    and "fst (post_form env xai_token_url [400] w) = Inr (200, j)" and "parse_token_response env j now (Some refresh) = Inr t'"
    and "to_date env (xt_expires t') = Inr e"
  shows "fst (resolve_xai_subscription_token env w) = Inr None
    \<and> kw_posts (snd (resolve_xai_subscription_token env w)) = Suc (kw_posts w)
    \<and> holds_token env t (m_db (snd (resolve_xai_subscription_token env w)))"
proof -
  let ?run = "resolve_xai_subscription_token env w"
  define w2 where "w2 = w\<lparr>m_faults := [None, Some why]\<rparr>"
  obtain x where x: "open_row (xe_keys env) r = Inr x" "stored_xai_token_schema (safe_json_parse env x) = Some t"
    using assms(4,6) by (auto simp: holds_token_def)
  have row: "credential_row (cd_id r) (m_db w) = Some r" using stored_row[OF assms(1)] newest_in[OF assms(4)] by blast
  have f: "find_credential_by_type ''xai_user_token'' w = (Inr (Some (to_view r)), w\<lparr>m_faults := [None, None, Some why]\<rparr>)"
    by (simp add: find_works[OF assms(3)] assms(4))
  have g: "get_credential_secret (xe_keys env) (cd_id r) (w\<lparr>m_faults := [None, None, Some why]\<rparr>) = (Inr (Some x), w2)"
    by (subst secret_works) (use row x(1) in \<open>auto simp: w2_def\<close>)
  have w2: "m_faults w2 = [None, Some why]" "m_clock w2 = [now]" "m_db w2 = m_db w" "kw_posts w2 = kw_posts w"
    using assms(2) by (simp_all add: w2_def)
  have "newest ''xai_oauth_client'' (m_db w2) = None" "fst (post_form env xai_token_url [400] w2) = Inr (200, j)"
    using assms(5,9) by (simp_all add: w2_def post_form_def)
  from refresh_unstored[OF w2(1,2) this assms(10,11), of "to_view r"] obtain e' w3 where
    u: "refresh_and_store env (to_view r) refresh now w2 = (Inl e', w3)" "m_db w3 = m_db w" "kw_posts w3 = Suc (kw_posts w)"
    unfolding w2 by blast
  let ?mark = "mark_xai_credential_unhealthy env (cd_id r) (failure_code e')"
  have "?run = then_do ?mark (\<lambda>_. ret None) w3"
    using f g x(2) u(1) assms(7,8) quiet_clock[OF w2(2)]
    by (simp add: resolve_xai_subscription_token_def then_do_def to_view_def use_stored_token_def try_catch_def attempt_def)
  moreover have "fst (?mark w3) = Inr ()"
    by (auto simp: mark_xai_credential_unhealthy_def then_do_def clock_def attempt_def ret_def split: list.split prod.split)
  moreover have "token_kept env t (Suc (kw_posts w)) (snd (?mark w3))"
    using keepsD[OF kept_mark, of env t "Suc (kw_posts w)" w3 "cd_id r" "failure_code e'"] u(2,3) assms(6)
    by (metis prod.collapse token_kept_def)
  ultimately show ?thesis by (cases "?mark w3") (simp add: then_do_def ret_def token_kept_def)
qed

section \<open>The device grant\<close>

lemma revoked:
  assumes "revoke_credential i w = (Inr x, w')"
  shows "m_db w' = (m_db w)\<lparr>kd_credentials := filter (\<lambda>r. cd_id r \<noteq> i) (kd_credentials (m_db w))\<rparr>" "credential_row i (m_db w') = None"
proof -
  let ?f = "\<lambda>d. (credential_row i d \<noteq> None, d\<lparr>kd_credentials := filter (\<lambda>r. cd_id r \<noteq> i) (kd_credentials d)\<rparr>)"
  show "m_db w' = (m_db w)\<lparr>kd_credentials := filter (\<lambda>r. cd_id r \<noteq> i) (kd_credentials (m_db w))\<rparr>"
    using assms unfolding revoke_credential_def by (cases rule: db_call_cases[of ?f w]) auto
  then show "credential_row i (m_db w') = None"
    by (auto simp: credential_row_def find_None_iff)
qed

lemma audited: "record_audit a b c w = (Inr x, w') \<Longrightarrow> kd_credentials (m_db w') = kd_credentials (m_db w)"
  unfolding record_audit_def db_write_def
  by (cases rule: db_call_cases[of "\<lambda>d. ((), d\<lparr>xd_audit := xd_audit d @ [\<lparr>au_actor = a, au_action = b, au_result = c\<rparr>]\<rparr>)" w]) auto

lemma audited_row: "record_audit a b c w = (Inr x, w') \<Longrightarrow> credential_row i (m_db w') = credential_row i (m_db w)"
  by (drule audited) (simp add: credential_row_def)

text \<open>What only asks leaves the tables alone.\<close>

definition at_db :: "xai_db \<Rightarrow> xai_db key_world \<Rightarrow> bool" where
  "at_db d w \<longleftrightarrow> m_db w = d"

lemma db_only_at: "db_only (at_db d)"
  by (simp add: db_only_def at_db_def)

lemmas at_reads = keeps_clock_db[OF db_only_at] keeps_read_db[OF db_only_at]

lemma at_asks:
  "keeps (at_db d) (find_credential_by_type ty)" "keeps (at_db d) (get_credential_secret k i)" "keeps (at_db d) (post_form env u a)"
proof -
  show "keeps (at_db d) (find_credential_by_type ty)" unfolding find_credential_by_type_def by (rule at_reads)
  show "keeps (at_db d) (get_credential_secret k i)" unfolding get_credential_secret_def by (intro keep_rules at_reads)
  show "keeps (at_db d) (post_form env u a)" by (rule keepsI) (simp add: at_db_def post_form_def)
qed

lemma at_poll: "keeps (at_db d) (then_do (resolve_xai_client_config env) (\<lambda>c. poll_device_token env c n))"
  unfolding resolve_xai_client_config_def poll_device_token_def by (intro keep_rules at_reads at_asks)

lemma clock_total: "\<exists>t w'. clock w = (Inr t, w')"
  by (auto simp: clock_def split: list.split)

lemma poll_interval:
  assumes "then_do (resolve_xai_client_config env) (\<lambda>c. poll_device_token env c n) w = (Inr q, w')"
  shows "(\<forall>k. q = PollPending k \<longrightarrow> k = n) \<and> (\<forall>k. q = PollSlow k \<longrightarrow> k = n + 5)"
  using assms
  by (auto simp: then_do_Inr poll_device_token_def lift_sum_def interpret_device_token_response_def slow_down_increment_def rmap_def
      rbind_Inr_iff split: if_splits option.splits)

lemma settled:
  assumes "settle_poll env actor i q w = (Inr s, w')"
  shows "(case q of PollPending n \<Rightarrow> s = keep_polling ''pending'' ''Waiting for approval at x.ai'' n \<and> w' = w
            | PollSlow n \<Rightarrow> s = keep_polling ''slow_down'' ''Waiting for approval at x.ai'' n \<and> w' = w
            | _ \<Rightarrow> po_status s \<notin> {''pending'', ''slow_down''} \<and> credential_row i (m_db w') = None)"
  using assms
  by (cases q)
     (auto simp: settle_poll_def revoke_pending_def then_do_Inr ret_def polled_def dest!: revoked(2) dest: audited_row[where i = i])

definition stored_grant :: "xai_env \<Rightarrow> credential \<Rightarrow> device_pending \<Rightarrow> bool" where
  "stored_grant env r p \<longleftrightarrow> (\<exists>x. open_row (xe_keys env) r = Inr x \<and> stored_device_pending_schema (safe_json_parse env x) = Some p)"

lemma polled_once:
  assumes "poll_pending env actor i p w = (Inr s, w')"
  shows "(po_status s = ''pending'' \<longrightarrow> po_interval s = Some (dp_interval p) \<and> m_db w' = m_db w)
    \<and> (po_status s = ''slow_down'' \<longrightarrow> po_interval s = Some (dp_interval p + 5) \<and> m_db w' = m_db w)
    \<and> (po_status s \<notin> {''pending'', ''slow_down''} \<longrightarrow> credential_row i (m_db w') = None)"
proof -
  let ?ask = "then_do (resolve_xai_client_config env) (\<lambda>c. poll_device_token env c (dp_interval p))"
  obtain q w1 where a: "?ask w = (q, w1)" by fastforce
  have d: "m_db w1 = m_db w" using keepsD[OF at_poll _ a, of "m_db w"] by (simp add: at_db_def)
  show ?thesis
  proof (cases q)
    case (Inl e)
    then have "s = keep_polling ''pending'' ''Waiting for approval'' (dp_interval p)" "w' = w1"
      using assms a by (simp_all add: poll_pending_def then_do_def attempt_def ret_def)
    then show ?thesis using d by (simp add: keep_polling_def)
  next
    case (Inr y)
    then have "settle_poll env actor i y w1 = (Inr s, w')" using assms a by (simp add: poll_pending_def then_do_def attempt_def)
    from settled[OF this] poll_interval[OF a[unfolded Inr]] d show ?thesis
      by (cases y) (auto simp: keep_polling_def)
  qed
qed

lemma clock_fixed: "clock w = (Inr t, w') \<Longrightarrow> m_db w' = m_db w \<and> kw_posts w' = kw_posts w \<and> kw_seals w' = kw_seals w"
  by (auto simp: clock_def split: list.splits)

text \<open>A poll by the admin who started the grant: the stored grant is asked about, or the row goes.\<close>

lemma poll_steps:
  assumes "newest ''xai_device_pending'' (m_db w) = Some r" and "distinct (map cd_id (kd_credentials (m_db w)))"
    and "owned_by actor (to_view r)" and "poll_xai_device_auth env (Some actor) w = (Inr s, w')"
  obtains (asked) p w1 where "stored_grant env r p" "m_db w1 = m_db w" "kw_posts w1 = kw_posts w"
    "poll_pending env actor (cd_id r) p w1 = (Inr s, w')"
  | (gone) "po_status s \<in> {''error'', ''expired''}" "credential_row (cd_id r) (m_db w') = None"
proof -
  obtain x w1 where f: "find_credential_by_type ''xai_device_pending'' w = (Inr x, w1)"
    using assms(4) by (auto simp: poll_xai_device_auth_def then_do_Inr)
  have x: "x = Some (to_view r)" and w1: "same_world w w1" using find_newest[OF f] assms(1) by simp_all
  obtain y w2 where g: "get_credential_secret (xe_keys env) (cd_id r) w1 = (Inr y, w2)"
    using assms(3,4) f x by (auto simp: poll_xai_device_auth_def then_do_Inr to_view_def)
  have "credential_row (cd_id r) (m_db w1) = Some r"
    using stored_row[OF assms(2)] newest_in[OF assms(1)] w1 by (auto simp: same_world_def)
  from secret_opens(2)[OF g this] obtain t where t: "y = Some t" "open_row (xe_keys env) r = Inr t" by blast
  have w2: "same_world w w2" using same_trans[OF w1 secret_opens(1)[OF g]] .
  have i: "cv_id (to_view r) = cd_id r" by (simp add: to_view_def)
  show thesis
  proof (cases "stored_device_pending_schema (safe_json_parse env t)")
    case None
    then have "revoke_pending (cd_id r) (polled ''error'' ''Pending connection was unreadable. Start it again.'') w2 = (Inr s, w')"
      using assms(3,4) f x g t(1) i by (simp add: poll_xai_device_auth_def then_do_def)
    then show thesis using gone by (auto simp: revoke_pending_def then_do_Inr ret_def polled_def dest!: revoked(2))
  next
    case (Some p)
    obtain now w3 where c: "clock w2 = (Inr now, w3)" using clock_total by blast
    have p: "stored_grant env r p" using t(2) Some unfolding stored_grant_def by blast
    have rest: "(if (case xe_date env (dp_expires p) of None \<Rightarrow> False | Some e \<Rightarrow> e \<le> now)
        then revoke_pending (cd_id r) (polled ''expired'' ''The code expired before it was approved. Try again.'')
        else poll_pending env actor (cd_id r) p) w3 = (Inr s, w')"
      using assms(3,4) f x g t(1) Some c i by (simp add: poll_xai_device_auth_def then_do_def cong: if_cong)
    show thesis
    proof (cases "case xe_date env (dp_expires p) of None \<Rightarrow> False | Some e \<Rightarrow> e \<le> now")
      case True
      with rest show thesis using gone by (auto simp: revoke_pending_def then_do_Inr ret_def polled_def dest!: revoked(2))
    next
      case False
      then show thesis using asked[OF p, of w3] rest clock_fixed[OF c] w2 by (simp add: same_world_def)
    qed
  qed
qed

text \<open>
C38. A poll of the device grant: by anyone but the admin who started it, nothing is asked and nothing changes; a poll that goes
on (\<open>pending\<close>, \<open>slow_down\<close>) leaves the tables as they are and gives the interval stored at the start, or five seconds more; every
other end deletes the pending row, so that a grant can always be started again.
\<close>

theorem device_poll_contract:
  assumes "newest ''xai_device_pending'' (m_db w) = Some r" and "distinct (map cd_id (kd_credentials (m_db w)))"
    and "poll_xai_device_auth env (Some actor) w = (Inr s, w')"
  shows "(\<not> owned_by actor (to_view r) \<longrightarrow> m_db w' = m_db w \<and> kw_posts w' = kw_posts w \<and> po_status s = ''error'')
    \<and> (owned_by actor (to_view r) \<longrightarrow>
        (po_status s = ''pending'' \<longrightarrow> m_db w' = m_db w \<and> (\<exists>p. stored_grant env r p \<and> po_interval s = Some (dp_interval p)))
        \<and> (po_status s = ''slow_down'' \<longrightarrow> m_db w' = m_db w \<and> (\<exists>p. stored_grant env r p \<and> po_interval s = Some (dp_interval p + 5)))
        \<and> (po_status s \<notin> {''pending'', ''slow_down''} \<longrightarrow> credential_row (cd_id r) (m_db w') = None))"
proof (cases "owned_by actor (to_view r)")
  case False
  obtain x w1 where f: "find_credential_by_type ''xai_device_pending'' w = (Inr x, w1)"
    using assms(3) by (auto simp: poll_xai_device_auth_def then_do_Inr)
  have "x = Some (to_view r)" "same_world w w1" using find_newest[OF f] assms(1) by simp_all
  then show ?thesis using assms(3) f False by (auto simp: poll_xai_device_auth_def then_do_def ret_def polled_def same_world_def)
next
  case True
  from assms(1,2) True assms(3) show ?thesis
  proof (cases rule: poll_steps)
    case (asked p w1)
    from polled_once[OF asked(4)] asked(1,2) True show ?thesis by auto
  qed (use True in auto)
qed

section \<open>From the grant to the worker\<close>

lemma newest_filtered:
  assumes "newest ty d = Some r" and "cd_id r \<noteq> i"
  shows "newest ty (d\<lparr>kd_credentials := filter (\<lambda>r. cd_id r \<noteq> i) (kd_credentials d)\<rparr>) = Some r"
proof -
  let ?P = "\<lambda>r. cd_id r \<noteq> i" and ?T = "\<lambda>r. cd_type r = ty"
  obtain rs where e: "sort_desc cd_created (filter ?T (kd_credentials d)) = r # rs"
    using assms(1) by (auto simp: newest_def split: list.splits)
  have "filter ?T (filter ?P (kd_credentials d)) = filter ?P (filter ?T (kd_credentials d))" by (simp add: conj_commute)
  then have "sort_desc cd_created (filter ?T (filter ?P (kd_credentials d))) = filter ?P (sort_desc cd_created (filter ?T (kd_credentials d)))"
    unfolding sort_desc_def by (simp add: filter_sort)
  then show ?thesis unfolding e using assms(2) by (simp add: newest_def)
qed

lemma holds_filtered:
  assumes "holds_token env t d" and "\<forall>r\<in>set (kd_credentials d). cd_type r = ''xai_user_token'' \<longrightarrow> cd_id r \<noteq> i"
  shows "holds_token env t (d\<lparr>kd_credentials := filter (\<lambda>r. cd_id r \<noteq> i) (kd_credentials d)\<rparr>)"
  using assms newest_filtered[of "''xai_user_token''" d _ i] newest_in[of "''xai_user_token''" d] unfolding holds_token_def by blast

lemma holds_same: "kd_credentials d = kd_credentials d' \<Longrightarrow> holds_token env t d = holds_token env t d'"
  by (simp add: holds_token_def newest_def)

lemma created_row:
  assumes "create_credential k c w = (Inr v, w')"
  obtains s u where "seal_secret (ke_gcm k) (ke_nonce k (kw_seals w)) (cn_secret c) (ke_master k) current_key_version = Inr s"
    "m_db w' = snd (insert_credential k c s u (m_db w))"
proof -
  obtain s w1 where s: "seal k (cn_secret c) w = (Inr s, w1)" using assms by (auto simp: create_credential_def then_do_Inr)
  obtain t w2 where t: "clock w1 = (Inr t, w2)" using assms s by (auto simp: create_credential_def then_do_Inr)
  have w2: "m_db w2 = m_db w" using s t by (auto simp: seal_def clock_def split: list.splits)
  have "db_call (insert_credential k c s t) w2 = (Inr v, w')" using assms s t by (auto simp: create_credential_def then_do_Inr)
  then have "m_db w' = snd (insert_credential k c s t (m_db w2))"
    by (cases rule: db_call_cases[of "insert_credential k c s t" w2]) auto
  with that s w2 show thesis by (auto simp: seal_def)
qed

lemma connection_stored:
  assumes laws: "seals_well env" "text_laws env" and whole: "whole_token t" and i: "i < kd_next (m_db w)"
    and ids: "\<forall>r\<in>set (kd_credentials (m_db w)). cd_type r = ''xai_user_token'' \<longrightarrow> cd_id r \<noteq> i"
    and dist: "distinct (map cd_id (kd_credentials (m_db w)))" "\<forall>r\<in>set (kd_credentials (m_db w)). cd_id r < kd_next (m_db w)"
    and run: "store_connection env actor t w = (Inr (), w')"
  shows "holds_token env t (m_db w') \<and> (\<forall>r\<in>set (kd_credentials (m_db w')). cd_type r = ''xai_user_token'' \<longrightarrow> cd_id r \<noteq> i)
    \<and> distinct (map cd_id (kd_credentials (m_db w')))"
proof -
  obtain u w1 where c: "clock w = (Inr u, w1)" using run by (auto simp: store_connection_def then_do_Inr)
  have w1: "m_db w1 = m_db w" using c by (auto simp: clock_def split: list.splits)
  obtain x w2 where f: "find_credential_by_type ''xai_user_token'' w1 = (Inr x, w2)"
    using run c by (auto simp: store_connection_def then_do_Inr Let_def)
  have w2: "m_db w2 = m_db w" and x: "x = map_option to_view (newest ''xai_user_token'' (m_db w))"
    using find_newest[OF f] w1 by (simp_all add: same_world_def)
  obtain e where e: "to_date env (xt_expires t) = Inr e" using run c f by (auto simp: store_connection_def then_do_Inr Let_def lift_sum_def)
  show ?thesis
  proof (cases "newest ''xai_user_token'' (m_db w)")
    case None
    then obtain cr v where cr: "create_credential (xe_keys env) cr w2 = (Inr v, w')"
      "cn_type cr = ''xai_user_token''" "cn_secret cr = xe_stringify env (token_js t)"
      using run c f x e by (auto simp: store_connection_def then_do_Inr Let_def lift_sum_def ret_def)
    from created_row[OF cr(1)] obtain s u where
      s: "seal_secret (ke_gcm (xe_keys env)) (ke_nonce (xe_keys env) (kw_seals w2)) (xe_stringify env (token_js t)) (ke_master (xe_keys env)) current_key_version = Inr s"
      and d: "m_db w' = snd (insert_credential (xe_keys env) cr s u (m_db w))" unfolding cr(3) w2 .
    obtain row where row: "kd_credentials (m_db w') = kd_credentials (m_db w) @ [row]" "cd_type row = ''xai_user_token''"
      "cd_id row = kd_next (m_db w)" "cd_ciphertext row = se_ciphertext s" "cd_version row = se_version s"
      unfolding d by (simp add: insert_credential_def Let_def cr(2))
    have "sort_desc cd_created (filter (\<lambda>r. cd_type r = ''xai_user_token'') (kd_credentials (m_db w))) = []"
      using None by (simp add: newest_def split: list.splits)
    then have "mset (filter (\<lambda>r. cd_type r = ''xai_user_token'') (kd_credentials (m_db w))) = {#}"
      using mset_sort_desc[of cd_created "filter (\<lambda>r. cd_type r = ''xai_user_token'') (kd_credentials (m_db w))"] by simp
    then have "filter (\<lambda>r. cd_type r = ''xai_user_token'') (kd_credentials (m_db w')) = [row]" using row(1,2) by simp
    then have "newest ''xai_user_token'' (m_db w') = Some row" by (simp add: newest_def sort_desc_def)
    then have "holds_token env t (m_db w')"
      using resealed_opens[OF laws whole s row(4,5)] unfolding holds_token_def by blast
    moreover have "distinct (map cd_id (kd_credentials (m_db w')))" using row(1,3) dist by auto
    ultimately show ?thesis using row i ids by auto
  next
    case (Some r)
    then obtain m y v where up: "update_credential_secret (xe_keys env) (cd_id r) (xe_stringify env (token_js t)) m y w2 = (Inr v, w')"
      using run c f x e by (auto simp: store_connection_def then_do_Inr Let_def lift_sum_def ret_def to_view_def)
    from reseal_stored[OF up] obtain s u where
      s: "seal_secret (ke_gcm (xe_keys env)) (ke_nonce (xe_keys env) (kw_seals w2)) (xe_stringify env (token_js t)) (ke_master (xe_keys env)) current_key_version = Inr s"
      and d: "m_db w' = update_row (cd_id r) (reseal_row (xe_keys env) (xe_stringify env (token_js t)) s m y u) (m_db w)" unfolding w2 .
    let ?h = "reseal_row (xe_keys env) (xe_stringify env (token_js t)) s m y u"
    have "newest ''xai_user_token'' (m_db w') = Some (?h r)"
      unfolding d using Some by (subst newest_update) (simp_all add: reseal_row_def)
    moreover have "\<exists>x. open_row (xe_keys env) (?h r) = Inr x \<and> stored_xai_token_schema (safe_json_parse env x) = Some t"
      by (rule resealed_opens[OF laws whole s]) (simp_all add: reseal_row_def)
    ultimately have "holds_token env t (m_db w')" unfolding holds_token_def by blast
    have "map cd_id (kd_credentials (m_db w')) = map cd_id (kd_credentials (m_db w))"
      unfolding d by (simp add: update_row_def update_same reseal_row_def)
    then have "distinct (map cd_id (kd_credentials (m_db w')))" using dist(1) by simp
    moreover have "\<forall>r\<in>set (kd_credentials (m_db w')). cd_type r = ''xai_user_token'' \<longrightarrow> cd_id r \<noteq> i"
      unfolding d using ids by (auto simp: update_row_def update_where_def reseal_row_def)
    ultimately show ?thesis using \<open>holds_token env t (m_db w')\<close> by blast
  qed
qed

text \<open>What a poll that ends in success did.\<close>

lemma ask_same:
  assumes "then_do (resolve_xai_client_config env) (\<lambda>c. poll_device_token env c n) w = (Inr (PollSuccess t), w')"
  obtains url j status now where "fst (post_form env url [400, 401, 403, 428] w) = Inr (status, j)" "parse_token_response env j now None = Inr t"
    "m_db w' = m_db w"
proof -
  obtain c w1 where c: "resolve_xai_client_config env w = (Inr c, w1)" and p: "poll_device_token env c n w1 = (Inr (PollSuccess t), w')"
    using assms by (auto simp: then_do_Inr)
  obtain status j w2 where q: "post_form env (xc_token_url c) [400, 401, 403, 428] w1 = (Inr (status, j), w2)"
    using p by (auto simp: poll_device_token_def then_do_Inr)
  obtain now where i: "clock w2 = (Inr now, w')" "interpret_device_token_response env status j n now = Inr (PollSuccess t)"
    using p q by (auto simp: poll_device_token_def then_do_Inr lift_sum_def)
  have "parse_token_response env j now None = Inr t"
    using i(2) by (auto simp: interpret_device_token_response_def parse_token_response_def must_def rmap_def rbind_Inr_iff rbind_simps
        split: if_splits option.splits)
  moreover have "fst (post_form env (xc_token_url c) [400, 401, 403, 428] w) = Inr (status, j)"
    using q client_same[OF c] by (simp add: post_form_def same_world_def)
  moreover have "m_db w' = m_db w"
    using client_same[OF c] q clock_fixed[OF i(1)] by (auto simp: post_form_def same_world_def)
  ultimately show thesis using that by blast
qed

lemma poll_success:
  assumes "poll_pending env actor i p w = (Inr s, w')" "po_status s = ''success''"
  obtains t w2 w3 where "then_do (resolve_xai_client_config env) (\<lambda>c. poll_device_token env c (dp_interval p)) w = (Inr (PollSuccess t), w2)"
    "store_connection env actor t w2 = (Inr (), w3)"
    "kd_credentials (m_db w') = filter (\<lambda>q. cd_id q \<noteq> i) (kd_credentials (m_db w3))"
proof -
  let ?ask = "then_do (resolve_xai_client_config env) (\<lambda>c. poll_device_token env c (dp_interval p))"
  obtain q w1 where a: "?ask w = (q, w1)" by fastforce
  obtain y where y: "q = Inr y" "settle_poll env actor i y w1 = (Inr s, w')"
    using assms a by (cases q) (auto simp: poll_pending_def then_do_def attempt_def ret_def keep_polling_def)
  obtain t where t: "y = PollSuccess t"
    using y(2) assms(2) by (cases y) (auto simp: settle_poll_def revoke_pending_def then_do_Inr ret_def polled_def keep_polling_def)
  obtain w3 x w4 x' where "store_connection env actor t w1 = (Inr (), w3)" "revoke_credential i w3 = (Inr x, w4)"
    "record_audit actor ''credential.xai_device_connect'' ''success'' w4 = (Inr x', w')"
    using y(2) t by (auto simp: settle_poll_def then_do_Inr ret_def)
  with revoked(1)[of i w3 x w4] audited[of _ _ _ w4] show thesis
    using that[of t w1 w3] a y(1) t by simp
qed

lemma resolves_subscription:
  assumes "holds_token env t (m_db v)" "distinct (map cd_id (kd_credentials (m_db v)))" "m_faults v = []" "m_clock v = [now]"
    and "\<not> is_token_expiring env t now"
  shows "resolve_xai_subscription_token env v = (Inr (Some (xt_access t)), v)"
proof -
  obtain r x where r: "newest ''xai_user_token'' (m_db v) = Some r" "open_row (xe_keys env) r = Inr x"
    "stored_xai_token_schema (safe_json_parse env x) = Some t" using assms(1) unfolding holds_token_def by blast
  have f: "find_credential_by_type ''xai_user_token'' v = (Inr (Some (to_view r)), v)"
    using r(1) by (auto simp: quiet_find[OF assms(3)] newest_def split: list.splits)
  have "credential_row (cd_id r) (m_db v) = Some r" using stored_row[OF assms(2)] newest_in[OF r(1)] by blast
  then have g: "get_credential_secret (xe_keys env) (cd_id r) v = (Inr (Some x), v)"
    by (simp add: quiet_secret[OF assms(3)] r(2) rmap_simps)
  have "use_stored_token env (to_view r) t v = (Inr (Some (xt_access t)), v)"
    by (simp add: use_stored_token_def then_do_def quiet_clock[OF assms(4)] assms(5) ret_def)
  then show ?thesis using f g r(3)
    by (simp add: resolve_xai_subscription_token_def then_do_def to_view_def)
qed

lemma resolves_held:
  assumes "holds_token env t (m_db v)" "distinct (map cd_id (kd_credentials (m_db v)))" "m_faults v = []" "m_clock v = [now]"
    and "\<not> is_token_expiring env t now"
  shows "resolve_xai_token env k v = (Inr (Some (xt_access t, SubscriptionOauth)), v)"
  by (simp add: resolve_xai_token_def then_do_def resolves_subscription[OF assms] ret_def)


section \<open>A concrete run\<close>

text \<open>A printer of stored tokens and its parser, by length-prefixed fields; the text \<open>P\<close> is a pending grant.\<close>

definition put_field :: "string \<Rightarrow> string" where
  "put_field s = replicate (length s) CHR ''x'' @ CHR ''.'' # s"

definition get_field :: "string \<Rightarrow> string \<times> string" where
  "get_field s = (let n = length (takeWhile (\<lambda>c. c = CHR ''x'') s); r = drop (Suc n) s in (take n r, drop n r))"

fun put_fields :: "string list \<Rightarrow> string" where
  "put_fields [] = []"
| "put_fields (f # fs) = put_field f @ put_fields fs"

fun get_fields :: "nat \<Rightarrow> string \<Rightarrow> string list" where
  "get_fields 0 s = []"
| "get_fields (Suc n) s = (if s = [] then [] else let (f, r) = get_field s in f # get_fields n r)"

lemma get_put: "get_field (put_field s @ r) = (s, r)"
proof -
  have "takeWhile (\<lambda>c. c = CHR ''x'') (replicate n CHR ''x'' @ CHR ''.'' # u) = replicate n CHR ''x''" for n u
    by (induction n) simp_all
  then show ?thesis by (simp add: get_field_def put_field_def Let_def)
qed

lemma get_put_fields: "length fs \<le> n \<Longrightarrow> get_fields n (put_fields fs) = fs"
proof (induction fs arbitrary: n)
  case (Cons f fs)
  moreover have "put_field f @ r \<noteq> []" for r by (simp add: put_field_def)
  ultimately show ?case by (cases n) (simp_all add: get_put del: append_is_Nil_conv)
next
  case Nil
  show ?case by (cases n) simp_all
qed

definition put_js :: "js \<Rightarrow> string" where
  "put_js v = (case (js_prop v ''access_token'', js_prop v ''refresh_token'', js_prop v ''expires_at'', js_prop v ''scopes'') of
     (js.JStr a, r, js.JStr e, js.JArr ss) \<Rightarrow>
        put_fields (a # (case r of js.JStr r \<Rightarrow> CHR ''r'' # r | _ \<Rightarrow> []) # e # map (\<lambda>s. case s of js.JStr s \<Rightarrow> s | _ \<Rightarrow> []) ss)
   | _ \<Rightarrow> ''?'')"

definition get_js :: "string \<Rightarrow> js option" where
  "get_js s = (if s = ''P'' then Some (pending_js \<lparr>dp_code = ''d'', dp_interval = 5, dp_expires = ''later''\<rparr>)
     else case get_fields (length s) s of
       a # r # e # ss \<Rightarrow> Some (token_js \<lparr>xt_access = a, xt_refresh = (if r = [] then None else Some (tl r)), xt_expires = e, xt_scopes = ss\<rparr>)
     | _ \<Rightarrow> None)"

lemma put_fields_length: "length fs \<le> length (put_fields fs)"
  by (induction fs) (simp_all add: put_field_def)

lemma get_put_js: "get_js (put_js (token_js t)) = Some (token_js t)"
proof -
  let ?fs = "xt_access t # (case xt_refresh t of None \<Rightarrow> [] | Some r \<Rightarrow> CHR ''r'' # r) # xt_expires t # xt_scopes t"
  have p: "put_js (token_js t) = put_fields ?fs"
    by (cases "xt_refresh t") (simp_all add: put_js_def token_js_def js_prop_def comp_def)
  have "put_fields ?fs \<noteq> ''P''" by (cases "xt_access t") (simp_all add: put_field_def)
  moreover have "get_fields (length (put_fields ?fs)) (put_fields ?fs) = ?fs" by (rule get_put_fields[OF put_fields_length])
  ultimately show ?thesis unfolding p get_js_def by (cases "xt_refresh t") (simp_all add: token_js_def)
qed

definition demo_answer :: "string \<Rightarrow> js \<Rightarrow> net_env" where
  "demo_answer body j = \<lparr>ne_fetch = (\<lambda>_. Answered \<lparr>hr_status = 200, hr_headers = (\<lambda>_. None), hr_stream = True, hr_body = body\<rparr>),
     ne_parse = (\<lambda>_. Some j), ne_random = (\<lambda>_. 0)\<rparr>"

definition demo_grant :: js where
  "demo_grant = js.JObj [(''access_token'', js.JStr ''new''), (''refresh_token'', js.JStr ''r2'')]"

definition demo_xai :: xai_env where
  "demo_xai = \<lparr>xe_keys = demo_key_env, xe_net = (\<lambda>_. demo_answer ''{}'' demo_grant), xe_parse = get_js, xe_stringify = put_js,
     xe_date = (\<lambda>s. if s = ''later'' then Some 10000000 else None), xe_iso = (\<lambda>_. ''later''), xe_url = (\<lambda>_. True)\<rparr>"

lemma demo_laws: "seals_well demo_xai" "text_laws demo_xai"
  by (simp_all add: seals_well_def text_laws_def demo_xai_def demo_key_env_def gcm_laws_def get_put_js)

definition demo_old :: xai_token where
  "demo_old = \<lparr>xt_access = ''old'', xt_refresh = Some ''r1'', xt_expires = ''later'', xt_scopes = []\<rparr>"

definition demo_secret_row :: "nat \<Rightarrow> string \<Rightarrow> string \<Rightarrow> credential" where
  "demo_secret_row i ty x = (demo_credential i x)\<lparr>cd_type := ty, cd_metadata := Some [(''userId'', js.JStr ''admin'')]\<rparr>"

definition demo_xai_world :: "credential list \<Rightarrow> int \<Rightarrow> string option list \<Rightarrow> xai_db key_world" where
  "demo_xai_world rs t fs = \<lparr>m_db = \<lparr>kd_credentials = rs, kd_settings = (\<lambda>_. None), kd_next = 9, xd_projects = [], xd_signals = [],
     xd_runs = [], xd_audit = []\<rparr>, m_clock = [t], m_faults = fs, kw_seals = 0, kw_posts = 0, kw_jwts = (\<lambda>_. None)\<rparr>"

lemma demo_row_opens: "open_row (xe_keys demo_xai) (demo_secret_row i ty x) = Inr x"
  using demo_open[of i x] by (simp add: demo_secret_row_def open_row_def demo_xai_def)

definition demo_user :: credential where
  "demo_user = demo_secret_row 3 ''xai_user_token'' (put_js (token_js demo_old))"

lemma demo_user_held:
  "newest ''xai_user_token'' (m_db (demo_xai_world [demo_user] t fs)) = Some demo_user"
  "newest ''xai_oauth_client'' (m_db (demo_xai_world [demo_user] t fs)) = None"
  "holds_token demo_xai demo_old (m_db (demo_xai_world [demo_user] t fs))"
proof -
  show u: "newest ''xai_user_token'' (m_db (demo_xai_world [demo_user] t fs)) = Some demo_user"
    "newest ''xai_oauth_client'' (m_db (demo_xai_world [demo_user] t fs)) = None"
    by (simp_all add: newest_def demo_xai_world_def demo_user_def demo_secret_row_def sort_desc_def)
  have "stored_xai_token_schema (token_js demo_old) = Some demo_old" by (rule token_read_back) (simp add: whole_token_def demo_old_def)
  then show "holds_token demo_xai demo_old (m_db (demo_xai_world [demo_user] t fs))"
    unfolding holds_token_def using u(1) demo_row_opens[of 3 "''xai_user_token''" "put_js (token_js demo_old)"]
    by (auto simp: demo_user_def safe_json_parse_def or_else_def demo_xai_def get_put_js)
qed


definition demo_new :: xai_token where
  "demo_new = \<lparr>xt_access = ''new'', xt_refresh = Some ''r2'', xt_expires = ''later'', xt_scopes = []\<rparr>"

lemma demo_post: "200 \<notin> set a \<Longrightarrow> fst (post_form demo_xai u a w) = Inr (200, demo_grant)"
  by (simp add: post_form_def demo_xai_def demo_answer_def fetch_json_def fetch_loop.simps round_outcome_def http_attempt_def Let_def
      read_bounded_def parse_body_def rmap_simps store_etag_def headers_to_record_def)

lemma demo_parsed: "parse_token_response demo_xai demo_grant 9000000 p = Inr demo_new"
  by code_simp

theorem rotation_lost_when_update_fails_witness:
  "fst (resolve_xai_subscription_token demo_xai (demo_xai_world [demo_user] 9000000 [None, None, None, Some ''down''])) = Inr None
   \<and> holds_token demo_xai demo_old (m_db (snd (resolve_xai_subscription_token demo_xai
        (demo_xai_world [demo_user] 9000000 [None, None, None, Some ''down'']))))"
proof -
  let ?w = "demo_xai_world [demo_user] 9000000 [None, None, None, Some ''down'']"
  have d: "distinct (map cd_id (kd_credentials (m_db ?w)))" "m_clock ?w = [9000000]" "m_faults ?w = [None, None, None, Some ''down'']"
    by (simp_all add: demo_xai_world_def)
  have "is_token_expiring demo_xai demo_old 9000000" "xt_refresh demo_old = Some ''r1''" "to_date demo_xai (xt_expires demo_new) = Inr 10000000"
    by (simp_all add: is_token_expiring_def demo_xai_def demo_old_def demo_new_def xai_refresh_skew_ms_def to_date_def)
  moreover have "fst (post_form demo_xai xai_token_url [400] ?w) = Inr (200, demo_grant)" by (rule demo_post) simp
  ultimately show ?thesis
    using rotation_lost_when_update_fails[OF d demo_user_held(1,2,3), where t' = demo_new and e = 10000000 and j = demo_grant and refresh = "''r1''"]
      demo_parsed by simp
qed

definition demo_pending :: credential where
  "demo_pending = demo_secret_row 4 ''xai_device_pending'' ''P''"

text \<open>The poll of the connected admin, and of another.\<close>

lemma demo_pending_world:
  "newest ''xai_device_pending'' (m_db (demo_xai_world [demo_pending] t fs)) = Some demo_pending"
  "newest ''xai_user_token'' (m_db (demo_xai_world [demo_pending] t fs)) = None"
  "newest ''xai_oauth_client'' (m_db (demo_xai_world [demo_pending] t fs)) = None"
  "credential_row 4 (m_db (demo_xai_world [demo_pending] t fs)) = Some demo_pending" "cd_id demo_pending = 4"
  "cv_id (to_view demo_pending) = 4" "cv_metadata (to_view demo_pending) = Some [(''userId'', js.JStr ''admin'')]"
  by (simp_all add: newest_def demo_xai_world_def demo_pending_def demo_secret_row_def demo_credential_def sort_desc_def credential_row_def to_view_def)

lemma quiet_found: "m_faults w = [] \<Longrightarrow> find_credential_by_type ty w = (Inr (map_option to_view (newest ty (m_db w))), w)"
  by (simp add: quiet_find newest_def split: list.split)

lemma demo_polls:
  "poll_xai_device_auth demo_xai (Some ''guest'') (demo_xai_world [demo_pending] 0 []) =
     (Inr (polled ''error'' ''This connection was started by another admin.''), demo_xai_world [demo_pending] 0 [])"
proof -
  let ?w = "demo_xai_world [demo_pending] 0 []"
  have "find_credential_by_type ''xai_device_pending'' ?w = (Inr (Some (to_view demo_pending)), ?w)"
  proof -
    have "m_faults ?w = []" by (simp add: demo_xai_world_def)
    from quiet_found[OF this] show ?thesis by (simp add: demo_pending_world(1))
  qed
  moreover have "\<not> owned_by ''guest'' (to_view demo_pending)" by (simp add: owned_by_def demo_pending_world or_else_def js_prop_def)
  ultimately show ?thesis by (simp add: poll_xai_device_auth_def then_do_def ret_def)
qed

theorem device_poll_contract_witness:
  "\<exists>s w'. poll_xai_device_auth demo_xai (Some ''guest'') (demo_xai_world [demo_pending] 0 []) = (Inr s, w')
     \<and> m_db w' = m_db (demo_xai_world [demo_pending] 0 []) \<and> po_status s = ''error''"
proof -
  have "\<not> owned_by ''guest'' (to_view demo_pending)" by (simp add: owned_by_def demo_pending_world or_else_def js_prop_def)
  moreover have "distinct (map cd_id (kd_credentials (m_db (demo_xai_world [demo_pending] 0 []))))" by (simp add: demo_xai_world_def)
  ultimately show ?thesis using device_poll_contract[OF demo_pending_world(1) _ demo_polls] demo_polls by blast
qed

lemma demo_connects:
  obtains w' where "poll_xai_device_auth demo_xai (Some ''admin'') (demo_xai_world [demo_pending] 0 [])
     = (Inr (polled ''success'' ''Connected. The next scan will use your subscription.''), w')"
proof -
  let ?w = "demo_xai_world [demo_pending] 0 []"
  let ?p = "\<lparr>dp_code = ''d'', dp_interval = 5, dp_expires = ''later''\<rparr>"
  define w1 where "w1 = ?w\<lparr>kw_posts := 1\<rparr>"
  have q: "m_faults ?w = []" "m_clock ?w = [0]" "m_faults w1 = []" "m_clock w1 = [0]" "m_db w1 = m_db ?w" by (simp_all add: demo_xai_world_def w1_def)
  have f: "find_credential_by_type ''xai_device_pending'' ?w = (Inr (Some (to_view demo_pending)), ?w)"
    by (subst quiet_found[OF q(1)]) (simp add: demo_pending_world(1))
  have own: "owned_by ''admin'' (to_view demo_pending)" by (simp add: owned_by_def demo_pending_world or_else_def js_prop_def)
  have pend: "open_row (xe_keys demo_xai) demo_pending = Inr ''P''" unfolding demo_pending_def by (rule demo_row_opens)
  have g: "get_credential_secret (xe_keys demo_xai) 4 ?w = (Inr (Some ''P''), ?w)"
    by (simp add: quiet_secret[OF q(1)] demo_pending_world(4) pend rmap_simps)
  have p: "stored_device_pending_schema (safe_json_parse demo_xai ''P'') = Some ?p" by code_simp
  have due: "xe_date demo_xai ''later'' = Some 10000000" by (simp add: demo_xai_def)
  have c: "resolve_xai_client_config demo_xai ?w = (Inr (resolve_xai_client None), ?w)"
    by (simp add: resolve_xai_client_config_def then_do_def quiet_found[OF q(1)] demo_pending_world(3) ret_def)
  have post: "post_form demo_xai u [400, 401, 403, 428] ?w = (Inr (200, demo_grant), w1)" for u
    using demo_post[of "[400, 401, 403, 428]" u ?w] by (simp add: prod_eq_iff post_form_def w1_def demo_xai_world_def)
  have i: "interpret_device_token_response demo_xai 200 demo_grant 5 0 = Inr (PollSuccess demo_new)" by code_simp
  have ask: "poll_device_token demo_xai (resolve_xai_client None) 5 ?w = (Inr (PollSuccess demo_new), w1)"
    by (simp add: poll_device_token_def then_do_def post quiet_clock[OF q(4)] i lift_sum_def)
  obtain s where s: "seal_secret (ke_gcm (xe_keys demo_xai)) n x (ke_master (xe_keys demo_xai)) current_key_version = Inr (s n x)" for n x
    by (simp add: seal_secret_def demo_xai_def demo_key_env_def derive_key_def rbind_simps)
  define w2 where "w2 = w1\<lparr>kw_seals := Suc (kw_seals w1)\<rparr>"
  have q2: "m_faults w2 = []" "m_clock w2 = [0]" by (simp_all add: w2_def q)
  have seal: "seal (xe_keys demo_xai) x w1 = (Inr (s (ke_nonce (xe_keys demo_xai) (kw_seals w1)) x), w2)" for x
    by (simp add: seal_def s w2_def)
  have "\<exists>v w3. create_credential (xe_keys demo_xai) cr w1 = (Inr v, w3) \<and> m_faults w3 = []" for cr
    by (simp add: create_credential_def then_do_def seal quiet_clock[OF q2(2)] quiet_call[OF q2(1)] q2)
  then obtain v u where cr: "create_credential (xe_keys demo_xai) cr w1 = (Inr (v cr), u cr)" "m_faults (u cr) = []" for cr by metis
  have "\<exists>w3. store_connection demo_xai ''admin'' demo_new w1 = (Inr (), w3) \<and> m_faults w3 = []"
    by (simp add: cr store_connection_def then_do_def quiet_clock[OF q(4)] quiet_found[OF q(3)] q(5) demo_pending_world(2) lift_sum_def
        to_date_def due demo_new_def ret_def Let_def)
  then obtain w3 where st: "store_connection demo_xai ''admin'' demo_new w1 = (Inr (), w3)" "m_faults w3 = []" by blast
  have "\<exists>x w4. revoke_credential 4 w3 = (Inr x, w4) \<and> m_faults w4 = []"
    by (simp add: revoke_credential_def quiet_call[OF st(2)] st(2))
  then obtain x w4 where rv: "revoke_credential 4 w3 = (Inr x, w4)" "m_faults w4 = []" by blast
  obtain w5 where au: "record_audit ''admin'' ''credential.xai_device_connect'' ''success'' w4 = (Inr (), w5)"
    by (simp add: record_audit_def db_write_def quiet_call[OF rv(2)])
  have "settle_poll demo_xai ''admin'' 4 (PollSuccess demo_new) w1 =
      (Inr (polled ''success'' ''Connected. The next scan will use your subscription.''), w5)"
    by (simp add: settle_poll_def then_do_def st(1) rv(1) au ret_def)
  then have "poll_pending demo_xai ''admin'' 4 ?p ?w = (Inr (polled ''success'' ''Connected. The next scan will use your subscription.''), w5)"
    by (simp add: poll_pending_def then_do_def c ask attempt_def)
  then have "poll_xai_device_auth demo_xai (Some ''admin'') ?w = (Inr (polled ''success'' ''Connected. The next scan will use your subscription.''), w5)"
    by (simp add: poll_xai_device_auth_def then_do_def f own g p due quiet_clock[OF q(2)] demo_pending_world(6))
  then show thesis by (rule that)
qed

lemma demo_granted: "parse_token_response demo_xai demo_grant now None = Inr t \<Longrightarrow> t = demo_new"
proof -
  assume "parse_token_response demo_xai demo_grant now None = Inr t"
  moreover have "xai_token_response_schema demo_grant = Some \<lparr>tr_access = ''new'', tr_expires_in = None, tr_refresh = Some ''r2'', tr_scope = None\<rparr>"
    by code_simp
  moreover have "xe_iso demo_xai n = ''later''" for n by (simp add: demo_xai_def)
  ultimately show ?thesis
    by (auto simp: parse_token_response_def must_def token_of_response_def to_iso_def rbind_Inr_iff demo_new_def split: if_splits)
qed


end
