(* ===== verification/Spec2Isabelle.thy ===== *)
theory Spec2Isabelle
  imports PresignPass Outbox ChainSync AutoMint XaiFlow
begin

text \<open>
  A verification development of the mint tracker: a web application that follows NFT drops and a worker
  that mints them on a schedule, over one Postgres database.

  \<^bold>\<open>The program.\<close> Providers and the chain fill the projects, stages and events
  (\<open>apps/worker/src/workers\<close>); \<open>packages/core/src\<close> decides on them without effects (which stage is
  open, may a plan fire, is a wallet funded); an operator arms mint plans; every few seconds the worker
  claims a due plan, decides, signs through the vault key or hands the transaction to an executor
  contract, and records what happened (\<open>workers/execution.ts\<close>); alerts leave through an outbox table that
  a dispatcher drains into channels (\<open>packages/notifications/src\<close>). The web side guards every change by a
  session, a role and, for dangerous ones, a fresh passkey ceremony (\<open>packages/auth/src\<close>).

  \<^bold>\<open>The theories, in import order.\<close>
  \<^item> \<open>JsNumber\<close>: JavaScript doubles where the code computes with fractions: rounding to 53 bits, truncation.
  \<^item> \<open>Prelude\<close>: results (\<open>Inl\<close> the error thrown), \<open>Date\<close> values, strings, decimal printing, ordered
    insertion, association lists; the theorem collections the components share.
  \<^item> \<open>Errors\<close>: \<open>core/errors.ts\<close>, the typed errors; \<open>StateError\<close>: the state and error monad the stateful functions
    are written in, its two program logics (\<open>acts\<close>: what a function may do step by step, \<open>keeps\<close>: an
    invariant of the state), and the machine under every worker: tables, clock, and a supply of faults.
    Every database call of the code reads one element of that supply and throws when it says so, so a
    property of a worker holds wherever a database call may fail.
  \<^item> \<open>Stages\<close>: \<open>core/stages.ts\<close>, \<open>status.ts\<close>, \<open>schedule.ts\<close>, \<open>stage-alerts.ts\<close>, \<open>time.ts\<close>: windows, lifecycle status,
    the stage that matters, when eligibility is checked again.
  \<^item> \<open>FirePolicy\<close>: \<open>core/execution.ts\<close>, \<open>clock-offset.ts\<close>, \<open>fire-schedule.ts\<close>, \<open>presign.ts\<close>. \<open>Funding\<close>: \<open>core/wei.ts\<close>,
    \<open>funding.ts\<close>.
  \<^item> \<open>MintPlans\<close>: the execution tables and every query of \<open>db/repositories/execution.ts\<close>, their abstract
    status graph and the simulation.
  \<^item> \<open>MintReads\<close>: receipts, endpoint failover, pre-checks, the self-served public mint. \<open>Pipeline\<close>:
    \<open>packages/execution\<close> and \<open>packages/signing\<close>. \<open>Nonce\<close>: \<open>nonce-allocator.ts\<close>, with the interface of an
    exclusive source of numbers as a locale, interpreted on the allocator of one wallet.
  \<^item> \<open>Effects\<close>: the world of a pass: the machine over the execution tables, the nonce maps, and two traces the
    code does not have (what was signed, what was sent). \<open>ManagedFire\<close>, \<open>FirePass\<close>, \<open>PresignPass\<close>: the three
    loops of \<open>workers/execution.ts\<close>, statement by statement.
  \<^item> \<open>Auth\<close>: lockout, roles, guards, first admin. \<open>Secrets\<close>: seals, envelopes, redaction.
  \<^item> \<open>Notify\<close>: alert keys, the webhook guard, rendering. \<open>Outbox\<close>: the outbox table, the channel
    adapters, the dispatcher.
  \<^item> \<open>ChainRadar\<close>: paging through the chain's logs. \<open>ChainSync\<close>: \<open>workers/chain.ts\<close> and the event tables.

  \<^bold>\<open>What corresponds to what.\<close> A table is the list of its rows (or a map from its unique key); a query is a
  function from tables to a result and new tables, atomic as its statement or transaction is. A
  timestamp is its milliseconds, a \<open>bigint\<close> an \<open>int\<close>, \<open>undefined\<close> and SQL NULL are \<open>None\<close>, a thrown error is \<open>Inl\<close>.
  What the code calls but does not contain (viem, the RPC endpoints, OpenSea, AES-GCM, HKDF, DNS,
  \<open>Intl\<close>) is a function of the environment records, arbitrary in every property; the few laws that are needed
  of it stand in the statements (opening a sealed text gives it back).

  \<^bold>\<open>What the lemmas show.\<close> Each theory has the behaviour of its operations on every branch, then the invariants
  they keep; \<open>MintPlans\<close> refines the status graph of a plan; the worker theories lift statements about
  the steps to whole passes through \<open>acts\<close> and \<open>keeps\<close>; \<open>Outbox\<close> and \<open>MintPlans\<close> have step relations whose
  reachable states are proved by rule induction. The properties are the theorems after a text block that
  begins with a claim number; witnesses run a concrete world through the same definitions.

  \<^bold>\<open>Bounds.\<close> Loops with a bound in the code (12 attempts for a log window, 8 concurrent passes, 6 delivery
  attempts, the receipt polls) recurse on it. The log pager recurses on the number of blocks left: each window
  moves the cursor forward, so the span of at most 1000 blocks is enough, which \<open>sync_pass_exact\<close> proves.

  \<^bold>\<open>Not modelled.\<close> React pages, HTTP routes and server actions (they render or forward to what is modelled),
  the provider clients and their schemas, pg-boss queues, logs and metrics, operator scripts and the Solidity
  contract. Planned: the auto-mint planner, wallet eligibility, quotas, the scheduler, discovery and
  the projects repository, the endpoint registry. The allocator's module-level maps live in one process, as the
  code has them; interleavings of passes are modelled where the code has them (claims,
  reservations, the hot loop), a single pass runs its awaits in source order.
\<close>

end
